(* ===== verification/Prelude.thy ===== *)
theory Prelude
  imports Complex_Main "HOL-Library.Word" "HOL-Library.Monad_Syntax"
begin

text \<open>
  Shared vocabulary of the development.  Bytes are 8-bit words and a Go byte slice is the list of
  the bytes it shows (\<open>b[i:j]\<close> of length \<open>len(b)\<close>).  A Go run-time panic (index or slice bounds out
  of range, integer division by zero, failed type assertion) is the value \<open>None\<close>.  Go's 64-bit
  \<open>int\<close>, \<open>int64\<close> and \<open>time.Duration\<close> are HOL integers; \<open>wrap64\<close> is the two's complement reduction
  that the hardware applies, written out wherever the code converts or where an operation can leave
  the range.  The theory also holds the big-endian codec behind \<open>encoding/binary.BigEndian\<close> and the
  list lemmas the components share.
\<close>

named_theorems codec_simps \<open>length and round trip of the byte codecs\<close>
named_theorems slice_simps \<open>slices of written buffers\<close>

type_synonym byte = "8 word"
type_synonym bytes = "byte list"
type_synonym u64 = "64 word"
type_synonym 'a go = "'a option"

section \<open>Signed 64-bit integers\<close>

definition wrap64 :: "int \<Rightarrow> int" where
  "wrap64 x = (x + 2 ^ 63) mod 2 ^ 64 - 2 ^ 63"

definition in64 :: "int \<Rightarrow> bool" where
  "in64 x \<longleftrightarrow> - (2 ^ 63) \<le> x \<and> x < 2 ^ 63"

definition sat64 :: "int \<Rightarrow> int" where
  "sat64 x = max (- (2 ^ 63)) (min (2 ^ 63 - 1) x)"

text \<open>Integer division of Go truncates toward zero; a zero divisor panics.\<close>

definition tdiv :: "int \<Rightarrow> int \<Rightarrow> int" where
  "tdiv a b = sgn a * sgn b * (\<bar>a\<bar> div \<bar>b\<bar>)"

definition trem :: "int \<Rightarrow> int \<Rightarrow> int" where
  "trem a b = a - b * tdiv a b"

definition go_div :: "int \<Rightarrow> int \<Rightarrow> int go" where
  "go_div a b = (if b = 0 then None else Some (wrap64 (tdiv a b)))"

lemma wrap64_id [simp]: "in64 x \<Longrightarrow> wrap64 x = x"
  by (simp add: wrap64_def in64_def)

lemma in64_wrap64 [simp]: "in64 (wrap64 x)"
  by (simp add: wrap64_def in64_def pos_mod_bound)

lemma sat64_id [simp]: "in64 x \<Longrightarrow> sat64 x = x"
  by (auto simp: sat64_def in64_def)

lemma in64_sat64 [simp]: "in64 (sat64 x)"
  by (auto simp: sat64_def in64_def)

lemma tdiv_nonneg: "0 \<le> a \<Longrightarrow> 0 \<le> b \<Longrightarrow> tdiv a b = a div b"
  by (cases "a = 0"; cases "b = 0") (auto simp: tdiv_def)

lemma tdiv_mult: "b \<noteq> 0 \<Longrightarrow> tdiv (k * b) b = k"
proof -
  assume b: "b \<noteq> 0"
  have "\<bar>k * b\<bar> div \<bar>b\<bar> = \<bar>k\<bar>" using b by (simp add: abs_mult)
  then have "tdiv (k * b) b = sgn k * (sgn b * sgn b) * \<bar>k\<bar>"
    by (simp add: tdiv_def sgn_mult mult.commute mult.left_commute)
  also have "\<dots> = k" using b by (simp add: mult.commute [of _ "\<bar>k\<bar>"] abs_mult_sgn)
  finally show ?thesis .
qed

lemma tdiv_mult2: "b \<noteq> 0 \<Longrightarrow> tdiv (b * k) b = k"
  using tdiv_mult [of b k] by (simp add: mult.commute)

lemma tdiv_neg: "tdiv (- a) b = - tdiv a b"
  by (simp add: tdiv_def)

lemma tdiv_nonpos: "a \<le> 0 \<Longrightarrow> 0 \<le> b \<Longrightarrow> tdiv a b \<le> 0"
  using tdiv_nonneg [of "- a" b] tdiv_neg [of "- a" b]
  by (cases "b = 0") (auto simp: pos_imp_zdiv_nonneg_iff tdiv_def [of a 0])

lemma tdiv_abs_le: "\<bar>tdiv a b\<bar> \<le> \<bar>a\<bar>"
proof (cases "b = 0")
  case False
  have "\<bar>a\<bar> div \<bar>b\<bar> \<le> \<bar>a\<bar>" using False zdiv_mono2 [of "\<bar>a\<bar>" 1 "\<bar>b\<bar>"] by simp
  moreover have "0 \<le> \<bar>a\<bar> div \<bar>b\<bar>" using False by (simp add: pos_imp_zdiv_nonneg_iff)
  ultimately show ?thesis by (auto simp: tdiv_def abs_mult abs_sgn_eq)
qed (simp add: tdiv_def)

section \<open>Big-endian numbers\<close>

primrec be :: "nat \<Rightarrow> nat \<Rightarrow> bytes" where
  "be 0 v = []"
| "be (Suc n) v = be n (v div 256) @ [of_nat v]"

definition unbe :: "bytes \<Rightarrow> nat" where
  "unbe bs = foldl (\<lambda>a b. a * 256 + unat b) 0 bs"

lemma length_be [simp, codec_simps]: "length (be n v) = n"
  by (induction n arbitrary: v) auto

lemma unbe_Nil [simp]: "unbe [] = 0"
  by (simp add: unbe_def)

lemma unbe_snoc [simp]: "unbe (bs @ [b]) = unbe bs * 256 + unat b"
  by (simp add: unbe_def)

lemma unat_byte_less: "unat (b :: byte) < 256"
  using unsigned_less [where 'b = 8 and 'a = nat, of b] by simp

lemma unat_u64_less: "unat (v :: u64) < 2 ^ 64"
  using unsigned_less [where 'b = 64 and 'a = nat, of v] by simp

lemma unat_byte_of_nat: "unat (of_nat v :: byte) = v mod 256"
  by (simp add: unat_of_nat)

lemma unbe_be [codec_simps]: "unbe (be n v) = v mod 256 ^ n"
proof (induction n arbitrary: v)
  case (Suc n)
  have "unbe (be (Suc n) v) = (v div 256 mod 256 ^ n) * 256 + v mod 256"
    by (simp add: Suc.IH unat_byte_of_nat)
  also have "\<dots> = v mod 256 ^ Suc n"
    by (simp add: mod_mult2_eq mult.commute)
  finally show ?case .
qed simp

lemma unbe_less: "unbe bs < 256 ^ length bs"
proof (induction bs rule: rev_induct)
  case (snoc b bs)
  have "unat b < 256" by (rule unat_byte_less)
  then have "unbe (bs @ [b]) < (unbe bs + 1) * 256" by simp
  also have "\<dots> \<le> 256 ^ length bs * 256" using snoc by (intro mult_right_mono) auto
  finally show ?case by (simp add: mult.commute)
qed simp

lemma be_unbe [codec_simps]: "length bs = n \<Longrightarrow> be n (unbe bs) = bs"
proof (induction bs arbitrary: n rule: rev_induct)
  case (snoc b bs)
  then obtain m where n: "n = Suc m" and m: "length bs = m" by auto
  have b: "unat b < 256" by (rule unat_byte_less)
  have "(unbe bs * 256 + unat b) div 256 = unbe bs" using b by simp
  moreover have "(of_nat (unbe bs * 256 + unat b) :: byte) = b"
  proof -
    have "(of_nat (unbe bs * 256 + unat b) :: byte) = of_nat (unbe bs) * 256 + b" by simp
    also have "(256 :: byte) = 0" by simp
    finally show ?thesis by simp
  qed
  ultimately show ?case using snoc.IH [OF m] n by (simp del: of_nat_add of_nat_mult)
qed simp

definition Uint16 :: "bytes \<Rightarrow> nat go" where
  "Uint16 b = (if length b < 2 then None else Some (unbe (take 2 b)))"

definition Uint32 :: "bytes \<Rightarrow> nat go" where
  "Uint32 b = (if length b < 4 then None else Some (unbe (take 4 b)))"

definition Uint64 :: "bytes \<Rightarrow> u64 go" where
  "Uint64 b = (if length b < 8 then None else Some (of_nat (unbe (take 8 b))))"

definition PutUint16 :: "bytes \<Rightarrow> nat \<Rightarrow> bytes go" where
  "PutUint16 b v = (if length b < 2 then None else Some (be 2 v @ drop 2 b))"

definition PutUint32 :: "bytes \<Rightarrow> nat \<Rightarrow> bytes go" where
  "PutUint32 b v = (if length b < 4 then None else Some (be 4 v @ drop 4 b))"

definition PutUint64 :: "bytes \<Rightarrow> u64 \<Rightarrow> bytes go" where
  "PutUint64 b v = (if length b < 8 then None else Some (be 8 (unat v) @ drop 8 b))"

lemma unbe_be8 [codec_simps, simp]: "unbe (be 8 (unat (v :: u64))) = unat v"
  using unat_u64_less [of v] by (simp add: unbe_be)

lemma Uint64_be [codec_simps, simp]: "Uint64 (be 8 (unat v) @ r) = Some v"
  by (simp add: Uint64_def)

lemma Uint64_PutUint64 [codec_simps]: "PutUint64 b v = Some b' \<Longrightarrow> Uint64 b' = Some v"
  by (auto simp: PutUint64_def split: if_splits)

section \<open>Slices\<close>

text \<open>\<open>b[i:]\<close> and \<open>b[:i]\<close>: out of range panics.\<close>

definition slice_from :: "int \<Rightarrow> bytes \<Rightarrow> bytes go" where
  "slice_from i b = (if 0 \<le> i \<and> i \<le> int (length b) then Some (drop (nat i) b) else None)"

definition slice_to :: "int \<Rightarrow> bytes \<Rightarrow> bytes go" where
  "slice_to i b = (if 0 \<le> i \<and> i \<le> int (length b) then Some (take (nat i) b) else None)"

text \<open>
  \<open>f(b[i:])\<close> where \<open>f\<close> writes into the slice it is given: the part of \<open>b\<close> before \<open>i\<close> is untouched.
\<close>

definition at_suffix :: "int \<Rightarrow> (bytes \<Rightarrow> (bytes \<times> 'r) go) \<Rightarrow> bytes \<Rightarrow> (bytes \<times> 'r) go" where
  "at_suffix i f b =
     (if 0 \<le> i \<and> i \<le> int (length b)
      then map_option (\<lambda>(s, r). (take (nat i) b @ s, r)) (f (drop (nat i) b))
      else None)"

text \<open>\<open>copy(dst, src)\<close> copies \<open>min (len dst) (len src)\<close> bytes.\<close>

definition go_copy :: "bytes \<Rightarrow> bytes \<Rightarrow> bytes" where
  "go_copy dst src = take (length dst) src @ drop (length src) dst"

lemma length_go_copy [simp]: "length (go_copy dst src) = length dst"
  by (simp add: go_copy_def)

lemma go_copy_fits: "length src \<le> length dst \<Longrightarrow> go_copy dst src = src @ drop (length src) dst"
  by (simp add: go_copy_def)

lemma slice_from_nat [simp]: "slice_from (int n) b = (if n \<le> length b then Some (drop n b) else None)"
  by (simp add: slice_from_def)

lemma take_append_id [slice_simps]: "length a = n \<Longrightarrow> take n (a @ b) = a"
  by simp

lemma drop_append_id [slice_simps]: "length a = n \<Longrightarrow> drop n (a @ b) = b"
  by simp

lemma bind_Some_iff: "(m \<bind> f = Some y) \<longleftrightarrow> (\<exists>x. m = Some x \<and> f x = Some y)"
  by (cases m) auto

end
