(* ===== verification/Float64.thy ===== *)
theory Float64
  imports Prelude
begin

text \<open>
  Go's \<open>float64\<close>: IEEE 754 binary64 with round to nearest, ties to even.  A value is carried as its
  64 bits, so that \<open>math.Float64bits\<close> and \<open>math.Float64frombits\<close> are the identity and storing a value
  in a byte slice loses nothing.  The magnitude bits of a finite value are a number \<open>k\<close> below
  \<open>inf_mag\<close>; its value is \<open>mant k * 2 ^ ex k\<close> in units of \<open>2 ^ -1074\<close>, and the order of the
  magnitudes is the order of the values.  An operation computes the exact result as a fraction and
  rounds it with \<open>round_mag\<close>.  The payload of a NaN that an operation creates is not specified by
  Go; the model uses the one of \<open>math.NaN()\<close>.

  The lemmas show that rounding is exact on representable numbers, that addition is commutative and
  that zero is neutral for it, that integers up to \<open>2 ^ 53\<close> are added exactly, and that the floor
  and the ceiling of a float quotient of such integers are the integer ones, which is what
  \<open>encoding/time.go\<close> relies on.
\<close>

section \<open>Representation\<close>

type_synonym float64 = u64

definition inf_mag :: int where "inf_mag = 2047 * 2 ^ 52"

definition mag :: "float64 \<Rightarrow> int" where "mag w = uint w mod 2 ^ 63"

definition neg :: "float64 \<Rightarrow> bool" where "neg w \<longleftrightarrow> 2 ^ 63 \<le> uint w"

definition mk_float :: "bool \<Rightarrow> int \<Rightarrow> float64" where
  "mk_float s k = word_of_int ((if s then 2 ^ 63 else 0) + k)"

definition isNaN :: "float64 \<Rightarrow> bool" where "isNaN w \<longleftrightarrow> inf_mag < mag w"
definition isInf :: "float64 \<Rightarrow> bool" where "isInf w \<longleftrightarrow> mag w = inf_mag"
definition isFinite :: "float64 \<Rightarrow> bool" where "isFinite w \<longleftrightarrow> mag w < inf_mag"

definition NaN :: float64 where "NaN = 0x7FF8000000000001"
definition fzero :: float64 where "fzero = 0"
definition MaxFloat64 :: float64 where "MaxFloat64 = 0x7FEFFFFFFFFFFFFF"

definition mant :: "int \<Rightarrow> int" where
  "mant k = (if k < 2 ^ 52 then k else 2 ^ 52 + k mod 2 ^ 52)"

definition ex :: "int \<Rightarrow> int" where
  "ex k = (if k < 2 ^ 52 then 0 else k div 2 ^ 52 - 1)"

definition sval :: "float64 \<Rightarrow> int" where
  "sval w = (if neg w then - mant (mag w) else mant (mag w))"

section \<open>Rounding\<close>

function ilog2 :: "int \<Rightarrow> int" where
  "ilog2 n = (if n \<le> 1 then 0 else 1 + ilog2 (n div 2))"
  by pat_completeness auto
termination
  by (relation "measure nat") auto

declare ilog2.simps [simp del]

definition ratlog2 :: "int \<Rightarrow> int \<Rightarrow> int" where
  "ratlog2 p q =
     (let l = ilog2 p - ilog2 q
      in if (if 0 \<le> l then q * 2 ^ nat l \<le> p else q \<le> p * 2 ^ nat (- l)) then l else l - 1)"

text \<open>Nearest integer to \<open>a / b\<close>, ties to even.\<close>

definition rne :: "int \<Rightarrow> int \<Rightarrow> int" where
  "rne a b =
     (let d = a div b; r = a mod b in if b < 2 * r \<or> (b = 2 * r \<and> odd d) then d + 1 else d)"

text \<open>Magnitude of the float nearest to \<open>p / q * 2 ^ e\<close>, in units of \<open>2 ^ -1074\<close>.\<close>

definition round_mag :: "int \<Rightarrow> int \<Rightarrow> int \<Rightarrow> int" where
  "round_mag p q e =
     (let t = max 0 (ratlog2 p q + e - 52)
      in min inf_mag
           (t * 2 ^ 52 + (if t \<le> e then rne (p * 2 ^ nat (e - t)) q
                          else rne p (q * 2 ^ nat (t - e)))))"

section \<open>Operations\<close>

definition fneg :: "float64 \<Rightarrow> float64" where
  "fneg a = mk_float (\<not> neg a) (mag a)"

definition fadd :: "float64 \<Rightarrow> float64 \<Rightarrow> float64" where
  "fadd a b =
     (if isNaN a \<or> isNaN b then NaN
      else if isInf a then (if isInf b \<and> neg a \<noteq> neg b then NaN else a)
      else if isInf b then b
      else let e = min (ex (mag a)) (ex (mag b));
               s = sval a * 2 ^ nat (ex (mag a) - e) + sval b * 2 ^ nat (ex (mag b) - e)
           in if s = 0 then mk_float (neg a \<and> neg b) 0
              else mk_float (s < 0) (round_mag \<bar>s\<bar> 1 e))"

definition fsub :: "float64 \<Rightarrow> float64 \<Rightarrow> float64" where
  "fsub a b = (if isNaN a \<or> isNaN b then NaN else fadd a (fneg b))"

definition fmul :: "float64 \<Rightarrow> float64 \<Rightarrow> float64" where
  "fmul a b =
     (let s = (neg a \<noteq> neg b) in
      if isNaN a \<or> isNaN b then NaN
      else if isInf a then (if mag b = 0 then NaN else mk_float s inf_mag)
      else if isInf b then (if mag a = 0 then NaN else mk_float s inf_mag)
      else if mag a = 0 \<or> mag b = 0 then mk_float s 0
      else mk_float s
             (round_mag (mant (mag a) * mant (mag b)) 1 (ex (mag a) + ex (mag b) - 1074)))"

definition fdiv :: "float64 \<Rightarrow> float64 \<Rightarrow> float64" where
  "fdiv a b =
     (let s = (neg a \<noteq> neg b) in
      if isNaN a \<or> isNaN b then NaN
      else if isInf a then (if isInf b then NaN else mk_float s inf_mag)
      else if isInf b then mk_float s 0
      else if mag b = 0 then (if mag a = 0 then NaN else mk_float s inf_mag)
      else if mag a = 0 then mk_float s 0
      else mk_float s
             (round_mag (mant (mag a)) (mant (mag b)) (ex (mag a) - ex (mag b) + 1074)))"

definition fkey :: "float64 \<Rightarrow> int" where
  "fkey a = (if neg a then - mag a else mag a)"

definition flt :: "float64 \<Rightarrow> float64 \<Rightarrow> bool" where
  "flt a b \<longleftrightarrow> \<not> isNaN a \<and> \<not> isNaN b \<and> fkey a < fkey b"

definition fle :: "float64 \<Rightarrow> float64 \<Rightarrow> bool" where
  "fle a b \<longleftrightarrow> \<not> isNaN a \<and> \<not> isNaN b \<and> fkey a \<le> fkey b"

definition feq :: "float64 \<Rightarrow> float64 \<Rightarrow> bool" where
  "feq a b \<longleftrightarrow> \<not> isNaN a \<and> \<not> isNaN b \<and> fkey a = fkey b"

text \<open>\<open>float64(i)\<close>, \<open>math.Floor\<close>, \<open>math.Ceil\<close> and \<open>int64(f)\<close>.\<close>

definition float_of_int :: "int \<Rightarrow> float64" where
  "float_of_int i = (if i = 0 then fzero else mk_float (i < 0) (round_mag \<bar>i\<bar> 1 1074))"

definition ffloor :: "float64 \<Rightarrow> float64" where
  "ffloor a =
     (if \<not> isFinite a \<or> mag a = 0 \<or> 1074 \<le> ex (mag a) then a
      else float_of_int (sval a div 2 ^ nat (1074 - ex (mag a))))"

definition fceil :: "float64 \<Rightarrow> float64" where
  "fceil a = fneg (ffloor (fneg a))"

definition int64_of_float :: "float64 \<Rightarrow> int" where
  "int64_of_float a =
     (if \<not> isFinite a then - (2 ^ 63)
      else let v = (if 1074 \<le> ex (mag a) then sval a * 2 ^ nat (ex (mag a) - 1074)
                    else tdiv (sval a) (2 ^ nat (1074 - ex (mag a))))
           in if in64 v then v else - (2 ^ 63))"

section \<open>Rounding as a function of the exact value\<close>

lemma ilog2_bounds: "0 < n \<Longrightarrow> 0 \<le> ilog2 n \<and> 2 ^ nat (ilog2 n) \<le> n \<and> n < 2 ^ Suc (nat (ilog2 n))"
proof (induction n rule: ilog2.induct)
  case (1 n)
  show ?case
  proof (cases "n \<le> 1")
    case True
    with "1.prems" have "n = 1" by simp
    then show ?thesis by (simp add: ilog2.simps)
  next
    case False
    with "1.IH" have IH: "0 \<le> ilog2 (n div 2)" "2 ^ nat (ilog2 (n div 2)) \<le> n div 2"
      "n div 2 < 2 ^ Suc (nat (ilog2 (n div 2)))" by auto
    have eq: "ilog2 n = 1 + ilog2 (n div 2)" using False by (simp add: ilog2.simps [of n])
    then have "nat (ilog2 n) = Suc (nat (ilog2 (n div 2)))" using IH(1) by (simp add: nat_add_distrib)
    then show ?thesis using IH eq by simp linarith
  qed
qed

lemma ilog2_powi:
  assumes "0 < n" shows "2 powi ilog2 n \<le> real_of_int n" and "real_of_int n < 2 powi (ilog2 n + 1)"
proof -
  note b = ilog2_bounds [OF assms]
  have "real_of_int (2 ^ nat (ilog2 n)) \<le> real_of_int n" using b by (simp only: of_int_le_iff)
  then show "2 powi ilog2 n \<le> real_of_int n" using b by (simp add: power_int_def)
  have "real_of_int n < real_of_int (2 ^ Suc (nat (ilog2 n)))" using b by (simp only: of_int_less_iff)
  moreover have "nat (ilog2 n + 1) = Suc (nat (ilog2 n))" using b by (simp add: nat_add_distrib)
  ultimately show "real_of_int n < 2 powi (ilog2 n + 1)" using b by (simp add: power_int_def)
qed

lemma powi_add2: "(2::real) powi (a + b) = 2 powi a * 2 powi b"
  by (simp add: power_int_add)

lemma powi_mono2: "a \<le> b \<Longrightarrow> (2::real) powi a \<le> 2 powi b"
  by (simp add: power_int_increasing)

lemma powi_not_neg2 [simp]: "\<not> (2::real) powi a < 0"
  by (simp add: not_less)

lemma powi_nat2: "0 \<le> a \<Longrightarrow> real_of_int (2 ^ nat a) = 2 powi a"
  by (simp add: power_int_def)

lemma powi_log_unique:
  assumes "2 powi a \<le> x" "x < 2 powi (a + 1)" "2 powi b \<le> x" "x < (2::real) powi (b + 1)"
  shows "a = b"
proof -
  have "(2::real) powi a < 2 powi (b + 1)" "(2::real) powi b < 2 powi (a + 1)" using assms by linarith+
  then have "a < b + 1" "b < a + 1"
    using powi_mono2 by (meson linorder_not_less)+
  then show ?thesis by simp
qed

lemma ratlog2_bounds:
  assumes p: "0 < p" and q: "0 < q"
  shows "2 powi ratlog2 p q \<le> real_of_int p / real_of_int q"
    and "real_of_int p / real_of_int q < 2 powi (ratlog2 p q + 1)"
proof -
  let ?l = "ilog2 p - ilog2 q"
  let ?c = "if 0 \<le> ?l then q * 2 ^ nat ?l \<le> p else q \<le> p * 2 ^ nat (- ?l)"
  have c: "?c \<longleftrightarrow> 2 powi ?l \<le> real_of_int p / real_of_int q"
  proof (cases "0 \<le> ?l")
    case True
    have "?c \<longleftrightarrow> real_of_int (q * 2 ^ nat ?l) \<le> real_of_int p" using True by (simp only: if_True of_int_le_iff)
    also have "\<dots> \<longleftrightarrow> real_of_int q * 2 powi ?l \<le> real_of_int p" using True by (simp add: power_int_def)
    finally show ?thesis using q by (simp add: field_simps)
  next
    case False
    have "?c \<longleftrightarrow> real_of_int q \<le> real_of_int (p * 2 ^ nat (- ?l))" using False by (simp only: if_False of_int_le_iff)
    also have "\<dots> \<longleftrightarrow> real_of_int q \<le> real_of_int p * 2 ^ nat (- ?l)" by simp
    finally show ?thesis using q False by (simp add: power_int_def field_simps)
  qed
  have hi: "real_of_int p / real_of_int q < 2 powi (?l + 1)"
  proof -
    have "real_of_int p / real_of_int q < 2 powi (ilog2 p + 1) / real_of_int q"
      using ilog2_powi(2) [OF p] q by (simp add: divide_strict_right_mono)
    also have "\<dots> \<le> 2 powi (ilog2 p + 1) / 2 powi ilog2 q"
      using ilog2_powi(1) [OF q] q by (intro divide_left_mono) auto
    also have "\<dots> = 2 powi (?l + 1)" by (simp add: power_int_diff power_int_add)
    finally show ?thesis .
  qed
  have lo: "2 powi (?l - 1) \<le> real_of_int p / real_of_int q"
  proof -
    have "2 powi (?l - 1) = (2::real) powi ilog2 p / 2 powi (ilog2 q + 1)"
      by (simp add: power_int_diff power_int_add)
    also have "\<dots> \<le> real_of_int p / 2 powi (ilog2 q + 1)"
      using ilog2_powi(1) [OF p] by (simp add: divide_right_mono)
    also have "\<dots> \<le> real_of_int p / real_of_int q"
      using ilog2_powi(2) [OF q] q p by (intro divide_left_mono) auto
    finally show ?thesis .
  qed
  have r: "ratlog2 p q = (if ?c then ?l else ?l - 1)" by (simp add: ratlog2_def Let_def)
  show "2 powi ratlog2 p q \<le> real_of_int p / real_of_int q" using c lo r by auto
  show "real_of_int p / real_of_int q < 2 powi (ratlog2 p q + 1)" using c hi r by auto
qed

text \<open>Nearest integer, ties to even, of a real number.\<close>

definition rhe :: "real \<Rightarrow> int" where
  "rhe y = (let f = \<lfloor>y\<rfloor> in
     if 1 / 2 < y - of_int f \<or> (y - of_int f = 1 / 2 \<and> odd f) then f + 1 else f)"

lemma rhe_int [simp]: "rhe (real_of_int n) = n"
  by (simp add: rhe_def)

lemma rhe_ge: "real_of_int n \<le> y \<Longrightarrow> n \<le> rhe y"
  by (smt (verit) rhe_def le_floor_iff)

lemma rhe_le: "y \<le> real_of_int n \<Longrightarrow> rhe y \<le> n"
proof -
  assume y: "y \<le> real_of_int n"
  then have f: "\<lfloor>y\<rfloor> \<le> n" by (simp add: floor_le_iff)
  show ?thesis
  proof (cases "\<lfloor>y\<rfloor> = n")
    case True
    then have "y = real_of_int n" using y by linarith
    then show ?thesis by simp
  next
    case False
    then show ?thesis using f by (auto simp: rhe_def Let_def)
  qed
qed

lemma rhe_error: "\<bar>real_of_int (rhe y) - y\<bar> \<le> 1 / 2"
proof -
  have "real_of_int \<lfloor>y\<rfloor> \<le> y" "y < real_of_int \<lfloor>y\<rfloor> + 1" by linarith+
  then show ?thesis by (auto simp: rhe_def Let_def abs_le_iff)
qed

lemma rne_rhe:
  assumes "0 < b" shows "rne a b = rhe (real_of_int a / real_of_int b)"
proof -
  let ?d = "a div b" and ?r = "a mod b"
  have f: "\<lfloor>real_of_int a / real_of_int b\<rfloor> = ?d" by (simp add: floor_divide_of_int_eq)
  have "real_of_int a = real_of_int (b * ?d + ?r)" by simp
  also have "\<dots> = real_of_int b * real_of_int ?d + real_of_int ?r" by (simp only: of_int_add of_int_mult)
  finally have "real_of_int a / real_of_int b - real_of_int ?d = real_of_int ?r / real_of_int b"
    using assms by (simp add: field_simps)
  moreover have "1 / 2 < real_of_int ?r / real_of_int b \<longleftrightarrow> b < 2 * ?r"
    using assms by (simp add: field_simps) linarith
  moreover have "real_of_int ?r / real_of_int b = 1 / 2 \<longleftrightarrow> b = 2 * ?r"
    using assms by (simp add: field_simps) linarith
  ultimately show ?thesis by (simp only: rne_def rhe_def Let_def f)
qed

text \<open>
  \<open>round_mag\<close> depends only on the exact value \<open>x = p / q * 2 ^ e\<close>: \<open>t\<close> is the exponent at which 53
  significant bits of it are kept.
\<close>

lemma round_mag_value:
  assumes p: "0 < p" and q: "0 < q" and x: "x = real_of_int p / real_of_int q * 2 powi e"
    and l: "2 powi l \<le> x" "x < 2 powi (l + 1)" and t: "t = max 0 (l - 52)"
  shows "round_mag p q e = min inf_mag (t * 2 ^ 52 + rhe (x / 2 powi t))"
proof -
  note b = ratlog2_bounds [OF p q]
  have "2 powi (ratlog2 p q + e) \<le> x" unfolding x powi_add2 using b(1) by (rule mult_right_mono) simp
  moreover have "x < 2 powi (ratlog2 p q + 1) * 2 powi e" unfolding x using b(2) by (rule mult_strict_right_mono) simp
  then have "x < 2 powi (ratlog2 p q + e + 1)" by (simp add: power_int_add mult_ac)
  ultimately
  have le: "l = ratlog2 p q + e" using powi_log_unique l by blast
  have tt: "t = max 0 (ratlog2 p q + e - 52)" by (simp add: t le)
  show ?thesis
  proof (cases "t \<le> e")
    case True
    have "rne (p * 2 ^ nat (e - t)) q = rhe (real_of_int (p * 2 ^ nat (e - t)) / real_of_int q)"
      using q by (rule rne_rhe)
    also have "real_of_int (p * 2 ^ nat (e - t)) / real_of_int q = x / 2 powi t"
      using True powi_nat2 [of "e - t"] by (simp add: x power_int_diff)
    finally show ?thesis using True by (simp add: round_mag_def Let_def flip: tt)
  next
    case False
    have "rne p (q * 2 ^ nat (t - e)) = rhe (real_of_int p / real_of_int (q * 2 ^ nat (t - e)))"
      using q by (intro rne_rhe) simp
    also have "real_of_int p / real_of_int (q * 2 ^ nat (t - e)) = x / 2 powi t"
      using False powi_nat2 [of "t - e"] by (simp add: x power_int_diff)
    finally show ?thesis using False by (simp add: round_mag_def Let_def flip: tt)
  qed
qed


section \<open>Magnitudes and values\<close>

lemma mant_ex_canon:
  assumes "0 \<le> k"
  shows "0 \<le> ex k" "0 \<le> mant k" "mant k < 2 ^ 53" "k = ex k * 2 ^ 52 + mant k"
    "ex k = 0 \<or> 2 ^ 52 \<le> mant k" "0 < k \<Longrightarrow> 0 < mant k"
  using assms by (auto simp: mant_def ex_def algebra_simps)

lemma mant_ex_pack:
  assumes "0 \<le> t" and "t = 0 \<or> 2 ^ 52 \<le> M" and "0 \<le> M" and "M \<le> 2 ^ 53"
  shows "real_of_int (mant (t * 2 ^ 52 + M)) * 2 powi ex (t * 2 ^ 52 + M) = real_of_int M * 2 powi t"
proof -
  consider "M < 2 ^ 52" | "2 ^ 52 \<le> M" "M < 2 ^ 53" | "M = 2 ^ 53" using assms by linarith
  then show ?thesis
  proof cases
    case 1
    then show ?thesis using assms by (simp add: mant_def ex_def)
  next
    case 2
    define m where "m = M - 2 ^ 52"
    have m: "0 \<le> m" "m < 2 ^ 52" "M = m + 2 ^ 52" using 2 by (auto simp: m_def)
    have k: "t * 2 ^ 52 + M = m + (t + 1) * 2 ^ 52" by (simp add: m(3) algebra_simps)
    have "(t * 2 ^ 52 + M) div 2 ^ 52 = t + 1" using m unfolding k by simp
    moreover have "(t * 2 ^ 52 + M) mod 2 ^ 52 = m mod 2 ^ 52" unfolding k by (rule mod_mult_self1)
    moreover have "m mod 2 ^ 52 = m" using m by simp
    ultimately show ?thesis using 2 assms by (simp add: mant_def ex_def m_def)
  next
    case 3
    have k: "t * 2 ^ 52 + M = (t + 2) * 2 ^ 52" by (simp add: 3 algebra_simps)
    have "mant (t * 2 ^ 52 + M) = 2 ^ 52" "ex (t * 2 ^ 52 + M) = t + 1"
      unfolding k using assms by (auto simp: mant_def ex_def)
    then show ?thesis by (simp add: 3 power_int_add)
  qed
qed

lemma round_mag_exact:
  assumes p: "0 < p" and q: "0 < q" and k: "0 < k"
    and x: "real_of_int p / real_of_int q * 2 powi e = real_of_int (mant k) * 2 powi ex k"
  shows "round_mag p q e = min inf_mag k"
proof -
  have c: "0 \<le> ex k" "0 < mant k" "mant k < 2 ^ 53" "k = ex k * 2 ^ 52 + mant k"
    "ex k = 0 \<or> 2 ^ 52 \<le> mant k" using mant_ex_canon [of k] k by auto
  define x where "x = real_of_int (mant k) * 2 powi ex k"
  define l where "l = ilog2 (mant k) + ex k"
  note il = ilog2_powi [OF c(2)]
  have l1: "2 powi l \<le> x" unfolding l_def x_def powi_add2 using il(1) by (rule mult_right_mono) simp
  have "x < 2 powi (ilog2 (mant k) + 1) * 2 powi ex k" unfolding x_def
    using il(2) by (rule mult_strict_right_mono) simp
  then have l2: "x < 2 powi (l + 1)" by (simp add: l_def power_int_add mult_ac)
  have i52: "ilog2 (mant k) \<le> 52"
  proof (rule ccontr)
    assume "\<not> ?thesis"
    then have "53 \<le> nat (ilog2 (mant k))" by simp
    then have "(2::int) ^ 53 \<le> 2 ^ nat (ilog2 (mant k))" by (rule power_increasing) simp
    then show False using ilog2_bounds [OF c(2)] c(3) by linarith
  qed
  have "2 ^ 52 \<le> mant k \<Longrightarrow> 52 \<le> ilog2 (mant k)"
  proof (rule ccontr)
    assume m: "2 ^ 52 \<le> mant k" "\<not> 52 \<le> ilog2 (mant k)"
    then have "Suc (nat (ilog2 (mant k))) \<le> 52" by simp
    then have "(2::int) ^ Suc (nat (ilog2 (mant k))) \<le> 2 ^ 52" by (rule power_increasing) simp
    then show False using ilog2_bounds [OF c(2)] m(1) by linarith
  qed
  then have t: "ex k = max 0 (l - 52)" using c(5) i52 c(1) by (auto simp: l_def)
  have "round_mag p q e = min inf_mag (ex k * 2 ^ 52 + rhe (x / 2 powi ex k))"
    using p q _ l1 l2 t by (rule round_mag_value) (simp only: x_def assms(4))
  also have "x / 2 powi ex k = real_of_int (mant k)" by (simp add: x_def)
  finally show ?thesis using c(4) by simp
qed

lemma mag_bounds: "0 \<le> mag w" "mag w < 2 ^ 63"
  by (auto simp: mag_def)

lemma uint_u64_less: "uint (w :: u64) < 2 ^ 64"
  using uint_bounded [of w] by simp

lemma mk_float_parts [simp]:
  assumes "0 \<le> k" and "k < 2 ^ 63"
  shows "mag (mk_float s k) = k" and "neg (mk_float s k) = s"
proof -
  have "uint (word_of_int x :: u64) = x" if "0 \<le> x" "x < 2 ^ 64" for x
    using that by (simp add: uint_word_of_int)
  then have "uint (mk_float s k) = (if s then 2 ^ 63 else 0) + k"
    unfolding mk_float_def using assms by (simp del: of_int_add)
  then show "mag (mk_float s k) = k" "neg (mk_float s k) = s"
    using assms by (auto simp: mag_def neg_def)
qed

lemma mk_float_neg_mag [simp]: "mk_float (neg w) (mag w) = w"
proof -
  have "(if neg w then 2 ^ 63 else 0) + mag w = uint w"
  proof (cases "neg w")
    case True
    have "mag w = (uint w - 2 ^ 63) mod 2 ^ 63" unfolding mag_def by (rule minus_mod_self2 [symmetric])
    also have "\<dots> = uint w - 2 ^ 63"
      using True uint_u64_less [of w] by (intro mod_pos_pos_trivial) (auto simp: neg_def)
    finally have "mag w = uint w - 2 ^ 63" .
    then show ?thesis using True by simp
  next
    case False
    then show ?thesis using uint_ge_0 [of w] by (simp add: mag_def neg_def not_le)
  qed
  then show ?thesis by (simp only: mk_float_def word_of_int_uint)
qed

lemma float_eqI: "neg a = neg b \<Longrightarrow> mag a = mag b \<Longrightarrow> a = b"
proof -
  assume h: "neg a = neg b" "mag a = mag b"
  have "a = mk_float (neg a) (mag a)" by simp
  also have "\<dots> = mk_float (neg b) (mag b)" by (simp only: h)
  also have "\<dots> = b" by simp
  finally show ?thesis .
qed

definition fval :: "float64 \<Rightarrow> real" where
  "fval w = real_of_int (sval w) * 2 powi (ex (mag w) - 1074)"


lemma isFinite_mk [simp]: "0 \<le> k \<Longrightarrow> k < inf_mag \<Longrightarrow> isFinite (mk_float s k)"
  by (simp add: isFinite_def inf_mag_def)

lemma finite_not_special: "isFinite w \<Longrightarrow> \<not> isNaN w" "isFinite w \<Longrightarrow> \<not> isInf w"
  by (auto simp: isFinite_def isNaN_def isInf_def)

lemma fval_zero_iff: "fval w = 0 \<longleftrightarrow> mag w = 0"
proof -
  have "mant (mag w) = 0 \<longleftrightarrow> mag w = 0"
    using mant_ex_canon(6) [of "mag w"] mag_bounds [of w] by (auto simp: mant_def split: if_splits)
  then show ?thesis by (simp add: fval_def sval_def)
qed

lemma fval_neg: "isFinite w \<Longrightarrow> mag w \<noteq> 0 \<Longrightarrow> (fval w < 0) = neg w"
  using mant_ex_canon(6) [of "mag w"] mag_bounds [of w]
  by (auto simp: fval_def sval_def mult_less_0_iff)

text \<open>A nonzero exact result that some finite float has is the rounded result.\<close>

lemma round_to_float:
  assumes c: "isFinite c" "mag c \<noteq> 0" and s: "s \<noteq> 0"
    and v: "real_of_int s * 2 powi (e - 1074) = fval c"
  shows "mk_float (s < 0) (round_mag \<bar>s\<bar> 1 e) = c"
proof -
  have pos: "0 < mag c" using c(2) mag_bounds(1) [of c] by simp
  have sg: "(s < 0) = neg c"
    using fval_neg [OF c] s by (auto simp: mult_less_0_iff simp flip: v)
  have "\<bar>real_of_int s\<bar> * 2 powi (e - 1074) = \<bar>fval c\<bar>" by (simp add: abs_mult flip: v)
  also have "\<dots> = real_of_int (mant (mag c)) * 2 powi (ex (mag c) - 1074)"
    using mant_ex_canon(2) [of "mag c"] pos by (simp add: fval_def sval_def abs_mult)
  finally have "real_of_int \<bar>s\<bar> / real_of_int 1 * 2 powi e = real_of_int (mant (mag c)) * 2 powi ex (mag c)"
    by (simp add: power_int_diff)
  then have "round_mag \<bar>s\<bar> 1 e = min inf_mag (mag c)"
    using s pos by (intro round_mag_exact) auto
  also have "\<dots> = mag c" using c(1) by (simp add: isFinite_def)
  finally show ?thesis by (simp add: sg)
qed

section \<open>Addition\<close>

lemma fadd_comm: "fadd a b = fadd b a"
proof -
  have "isInf a \<Longrightarrow> isInf b \<Longrightarrow> neg a = neg b \<Longrightarrow> a = b"
    by (rule float_eqI) (auto simp: isInf_def)
  then show ?thesis
    by (simp add: fadd_def min.commute [of "ex (mag a)"] add.commute conj_commute Let_def)
qed

lemma fadd_scaled:
  assumes "isFinite a" "isFinite b"
  obtains s e where "real_of_int s * 2 powi (e - 1074) = fval a + fval b"
    and "fadd a b = (if s = 0 then mk_float (neg a \<and> neg b) 0 else mk_float (s < 0) (round_mag \<bar>s\<bar> 1 e))"
proof -
  define e where "e = min (ex (mag a)) (ex (mag b))"
  define s where "s = sval a * 2 ^ nat (ex (mag a) - e) + sval b * 2 ^ nat (ex (mag b) - e)"
  have "real_of_int s = real_of_int (sval a) * 2 powi (ex (mag a) - e)
      + real_of_int (sval b) * 2 powi (ex (mag b) - e)"
    using powi_nat2 [of "ex (mag a) - e"] powi_nat2 [of "ex (mag b) - e"] by (simp add: s_def e_def)
  then have "real_of_int s * 2 powi (e - 1074) = fval a + fval b"
    by (simp add: fval_def distrib_right mult.assoc flip: powi_add2)
  moreover have "fadd a b =
      (if s = 0 then mk_float (neg a \<and> neg b) 0 else mk_float (s < 0) (round_mag \<bar>s\<bar> 1 e))"
    using assms by (simp add: fadd_def finite_not_special Let_def s_def e_def)
  ultimately show thesis by (rule that)
qed

lemma fadd_exact:
  assumes "isFinite a" "isFinite b" "isFinite c" "fval c = fval a + fval b" "fval c \<noteq> 0"
  shows "fadd a b = c"
proof -
  obtain s e where r: "real_of_int s * 2 powi (e - 1074) = fval a + fval b"
    "fadd a b = (if s = 0 then mk_float (neg a \<and> neg b) 0 else mk_float (s < 0) (round_mag \<bar>s\<bar> 1 e))"
    using assms(1,2) by (rule fadd_scaled)
  have s: "s \<noteq> 0" using r(1) assms(4,5) by auto
  moreover have "mk_float (s < 0) (round_mag \<bar>s\<bar> 1 e) = c"
    using assms(3-5) r(1) s by (intro round_to_float) (auto simp flip: fval_zero_iff)
  ultimately show ?thesis by (simp add: r(2))
qed

lemma fzero_parts [simp]: "mag fzero = 0" "\<not> neg fzero" "isFinite fzero" "fval fzero = 0"
  by (auto simp: fzero_def mag_def neg_def isFinite_def inf_mag_def fval_def sval_def mant_def)

lemma mk_float_zero [simp]: "mk_float False 0 = fzero"
  by (simp add: mk_float_def fzero_def)

text \<open>Zero is neutral, except that it turns a negative zero into a positive one.\<close>

lemma fadd_fzero: "\<not> isNaN x \<Longrightarrow> x \<noteq> mk_float True 0 \<Longrightarrow> fadd fzero x = x"
proof -
  assume x: "\<not> isNaN x" "x \<noteq> mk_float True 0"
  consider "isInf x" | "isFinite x" "mag x \<noteq> 0" | "isFinite x" "mag x = 0"
    using x(1) by (force simp: isNaN_def isInf_def isFinite_def)
  then show ?thesis
  proof cases
    case 1
    then show ?thesis by (simp add: fadd_def isNaN_def isInf_def inf_mag_def)
  next
    case 2
    then show ?thesis by (intro fadd_exact) (auto simp: fval_zero_iff)
  next
    case 3
    then have "\<not> neg x" using x(2) mk_float_neg_mag [of x] by auto
    then have "x = fzero" using 3 by (intro float_eqI) auto
    moreover obtain s e where "real_of_int s * 2 powi (e - 1074) = fval fzero + fval fzero"
      "fadd fzero fzero = (if s = 0 then mk_float (neg fzero \<and> neg fzero) 0
         else mk_float (s < 0) (round_mag \<bar>s\<bar> 1 e))"
      by (rule fadd_scaled [of fzero fzero]) auto
    ultimately show ?thesis by simp
  qed
qed

section \<open>Integers\<close>

text \<open>An integer up to \<open>2 ^ 53\<close> as a mantissa of 53 bits (\<open>2 ^ 53\<close> itself is the carry into the next exponent).\<close>

lemma int_mantissa_log:
  assumes n: "0 < n" "n \<le> 2 ^ 53" and l: "\<not> ilog2 n \<le> 52"
  shows "ilog2 n = 53" "n = 2 ^ 53"
proof -
  note b = ilog2_bounds [OF n(1)]
  have "53 \<le> nat (ilog2 n)" using l by simp
  then have "(2::int) ^ 53 \<le> 2 ^ nat (ilog2 n)" by (rule power_increasing) simp
  then show "n = 2 ^ 53" using b n(2) by simp
  have "nat (ilog2 n) < 54"
  proof (rule ccontr)
    assume "\<not> nat (ilog2 n) < 54"
    then have "(2::int) ^ 54 \<le> 2 ^ nat (ilog2 n)" by (intro power_increasing) auto
    then show False using b n(2) by simp
  qed
  then show "ilog2 n = 53" using l by simp
qed

lemma int_mantissa:
  assumes n: "0 < n" "n \<le> 2 ^ 53"
  defines "l \<equiv> ilog2 n"
  defines "M \<equiv> (if l \<le> 52 then n * 2 ^ nat (52 - l) else 2 ^ 52)"
  shows "0 \<le> l" "l \<le> 53" "2 ^ 52 \<le> M" "M \<le> 2 ^ 53" "real_of_int M * 2 powi (1022 + l) = real_of_int n * 2 powi 1074"
proof -
  note b = ilog2_bounds [OF n(1), folded l_def] and l53 = int_mantissa_log [OF n, folded l_def]
  show "0 \<le> l" using b by simp
  show "l \<le> 53" using l53 by (cases "l \<le> 52") auto
  have e: "2 ^ nat l * 2 ^ nat (52 - l) = (2::int) ^ 52" if "l \<le> 52"
    using that b by (simp add: nat_diff_distrib flip: power_add)
  have lo: "2 ^ nat l * 2 ^ nat (52 - l) \<le> n * 2 ^ nat (52 - l)" using b by (intro mult_right_mono) auto
  have "n * 2 ^ nat (52 - l) \<le> 2 ^ Suc (nat l) * 2 ^ nat (52 - l)" using b by (intro mult_right_mono) auto
  then have hi: "n * 2 ^ nat (52 - l) \<le> 2 * (2 ^ nat l * 2 ^ nat (52 - l))" by simp
  show "2 ^ 52 \<le> M" using e lo by (cases "l \<le> 52") (auto simp only: M_def if_True if_False)
  show "M \<le> 2 ^ 53" using e hi by (cases "l \<le> 52") (simp_all only: M_def if_True if_False, simp_all)
  show "real_of_int M * 2 powi (1022 + l) = real_of_int n * 2 powi 1074"
  proof (cases "l \<le> 52")
    case True
    have "real_of_int M = real_of_int n * 2 powi (52 - l)" using True powi_nat2 [of "52 - l"] by (simp add: M_def)
    then show ?thesis by (simp add: mult.assoc flip: powi_add2)
  next
    case False
    then have "real_of_int M * 2 powi (1022 + l) = 2 powi 52 * 2 powi 1075" "real_of_int n = 2 powi 53"
      using l53 by (simp_all add: M_def)
    then show ?thesis by (simp flip: powi_add2)
  qed
qed

lemma float_of_int_pos:
  assumes n: "0 < \<bar>i\<bar>" "\<bar>i\<bar> \<le> 2 ^ 53"
  shows "isFinite (float_of_int i) \<and> fval (float_of_int i) = real_of_int i"
proof -
  define n where "n = \<bar>i\<bar>"
  define t where "t = 1022 + ilog2 n"
  obtain M where M: "2 ^ 52 \<le> M" "M \<le> 2 ^ 53" "real_of_int M * 2 powi t = real_of_int n * 2 powi 1074" and l: "0 \<le> ilog2 n" "ilog2 n \<le> 53"
    using int_mantissa [OF n, folded n_def] unfolding t_def by blast
  let ?k = "t * 2 ^ 52 + M"
  have k: "0 < ?k" "?k < inf_mag" using M l by (auto simp: t_def inf_mag_def)
  have pk: "real_of_int (mant ?k) * 2 powi ex ?k = real_of_int M * 2 powi t"
    using M l by (intro mant_ex_pack) (auto simp: t_def)
  have "round_mag n 1 1074 = min inf_mag ?k" using n k(1) pk M(3) by (intro round_mag_exact) (auto simp: n_def)
  then have f: "float_of_int i = mk_float (i < 0) ?k" using n k by (simp add: float_of_int_def n_def)
  have k63: "?k < 2 ^ 63" using k(2) by (simp add: inf_mag_def)
  have "fval (float_of_int i) = (if i < 0 then -1 else 1) * (real_of_int (mant ?k) * 2 powi ex ?k) / 2 powi 1074"
    using k k63 by (simp add: f fval_def sval_def power_int_diff)
  also have "\<dots> = real_of_int i" using pk M(3) by (simp add: n_def)
  finally show ?thesis using k by (simp add: f)
qed

lemma float_of_int_exact:
  assumes "\<bar>i\<bar> \<le> 2 ^ 53"
  shows "isFinite (float_of_int i)" and "fval (float_of_int i) = real_of_int i"
proof -
  have "isFinite (float_of_int i) \<and> fval (float_of_int i) = real_of_int i"
    using float_of_int_pos [of i] assms by (cases "i = 0") (auto simp: float_of_int_def)
  then show "isFinite (float_of_int i)" "fval (float_of_int i) = real_of_int i" by auto
qed

lemma fadd_of_int:
  assumes "\<bar>i\<bar> \<le> 2 ^ 53" "\<bar>j\<bar> \<le> 2 ^ 53" "\<bar>i + j\<bar> \<le> 2 ^ 53" "i + j \<noteq> 0"
  shows "fadd (float_of_int i) (float_of_int j) = float_of_int (i + j)"
  using assms by (intro fadd_exact) (auto simp: float_of_int_exact simp flip: of_int_add)


lemma in64_small: "\<bar>i\<bar> \<le> 2 ^ 53 \<Longrightarrow> in64 i"
  by (auto simp: in64_def abs_le_iff)

lemma int64_of_float_fval:
  assumes "isFinite w" and "fval w = real_of_int i" and "in64 i"
  shows "int64_of_float w = i"
proof (cases "1074 \<le> ex (mag w)")
  case True
  then have "real_of_int (sval w * 2 ^ nat (ex (mag w) - 1074)) = real_of_int i"
    using assms(2) by (simp add: fval_def power_int_def)
  then have "sval w * 2 ^ nat (ex (mag w) - 1074) = i" by (simp only: of_int_eq_iff)
  then show ?thesis using assms True by (simp add: int64_of_float_def)
next
  case False
  let ?d = "2 ^ nat (1074 - ex (mag w)) :: int"
  have "real_of_int (sval w) = real_of_int (i * ?d)"
    using assms(2) False by (simp add: fval_def power_int_def field_simps)
  then have "sval w = i * ?d" by (simp only: of_int_eq_iff)
  then have "tdiv (sval w) ?d = i" by (simp add: tdiv_mult)
  then show ?thesis using assms False by (simp add: int64_of_float_def)
qed

lemma fval_floor:
  assumes "isFinite w" and "\<bar>\<lfloor>fval w\<rfloor>\<bar> \<le> 2 ^ 53"
  shows "int64_of_float (ffloor w) = \<lfloor>fval w\<rfloor>"
proof -
  have i64: "in64 \<lfloor>fval w\<rfloor>" using assms(2) by (rule in64_small)
  consider "mag w = 0" | "mag w \<noteq> 0" "1074 \<le> ex (mag w)" | "mag w \<noteq> 0" "\<not> 1074 \<le> ex (mag w)" by blast
  then show ?thesis
  proof cases
    case 1
    then have "fval w = 0" by (simp add: fval_zero_iff)
    then show ?thesis using 1 assms i64 by (simp add: ffloor_def int64_of_float_fval)
  next
    case 2
    then have "fval w = real_of_int (sval w * 2 ^ nat (ex (mag w) - 1074))"
      by (simp add: fval_def power_int_def)
    then have "fval w = real_of_int \<lfloor>fval w\<rfloor>" by (metis floor_of_int)
    then show ?thesis using 2 assms i64 by (simp add: ffloor_def int64_of_float_fval)
  next
    case 3
    let ?d = "2 ^ nat (1074 - ex (mag w)) :: int"
    have "fval w = real_of_int (sval w) / real_of_int ?d"
      using 3 by (simp add: fval_def power_int_def field_simps)
    then have f: "sval w div ?d = \<lfloor>fval w\<rfloor>" by (simp only: floor_divide_of_int_eq)
    then have "ffloor w = float_of_int \<lfloor>fval w\<rfloor>" using 3 assms(1) by (simp add: ffloor_def)
    then show ?thesis using float_of_int_exact [OF assms(2)] i64 by (simp add: int64_of_float_fval)
  qed
qed

lemma fneg_parts:
  assumes "isFinite w" shows "isFinite (fneg w)" "fval (fneg w) = - fval w"
  using assms mag_bounds [of w]
  by (auto simp: fneg_def isFinite_def fval_def sval_def)

lemma fval_ceil:
  assumes "isFinite w" and "\<bar>\<lceil>fval w\<rceil>\<bar> \<le> 2 ^ 53"
  shows "int64_of_float (fceil w) = \<lceil>fval w\<rceil>"
proof -
  note n = fneg_parts [OF assms(1)]
  have fl: "\<lfloor>fval (fneg w)\<rfloor> = - \<lceil>fval w\<rceil>" by (simp add: n(2) ceiling_def)
  have i64: "in64 \<lceil>fval w\<rceil>" using assms(2) by (rule in64_small)
  have fin: "isFinite (ffloor (fneg w)) \<and> fval (ffloor (fneg w)) = real_of_int (- \<lceil>fval w\<rceil>)"
  proof (cases "mag (fneg w) = 0 \<or> 1074 \<le> ex (mag (fneg w))")
    case True
    then have eq: "ffloor (fneg w) = fneg w" by (auto simp: ffloor_def)
    have "\<exists>z. fval (fneg w) = real_of_int z"
    proof (cases "mag (fneg w) = 0")
      case True
      then show ?thesis by (auto simp: fval_zero_iff [symmetric] intro: exI [of _ 0])
    next
      case False
      with \<open>mag (fneg w) = 0 \<or> 1074 \<le> ex (mag (fneg w))\<close>
      have "fval (fneg w) = real_of_int (sval (fneg w) * 2 ^ nat (ex (mag (fneg w)) - 1074))"
        by (simp add: fval_def power_int_def)
      then show ?thesis by blast
    qed
    then have "fval (fneg w) = real_of_int (- \<lceil>fval w\<rceil>)" using fl by (metis floor_of_int)
    then show ?thesis using n(1) eq by simp
  next
    case False
    let ?w = "fneg w" and ?d = "2 ^ nat (1074 - ex (mag (fneg w))) :: int"
    have "fval ?w = real_of_int (sval ?w) / real_of_int ?d"
      using False by (simp add: fval_def power_int_def field_simps)
    then have "sval ?w div ?d = - \<lceil>fval w\<rceil>" using fl by (simp only: floor_divide_of_int_eq)
    then have "ffloor ?w = float_of_int (- \<lceil>fval w\<rceil>)" using False n(1) by (simp add: ffloor_def)
    then show ?thesis using float_of_int_exact [of "- \<lceil>fval w\<rceil>"] assms(2) by simp
  qed
  show ?thesis unfolding fceil_def
    using fin fneg_parts [of "ffloor (fneg w)"] i64 by (intro int64_of_float_fval) auto
qed

section \<open>Quotients of integers\<close>

text \<open>
  The rounded quotient \<open>qr a b\<close> of two integers: \<open>qm a b\<close> is its 53-bit significand.
\<close>

definition qx :: "int \<Rightarrow> int \<Rightarrow> real" where "qx a b = real_of_int a / real_of_int b"

definition qm :: "int \<Rightarrow> int \<Rightarrow> int" where
  "qm a b = rhe (qx a b * 2 powi (52 - ratlog2 a b))"

definition qr :: "int \<Rightarrow> int \<Rightarrow> real" where
  "qr a b = real_of_int (qm a b) * 2 powi (ratlog2 a b - 52)"

lemma powi_cancel2: "(2::real) powi (a - b) * 2 powi (b - a) = 1"
  by (simp flip: powi_add2)

lemma quot_log:
  assumes "0 < a" "a < 2 ^ 53" "0 < b" "b \<le> 2 ^ 53"
  shows "2 powi ratlog2 a b \<le> qx a b" "qx a b < 2 powi (ratlog2 a b + 1)"
    "ratlog2 a b \<le> 52" "- 54 \<le> ratlog2 a b"
proof -
  let ?l = "ratlog2 a b"
  show l: "2 powi ?l \<le> qx a b" "qx a b < 2 powi (?l + 1)"
    using ratlog2_bounds [OF assms(1,3)] by (auto simp: qx_def)
  have "real_of_int a < real_of_int (2 ^ 53)" using assms(2) by (simp only: of_int_less_iff)
  moreover have "qx a b \<le> real_of_int a" using assms by (simp add: qx_def field_simps mult_le_cancel_left1)
  ultimately have "qx a b < 2 powi 53" by (simp add: power_int_def)
  then show "?l \<le> 52" using l(1) powi_mono2 [of 53 ?l] by linarith
  have "real_of_int b \<le> real_of_int (2 ^ 53)" using assms(4) by (simp only: of_int_le_iff)
  then have "1 / 2 powi 53 \<le> 1 / real_of_int b" using assms(3) by (simp add: power_int_def field_simps)
  also have "\<dots> \<le> qx a b" using assms by (simp add: qx_def divide_right_mono)
  finally have "2 powi (- 53) \<le> qx a b" by (simp add: power_int_minus field_simps)
  then show "- 54 \<le> ?l" using l(2) powi_mono2 [of "?l + 1" "-53"] by linarith
qed

lemma quot_mantissa:
  assumes "0 < a" "a < 2 ^ 53" "0 < b" "b \<le> 2 ^ 53"
  shows "2 ^ 52 \<le> qm a b" "qm a b \<le> 2 ^ 53"
proof -
  let ?l = "ratlog2 a b"
  note l = quot_log [OF assms]
  have "2 powi ?l * 2 powi (52 - ?l) \<le> qx a b * 2 powi (52 - ?l)" using l(1) by (rule mult_right_mono) simp
  then show "2 ^ 52 \<le> qm a b" unfolding qm_def by (intro rhe_ge) (simp flip: powi_add2)
  have "qx a b * 2 powi (52 - ?l) \<le> 2 powi (?l + 1) * 2 powi (52 - ?l)" using l(2) by (intro mult_right_mono) auto
  then show "qm a b \<le> 2 ^ 53" unfolding qm_def by (intro rhe_le) (simp flip: powi_add2)
qed

lemma quot_error:
  assumes "0 < a" "a < 2 ^ 53" "0 < b" "b \<le> 2 ^ 53"
  shows "\<bar>qr a b - qx a b\<bar> < 1 / real_of_int b"
proof -
  let ?l = "ratlog2 a b"
  have "qr a b - qx a b = (real_of_int (qm a b) - qx a b * 2 powi (52 - ?l)) * 2 powi (?l - 52)"
    unfolding qr_def left_diff_distrib mult.assoc powi_cancel2 by simp
  then have "\<bar>qr a b - qx a b\<bar> = \<bar>real_of_int (qm a b) - qx a b * 2 powi (52 - ?l)\<bar> * 2 powi (?l - 52)"
    by (simp add: abs_mult)
  also have "\<dots> \<le> 1 / 2 * 2 powi (?l - 52)" unfolding qm_def using rhe_error by (intro mult_right_mono) auto
  also have "\<dots> = 2 powi ?l / 2 ^ 53" by (simp add: power_int_diff)
  also have "\<dots> \<le> qx a b / 2 ^ 53" using quot_log(1) [OF assms] by (simp add: divide_right_mono)
  also have "\<dots> < 1 / real_of_int b"
  proof -
    have "real_of_int a < real_of_int (2 ^ 53)" using assms(2) by (simp only: of_int_less_iff)
    then show ?thesis using assms(3) by (simp add: qx_def field_simps)
  qed
  finally show ?thesis .
qed

lemma quot_integer_bounds:
  assumes "0 < a" "a < 2 ^ 53" "0 < b" "b \<le> 2 ^ 53"
  shows "real_of_int n \<le> qx a b \<Longrightarrow> real_of_int n \<le> qr a b"
    and "qx a b \<le> real_of_int n \<Longrightarrow> qr a b \<le> real_of_int n"
proof -
  let ?l = "ratlog2 a b" and ?n = "n * 2 ^ nat (52 - ratlog2 a b)"
  have "real_of_int (2 ^ nat (52 - ?l)) = 2 powi (52 - ?l)"
    using quot_log(3) [OF assms] by (intro powi_nat2) simp
  then have n: "real_of_int ?n = real_of_int n * 2 powi (52 - ?l)" by simp
  then have nr: "real_of_int n = real_of_int ?n * 2 powi (?l - 52)"
    unfolding n mult.assoc powi_cancel2 by simp
  show "real_of_int n \<le> qr a b" if "real_of_int n \<le> qx a b"
  proof -
    have "?n \<le> qm a b" unfolding qm_def using that by (intro rhe_ge) (simp only: n mult_right_mono zero_le_power_int zero_le_numeral)
    then have "real_of_int ?n \<le> real_of_int (qm a b)" by (simp only: of_int_le_iff)
    then show ?thesis unfolding nr qr_def by (rule mult_right_mono) simp
  qed
  show "qr a b \<le> real_of_int n" if "qx a b \<le> real_of_int n"
  proof -
    have "qm a b \<le> ?n" unfolding qm_def using that by (intro rhe_le) (simp only: n mult_right_mono zero_le_power_int zero_le_numeral)
    then have "real_of_int (qm a b) \<le> real_of_int ?n" by (simp only: of_int_le_iff)
    then show ?thesis unfolding nr qr_def by (rule mult_right_mono) simp
  qed
qed

lemma quot_floor:
  assumes "0 < a" "a < 2 ^ 53" "0 < b" "b \<le> 2 ^ 53"
  shows "\<lfloor>qr a b\<rfloor> = \<lfloor>qx a b\<rfloor>"
proof (rule floor_unique)
  let ?f = "\<lfloor>qx a b\<rfloor>"
  show "real_of_int ?f \<le> qr a b" using quot_integer_bounds(1) [OF assms, of ?f] by simp
  have "qx a b < real_of_int (?f + 1)" by linarith
  then have "real_of_int a < real_of_int ((?f + 1) * b)" using assms(3) by (simp add: qx_def field_simps)
  then have "a + 1 \<le> (?f + 1) * b" by (simp only: of_int_less_iff)
  then have "real_of_int (a + 1) \<le> real_of_int ((?f + 1) * b)" by (simp only: of_int_le_iff)
  then have "qx a b + 1 / real_of_int b \<le> real_of_int ?f + 1" using assms(3) by (simp add: qx_def field_simps)
  then show "qr a b < real_of_int ?f + 1" using quot_error [OF assms] by linarith
qed

lemma quot_ceiling:
  assumes "0 < a" "a < 2 ^ 53" "0 < b" "b \<le> 2 ^ 53"
  shows "\<lceil>qr a b\<rceil> = \<lceil>qx a b\<rceil>"
proof (rule ceiling_unique)
  let ?c = "\<lceil>qx a b\<rceil>"
  show "qr a b \<le> real_of_int ?c" using quot_integer_bounds(2) [OF assms, of ?c] by simp
  have "real_of_int (?c - 1) < qx a b" by linarith
  then have "real_of_int ((?c - 1) * b) < real_of_int a" using assms(3) by (simp add: qx_def field_simps)
  then have "(?c - 1) * b + 1 \<le> a" by (simp only: of_int_less_iff)
  then have "real_of_int ((?c - 1) * b + 1) \<le> real_of_int a" by (simp only: of_int_le_iff)
  then have "real_of_int ?c - 1 \<le> qx a b - 1 / real_of_int b" using assms(3) by (simp add: qx_def field_simps)
  then show "real_of_int ?c - 1 < qr a b" using quot_error [OF assms] by linarith
qed

lemma quot_round_mag:
  assumes "0 < a" "a < 2 ^ 53" "0 < b" "b \<le> 2 ^ 53" and pq: "0 < p" "0 < q"
    and X: "real_of_int p / real_of_int q * 2 powi e = qx a b * 2 powi 1074"
  defines "k \<equiv> round_mag p q e"
  shows "0 \<le> k" "k < inf_mag" "real_of_int (mant k) * 2 powi (ex k - 1074) = qr a b"
proof -
  note ab = assms(1-4)
  let ?l = "ratlog2 a b" and ?M = "qm a b"
  note l = quot_log [OF ab] and M = quot_mantissa [OF ab]
  define t where "t = ?l + 1022"
  have t0: "0 \<le> t" "t \<le> 1074" using l(3,4) by (auto simp: t_def)
  have "2 powi (?l + 1074) \<le> qx a b * 2 powi 1074"
    unfolding powi_add2 using l(1) by (rule mult_right_mono) simp
  moreover have "qx a b * 2 powi 1074 < 2 powi (?l + 1) * 2 powi 1074" using l(2) by (rule mult_strict_right_mono) simp
  then have "qx a b * 2 powi 1074 < 2 powi (?l + 1074 + 1)" by (simp add: power_int_add mult_ac)
  moreover have "t = max 0 (?l + 1074 - 52)" using l(4) by (simp add: t_def)
  ultimately have "k = min inf_mag (t * 2 ^ 52 + rhe (qx a b * 2 powi 1074 / 2 powi t))"
    unfolding k_def using pq X by (intro round_mag_value) auto
  also have "qx a b * 2 powi 1074 / 2 powi t = qx a b * 2 powi (1074 - t)"
    by (simp add: power_int_diff)
  also have "1074 - t = 52 - ?l" by (simp add: t_def)
  finally have "k = min inf_mag (t * 2 ^ 52 + ?M)" by (simp add: qm_def)
  moreover have "t * 2 ^ 52 + ?M < inf_mag" using M t0 by (auto simp: inf_mag_def)
  ultimately have k: "k = t * 2 ^ 52 + ?M" by simp
  show "0 \<le> k" "k < inf_mag" using M t0 by (auto simp: k inf_mag_def)
  have "real_of_int (mant k) * 2 powi ex k = real_of_int ?M * 2 powi t"
    unfolding k using M t0 by (intro mant_ex_pack) auto
  then have "real_of_int (mant k) * 2 powi ex k / 2 powi 1074 = real_of_int ?M * 2 powi t / 2 powi 1074" by simp
  then have "real_of_int (mant k) * 2 powi (ex k - 1074) = real_of_int ?M * 2 powi (t - 1074)"
    by (simp add: power_int_diff)
  also have "t - 1074 = ?l - 52" by (simp add: t_def)
  finally show "real_of_int (mant k) * 2 powi (ex k - 1074) = qr a b" by (simp add: qr_def)
qed

lemma float_of_int_parts:
  assumes "i \<noteq> 0" "\<bar>i\<bar> \<le> 2 ^ 53"
  shows "mag (float_of_int i) \<noteq> 0" "neg (float_of_int i) = (i < 0)" "0 < mant (mag (float_of_int i))"
    "real_of_int (mant (mag (float_of_int i))) * 2 powi (ex (mag (float_of_int i)) - 1074) = real_of_int \<bar>i\<bar>"
proof -
  let ?A = "float_of_int i"
  note A = float_of_int_exact [OF assms(2)]
  show nz: "mag ?A \<noteq> 0" using A(2) assms by (simp flip: fval_zero_iff)
  show sg: "neg ?A = (i < 0)" using fval_neg [OF A(1) nz] A by simp
  show "0 < mant (mag ?A)" using mant_ex_canon(6) [of "mag ?A"] mag_bounds(1) [of ?A] nz by auto
  show "real_of_int (mant (mag ?A)) * 2 powi (ex (mag ?A) - 1074) = real_of_int \<bar>i\<bar>"
    using A(2) sg by (cases "i < 0") (auto simp: fval_def sval_def)
qed

lemma fdiv_of_int:
  assumes i: "i \<noteq> 0" "\<bar>i\<bar> < 2 ^ 53" and b: "0 < b" "b \<le> 2 ^ 53"
  shows "isFinite (fdiv (float_of_int i) (float_of_int b))"
    and "fval (fdiv (float_of_int i) (float_of_int b)) = (if i < 0 then - qr \<bar>i\<bar> b else qr \<bar>i\<bar> b)"
proof -
  let ?A = "float_of_int i" and ?B = "float_of_int b"
  have A: "isFinite ?A" and B: "isFinite ?B" using i b by (auto simp: float_of_int_exact)
  have iA: "\<bar>i\<bar> \<le> 2 ^ 53" and iB: "b \<noteq> 0" "\<bar>b\<bar> \<le> 2 ^ 53" using i b by auto
  note pA = float_of_int_parts [OF i(1) iA] and pB = float_of_int_parts [OF iB]
  define e where "e = ex (mag ?A) - ex (mag ?B) + 1074"
  define k where "k = round_mag (mant (mag ?A)) (mant (mag ?B)) e"
  have "qx \<bar>i\<bar> b = (real_of_int (mant (mag ?A)) * 2 powi (ex (mag ?A) - 1074))
      / (real_of_int (mant (mag ?B)) * 2 powi (ex (mag ?B) - 1074))"
    unfolding pA(4) pB(4) using b by (simp add: qx_def)
  then have "real_of_int (mant (mag ?A)) / real_of_int (mant (mag ?B)) * 2 powi e = qx \<bar>i\<bar> b * 2 powi 1074"
    by (simp add: e_def power_int_diff power_int_add)
  then have k: "0 \<le> k" "k < inf_mag" "real_of_int (mant k) * 2 powi (ex k - 1074) = qr \<bar>i\<bar> b"
    using quot_round_mag [of "\<bar>i\<bar>" b "mant (mag ?A)" "mant (mag ?B)" e] i b pA(3) pB(3) by (auto simp: k_def)
  have w: "fdiv ?A ?B = mk_float (i < 0) k"
    using A B pA pB b by (simp add: fdiv_def finite_not_special Let_def k_def e_def)
  show "isFinite (fdiv ?A ?B)" using k by (simp add: w)
  show "fval (fdiv ?A ?B) = (if i < 0 then - qr \<bar>i\<bar> b else qr \<bar>i\<bar> b)"
    using k by (simp add: w fval_def sval_def inf_mag_def)
qed

lemma quot_bound:
  fixes a b :: int
  assumes "\<bar>a\<bar> < 2 ^ 53" "0 < b" shows "\<bar>a div b\<bar> \<le> 2 ^ 53"
proof -
  have "- \<bar>a\<bar> * b \<le> - \<bar>a\<bar>" "\<bar>a\<bar> \<le> \<bar>a\<bar> * b" using assms(2) by (auto simp: mult_le_cancel_left1)
  then have "- \<bar>a\<bar> * b \<le> a" "a \<le> \<bar>a\<bar> * b" by linarith+
  then have "(- \<bar>a\<bar> * b) div b \<le> a div b" "a div b \<le> (\<bar>a\<bar> * b) div b"
    using assms(2) by (auto simp only: zdiv_mono1)
  moreover have "(- \<bar>a\<bar> * b) div b = - \<bar>a\<bar>" "(\<bar>a\<bar> * b) div b = \<bar>a\<bar>"
    using assms(2) by (simp_all only: nonzero_mult_div_cancel_right less_imp_neq [symmetric] not_False_eq_True)
  ultimately show ?thesis using assms(1) by linarith
qed

theorem ffloor_quotient:
  assumes "\<bar>a\<bar> < 2 ^ 53" "0 < b" "b \<le> 2 ^ 53"
  shows "int64_of_float (ffloor (fdiv (float_of_int a) (float_of_int b))) = a div b"
proof (cases "a = 0")
  case False
  let ?w = "fdiv (float_of_int a) (float_of_int b)"
  note w = fdiv_of_int [OF False assms]
  have q: "\<lfloor>real_of_int a / real_of_int b\<rfloor> = a div b" by (simp add: floor_divide_of_int_eq)
  have ab: "0 < \<bar>a\<bar>" using False by simp
  have "\<lfloor>fval ?w\<rfloor> = a div b"
  proof (cases "a < 0")
    case True
    have "\<lfloor>- qr \<bar>a\<bar> b\<rfloor> = - \<lceil>qx \<bar>a\<bar> b\<rceil>"
      using quot_ceiling [OF ab assms(1-3)] by (simp add: floor_minus)
    also have "\<dots> = \<lfloor>real_of_int a / real_of_int b\<rfloor>" using True by (simp add: qx_def ceiling_def)
    finally show ?thesis using True w(2) q by simp
  next
    case a: False
    have "\<lfloor>qr \<bar>a\<bar> b\<rfloor> = \<lfloor>real_of_int a / real_of_int b\<rfloor>"
      using quot_floor [OF ab assms(1-3)] a by (simp add: qx_def)
    then show ?thesis using a w(2) q by simp
  qed
  then show ?thesis using fval_floor [OF w(1)] quot_bound [OF assms(1,2)] by simp
qed (use float_of_int_exact [of b] float_of_int_parts [of b] assms in
      \<open>auto simp: float_of_int_def [of 0] fdiv_def finite_not_special ffloor_def int64_of_float_def
        sval_def mant_def tdiv_def in64_def Let_def\<close>)

theorem fceil_quotient:
  assumes "\<bar>a\<bar> < 2 ^ 53" "0 < b" "b \<le> 2 ^ 53"
  shows "int64_of_float (fceil (fdiv (float_of_int a) (float_of_int b))) = - ((- a) div b)"
proof (cases "a = 0")
  case False
  let ?w = "fdiv (float_of_int a) (float_of_int b)"
  note w = fdiv_of_int [OF False assms]
  have q: "\<lceil>real_of_int a / real_of_int b\<rceil> = - ((- a) div b)"
    using floor_divide_of_int_eq [of "- a" b, where 'a = real] by (simp add: ceiling_def)
  have ab: "0 < \<bar>a\<bar>" using False by simp
  have "\<lceil>fval ?w\<rceil> = - ((- a) div b)"
  proof (cases "a < 0")
    case True
    have "\<lceil>- qr \<bar>a\<bar> b\<rceil> = - \<lfloor>qx \<bar>a\<bar> b\<rfloor>"
      using quot_floor [OF ab assms(1-3)] by (simp add: ceiling_minus)
    also have "\<dots> = \<lceil>real_of_int a / real_of_int b\<rceil>" using True by (simp add: qx_def ceiling_def)
    finally show ?thesis using True w(2) q by simp
  next
    case a: False
    have "\<lceil>qr \<bar>a\<bar> b\<rceil> = \<lceil>real_of_int a / real_of_int b\<rceil>"
      using quot_ceiling [OF ab assms(1-3)] a by (simp add: qx_def)
    then show ?thesis using a w(2) q by simp
  qed
  moreover have "\<bar>(- a) div b\<bar> \<le> 2 ^ 53" using assms by (intro quot_bound) auto
  ultimately show ?thesis using fval_ceil [OF w(1)] by simp
qed (use float_of_int_exact [of b] float_of_int_parts [of b] assms in
      \<open>auto simp: float_of_int_def [of 0] fdiv_def finite_not_special ffloor_def int64_of_float_def
        sval_def mant_def tdiv_def in64_def Let_def fceil_def fneg_def isFinite_def inf_mag_def\<close>)

end
