(* ===== verification/Encoding.thy ===== *)
theory Encoding
  imports Float64
begin

text \<open>
  The packages \<open>encoding/encoding.go\<close>, \<open>encoding/time.go\<close> and \<open>encoding/params.go\<close>: fixed-width
  integers, times and timestamped parameters on byte slices, and the rounding of times to a
  resolution.

  A \<open>time.Time\<close> is the number of nanoseconds since the Unix epoch, a HOL integer without bounds (Go's
  representation covers billions of years); \<open>zeroTime\<close> is the zero value of the type, January 1 of
  year 1.  \<open>UnixNano\<close> wraps to 64 bits and \<open>Sub\<close> saturates, as in the standard library.  A function
  that writes into its slice argument returns the new contents of that slice.

  The bytemaps of the third-party package \<open>getlantern/bytemap\<close> enter through the lookup function
  \<open>bm_get\<close>, an argument of the definitions that use them.
\<close>

section \<open>Fixed-width integers (encoding.go)\<close>

definition Width16bits :: int where "Width16bits = 2"
definition Width32bits :: int where "Width32bits = 4"
definition Width64bits :: int where "Width64bits = 8"

definition ReadInt16 :: "bytes \<Rightarrow> (int \<times> bytes) go" where
  "ReadInt16 b = do { i \<leftarrow> Uint16 b; r \<leftarrow> slice_from Width16bits b; Some (int i, r) }"

definition WriteInt16 :: "bytes \<Rightarrow> int \<Rightarrow> (bytes \<times> bytes) go" where
  "WriteInt16 b i =
     do { b' \<leftarrow> PutUint16 b (nat (i mod 2 ^ 16)); r \<leftarrow> slice_from Width16bits b'; Some (b', r) }"

definition ReadInt32 :: "bytes \<Rightarrow> (int \<times> bytes) go" where
  "ReadInt32 b = do { i \<leftarrow> Uint32 b; r \<leftarrow> slice_from Width32bits b; Some (int i, r) }"

definition WriteInt32 :: "bytes \<Rightarrow> int \<Rightarrow> (bytes \<times> bytes) go" where
  "WriteInt32 b i =
     do { b' \<leftarrow> PutUint32 b (nat (i mod 2 ^ 32)); r \<leftarrow> slice_from Width32bits b'; Some (b', r) }"

definition ReadInt64 :: "bytes \<Rightarrow> (int \<times> bytes) go" where
  "ReadInt64 b = do { i \<leftarrow> Uint64 b; r \<leftarrow> slice_from Width64bits b; Some (sint i, r) }"

definition WriteInt64 :: "bytes \<Rightarrow> int \<Rightarrow> (bytes \<times> bytes) go" where
  "WriteInt64 b i =
     do { b' \<leftarrow> PutUint64 b (word_of_int i); r \<leftarrow> slice_from Width64bits b'; Some (b', r) }"

definition Read :: "bytes \<Rightarrow> int \<Rightarrow> (bytes \<times> bytes) go" where
  "Read b l = do { x \<leftarrow> slice_to l b; r \<leftarrow> slice_from l b; Some (x, r) }"

definition ReadByteMap :: "bytes \<Rightarrow> int \<Rightarrow> (bytes \<times> bytes) go" where
  "ReadByteMap b l = do { x \<leftarrow> slice_to l b; r \<leftarrow> slice_from l b; Some (x, r) }"

definition ReadSequence :: "bytes \<Rightarrow> int \<Rightarrow> (bytes \<times> bytes) go" where
  "ReadSequence b l = Read b l"

definition Write :: "bytes \<Rightarrow> bytes \<Rightarrow> (bytes \<times> bytes) go" where
  "Write b d =
     (let b' = go_copy b d in do { r \<leftarrow> slice_from (int (length d)) b'; Some (b', r) })"

section \<open>Times (time.go and what it uses of package time)\<close>

type_synonym gotime = int
type_synonym duration = int

definition zeroTime :: gotime where "zeroTime = - 62135596800 * 10 ^ 9"

definition IsZero :: "gotime \<Rightarrow> bool" where "IsZero t \<longleftrightarrow> t = zeroTime"

definition UnixNano :: "gotime \<Rightarrow> int" where "UnixNano t = wrap64 t"

definition Sub :: "gotime \<Rightarrow> gotime \<Rightarrow> duration" where "Sub t u = sat64 (t - u)"

text \<open>\<open>Time.Round\<close>: to the nearest multiple of \<open>d\<close> since the zero time, halfway values up.\<close>

definition Round :: "gotime \<Rightarrow> duration \<Rightarrow> gotime" where
  "Round t d =
     (if d \<le> 0 then t
      else let r = (t - zeroTime) mod d in if r + r < d then t - r else t + (d - r))"

definition EncodeTime :: "bytes \<Rightarrow> gotime \<Rightarrow> bytes go" where
  "EncodeTime b ts = PutUint64 b (word_of_int (UnixNano ts))"

definition TimeIntFromBytes :: "bytes \<Rightarrow> int go" where
  "TimeIntFromBytes b = map_option sint (Uint64 b)"

definition TimeFromInt :: "int \<Rightarrow> gotime" where
  "TimeFromInt ts = (let s = tdiv ts (10 ^ 9); ns = trem ts (10 ^ 9) in s * 10 ^ 9 + ns)"

definition TimeFromBytes :: "bytes \<Rightarrow> gotime go" where
  "TimeFromBytes b = map_option TimeFromInt (TimeIntFromBytes b)"

definition TimeFromMillis :: "int \<Rightarrow> gotime" where
  "TimeFromMillis millis = TimeFromInt (wrap64 (millis * 1000000))"

definition RoundTimeUp :: "gotime \<Rightarrow> duration \<Rightarrow> gotime" where
  "RoundTimeUp ts res =
     (let rounded = Round ts res in if rounded < ts then rounded + res else rounded)"

definition RoundTimeDown :: "gotime \<Rightarrow> duration \<Rightarrow> gotime" where
  "RoundTimeDown ts res =
     (let rounded = Round ts res in if ts < rounded then rounded - res else rounded)"

definition RoundTimeUntilUp :: "gotime \<Rightarrow> duration \<Rightarrow> gotime \<Rightarrow> gotime" where
  "RoundTimeUntilUp ts res until =
     (if IsZero ts then ts
      else if IsZero until then RoundTimeUp ts res
      else let delta = Sub until ts;
               periods = wrap64 (- int64_of_float (ffloor (fdiv (float_of_int delta) (float_of_int res))))
           in until + wrap64 (periods * res))"

definition RoundTimeUntilDown :: "gotime \<Rightarrow> duration \<Rightarrow> gotime \<Rightarrow> gotime" where
  "RoundTimeUntilDown ts res until =
     (if IsZero ts then ts
      else if IsZero until then RoundTimeDown ts res
      else let delta = Sub until ts;
               periods = wrap64 (- int64_of_float (fceil (fdiv (float_of_int delta) (float_of_int res))))
           in until + wrap64 (periods * res))"

section \<open>Timestamped parameters (params.go)\<close>

text \<open>Values of Go's \<open>interface{}\<close> that dimensions and fields hold; \<open>nil\<close> is \<open>None\<close>.\<close>

datatype goval =
    GBool bool | GByte "8 word" | GUint16 "16 word" | GUint32 "32 word" | GUint64 "64 word"
  | GUint "64 word" | GInt8 "8 word" | GInt16 "16 word" | GInt32 "32 word" | GInt64 "64 word"
  | GInt "64 word" | GFloat32 "32 word" | GFloat64 float64 | GString string | GTime gotime
  | GFloat64s "float64 list" | GInts "64 word list"

type_synonym bm_get = "bytes \<Rightarrow> string \<Rightarrow> goval option"

text \<open>\<open>expr.Params.Get\<close>: a value and whether it was found; a lookup may panic.\<close>

type_synonym params = "string \<Rightarrow> (float64 \<times> bool) go"

definition NewTSParams :: "gotime \<Rightarrow> bytes \<Rightarrow> bytes go" where
  "NewTSParams ts p = do { out \<leftarrow> EncodeTime (replicate 8 0) ts; Some (out @ p) }"

definition bytemapParams_Get :: "bm_get \<Rightarrow> bytes \<Rightarrow> params" where
  "bytemapParams_Get get bmp name =
     (case get bmp name of
        None \<Rightarrow>
          (if name = ''_point'' \<and> get bmp ''_points'' = None then Some (float_of_int 1, True)
           else Some (fzero, False))
      | Some (GFloat64 v) \<Rightarrow> Some (v, True)
      | Some _ \<Rightarrow> None)"

definition TimeAndParams :: "bm_get \<Rightarrow> bytes \<Rightarrow> (gotime \<times> params) go" where
  "TimeAndParams get tsp =
     do { ts \<leftarrow> TimeFromBytes tsp; p \<leftarrow> slice_from Width64bits tsp;
          Some (ts, bytemapParams_Get get p) }"

definition TimeInt :: "bytes \<Rightarrow> int go" where
  "TimeInt tsp = TimeIntFromBytes tsp"

section \<open>Codec lemmas\<close>

lemmas width_defs = Width16bits_def Width32bits_def Width64bits_def

lemma sint_word_of_int64: "sint (word_of_int i :: u64) = wrap64 i"
proof -
  have "signed_take_bit 63 i = (i + 2 ^ 63) mod 2 ^ 64 - 2 ^ 63"
    by (simp add: signed_take_bit_eq_take_bit_shift take_bit_eq_mod)
  then show ?thesis by (simp add: sint_sbintrunc' wrap64_def)
qed

lemma TimeFromInt_id [simp]: "TimeFromInt ts = ts"
  by (simp add: TimeFromInt_def trem_def Let_def)

lemma TimeFromBytes_be [simp, codec_simps]:
  "TimeFromBytes (be 8 (unat (w :: u64)) @ r) = Some (sint w)"
  by (simp add: TimeFromBytes_def TimeIntFromBytes_def)

lemma EncodeTime_def':
  "8 \<le> length b \<Longrightarrow> EncodeTime b ts = Some (be 8 (unat (word_of_int (UnixNano ts) :: u64)) @ drop 8 b)"
  by (simp add: EncodeTime_def PutUint64_def)

section \<open>Rounding of times\<close>

text \<open>The exact characterisation of the float computation, within the range where it is exact.\<close>

lemma round_prod_in64:
  assumes "\<bar>d\<bar> < 2 ^ 53" "0 < res" "res \<le> 2 ^ 53"
  shows "in64 (- (d div res) * res)" "in64 (- (d div res))" "in64 (d div res * res)" "in64 (d div res)" "in64 d"
proof -
  have q: "\<bar>d div res\<bar> \<le> 2 ^ 53" using assms by (intro quot_bound) auto
  show "in64 (- (d div res))" "in64 (d div res)" using q by (auto intro: in64_small)
  show "in64 d" using assms by (intro in64_small) simp
  have gen: "\<bar>x\<bar> < 2 ^ 55" if "x = d - m" "0 \<le> m" "m < res" for x m
    using that assms by (simp add: abs_less_iff)
  have "\<bar>d div res * res\<bar> < 2 ^ 55"
    by (rule gen [of _ "d mod res"]) (use assms in \<open>simp_all add: minus_mod_eq_div_mult\<close>)
  then show "in64 (- (d div res) * res)" "in64 (d div res * res)" by (auto simp: in64_def abs_less_iff)
qed

lemma RoundTimeUntilUp_eq:
  assumes "\<not> IsZero ts" "\<not> IsZero until" "0 < res" "res \<le> 2 ^ 53" "\<bar>until - ts\<bar> < 2 ^ 53"
  shows "RoundTimeUntilUp ts res until = until - (until - ts) div res * res"
  using assms round_prod_in64 [of "until - ts" res]
  by (simp add: RoundTimeUntilUp_def Let_def Sub_def ffloor_quotient)

lemma RoundTimeUntilDown_eq:
  assumes "\<not> IsZero ts" "\<not> IsZero until" "0 < res" "res \<le> 2 ^ 53" "\<bar>until - ts\<bar> < 2 ^ 53"
  shows "RoundTimeUntilDown ts res until = until + (ts - until) div res * res"
proof -
  have "\<bar>ts - until\<bar> < 2 ^ 53" using assms(5) by simp
  note r = round_prod_in64 [OF this assms(3,4)]
  have "in64 (until - ts)" using assms(5) by (intro in64_small) simp
  then show ?thesis
    using assms r by (simp add: RoundTimeUntilDown_def Let_def Sub_def fceil_quotient)
qed

lemma Round_props:
  assumes "0 < res"
  shows "(Round ts res - zeroTime) mod res = 0" "\<bar>Round ts res - ts\<bar> < res"
    "Round ts res < ts \<Longrightarrow> ts < Round ts res + res"  
    "ts < Round ts res \<Longrightarrow> Round ts res - res < ts"
proof -
  define r where "r = (ts - zeroTime) mod res"
  have r: "0 \<le> r" "r < res" using assms by (auto simp: r_def)
  have R: "Round ts res = (if r + r < res then ts - r else ts + (res - r))"
    using assms by (simp add: Round_def Let_def r_def)
  have m: "(ts - r - zeroTime) mod res = 0"
  proof -
    have "(ts - zeroTime) div res * res + r = ts - zeroTime" unfolding r_def by (rule div_mult_mod_eq)
    then have "ts - r - zeroTime = (ts - zeroTime) div res * res" by simp
    then show ?thesis by simp
  qed
  have "ts + (res - r) - zeroTime = (ts - r - zeroTime) + res" by simp
  then have "(ts + (res - r) - zeroTime) mod res = 0" using m by (simp only: mod_add_self2)
  then show "(Round ts res - zeroTime) mod res = 0" using R m by simp
  show "\<bar>Round ts res - ts\<bar> < res"
    "Round ts res < ts \<Longrightarrow> ts < Round ts res + res"  
    "ts < Round ts res \<Longrightarrow> Round ts res - res < ts"
    using R r by (auto split: if_splits)
qed

lemma RoundTimeUp_bounds:
  assumes "0 < res"
  shows "ts \<le> RoundTimeUp ts res" "RoundTimeUp ts res < ts + res"
    "(RoundTimeUp ts res - zeroTime) mod res = 0"
proof -
  note r = Round_props [OF assms, of ts]
  show "ts \<le> RoundTimeUp ts res" "RoundTimeUp ts res < ts + res"
    using r(2,3) by (auto simp: RoundTimeUp_def Let_def)
  have "(Round ts res + res - zeroTime) mod res = (Round ts res - zeroTime + res) mod res"
    by (simp add: algebra_simps)
  then show "(RoundTimeUp ts res - zeroTime) mod res = 0"
    using r(1) by (simp add: RoundTimeUp_def Let_def)
qed

lemma RoundTimeDown_bounds:
  assumes "0 < res"
  shows "RoundTimeDown ts res \<le> ts" "ts < RoundTimeDown ts res + res"
    "(RoundTimeDown ts res - zeroTime) mod res = 0"
proof -
  note r = Round_props [OF assms, of ts]
  show "RoundTimeDown ts res \<le> ts" "ts < RoundTimeDown ts res + res"
    using r(2,4) by (auto simp: RoundTimeDown_def Let_def)
  have "(Round ts res - res - zeroTime) mod res = (Round ts res - zeroTime - res) mod res"
    by (simp add: algebra_simps)
  then show "(RoundTimeDown ts res - zeroTime) mod res = 0"
    using r(1) by (simp add: RoundTimeDown_def Let_def)
qed

section \<open>Properties\<close>

text \<open>
  Integers survive their encodings: reading what was written into a large enough slice gives the
  number back, with the untouched rest of the slice: all 64-bit signed numbers for \<open>WriteInt64\<close>, the
  unsigned numbers of the width for \<open>WriteInt32\<close> and \<open>WriteInt16\<close>.
\<close>

theorem int_codec_roundtrip:
  assumes "8 \<le> length b" and "in64 i"
  shows "WriteInt64 b i \<bind> (\<lambda>(b', r). ReadInt64 b') = Some (i, drop 8 b) \<and>
     (0 \<le> i \<and> i < 2 ^ 32 \<longrightarrow> WriteInt32 b i \<bind> (\<lambda>(b', r). ReadInt32 b') = Some (i, drop 4 b)) \<and>
     (0 \<le> i \<and> i < 2 ^ 16 \<longrightarrow> WriteInt16 b i \<bind> (\<lambda>(b', r). ReadInt16 b') = Some (i, drop 2 b))"
  using assms
  by (simp add: WriteInt16_def ReadInt16_def WriteInt32_def ReadInt32_def WriteInt64_def ReadInt64_def
    PutUint16_def PutUint32_def PutUint64_def Uint16_def Uint32_def width_defs slice_from_def
    unbe_be sint_word_of_int64 nat_less_iff)

theorem int_codec_roundtrip_witness:
  "WriteInt64 (replicate 9 7) (-5) \<bind> (\<lambda>(b', r). ReadInt64 b') = Some (-5, [7])"
  using int_codec_roundtrip [of "replicate 9 7" "-5"] by (simp add: in64_def numeral_eq_Suc)

text \<open>
  A timestamp written by \<open>NewTSParams\<close> is read back by \<open>TimeAndParams\<close>, together with the parameters
  that follow it, for every time within the range of 64-bit nanoseconds.
\<close>

theorem tsparams_roundtrip:
  assumes "in64 ts"
  shows "NewTSParams ts p \<bind> TimeAndParams get = Some (ts, bytemapParams_Get get p)"
  using assms
  by (simp add: NewTSParams_def TimeAndParams_def EncodeTime_def' UnixNano_def slice_from_def
    width_defs sint_word_of_int64)

theorem tsparams_roundtrip_witness:
  "NewTSParams 1500000000000000000 [1, 2] \<bind> TimeAndParams (\<lambda>_ _. None)
     = Some (1500000000000000000, bytemapParams_Get (\<lambda>_ _. None) [1, 2])"
  using tsparams_roundtrip [of 1500000000000000000 "[1, 2]" "\<lambda>_ _. None"] by (simp add: in64_def)

text \<open>
  \<open>RoundTimeUntilUp\<close> and \<open>RoundTimeUntilDown\<close> snap a time onto the grid of periods that ends at
  \<open>until\<close>: the results lie on that grid, at or after the time and less than one period away, and at or
  before it.  This holds while the distance to \<open>until\<close> is below \<open>2 ^ 53\<close> nanoseconds (about 104 days),
  the range in which the computation in \<open>float64\<close> is exact.
\<close>

theorem round_until_correct:
  assumes "\<not> IsZero ts" "\<not> IsZero until" "0 < res" "res \<le> 2 ^ 53" "\<bar>until - ts\<bar> < 2 ^ 53"
  shows "ts \<le> RoundTimeUntilUp ts res until \<and> RoundTimeUntilUp ts res until < ts + res \<and>
     res dvd until - RoundTimeUntilUp ts res until \<and>
     RoundTimeUntilDown ts res until \<le> ts \<and> ts < RoundTimeUntilDown ts res until + res \<and>
     res dvd until - RoundTimeUntilDown ts res until"
proof -
  have "(until - ts) div res * res = until - ts - (until - ts) mod res"
    "(ts - until) div res * res = ts - until - (ts - until) mod res"
    by (simp_all add: minus_mod_eq_div_mult)
  moreover have "res dvd until - RoundTimeUntilUp ts res until" "res dvd until - RoundTimeUntilDown ts res until"
    using assms by (simp_all add: RoundTimeUntilUp_eq RoundTimeUntilDown_eq)
  ultimately show ?thesis using assms pos_mod_bound [of res] pos_mod_sign [of res]
    by (simp add: RoundTimeUntilUp_eq RoundTimeUntilDown_eq)
qed

theorem round_until_correct_witness:
  "120 * 10 ^ 9 \<le> RoundTimeUntilUp (120 * 10 ^ 9) (60 * 10 ^ 9) (150 * 10 ^ 9) \<and>
   60 * 10 ^ 9 dvd 150 * 10 ^ 9 - RoundTimeUntilUp (120 * 10 ^ 9) (60 * 10 ^ 9) (150 * 10 ^ 9)"
  using round_until_correct [of "120 * 10 ^ 9" "150 * 10 ^ 9" "60 * 10 ^ 9"]
  by (simp add: IsZero_def zeroTime_def)

text \<open>
  \<open>RoundTimeUp\<close> and \<open>RoundTimeDown\<close> snap every time onto the multiples of the resolution since the
  zero time, upwards and downwards by less than one period.
\<close>

theorem round_time_correct:
  assumes "0 < res"
  shows "ts \<le> RoundTimeUp ts res \<and> RoundTimeUp ts res < ts + res \<and>
     res dvd RoundTimeUp ts res - zeroTime \<and>
     RoundTimeDown ts res \<le> ts \<and> ts < RoundTimeDown ts res + res \<and>
     res dvd RoundTimeDown ts res - zeroTime"
  using RoundTimeUp_bounds [OF assms, of ts] RoundTimeDown_bounds [OF assms, of ts]
  by (simp add: dvd_eq_mod_eq_0)

theorem round_time_correct_witness:
  "120 \<le> RoundTimeUp 120 7 \<and> RoundTimeUp 120 7 < 127"
  using round_time_correct [of 7 120] by simp

text \<open>
  Beyond that range the float computation is off: at a distance of about 104 days \<open>RoundTimeUntilUp\<close>
  with a resolution of one second rounds a time down by a nanosecond.
\<close>

theorem round_until_up_can_round_down:
  "RoundTimeUntilUp 1 1000000000 9007200000000000 < 1"
  by code_simp

end
