(* ===== verification/Expr.thy ===== *)
theory Expr
  imports Encoding
begin

text \<open>
  The package \<open>expr\<close>: expressions that keep their state in a byte slice.  The datatype has one
  constructor per struct of the package, with the struct's fields; the interface methods are
  functions by recursion on it.  \<open>Update\<close>, \<open>Merge\<close> and \<open>Get\<close> return how many bytes they consumed, so
  that the Go result \<open>remain\<close> is the rest of the slice after that many bytes; a slice that is written
  is returned with its new contents.  \<open>None\<close> is a panic.

  What the package takes from other packages is the record \<open>ext\<close>: evaluation and printing of the
  conditions of \<open>getlantern/goexpr\<close>, the histograms of \<open>HdrHistogram/hdrhistogram-go\<close>, the logarithms
  of \<open>math\<close> and the printing of floats and durations by \<open>fmt\<close>.
\<close>

type_synonym goparams = "string \<Rightarrow> goval option"
type_synonym metadata = "goparams option"

datatype mathfn = LN | LOG2 | LOG10

record ('c, 'h) ext =
  ge_eval :: "'c \<Rightarrow> goparams \<Rightarrow> goval option"
  ge_string :: "'c \<Rightarrow> string"
  fmt_f :: "float64 \<Rightarrow> string"
  fmt_v :: "float64 \<Rightarrow> string"
  fmt_dur :: "duration \<Rightarrow> string"
  parse_float :: "string \<Rightarrow> float64 option"
  math_log :: "mathfn \<Rightarrow> float64 \<Rightarrow> float64"
  hdr_new :: "int \<Rightarrow> int \<Rightarrow> int \<Rightarrow> 'h"
  hdr_import :: "int \<Rightarrow> int \<Rightarrow> int \<Rightarrow> int list \<Rightarrow> 'h"
  hdr_export :: "'h \<Rightarrow> int list"
  hdr_record :: "'h \<Rightarrow> int \<Rightarrow> 'h"
  hdr_merge :: "'h \<Rightarrow> 'h \<Rightarrow> 'h"
  hdr_quantile :: "'h \<Rightarrow> float64 \<Rightarrow> int"

section \<open>Expressions\<close>

datatype agg = AggSum | AggMin | AggMax | AggCount

datatype binop = Plus | Minus | Times | Divide | LT | LTE | EQ | NEQ | GTE | GT | And | Or

datatype 'c expr =
    Field string
  | Constant float64
  | Bounded (b_wrapped: "'c expr") float64 float64
  | Aggregate agg "'c expr"
  | IfExpr "'c option" "'c expr" int
  | Avg "'c expr" "'c expr"
  | Binary binop "'c expr" "'c expr" bool
  | Shift "'c expr" duration int
  | UnaryMath mathfn "'c expr" int
  | Ptile "'c expr" "'c expr" int int int int int
  | PtileOptimized "'c expr" "'c expr" int int int int int "'c expr"

section \<open>Aggregates and calculations (aggregates.go, calcs.go, conds.go, math.go)\<close>

fun agg_name :: "agg \<Rightarrow> string" where
  "agg_name AggSum = ''SUM''"
| "agg_name AggMin = ''MIN''"
| "agg_name AggMax = ''MAX''"
| "agg_name AggCount = ''COUNT''"

fun agg_update :: "agg \<Rightarrow> bool \<Rightarrow> float64 \<Rightarrow> float64 \<Rightarrow> float64" where
  "agg_update AggSum wasSet current nxt = fadd current nxt"
| "agg_update AggMin wasSet current nxt =
     (if \<not> wasSet then nxt else if flt nxt current then nxt else current)"
| "agg_update AggMax wasSet current nxt =
     (if \<not> wasSet then nxt else if flt current nxt then nxt else current)"
| "agg_update AggCount wasSet current nxt = fadd current (float_of_int 1)"

fun agg_merge :: "agg \<Rightarrow> bool \<Rightarrow> float64 \<Rightarrow> float64 \<Rightarrow> float64" where
  "agg_merge AggSum wasSet current nxt = fadd current nxt"
| "agg_merge AggMin wasSet current nxt =
     (if \<not> wasSet then nxt else if flt nxt current then nxt else current)"
| "agg_merge AggMax wasSet current nxt =
     (if \<not> wasSet then nxt else if flt current nxt then nxt else current)"
| "agg_merge AggCount wasSet current nxt = fadd current nxt"

definition aggregateFor :: "string \<Rightarrow> 'c expr \<Rightarrow> 'c expr option" where
  "aggregateFor name wrapped =
     (if name = ''SUM'' then Some (Aggregate AggSum wrapped)
      else if name = ''MIN'' then Some (Aggregate AggMin wrapped)
      else if name = ''MAX'' then Some (Aggregate AggMax wrapped)
      else if name = ''COUNT'' then Some (Aggregate AggCount wrapped)
      else None)"

definition cond :: "bool \<Rightarrow> float64" where
  "cond c = (if c then float_of_int 1 else fzero)"

fun calc :: "binop \<Rightarrow> float64 \<Rightarrow> float64 \<Rightarrow> float64" where
  "calc Plus left right = fadd left right"
| "calc Minus left right = fsub left right"
| "calc Times left right = fmul left right"
| "calc Divide left right =
     (if feq right fzero then (if feq left fzero then fzero else MaxFloat64) else fdiv left right)"
| "calc LT left right = cond (flt left right)"
| "calc LTE left right = cond (fle left right)"
| "calc EQ left right = cond (feq left right)"
| "calc NEQ left right = cond (\<not> feq left right)"
| "calc GTE left right = cond (fle right left)"
| "calc GT left right = cond (flt right left)"
| "calc And left right = cond (flt fzero left \<and> flt fzero right)"
| "calc Or left right = cond (flt fzero left \<or> flt fzero right)"

fun op_name :: "binop \<Rightarrow> string" where
  "op_name Plus = ''+''"
| "op_name Minus = ''-''"
| "op_name Times = ''*''"
| "op_name Divide = ''/''"
| "op_name LT = ''<''"
| "op_name LTE = ''<=''"
| "op_name EQ = ''=''"
| "op_name NEQ = ''<>''"
| "op_name GTE = ''>=''"
| "op_name GT = ''>''"
| "op_name And = ''AND''"
| "op_name Or = ''OR''"

fun math_name :: "mathfn \<Rightarrow> string" where
  "math_name LN = ''LN''"
| "math_name LOG2 = ''LOG2''"
| "math_name LOG10 = ''LOG10''"

section \<open>Percentile scaling (percentile.go, math.Pow10)\<close>

definition Pow10 :: "int \<Rightarrow> float64" where
  "Pow10 n =
     (if 0 \<le> n \<and> n \<le> 308
      then fmul (float_of_int (10 ^ (32 * (nat n div 32)))) (float_of_int (10 ^ (nat n mod 32)))
      else if - 323 \<le> n \<and> n \<le> 0
      then fdiv (mk_float False (round_mag 1 (10 ^ (32 * (nat (- n) div 32))) 1074))
                (float_of_int (10 ^ (nat (- n) mod 32)))
      else if 0 < n then mk_float False inf_mag else fzero)"

definition scaleToInt :: "float64 \<Rightarrow> int \<Rightarrow> int" where
  "scaleToInt value precision = int64_of_float (fmul value (Pow10 precision))"

definition scaleFromFloat :: "float64 \<Rightarrow> int \<Rightarrow> float64" where
  "scaleFromFloat value precision = fdiv value (Pow10 precision)"

definition scaleFromInt :: "int \<Rightarrow> int \<Rightarrow> float64" where
  "scaleFromInt value precision = scaleFromFloat (float_of_int value) precision"

section \<open>Printing, widths and shifts\<close>

definition itoa_digit :: "nat \<Rightarrow> char" where
  "itoa_digit d = char_of (48 + d)"

fun itoa_nat :: "nat \<Rightarrow> string" where
  "itoa_nat n = (if n < 10 then [itoa_digit n] else itoa_nat (n div 10) @ [itoa_digit (n mod 10)])"

declare itoa_nat.simps [simp del]

definition itoa :: "int \<Rightarrow> string" where
  "itoa i = (if i < 0 then CHR ''-'' # itoa_nat (nat (- i)) else itoa_nat (nat i))"

fun String :: "('c, 'h) ext \<Rightarrow> 'c expr \<Rightarrow> string" where
  "String X (Field name) = name"
| "String X (Constant v) = fmt_f X v"
| "String X (Bounded w mn mx) =
     ''BOUNDED('' @ String X w @ '', '' @ fmt_v X mn @ '', '' @ fmt_v X mx @ '')''"
| "String X (Aggregate a w) = agg_name a @ ''('' @ String X w @ '')''"
| "String X (IfExpr c w width) =
     ''IF('' @ (case c of None \<Rightarrow> ''<nil>'' | Some g \<Rightarrow> ge_string X g) @ '', '' @ String X w @ '')''"
| "String X (Avg v weight) = ''AVG('' @ String X v @ '')''"
| "String X (Binary op l r deagg) =
     ''('' @ String X l @ '' '' @ op_name op @ '' '' @ String X r @ '')''"
| "String X (Shift w off width) = ''SHIFT('' @ String X w @ '', '' @ fmt_dur X off @ '')''"
| "String X (UnaryMath f w width) = math_name f @ ''('' @ String X w @ '')''"
| "String X (Ptile v p mn mx prec hdr width) =
     ''PERCENTILE('' @ String X v @ '', '' @ String X p @ '', '' @ itoa mn @ '', '' @ itoa mx @
       '', '' @ itoa prec @ '')''"
| "String X (PtileOptimized v p mn mx prec hdr width p2) =
     ''PERCENTILE('' @ (''PERCENTILE('' @ String X v @ '', '' @ String X p @ '', '' @ itoa mn @
       '', '' @ itoa mx @ '', '' @ itoa prec @ '')'') @ '', '' @ String X p2 @ '')''"

fun EncodedWidth :: "'c expr \<Rightarrow> int" where
  "EncodedWidth (Field _) = 0"
| "EncodedWidth (Constant _) = 0"
| "EncodedWidth (Bounded w _ _) = EncodedWidth w"
| "EncodedWidth (Aggregate _ w) = 1 + 8 + EncodedWidth w"
| "EncodedWidth (IfExpr _ _ width) = width"
| "EncodedWidth (Avg v _) = 8 * 2 + 1 + EncodedWidth v"
| "EncodedWidth (Binary _ l r _) = EncodedWidth l + EncodedWidth r"
| "EncodedWidth (Shift _ _ width) = width"
| "EncodedWidth (UnaryMath _ _ width) = width"
| "EncodedWidth (Ptile _ _ _ _ _ _ width) = width"
| "EncodedWidth (PtileOptimized _ _ _ _ _ _ width _) = width"

fun ShiftOf :: "'c expr \<Rightarrow> duration" where
  "ShiftOf (Field _) = 0"
| "ShiftOf (Constant _) = 0"
| "ShiftOf (Bounded w _ _) = ShiftOf w"
| "ShiftOf (Aggregate _ w) = ShiftOf w"
| "ShiftOf (IfExpr _ w _) = ShiftOf w"
| "ShiftOf (Avg v weight) = (let a = ShiftOf v; b = ShiftOf weight in if a < b then a else b)"
| "ShiftOf (Binary _ l r _) = (let a = ShiftOf l; b = ShiftOf r in if a < b then a else b)"
| "ShiftOf (Shift w off _) = wrap64 (off + ShiftOf w)"
| "ShiftOf (UnaryMath _ w _) = ShiftOf w"
| "ShiftOf (Ptile v p _ _ _ _ _) = (let a = ShiftOf v; b = ShiftOf p in if a < b then a else b)"
| "ShiftOf (PtileOptimized v p _ _ _ _ _ _) =
     (let a = ShiftOf v; b = ShiftOf p in if a < b then a else b)"

fun IsConstant :: "'c expr \<Rightarrow> bool" where
  "IsConstant (Field _) = False"
| "IsConstant (Constant _) = True"
| "IsConstant (Bounded w _ _) = IsConstant w"
| "IsConstant (Aggregate _ w) = IsConstant w"
| "IsConstant (IfExpr _ w _) = IsConstant w"
| "IsConstant (Avg v _) = IsConstant v"
| "IsConstant (Binary _ l r _) = (IsConstant l \<and> IsConstant r)"
| "IsConstant (Shift w _ _) = IsConstant w"
| "IsConstant (UnaryMath _ w _) = IsConstant w"
| "IsConstant (Ptile v _ _ _ _ _ _) = IsConstant v"
| "IsConstant (PtileOptimized v _ _ _ _ _ _ _) = IsConstant v"

section \<open>Constructors\<close>

definition AVG :: "'c expr \<Rightarrow> 'c expr" where "AVG val = Avg val (Constant (float_of_int 1))"
definition WAVG :: "'c expr \<Rightarrow> 'c expr \<Rightarrow> 'c expr" where "WAVG val weight = Avg val weight"
definition IF :: "'c option \<Rightarrow> 'c expr \<Rightarrow> 'c expr" where
  "IF c w = IfExpr c w (EncodedWidth w)"
definition SHIFT :: "'c expr \<Rightarrow> duration \<Rightarrow> 'c expr" where
  "SHIFT w off = Shift w off (EncodedWidth w)"
definition BOUNDED :: "'c expr \<Rightarrow> float64 \<Rightarrow> float64 \<Rightarrow> 'c expr" where
  "BOUNDED w mn mx = Bounded w mn mx"
definition UnaryMathFor :: "mathfn \<Rightarrow> 'c expr \<Rightarrow> 'c expr" where
  "UnaryMathFor f w = UnaryMath f w (EncodedWidth w)"
definition binaryExprFor :: "binop \<Rightarrow> 'c expr \<Rightarrow> 'c expr \<Rightarrow> 'c expr" where
  "binaryExprFor op l r = Binary op l r False"

text \<open>\<open>exprFor\<close>: an expression stands for itself, a numeric string or number for a constant, any
  other string for a field.\<close>

datatype 'c exprarg = AExpr "'c expr" | AString string | AInt int | AFloat float64

fun exprFor :: "('c, 'h) ext \<Rightarrow> 'c exprarg \<Rightarrow> 'c expr" where
  "exprFor X (AExpr e) = e"
| "exprFor X (AString s) = (case parse_float X s of Some v \<Rightarrow> Constant v | None \<Rightarrow> Field s)"
| "exprFor X (AInt i) = Constant (float_of_int i)"
| "exprFor X (AFloat v) = Constant v"

fun DeAggregate :: "'c expr \<Rightarrow> 'c expr go" where
  "DeAggregate (Field n) = Some (Field n)"
| "DeAggregate (Constant v) = Some (Constant v)"
| "DeAggregate (Bounded w mn mx) = do { w' \<leftarrow> DeAggregate w; Some (BOUNDED w' mn mx) }"
| "DeAggregate (Aggregate _ w) = DeAggregate w"
| "DeAggregate (IfExpr c w _) = do { w' \<leftarrow> DeAggregate w; Some (IF c w') }"
| "DeAggregate (Avg v _) = DeAggregate v"
| "DeAggregate (Binary op l r _) =
     do { l' \<leftarrow> DeAggregate l; r' \<leftarrow> DeAggregate r; Some (Binary op l' r' True) }"
| "DeAggregate (Shift w off _) = do { w' \<leftarrow> DeAggregate w; Some (SHIFT w' off) }"
| "DeAggregate (UnaryMath f w _) = do { w' \<leftarrow> DeAggregate w; Some (UnaryMathFor f w') }"
| "DeAggregate (Ptile v _ _ _ _ _ _) = (case v of Bounded w _ _ \<Rightarrow> DeAggregate w | _ \<Rightarrow> None)"
| "DeAggregate (PtileOptimized v _ _ _ _ _ _ _) =
     (case v of Bounded w _ _ \<Rightarrow> DeAggregate w | _ \<Rightarrow> None)"

definition PERCENTILE :: "('c, 'h) ext \<Rightarrow> 'c expr \<Rightarrow> 'c expr \<Rightarrow> float64 \<Rightarrow> float64 \<Rightarrow> int \<Rightarrow> 'c expr go" where
  "PERCENTILE X value percentile mn mx precision =
     do { valueExpr \<leftarrow> DeAggregate value;
          let hdrPrecision = (if precision < 1 then 1 else if precision > 5 then 5 else precision);
          let numCounts = int (length (hdr_export X
                (hdr_new X (scaleToInt mn precision) (scaleToInt mx precision) hdrPrecision)));
          Some (Ptile (BOUNDED valueExpr mn mx) percentile (scaleToInt mn precision)
                 (scaleToInt mx precision) precision hdrPrecision
                 ((1 + numCounts) * 8 + EncodedWidth valueExpr)) }"

fun PERCENTILEOPT :: "'c expr \<Rightarrow> 'c expr \<Rightarrow> 'c expr go" where
  "PERCENTILEOPT (PtileOptimized v p mn mx prec hdr width _) percentile =
     Some (PtileOptimized v p mn mx prec hdr width percentile)"
| "PERCENTILEOPT (Ptile v p mn mx prec hdr width) percentile =
     Some (PtileOptimized v p mn mx prec hdr width percentile)"
| "PERCENTILEOPT _ percentile = None"

fun IsPercentile :: "'c expr \<Rightarrow> bool" where
  "IsPercentile (Ptile _ _ _ _ _ _ _) = True"
| "IsPercentile (PtileOptimized _ _ _ _ _ _ _ _) = True"
| "IsPercentile _ = False"

section \<open>Validation\<close>

datatype 'c invalid = BadAggregate "'c expr" | BadWeight "'c expr" | BadPercentile "'c expr"
  | BadBinary "'c expr"

fun agg_wrappable :: "'c expr \<Rightarrow> bool" where
  "agg_wrappable (Field _) = True"
| "agg_wrappable (Constant _) = True"
| "agg_wrappable (Bounded _ _ _) = True"
| "agg_wrappable _ = False"

fun bin_wrappable :: "'c expr \<Rightarrow> bool" where
  "bin_wrappable (Aggregate _ _) = True"
| "bin_wrappable (IfExpr _ _ _) = True"
| "bin_wrappable (Avg _ _) = True"
| "bin_wrappable (Constant _) = True"
| "bin_wrappable (Shift _ _ _) = True"
| "bin_wrappable (UnaryMath _ _ _) = True"
| "bin_wrappable (Ptile _ _ _ _ _ _ _) = True"
| "bin_wrappable (PtileOptimized _ _ _ _ _ _ _ _) = True"
| "bin_wrappable _ = False"

fun is_binary :: "'c expr \<Rightarrow> bool" where
  "is_binary (Binary _ _ _ _) = True"
| "is_binary _ = False"

text \<open>\<open>None\<close> is the Go result \<open>nil\<close>: no error.  \<open>v\<close> is the \<open>Validate\<close> of the wrapped expression.\<close>

definition validateWrappedInAggregate :: "'c expr \<Rightarrow> 'c invalid option \<Rightarrow> 'c invalid option" where [simp]:
  "validateWrappedInAggregate w v = (if agg_wrappable w then v else Some (BadAggregate w))"

definition validateWrappedInBinary :: "bool \<Rightarrow> 'c expr \<Rightarrow> 'c invalid option \<Rightarrow> 'c invalid option" where [simp]:
  "validateWrappedInBinary deagg w v =
     (if bin_wrappable w then None else if is_binary w then v
      else if deagg then None else Some (BadBinary w))"

definition avg_Validate :: "'c expr \<Rightarrow> 'c expr \<Rightarrow> 'c invalid option \<Rightarrow> 'c invalid option" where [simp]:
  "avg_Validate v weight vv =
     (case validateWrappedInAggregate v vv of
        Some e \<Rightarrow> Some e
      | None \<Rightarrow> if EncodedWidth weight > 0 then Some (BadWeight weight) else None)"

definition binary_Validate :: "bool \<Rightarrow> 'c expr \<Rightarrow> 'c expr \<Rightarrow> 'c invalid option \<Rightarrow> 'c invalid option \<Rightarrow> 'c invalid option" where [simp]:
  "binary_Validate deagg l r vl vr =
     (case validateWrappedInBinary deagg l vl of
        Some e \<Rightarrow> Some e
      | None \<Rightarrow> validateWrappedInBinary deagg r vr)"

definition ptile_Validate :: "'c expr \<Rightarrow> 'c expr \<Rightarrow> 'c invalid option \<Rightarrow> 'c invalid option" where [simp]:
  "ptile_Validate v p vv =
     (case validateWrappedInAggregate v vv of
        Some e \<Rightarrow> Some e
      | None \<Rightarrow> if EncodedWidth p > 0 then Some (BadPercentile p) else None)"

fun Validate :: "'c expr \<Rightarrow> 'c invalid option" where
  "Validate (Field _) = None"
| "Validate (Constant _) = None"
| "Validate (Bounded w _ _) = Validate w"
| "Validate (Aggregate _ w) = validateWrappedInAggregate w (Validate w)"
| "Validate (IfExpr _ w _) = Validate w"
| "Validate (Avg v weight) = avg_Validate v weight (Validate v)"
| "Validate (Binary _ l r deagg) = binary_Validate deagg l r (Validate l) (Validate r)"
| "Validate (Shift w _ _) = Validate w"
| "Validate (UnaryMath _ w _) = Validate w"
| "Validate (Ptile v p _ _ _ _ _) = ptile_Validate v p (Validate v)"
| "Validate (PtileOptimized v p _ _ _ _ _ _) = ptile_Validate v p (Validate v)"

end
