(* ===== verification/ExprState.thy ===== *)
theory ExprState
  imports Expr
begin

text \<open>
  The state of an expression in a byte slice: the methods \<open>Update\<close>, \<open>Get\<close>, \<open>Merge\<close> and
  \<open>SubMergers\<close> of every expression type of package \<open>expr\<close>.  \<open>Update\<close> and \<open>Merge\<close> return the new
  contents of the slice they write, then the number of bytes consumed.
\<close>

section \<open>Stored values\<close>

text \<open>\<open>aggregate.load\<close> and \<open>aggregate.save\<close>: a flag byte and a float.\<close>

definition agg_load :: "bytes \<Rightarrow> (float64 \<times> bool) go" where
  "agg_load b =
     (if length b < 9 then None
      else if b ! 0 = 1 then map_option (\<lambda>v. (v, True)) (Uint64 (drop 1 b))
      else Some (fzero, False))"

definition agg_save :: "bytes \<Rightarrow> float64 \<Rightarrow> bytes go" where
  "agg_save b value = (if length b < 9 then None else Some (1 # be 8 (unat value) @ drop 9 b))"

text \<open>\<open>avg.load\<close> and \<open>avg.save\<close>: a flag byte, the count and the total.\<close>

definition avg_load :: "bytes \<Rightarrow> (float64 \<times> float64 \<times> bool) go" where
  "avg_load b =
     (if length b < 17 then None
      else if b ! 0 = 1
      then do { c \<leftarrow> Uint64 (drop 1 b); t \<leftarrow> Uint64 (drop 9 b); Some (c, t, True) }
      else Some (fzero, fzero, False))"

definition avg_save :: "bytes \<Rightarrow> float64 \<Rightarrow> float64 \<Rightarrow> bytes go" where
  "avg_save b count tot =
     (if length b < 17 then None
      else Some (1 # be 8 (unat count) @ be 8 (unat tot) @ drop 17 b))"

definition avg_calc :: "float64 \<Rightarrow> float64 \<Rightarrow> float64" where
  "avg_calc count tot = (if feq count fzero then fzero else fdiv tot count)"

text \<open>\<open>ptile.load\<close> and \<open>ptile.save\<close>: the number of counts, then the counts of the histogram.\<close>

fun read_counts :: "nat \<Rightarrow> bytes \<Rightarrow> int list go" where
  "read_counts 0 b = Some []"
| "read_counts (Suc n) b =
     do { c \<leftarrow> Uint64 b; cs \<leftarrow> read_counts n (drop 8 b); Some (sint c # cs) }"

definition ptile_load :: "('c, 'h) ext \<Rightarrow> int \<Rightarrow> int \<Rightarrow> int \<Rightarrow> int \<Rightarrow> bytes \<Rightarrow> ('h \<times> bool) go" where
  "ptile_load X mn mx hdr width b =
     do { remain \<leftarrow> slice_from width b;
          n \<leftarrow> Uint64 b;
          if sint n > 0
          then do { cs \<leftarrow> read_counts (nat (sint n)) (drop 8 b); Some (hdr_import X mn mx hdr cs, True) }
          else Some (hdr_new X mn mx hdr, False) }"

fun put_counts :: "bytes \<Rightarrow> int list \<Rightarrow> bytes go" where
  "put_counts b [] = Some b"
| "put_counts b (c # cs) =
     do { b' \<leftarrow> PutUint64 b (word_of_int c); r \<leftarrow> put_counts (drop 8 b') cs; Some (take 8 b' @ r) }"

definition ptile_save :: "('c, 'h) ext \<Rightarrow> int \<Rightarrow> bytes \<Rightarrow> 'h \<Rightarrow> bytes go" where
  "ptile_save X width b histo =
     (let counts = hdr_export X histo in
      do { b' \<leftarrow> put_counts b (int (length counts) # counts); r \<leftarrow> slice_from width b'; Some b' })"

definition ptile_calc :: "('c, 'h) ext \<Rightarrow> int \<Rightarrow> 'h \<Rightarrow> float64 \<Rightarrow> float64" where
  "ptile_calc X prec histo percentile = scaleFromInt (hdr_quantile X histo percentile) prec"

text \<open>\<open>ifExpr.include\<close> and \<open>bounded.test\<close>.\<close>

definition if_include :: "('c, 'h) ext \<Rightarrow> 'c option \<Rightarrow> metadata \<Rightarrow> bool" where
  "if_include X c md =
     (case (md, c) of
        (Some m, Some g) \<Rightarrow> (case ge_eval X g m of Some (GBool v) \<Rightarrow> v | _ \<Rightarrow> False)
      | _ \<Rightarrow> True)"

definition bounded_test :: "float64 \<Rightarrow> float64 \<Rightarrow> float64 \<Rightarrow> bool" where
  "bounded_test mn mx val \<longleftrightarrow> fle mn val \<and> fle val mx"

section \<open>Get\<close>

text \<open>
  The methods of the expression types, one definition for each body that does more than pass the call on.
  The wrapped expressions are reached through the interface, so a body takes their methods as arguments;
  the functions over the data type at the end of each section are the dispatch of the interface \<open>Expr\<close>.
\<close>

type_synonym get_fn = "bytes \<Rightarrow> (float64 \<times> bool \<times> nat) go"

definition bounded_Get :: "float64 \<Rightarrow> float64 \<Rightarrow> get_fn \<Rightarrow> get_fn" where [simp]:
  "bounded_Get mn mx getW b =
     do { (val, wasSet, n) \<leftarrow> getW b;
          if \<not> wasSet \<or> \<not> bounded_test mn mx val then Some (fzero, False, n)
          else Some (val, wasSet, n) }"

definition aggregate_Get :: get_fn where [simp]:
  "aggregate_Get b = do { (v, wasSet) \<leftarrow> agg_load b; Some (v, wasSet, 9) }"

definition avg_Get :: get_fn where [simp]:
  "avg_Get b =
     do { (count, tot, wasSet) \<leftarrow> avg_load b;
          Some (if wasSet then avg_calc count tot else fzero, wasSet, 17) }"

definition binary_Get :: "binop \<Rightarrow> get_fn \<Rightarrow> get_fn \<Rightarrow> get_fn" where [simp]:
  "binary_Get op getL getR b =
     do { (vl, sl, nl) \<leftarrow> getL b;
          (vr, sr, nr) \<leftarrow> getR (drop nl b);
          if \<not> sl \<and> \<not> sr then Some (fzero, False, nl + nr)
          else Some (calc op vl vr, True, nl + nr) }"

definition unaryMath_Get :: "('c, 'h) ext \<Rightarrow> mathfn \<Rightarrow> get_fn \<Rightarrow> get_fn" where [simp]:
  "unaryMath_Get X f getW b =
     do { (val, found, n) \<leftarrow> getW b;
          Some (if found then math_log X f val else val, found, n) }"

definition ptile_Get :: "('c, 'h) ext \<Rightarrow> int \<Rightarrow> int \<Rightarrow> int \<Rightarrow> int \<Rightarrow> int \<Rightarrow> get_fn \<Rightarrow> get_fn" where [simp]:
  "ptile_Get X mn mx prec hdr width getP b =
     do { (histo, wasSet) \<leftarrow> ptile_load X mn mx hdr width b;
          (percentile, _, n) \<leftarrow> getP (drop (nat width) b);
          Some (if wasSet then ptile_calc X prec histo percentile else fzero, wasSet, nat width + n) }"

definition ptileOptimized_Get :: "('c, 'h) ext \<Rightarrow> int \<Rightarrow> int \<Rightarrow> int \<Rightarrow> int \<Rightarrow> int \<Rightarrow> get_fn \<Rightarrow> get_fn" where [simp]:
  "ptileOptimized_Get X mn mx prec hdr width getP2 b =
     do { (histo, wasSet) \<leftarrow> ptile_load X mn mx hdr width b;
          (percentile, _, n) \<leftarrow> getP2 (drop (nat width) b);
          Some (if wasSet then ptile_calc X prec histo percentile else fzero, wasSet, nat width + n) }"

fun Get :: "('c, 'h) ext \<Rightarrow> 'c expr \<Rightarrow> bytes \<Rightarrow> (float64 \<times> bool \<times> nat) go" where
  "Get X (Field _) b = Some (fzero, False, 0)"
| "Get X (Constant v) b = Some (v, True, 0)"
| "Get X (Bounded w mn mx) b = bounded_Get mn mx (Get X w) b"
| "Get X (Aggregate _ _) b = aggregate_Get b"
| "Get X (IfExpr _ w _) b = Get X w b"
| "Get X (Avg _ _) b = avg_Get b"
| "Get X (Binary op l r _) b = binary_Get op (Get X l) (Get X r) b"
| "Get X (Shift w _ _) b = Get X w b"
| "Get X (UnaryMath f w _) b = unaryMath_Get X f (Get X w) b"
| "Get X (Ptile v p mn mx prec hdr width) b = ptile_Get X mn mx prec hdr width (Get X p) b"
| "Get X (PtileOptimized v p mn mx prec hdr width p2) b = ptileOptimized_Get X mn mx prec hdr width (Get X p2) b"

section \<open>Update\<close>

type_synonym update_fn = "bytes \<Rightarrow> (bytes \<times> nat \<times> float64 \<times> bool) go"

text \<open>
  The common body of \<open>ptile.Update\<close>, which \<open>ptileOptimized\<close> inherits: \<open>upV\<close> and \<open>upP\<close> update the
  value and the percentile in the rest of the slice.
\<close>

definition ptile_update ::
  "('c, 'h) ext \<Rightarrow> int \<Rightarrow> int \<Rightarrow> int \<Rightarrow> int \<Rightarrow> int \<Rightarrow> update_fn \<Rightarrow> update_fn \<Rightarrow> update_fn" where
  "ptile_update X mn mx prec hdr width upV upP b =
     do { (histo, _) \<leftarrow> ptile_load X mn mx hdr width b;
          (r1, n1, value, updated) \<leftarrow> upV (drop (nat width) b);
          (r2, n2, percentile, _) \<leftarrow> upP (drop n1 r1);
          let b1 = take (nat width) b @ take n1 r1 @ r2;
          let n = nat width + n1 + n2;
          if updated
          then (let histo' = hdr_record X histo (scaleToInt value prec) in
                do { b2 \<leftarrow> ptile_save X width b1 histo';
                     Some (b2, n, ptile_calc X prec histo' percentile, True) })
          else Some (b1, n, ptile_calc X prec histo percentile, False) }"

definition bounded_Update :: "float64 \<Rightarrow> float64 \<Rightarrow> update_fn \<Rightarrow> update_fn" where [simp]:
  "bounded_Update mn mx upW b =
     do { (b', n, value, updated) \<leftarrow> upW b;
          if bounded_test mn mx value then Some (b', n, value, updated)
          else Some (b', n, fzero, False) }"

definition aggregate_Update :: "agg \<Rightarrow> update_fn \<Rightarrow> update_fn" where [simp]:
  "aggregate_Update a upW b =
     do { (value, wasSet) \<leftarrow> agg_load b;
          (more, n, wrappedValue, updated) \<leftarrow> upW (drop 9 b);
          let b1 = take 9 b @ more;
          if updated
          then (let value' = agg_update a wasSet value wrappedValue in
                do { b2 \<leftarrow> agg_save b1 value'; Some (b2, 9 + n, value', True) })
          else Some (b1, 9 + n, value, False) }"

definition if_Update :: "('c, 'h) ext \<Rightarrow> 'c option \<Rightarrow> metadata \<Rightarrow> get_fn \<Rightarrow> update_fn \<Rightarrow> update_fn" where [simp]:
  "if_Update X c md getW upW b =
     (if if_include X c md then upW b
      else do { (value, _, n) \<leftarrow> getW b; Some (b, n, value, False) })"

definition avg_Update :: "update_fn \<Rightarrow> update_fn \<Rightarrow> update_fn" where [simp]:
  "avg_Update upV upW b =
     do { (count, tot, _) \<leftarrow> avg_load b;
          (r1, n1, value, updated) \<leftarrow> upV (drop 17 b);
          (r2, n2, wt, _) \<leftarrow> upW (drop n1 r1);
          let b1 = take 17 b @ take n1 r1 @ r2;
          let n = 17 + n1 + n2;
          if updated
          then (let count' = fadd count wt; tot' = fadd tot (fmul value wt) in
                do { b2 \<leftarrow> avg_save b1 count' tot'; Some (b2, n, avg_calc count' tot', True) })
          else Some (b1, n, avg_calc count tot, False) }"

definition binary_Update :: "binop \<Rightarrow> update_fn \<Rightarrow> update_fn \<Rightarrow> update_fn" where [simp]:
  "binary_Update op upL upR b =
     do { (b1, nl, leftValue, updatedLeft) \<leftarrow> upL b;
          (s, nr, rightValue, updatedRight) \<leftarrow> upR (drop nl b1);
          Some (take nl b1 @ s, nl + nr, calc op leftValue rightValue, updatedLeft \<or> updatedRight) }"

fun Update :: "('c, 'h) ext \<Rightarrow> 'c expr \<Rightarrow> params \<Rightarrow> metadata \<Rightarrow> bytes
   \<Rightarrow> (bytes \<times> nat \<times> float64 \<times> bool) go" where
  "Update X (Field name) params md b = do { (val, ok) \<leftarrow> params name; Some (b, 0, val, ok) }"
| "Update X (Constant v) params md b = Some (b, 0, v, False)"
| "Update X (Bounded w mn mx) params md b = bounded_Update mn mx (Update X w params md) b"
| "Update X (Aggregate a w) params md b = aggregate_Update a (Update X w params md) b"
| "Update X (IfExpr c w _) params md b = if_Update X c md (Get X w) (Update X w params md) b"
| "Update X (Avg v weight) params md b = avg_Update (Update X v params md) (Update X weight params md) b"
| "Update X (Binary op l r _) params md b = binary_Update op (Update X l params md) (Update X r params md) b"
| "Update X (Shift w _ _) params md b = Update X w params md b"
| "Update X (UnaryMath _ w _) params md b = Update X w params md b"
| "Update X (Ptile v p mn mx prec hdr width) params md b =
     ptile_update X mn mx prec hdr width (Update X v params md) (Update X p params md) b"
| "Update X (PtileOptimized v p mn mx prec hdr width _) params md b =
     ptile_update X mn mx prec hdr width (Update X v params md) (Update X p params md) b"

section \<open>Merge\<close>

type_synonym merge_fn = "bytes \<Rightarrow> bytes \<Rightarrow> bytes \<Rightarrow> (bytes \<times> nat \<times> nat \<times> nat) go"

definition agg_merge_state :: "agg \<Rightarrow> bytes \<Rightarrow> bytes \<Rightarrow> bytes \<Rightarrow> bytes go" where
  "agg_merge_state a b x y =
     do { (valueX, xWasSet) \<leftarrow> agg_load x;
          (valueY, yWasSet) \<leftarrow> agg_load y;
          if \<not> xWasSet
          then (if yWasSet then agg_save b valueY else if length b < 9 then None else Some b)
          else agg_save b (if yWasSet then agg_merge a True valueX valueY else valueX) }"

definition avg_merge_state :: "bytes \<Rightarrow> bytes \<Rightarrow> bytes \<Rightarrow> bytes go" where
  "avg_merge_state b x y =
     do { (countX, totalX, xWasSet) \<leftarrow> avg_load x;
          (countY, totalY, yWasSet) \<leftarrow> avg_load y;
          if \<not> xWasSet
          then (if yWasSet then avg_save b countY totalY else if length b < 17 then None else Some b)
          else if yWasSet then avg_save b (fadd countX countY) (fadd totalX totalY)
          else avg_save b countX totalX }"

definition ptile_merge_state ::
  "('c, 'h) ext \<Rightarrow> int \<Rightarrow> int \<Rightarrow> int \<Rightarrow> int \<Rightarrow> bytes \<Rightarrow> bytes \<Rightarrow> bytes \<Rightarrow> bytes go" where
  "ptile_merge_state X mn mx hdr width b x y =
     do { (histoX, xWasSet) \<leftarrow> ptile_load X mn mx hdr width x;
          (histoY, yWasSet) \<leftarrow> ptile_load X mn mx hdr width y;
          if \<not> xWasSet
          then (if yWasSet then ptile_save X width b histoY
                else do { r \<leftarrow> slice_from width b; Some b })
          else ptile_save X width b (if yWasSet then hdr_merge X histoX histoY else histoX) }"

definition binary_Merge :: "merge_fn \<Rightarrow> merge_fn \<Rightarrow> merge_fn" where [simp]:
  "binary_Merge mergeL mergeR b x y =
     do { (b1, nb, nx, ny) \<leftarrow> mergeL b x y;
          (s, mb, mx, my) \<leftarrow> mergeR (drop nb b1) (drop nx x) (drop ny y);
          Some (take nb b1 @ s, nb + mb, nx + mx, ny + my) }"

fun Merge :: "('c, 'h) ext \<Rightarrow> 'c expr \<Rightarrow> bytes \<Rightarrow> bytes \<Rightarrow> bytes \<Rightarrow> (bytes \<times> nat \<times> nat \<times> nat) go" where
  "Merge X (Field _) b x y = Some (b, 0, 0, 0)"
| "Merge X (Constant _) b x y = Some (b, 0, 0, 0)"
| "Merge X (Bounded w _ _) b x y = Merge X w b x y"
| "Merge X (Aggregate a _) b x y = do { b' \<leftarrow> agg_merge_state a b x y; Some (b', 9, 9, 9) }"
| "Merge X (IfExpr _ w _) b x y = Merge X w b x y"
| "Merge X (Avg _ _) b x y = do { b' \<leftarrow> avg_merge_state b x y; Some (b', 17, 17, 17) }"
| "Merge X (Binary _ l r _) b x y = binary_Merge (Merge X l) (Merge X r) b x y"
| "Merge X (Shift w _ _) b x y = Merge X w b x y"
| "Merge X (UnaryMath _ w _) b x y = Merge X w b x y"
| "Merge X (Ptile _ _ mn mx _ hdr width) b x y =
     do { b' \<leftarrow> ptile_merge_state X mn mx hdr width b x y;
          Some (b', nat width, nat width, nat width) }"
| "Merge X (PtileOptimized _ _ mn mx _ hdr width _) b x y =
     do { b' \<leftarrow> ptile_merge_state X mn mx hdr width b x y;
          Some (b', nat width, nat width, nat width) }"

section \<open>SubMergers\<close>

text \<open>
  \<open>SubMerge\<close>: merges \<open>other\<close> into \<open>data\<close> and returns the new contents of \<open>data\<close>; the arguments are
  \<open>data\<close>, \<open>other\<close>, the resolution of \<open>other\<close> and the metadata.
\<close>

type_synonym submerge = "bytes \<Rightarrow> bytes \<Rightarrow> duration \<Rightarrow> metadata \<Rightarrow> bytes go"

text \<open>The method \<open>subMerge\<close> of every expression: \<open>Merge(data, data, other)\<close>.\<close>

definition subMerge :: "('c, 'h) ext \<Rightarrow> 'c expr \<Rightarrow> submerge" where
  "subMerge X e data other otherRes md = map_option fst (Merge X e data data other)"

definition at_offset :: "int \<Rightarrow> submerge \<Rightarrow> submerge" where
  "at_offset w f data other otherRes md =
     (if 0 \<le> w \<and> w \<le> int (length data)
      then map_option (\<lambda>s. take (nat w) data @ s) (f (drop (nat w) data) other otherRes md)
      else None)"

fun combinedSubMerge :: "submerge option \<Rightarrow> int \<Rightarrow> submerge option \<Rightarrow> submerge option" where
  "combinedSubMerge None width None = None"
| "combinedSubMerge left width None = left"
| "combinedSubMerge None width (Some right) = Some (at_offset width right)"
| "combinedSubMerge (Some left) width (Some right) =
     Some (\<lambda>data other otherRes md.
       do { d \<leftarrow> left data other otherRes md; at_offset width right d other otherRes md })"

fun condSubMerger :: "('c, 'h) ext \<Rightarrow> 'c option \<Rightarrow> submerge option \<Rightarrow> submerge option" where
  "condSubMerger X c None = None"
| "condSubMerger X c (Some wrapped) =
     Some (\<lambda>data other otherRes md.
       if if_include X c md then wrapped data other otherRes md else Some data)"

fun shiftedSubMerger :: "duration \<Rightarrow> submerge option \<Rightarrow> int \<Rightarrow> submerge option" where
  "shiftedSubMerger off None subWidth = None"
| "shiftedSubMerger off (Some wrapped) subWidth =
     Some (\<lambda>data other otherRes md.
       do { q \<leftarrow> go_div off otherRes;
            let n = wrap64 (wrap64 (- q) * subWidth);
            if 0 \<le> n \<and> n < int (length other) then wrapped data (drop (nat n) other) otherRes md
            else Some data })"

definition exact :: "('c, 'h) ext \<Rightarrow> 'c expr \<Rightarrow> 'c expr \<Rightarrow> 'c expr list \<Rightarrow> submerge option list" where
  "exact X e me subs = map (\<lambda>sub. if String X e = String X sub then Some (subMerge X me) else None) subs"

text \<open>Only the first exact match, as \<open>binaryExpr.SubMergers\<close> returns at once.\<close>

fun first_exact :: "('c, 'h) ext \<Rightarrow> 'c expr \<Rightarrow> 'c expr list \<Rightarrow> submerge option list option" where
  "first_exact X e [] = None"
| "first_exact X e (sub # subs) =
     (if String X e = String X sub then Some (Some (subMerge X e) # replicate (length subs) None)
      else map_option (\<lambda>r. None # r) (first_exact X e subs))"

definition if_SubMergers :: "('c, 'h) ext \<Rightarrow> 'c option \<Rightarrow> 'c expr \<Rightarrow> int \<Rightarrow> submerge option list \<Rightarrow> 'c expr list \<Rightarrow> submerge option list" where [simp]:
  "if_SubMergers X c w width subsW subs =
     (if \<exists>sub \<in> set subs. String X (IfExpr c w width) = String X sub
      then exact X (IfExpr c w width) w subs
      else map (condSubMerger X c) subsW)"

definition binary_SubMergers :: "('c, 'h) ext \<Rightarrow> 'c expr \<Rightarrow> int \<Rightarrow> submerge option list \<Rightarrow> submerge option list \<Rightarrow> 'c expr list \<Rightarrow> submerge option list" where [simp]:
  "binary_SubMergers X e widthL subsL subsR subs =
     (case first_exact X e subs of
        Some sms \<Rightarrow> sms
      | None \<Rightarrow> map2 (\<lambda>a b. combinedSubMerge a widthL b) subsL subsR)"

definition shift_SubMergers :: "('c, 'h) ext \<Rightarrow> 'c expr \<Rightarrow> duration \<Rightarrow> int \<Rightarrow> submerge option list \<Rightarrow> 'c expr list \<Rightarrow> submerge option list" where [simp]:
  "shift_SubMergers X w off width subsW subs =
     (if \<exists>sub \<in> set subs. String X (Shift w off width) = String X sub
      then exact X (Shift w off width) w subs
      else map2 (\<lambda>sm sub. shiftedSubMerger off sm (EncodedWidth sub)) subsW subs)"

fun SubMergers :: "('c, 'h) ext \<Rightarrow> 'c expr \<Rightarrow> 'c expr list \<Rightarrow> submerge option list" where
  "SubMergers X (Field _) subs = replicate (length subs) None"
| "SubMergers X (Constant _) subs = replicate (length subs) None"
| "SubMergers X (Bounded w _ _) subs = SubMergers X w subs"
| "SubMergers X (Aggregate a w) subs = exact X (Aggregate a w) (Aggregate a w) subs"
| "SubMergers X (IfExpr c w width) subs = if_SubMergers X c w width (SubMergers X w subs) subs"
| "SubMergers X (Avg v weight) subs = exact X (Avg v weight) (Avg v weight) subs"
| "SubMergers X (Binary op l r d) subs =
     binary_SubMergers X (Binary op l r d) (EncodedWidth l) (SubMergers X l subs) (SubMergers X r subs) subs"
| "SubMergers X (Shift w off width) subs = shift_SubMergers X w off width (SubMergers X w subs) subs"
| "SubMergers X (UnaryMath f w width) subs = SubMergers X w subs"
| "SubMergers X (Ptile v p mn mx prec hdr width) subs =
     exact X (Ptile v p mn mx prec hdr width) (Ptile v p mn mx prec hdr width) subs"
| "SubMergers X (PtileOptimized v p mn mx prec hdr width p2) subs =
     exact X (Ptile v p mn mx prec hdr width) (Ptile v p mn mx prec hdr width) subs"

end
