(* ===== verification/ExprLaws.thy ===== *)
theory ExprLaws
  imports ExprState
begin

text \<open>
  What the methods of package \<open>expr\<close> promise to the rest of the program.  A well-formed expression
  (its stored widths are those its parts need) never panics on a slice of its width, reads and
  writes only its own bytes and leaves the state valid; the whole state is a list of leaf states,
  one per aggregate, average or percentile, on which \<open>Merge\<close> works leaf by leaf.  The locale
  \<open>cell_codec\<close> is the interface of a fixed-width cell with an unset value; aggregates and averages
  are its instances.
\<close>

section \<open>Well-formed expressions and valid states\<close>

definition hdr_counts :: "('c, 'h) ext \<Rightarrow> int \<Rightarrow> int \<Rightarrow> int \<Rightarrow> nat" where
  "hdr_counts X mn mx hdr = length (hdr_export X (hdr_new X mn mx hdr))"

text \<open>
  What the code relies on of hdrhistogram-go: exporting an imported snapshot gives its counts back,
  recording and merging do not change the number of counts, and counts are 64-bit numbers.
\<close>

definition hdr_laws :: "('c, 'h) ext \<Rightarrow> bool" where
  "hdr_laws X \<longleftrightarrow>
     (\<forall>mn mx hdr cs. length cs = hdr_counts X mn mx hdr \<longrightarrow> list_all in64 cs \<longrightarrow>
        hdr_export X (hdr_import X mn mx hdr cs) = cs) \<and>
     (\<forall>h v. length (hdr_export X (hdr_record X h v)) = length (hdr_export X h)) \<and>
     (\<forall>h g. length (hdr_export X (hdr_merge X h g)) = length (hdr_export X h)) \<and>
     (\<forall>h. list_all in64 (hdr_export X h))"

definition ptile_wf :: "('c, 'h) ext \<Rightarrow> int \<Rightarrow> int \<Rightarrow> int \<Rightarrow> int \<Rightarrow> bool" where
  "ptile_wf X mn mx hdr width \<longleftrightarrow>
     width = (1 + int (hdr_counts X mn mx hdr)) * 8 \<and> 0 < hdr_counts X mn mx hdr \<and>
     hdr_counts X mn mx hdr < 2 ^ 60"

fun wf_expr :: "('c, 'h) ext \<Rightarrow> 'c expr \<Rightarrow> bool" where
  "wf_expr X (Field _) = True"
| "wf_expr X (Constant _) = True"
| "wf_expr X (Bounded w _ _) = wf_expr X w"
| "wf_expr X (Aggregate _ w) = (wf_expr X w \<and> EncodedWidth w = 0)"
| "wf_expr X (IfExpr _ w width) = (wf_expr X w \<and> width = EncodedWidth w)"
| "wf_expr X (Avg v weight) =
     (wf_expr X v \<and> wf_expr X weight \<and> EncodedWidth v = 0 \<and> EncodedWidth weight = 0)"
| "wf_expr X (Binary _ l r _) = (wf_expr X l \<and> wf_expr X r)"
| "wf_expr X (Shift w _ width) = (wf_expr X w \<and> width = EncodedWidth w)"
| "wf_expr X (UnaryMath _ w width) = (wf_expr X w \<and> width = EncodedWidth w)"
| "wf_expr X (Ptile v p mn mx _ hdr width) =
     (wf_expr X v \<and> wf_expr X p \<and> EncodedWidth v = 0 \<and> EncodedWidth p = 0 \<and> ptile_wf X mn mx hdr width)"
| "wf_expr X (PtileOptimized v p mn mx _ hdr width p2) =
     (wf_expr X v \<and> wf_expr X p \<and> wf_expr X p2 \<and> EncodedWidth v = 0 \<and> EncodedWidth p = 0 \<and>
      EncodedWidth p2 = 0 \<and> ptile_wf X mn mx hdr width)"

definition W :: "'c expr \<Rightarrow> nat" where "W e = nat (EncodedWidth e)"

text \<open>A percentile cell is unset or holds as many counts as its histogram has.\<close>

definition ptile_ok :: "('c, 'h) ext \<Rightarrow> int \<Rightarrow> int \<Rightarrow> int \<Rightarrow> bytes \<Rightarrow> bool" where
  "ptile_ok X mn mx hdr b \<longleftrightarrow>
     (let n = sint (of_nat (unbe (take 8 b)) :: u64) in n \<le> 0 \<or> n = int (hdr_counts X mn mx hdr))"

fun state_ok :: "('c, 'h) ext \<Rightarrow> 'c expr \<Rightarrow> bytes \<Rightarrow> bool" where
  "state_ok X (Bounded w _ _) b = state_ok X w b"
| "state_ok X (IfExpr _ w _) b = state_ok X w b"
| "state_ok X (Binary _ l r _) b = (state_ok X l (take (W l) b) \<and> state_ok X r (drop (W l) b))"
| "state_ok X (Shift w _ _) b = state_ok X w b"
| "state_ok X (UnaryMath _ w _) b = state_ok X w b"
| "state_ok X (Ptile _ _ mn mx _ hdr _) b = ptile_ok X mn mx hdr b"
| "state_ok X (PtileOptimized _ _ mn mx _ hdr _ _) b = ptile_ok X mn mx hdr b"
| "state_ok X _ b = True"

lemma EncodedWidth_nonneg [simp]: "wf_expr X e \<Longrightarrow> 0 \<le> EncodedWidth e"
  by (induction e) (auto simp: ptile_wf_def)

lemma W_simps [simp]:
  "W (Field n) = 0" "W (Constant k) = 0" "W (Bounded w f1 f2) = W w"
  "EncodedWidth w = 0 \<Longrightarrow> W (Aggregate a w) = 9" "W (IfExpr c w width) = nat width"
  "EncodedWidth w = 0 \<Longrightarrow> W (Avg w wt) = 17"
  "W (Shift w off width) = nat width" "W (UnaryMath f w width) = nat width"
  "W (Ptile v p i1 i2 i3 i4 width) = nat width" "W (PtileOptimized v p i1 i2 i3 i4 width p2) = nat width"
  by (simp_all add: W_def)

lemma W_Binary: "wf_expr X l \<Longrightarrow> wf_expr X r \<Longrightarrow> W (Binary op l r d) = W l + W r"
  by (simp add: W_def nat_add_distrib)

lemma W_zero [simp]: "EncodedWidth e = 0 \<Longrightarrow> W e = 0"
  by (simp add: W_def)

section \<open>Cells\<close>

text \<open>
  A cell stores a value or nothing in a fixed number of bytes.  \<open>save\<close> overwrites the cell at the
  start of a slice, \<open>load\<close> reads it and reports whether it was set.
\<close>

definition cell_content :: "(bytes \<Rightarrow> ('v \<times> bool) go) \<Rightarrow> bytes \<Rightarrow> 'v option" where
  "cell_content load b = (case load b of Some (v, s) \<Rightarrow> if s then Some v else None | None \<Rightarrow> None)"

locale cell_codec =
  fixes width :: nat
    and load :: "bytes \<Rightarrow> ('v \<times> bool) go"
    and save :: "bytes \<Rightarrow> 'v \<Rightarrow> bytes go"
    and unset :: 'v
  assumes load_local: "length b = width \<Longrightarrow> load (b @ r) = load b"
    and load_total: "width \<le> length b \<Longrightarrow> load b \<noteq> None"
    and save_shape: "length b = width \<Longrightarrow> \<exists>s. length s = width \<and> (\<forall>r. save (b @ r) v = Some (s @ r))"
    and load_save: "save b v = Some b' \<Longrightarrow> load b' = Some (v, True)"
    and load_unset: "load b = Some (v, False) \<Longrightarrow> v = unset"
begin

lemma load_content:
  assumes "width \<le> length b"
  shows "load b = Some (case cell_content load b of Some v \<Rightarrow> (v, True) | None \<Rightarrow> (unset, False))"
proof -
  obtain v w where l: "load b = Some (v, w)" using load_total [OF assms] by auto
  then show ?thesis using load_unset by (cases w) (auto simp: cell_content_def)
qed

lemma content_save: "save b v = Some b' \<Longrightarrow> cell_content load b' = Some v"
  by (simp add: cell_content_def load_save)

text \<open>
  The body of every \<open>Merge\<close> of a leaf: it loads the cells \<open>x\<close> and \<open>y\<close>, combines set values with
  \<open>f\<close>, saves the result over \<open>b\<close> and leaves \<open>b\<close> alone when neither is set.
\<close>

lemma merge_cells:
  assumes l: "length b = width" "length x = width" "length y = width"
    and M: "\<And>b x y. width \<le> length b \<Longrightarrow> width \<le> length x \<Longrightarrow> width \<le> length y \<Longrightarrow>
      M b x y = (case (cell_content load x, cell_content load y) of
        (None, None) \<Rightarrow> Some b
      | (None, Some v) \<Rightarrow> save b v
      | (Some u, None) \<Rightarrow> save b u
      | (Some u, Some v) \<Rightarrow> save b (f u v))"
  shows "\<exists>s. length s = width \<and> (\<forall>r1 r2 r3. M (b @ r1) (x @ r2) (y @ r3) = Some (s @ r1)) \<and>
    cell_content load s = (case (cell_content load x, cell_content load y) of
        (None, None) \<Rightarrow> cell_content load b
      | (None, Some v) \<Rightarrow> Some v
      | (Some u, None) \<Rightarrow> Some u
      | (Some u, Some v) \<Rightarrow> Some (f u v))"
proof -
  have loc: "cell_content load (z @ r) = cell_content load z" if "length z = width" for z r
    using that by (simp add: cell_content_def load_local)
  have sv: "\<exists>s. length s = width \<and> (\<forall>r. save (b @ r) v = Some (s @ r)) \<and> cell_content load s = Some v" for v
  proof -
    obtain s where s: "length s = width" "\<And>r. save (b @ r) v = Some (s @ r)" using save_shape [OF l(1)] by blast
    have "save (b @ []) v = Some (s @ [])" by (rule s(2))
    then have "cell_content load s = Some v" using content_save [of "b @ []" v s] by simp
    then show ?thesis using s by blast
  qed
  have eq: "M (b @ r1) (x @ r2) (y @ r3) = (case (cell_content load x, cell_content load y) of
        (None, None) \<Rightarrow> Some (b @ r1)
      | (None, Some v) \<Rightarrow> save (b @ r1) v
      | (Some u, None) \<Rightarrow> save (b @ r1) u
      | (Some u, Some v) \<Rightarrow> save (b @ r1) (f u v))" for r1 r2 r3
    using M [of "b @ r1" "x @ r2" "y @ r3"] l loc by simp
  show ?thesis unfolding eq
    using l(1) sv by (cases "cell_content load x"; cases "cell_content load y") auto
qed

end

lemma agg_load_local: "length b = 9 \<Longrightarrow> agg_load (b @ r) = agg_load b"
  by (cases b) (auto simp: agg_load_def Uint64_def)

lemma avg_load_local: "length b = 17 \<Longrightarrow> avg_load (b @ r) = avg_load b"
  by (cases b) (auto simp: avg_load_def Uint64_def)

interpretation agg_cell: cell_codec 9 agg_load agg_save fzero
proof
  show "length b = 9 \<Longrightarrow> agg_load (b @ r) = agg_load b" for b r by (rule agg_load_local)
  show "9 \<le> length b \<Longrightarrow> agg_load b \<noteq> None" for b by (auto simp: agg_load_def Uint64_def)
  show "length b = 9 \<Longrightarrow> \<exists>s. length s = 9 \<and> (\<forall>r. agg_save (b @ r) v = Some (s @ r))" for b v
    by (intro exI [of _ "1 # be 8 (unat v)"]) (simp add: agg_save_def)
  show "agg_save b v = Some b' \<Longrightarrow> agg_load b' = Some (v, True)" for b v b'
    by (auto simp: agg_save_def agg_load_def split: if_splits)
  show "agg_load b = Some (v, False) \<Longrightarrow> v = fzero" for b v
    by (auto simp: agg_load_def split: if_splits)
qed

lemma avg_load_saved [simp]: "avg_load (1 # be 8 (unat c) @ be 8 (unat t) @ r) = Some (c, t, True)"
proof -
  have "drop 9 (1 # be 8 (unat c) @ be 8 (unat t) @ r) = be 8 (unat t) @ r" by (simp add: drop_Cons')
  then show ?thesis by (simp add: avg_load_def del: drop_append)
qed

text \<open>The count and the total of an average, as one cell.\<close>

definition avg_load2 :: "bytes \<Rightarrow> ((float64 \<times> float64) \<times> bool) go" where
  "avg_load2 b = map_option (\<lambda>(c, t, s). ((c, t), s)) (avg_load b)"

definition avg_save2 :: "bytes \<Rightarrow> float64 \<times> float64 \<Rightarrow> bytes go" where
  "avg_save2 b v = avg_save b (fst v) (snd v)"

interpretation avg_cell: cell_codec 17 avg_load2 avg_save2 "(fzero, fzero)"
proof
  show "length b = 17 \<Longrightarrow> avg_load2 (b @ r) = avg_load2 b" for b r
    by (simp add: avg_load2_def avg_load_local)
  show "17 \<le> length b \<Longrightarrow> avg_load2 b \<noteq> None" for b by (auto simp: avg_load2_def avg_load_def Uint64_def)
  show "length b = 17 \<Longrightarrow> \<exists>s. length s = 17 \<and> (\<forall>r. avg_save2 (b @ r) v = Some (s @ r))" for b v
    by (intro exI [of _ "1 # be 8 (unat (fst v)) @ be 8 (unat (snd v))"]) (simp add: avg_save2_def avg_save_def)
  show "avg_save2 b v = Some b' \<Longrightarrow> avg_load2 b' = Some (v, True)" for b v b'
    by (simp add: avg_save2_def avg_save_def avg_load2_def split: if_splits) (metis avg_load_saved case_prod_conv option.map(2) prod.collapse)
  show "avg_load2 b = Some (v, False) \<Longrightarrow> v = (fzero, fzero)" for b v
    by (auto simp: avg_load2_def avg_load_def bind_Some_iff split: if_splits)
qed

lemma take_drop_append [simp]: "take n b @ drop n b @ q = b @ q"
  by (metis append_assoc append_take_drop_id)

section \<open>Percentile cells\<close>

lemma read_counts_total: "8 * n \<le> length b \<Longrightarrow> \<exists>cs. length cs = n \<and> (\<forall>r. read_counts n (b @ r) = Some cs)"
proof (induction n arbitrary: b)
  case (Suc n)
  then have "8 * n \<le> length (drop 8 b)" "8 \<le> length b" by auto
  then obtain cs where cs: "length cs = n" "\<And>r. read_counts n (drop 8 b @ r) = Some cs"
    using Suc.IH [of "drop 8 b"] by auto
  let ?c = "of_nat (unbe (take 8 b)) :: u64"
  have "read_counts (Suc n) (b @ r) = Some (sint ?c # cs)" for r
    using \<open>8 \<le> length b\<close> cs(2) by (simp add: Uint64_def)
  then show ?case using cs(1) by (intro exI [of _ "sint ?c # cs"]) auto
qed simp

lemma in64_sint [simp]: "in64 (sint (w :: u64))"
  using sint_ge [of w] sint_lt [of w] by (simp add: in64_def)

lemma read_counts_shape: "read_counts n b = Some cs \<Longrightarrow> length cs = n \<and> list_all in64 cs"
  by (induction n arbitrary: b cs) (auto simp: bind_Some_iff)

definition enc_counts :: "int list \<Rightarrow> bytes" where
  "enc_counts cs = concat (map (\<lambda>c. be 8 (unat (word_of_int c :: u64))) cs)"

lemma length_enc_counts [simp]: "length (enc_counts cs) = 8 * length cs"
  by (induction cs) (auto simp: enc_counts_def)

lemma put_counts_enc: "length b = 8 * length cs \<Longrightarrow> put_counts (b @ r) cs = Some (enc_counts cs @ r)"
proof (induction cs arbitrary: b)
  case (Cons c cs)
  then have "length (drop 8 b) = 8 * length cs" by simp
  from Cons.IH [OF this] Cons.prems show ?case
    by (simp add: PutUint64_def enc_counts_def)
qed (simp add: enc_counts_def)

lemma read_counts_enc: "(\<And>c. c \<in> set cs \<Longrightarrow> in64 c) \<Longrightarrow> read_counts (length cs) (enc_counts cs @ r) = Some cs"
  by (induction cs) (auto simp: enc_counts_def sint_word_of_int64)

lemma sint_of_nat_small: "n < 2 ^ 60 \<Longrightarrow> sint (word_of_int (int n) :: u64) = int n"
  by (subst sint_word_of_int64, rule wrap64_id) (auto simp: in64_def)

lemma ptile_load_ok:
  assumes "ptile_wf X mn mx hdr width" "length b = nat width" "ptile_ok X mn mx hdr b" "hdr_laws X"
  shows "\<exists>h s. (\<forall>r. ptile_load X mn mx hdr width (b @ r) = Some (h, s)) \<and>
    length (hdr_export X h) = hdr_counts X mn mx hdr"
proof -
  let ?N = "hdr_counts X mn mx hdr" and ?n = "sint (of_nat (unbe (take 8 b)) :: u64)"
  have w: "0 \<le> width" "length b = 8 + 8 * ?N" using assms(1,2) by (auto simp: ptile_wf_def)
  have sl: "slice_from width (b @ r) = Some r" "Uint64 (b @ r) = Some (of_nat (unbe (take 8 b)))" for r
    using w assms(2) by (auto simp: slice_from_def Uint64_def)
  show ?thesis
  proof (cases "?n > 0")
    case True
    then have "?n = int ?N" using assms(3) by (simp add: ptile_ok_def Let_def)
    moreover obtain cs where cs: "length cs = ?N" "\<And>r. read_counts ?N (drop 8 b @ r) = Some cs"
      using read_counts_total [of ?N "drop 8 b"] w by auto
    ultimately have "ptile_load X mn mx hdr width (b @ r) = Some (hdr_import X mn mx hdr cs, True)" for r
      using True sl w by (simp add: ptile_load_def)
    moreover have "hdr_export X (hdr_import X mn mx hdr cs) = cs"
      using assms(4) cs(1) read_counts_shape [OF cs(2)] by (simp add: hdr_laws_def)
    ultimately show ?thesis using cs(1) by (metis)
  next
    case False
    then have "ptile_load X mn mx hdr width (b @ r) = Some (hdr_new X mn mx hdr, False)" for r
      using sl by (simp add: ptile_load_def)
    then show ?thesis by (metis hdr_counts_def)
  qed
qed

lemma ptile_save_ok:
  assumes "ptile_wf X mn mx hdr width" "length b = nat width"
    "length (hdr_export X h) = hdr_counts X mn mx hdr"
  shows "\<exists>s. length s = nat width \<and> ptile_ok X mn mx hdr s \<and> (\<forall>r. ptile_save X width (b @ r) h = Some (s @ r))"
proof -
  let ?N = "hdr_counts X mn mx hdr"
  let ?cs = "int (length (hdr_export X h)) # hdr_export X h"
  have w: "0 \<le> width" "length b = 8 * length ?cs" "?N < 2 ^ 60" using assms by (auto simp: ptile_wf_def)
  have len: "length (enc_counts ?cs) = nat width" using w assms(2) by simp
  have "ptile_save X width (b @ r) h = Some (enc_counts ?cs @ r)" for r
    using put_counts_enc [OF w(2)] w len
    by (simp add: ptile_save_def Let_def slice_from_def del: put_counts.simps)
  moreover have "ptile_ok X mn mx hdr (enc_counts ?cs)"
    using w(3) assms(3) sint_of_nat_small [of ?N] by (simp add: ptile_ok_def enc_counts_def Let_def)
  ultimately show ?thesis using len by blast
qed

section \<open>Update and Get stay inside their bytes\<close>

definition upd_ok :: "('c, 'h) ext \<Rightarrow> 'c expr \<Rightarrow> (bytes \<Rightarrow> (bytes \<times> nat \<times> float64 \<times> bool) go) \<Rightarrow> bool" where
  "upd_ok X e f \<longleftrightarrow> (\<forall>b. length b = W e \<longrightarrow> state_ok X e b \<longrightarrow>
     (\<exists>s v u. length s = W e \<and> state_ok X e s \<and> (\<forall>r. f (b @ r) = Some (s @ r, W e, v, u))))"

lemma upd_okD:
  assumes "upd_ok X e f" "length b = W e" "state_ok X e b"
  obtains s v u where "length s = W e" "state_ok X e s" "\<And>r. f (b @ r) = Some (s @ r, W e, v, u)"
  using assms unfolding upd_ok_def by blast

text \<open>An expression without state leaves any slice alone.\<close>

lemma upd_ok_zero:
  assumes "upd_ok X e f" "W e = 0" "state_ok X e []"
  obtains v u where "\<And>b. f b = Some (b, 0, v, u)"
  using upd_okD [OF assms(1), of "[]"] assms(2,3) by (metis append_Nil length_0_conv list.size(3))

lemma state_ok_zero: "wf_expr X e \<Longrightarrow> EncodedWidth e = 0 \<Longrightarrow> state_ok X e []"
proof (induction e)
  case (Binary op l r d)
  then have "EncodedWidth l = 0" "EncodedWidth r = 0"
    using EncodedWidth_nonneg [of X l] EncodedWidth_nonneg [of X r] by auto
  then show ?case using Binary by simp
qed (auto simp: ptile_wf_def)

lemma Get_ok_Binary:
  assumes wf: "wf_expr X (Binary op l r d)" "length b = W (Binary op l r d)" "state_ok X (Binary op l r d) b"
    and l: "\<And>b. length b = W l \<Longrightarrow> state_ok X l b \<Longrightarrow> \<exists>v s. \<forall>q. Get X l (b @ q) = Some (v, s, W l)"
    and r: "\<And>b. length b = W r \<Longrightarrow> state_ok X r b \<Longrightarrow> \<exists>v s. \<forall>q. Get X r (b @ q) = Some (v, s, W r)"
  shows "\<exists>v s. \<forall>q. Get X (Binary op l r d) (b @ q) = Some (v, s, W (Binary op l r d))"
proof -
  have W: "W (Binary op l r d) = W l + W r" using wf(1) by (intro W_Binary) auto
  have lb: "length (take (W l) b) = W l" "length (drop (W l) b) = W r" using wf(2) W by auto
  then obtain vl sl vr sr where l: "\<And>q. Get X l (take (W l) b @ q) = Some (vl, sl, W l)"
    and r: "\<And>q. Get X r (drop (W l) b @ q) = Some (vr, sr, W r)"
    using l [of "take (W l) b"] r [of "drop (W l) b"] wf(3) by auto
  have "Get X l (b @ q) = Some (vl, sl, W l)" "drop (W l) (b @ q) = drop (W l) b @ q" for q
    using l [of "drop (W l) b @ q"] lb by auto
  then have "Get X (Binary op l r d) (b @ q) = Some (if \<not> sl \<and> \<not> sr then fzero else calc op vl vr,
      sl \<or> sr, W l + W r)" for q
    using r by auto
  then show ?thesis by (simp only: W) blast
qed

lemma Get_ok:
  assumes "wf_expr X e" "hdr_laws X" "length b = W e" "state_ok X e b"
  shows "\<exists>v s. \<forall>r. Get X e (b @ r) = Some (v, s, W e)"
  using assms
proof (induction e arbitrary: b)
  case (Bounded w mn mx)
  from Bounded.IH [of b] Bounded.prems have "\<exists>v s. \<forall>r. Get X w (b @ r) = Some (v, s, W w)" by simp
  then obtain v s where "\<forall>r. Get X w (b @ r) = Some (v, s, W w)" by blast
  then show ?case by (cases "\<not> s \<or> \<not> bounded_test mn mx v") auto
next
  case (Aggregate a w)
  then have "9 \<le> length b" by simp
  from agg_cell.load_content [OF this] obtain v s where "agg_load b = Some (v, s)" by (metis surj_pair)
  then show ?case using Aggregate.prems agg_load_local [of b] by auto
next
  case (Avg v wt)
  then have l: "length b = 17" by simp
  then obtain c t s where "avg_load b = Some (c, t, s)"
    using avg_cell.load_total [of b] by (auto simp: avg_load2_def)
  then show ?case using Avg.prems avg_load_local [OF l] by auto
next
  case (Binary op l r d)
  then show ?case by (intro Get_ok_Binary) auto
next
  case (UnaryMath f w width)
  then show ?case by (fastforce simp: W_def)
next
  case (Ptile v p mn mx prec hdr width)
  then have "\<exists>v s. \<forall>r. Get X p r = Some (v, s, 0)" using Ptile.IH(2) [of "[]"] state_ok_zero [of X p] by auto
  then show ?case using ptile_load_ok [of X mn mx hdr width b] Ptile.prems by auto
next
  case (PtileOptimized v p mn mx prec hdr width p2)
  then have "\<exists>v s. \<forall>r. Get X p2 r = Some (v, s, 0)" using PtileOptimized.IH(3) [of "[]"] state_ok_zero [of X p2] by auto
  then show ?case using ptile_load_ok [of X mn mx hdr width b] PtileOptimized.prems by auto
qed (auto simp: W_def)


lemma upd_okI:
  "(\<And>b. length b = W e \<Longrightarrow> state_ok X e b \<Longrightarrow>
     \<exists>s v u. length s = W e \<and> state_ok X e s \<and> (\<forall>r. f (b @ r) = Some (s @ r, W e, v, u))) \<Longrightarrow> upd_ok X e f"
  by (simp add: upd_ok_def)

lemma Update_ok_Aggregate:
  assumes w: "upd_ok X w (Update X w params md)" "EncodedWidth w = 0" "state_ok X w []"
  shows "upd_ok X (Aggregate a w) (Update X (Aggregate a w) params md)"
proof (rule upd_okI)
  fix b :: bytes assume "length b = W (Aggregate a w)"
  then have l: "length b = 9" using w by simp
  obtain v u where U: "\<And>r. Update X w params md r = Some (r, 0, v, u)"
    using upd_ok_zero [OF w(1)] w by auto
  obtain c s where L: "\<And>r. agg_load (b @ r) = Some (c, s)"
    using agg_cell.load_total [of b] agg_load_local [OF l] l by auto
  obtain z where z: "length z = 9" "\<And>r. agg_save (b @ r) (agg_update a s c v) = Some (z @ r)"
    using agg_cell.save_shape [OF l] by blast
  have "Update X (Aggregate a w) params md (b @ r) =
      (if u then Some (z @ r, 9, agg_update a s c v, True) else Some (b @ r, 9, c, False))" for r
    using L U z(2) l by simp
  then show "\<exists>s v u. length s = W (Aggregate a w) \<and> state_ok X (Aggregate a w) s \<and>
      (\<forall>r. Update X (Aggregate a w) params md (b @ r) = Some (s @ r, W (Aggregate a w), v, u))"
    using z(1) l w(2) by (cases u) auto
qed

lemma Update_ok_Avg:
  assumes v: "upd_ok X v (Update X v params md)" "EncodedWidth v = 0" "state_ok X v []"
    and wt: "upd_ok X wt (Update X wt params md)" "EncodedWidth wt = 0" "state_ok X wt []"
  shows "upd_ok X (Avg v wt) (Update X (Avg v wt) params md)"
proof (rule upd_okI)
  fix b :: bytes assume "length b = W (Avg v wt)"
  then have l: "length b = 17" using v by simp
  obtain vv uv where U: "\<And>r. Update X v params md r = Some (r, 0, vv, uv)"
    using upd_ok_zero [OF v(1)] v by auto
  obtain vw uw where U2: "\<And>r. Update X wt params md r = Some (r, 0, vw, uw)"
    using upd_ok_zero [OF wt(1)] wt by auto
  obtain c t s where "avg_load b = Some (c, t, s)"
    using avg_cell.load_total [of b] l by (auto simp: avg_load2_def)
  then have L: "avg_load (b @ r) = Some (c, t, s)" for r using avg_load_local [OF l] by simp
  let ?c = "fadd c vw" and ?t = "fadd t (fmul vv vw)"
  let ?z = "1 # be 8 (unat ?c) @ be 8 (unat ?t)"
  have "Update X (Avg v wt) params md (b @ r) =
      (if uv then Some (?z @ r, 17, avg_calc ?c ?t, True) else Some (b @ r, 17, avg_calc c t, False))" for r
    using L U U2 l by (simp add: avg_save_def Let_def)
  then show "\<exists>s v' u. length s = W (Avg v wt) \<and> state_ok X (Avg v wt) s \<and>
      (\<forall>r. Update X (Avg v wt) params md (b @ r) = Some (s @ r, W (Avg v wt), v', u))"
    using l v(2) by (cases uv) (auto intro: exI [of _ ?z])
qed

lemma Update_ok_Binary:
  assumes l: "upd_ok X l (Update X l params md)" and r: "upd_ok X r (Update X r params md)"
    and wf: "wf_expr X l" "wf_expr X r"
  shows "upd_ok X (Binary op l r d) (Update X (Binary op l r d) params md)"
proof (rule upd_okI)
  note Wlr = W_Binary [OF wf, of op d]
  fix b :: bytes assume b: "length b = W (Binary op l r d)" "state_ok X (Binary op l r d) b"
  then have lb: "length (take (W l) b) = W l" "length (drop (W l) b) = W r" by (auto simp: Wlr)
  obtain sl vl ul where L: "length sl = W l" "state_ok X l sl"
    "\<And>q. Update X l params md (take (W l) b @ q) = Some (sl @ q, W l, vl, ul)"
    using upd_okD [OF l lb(1)] b(2) by auto
  obtain sr vr ur where R: "length sr = W r" "state_ok X r sr"
    "\<And>q. Update X r params md (drop (W l) b @ q) = Some (sr @ q, W r, vr, ur)"
    using upd_okD [OF r lb(2)] b(2) by auto
  have "Update X (Binary op l r d) params md (b @ q) =
      Some ((sl @ sr) @ q, W l + W r, calc op vl vr, ul \<or> ur)" for q
    using L(3) [of "drop (W l) b @ q"] R(3) [of q] L(1) by simp
  then show "\<exists>s v u. length s = W (Binary op l r d) \<and> state_ok X (Binary op l r d) s \<and>
      (\<forall>q. Update X (Binary op l r d) params md (b @ q) = Some (s @ q, W (Binary op l r d), v, u))"
    using L R by (intro exI [of _ "sl @ sr"]) (auto simp: Wlr)
qed

lemma ptile_update_ok:
  assumes "ptile_wf X mn mx hdr width" "length b = nat width" "ptile_ok X mn mx hdr b" "hdr_laws X"
    and "\<And>r. upV r = Some (r, 0, vv, uv)" "\<And>r. upP r = Some (r, 0, vp, up)"
  shows "\<exists>s v u. length s = nat width \<and> ptile_ok X mn mx hdr s \<and>
    (\<forall>r. ptile_update X mn mx prec hdr width upV upP (b @ r) = Some (s @ r, nat width, v, u))"
proof -
  obtain h s where h: "\<And>r. ptile_load X mn mx hdr width (b @ r) = Some (h, s)"
    "length (hdr_export X h) = hdr_counts X mn mx hdr"
    using ptile_load_ok [OF assms(1-4)] by auto
  let ?h = "hdr_record X h (scaleToInt vv prec)"
  have "length (hdr_export X ?h) = hdr_counts X mn mx hdr" using h(2) assms(4) by (simp add: hdr_laws_def)
  then obtain z where z: "length z = nat width" "ptile_ok X mn mx hdr z"
    "\<And>r. ptile_save X width (b @ r) ?h = Some (z @ r)"
    using ptile_save_ok [OF assms(1,2)] by blast
  have "ptile_update X mn mx prec hdr width upV upP (b @ r) =
      (if uv then Some (z @ r, nat width, ptile_calc X prec ?h vp, True)
       else Some (b @ r, nat width, ptile_calc X prec h vp, False))" for r
    using h(1) z(3) assms(2,5,6) by (simp add: ptile_update_def Let_def)
  then show ?thesis using z assms(2,3) by (cases uv) auto
qed

lemma Update_ok_Bounded:
  assumes ok: "upd_ok X w (Update X w params md)"
  shows "upd_ok X (Bounded w mn mx) (Update X (Bounded w mn mx) params md)"
proof (rule upd_okI)
  fix b :: bytes assume "length b = W (Bounded w mn mx)" "state_ok X (Bounded w mn mx) b"
  then obtain s v u where "length s = W w" "state_ok X w s"
    "\<And>r. Update X w params md (b @ r) = Some (s @ r, W w, v, u)"
    using upd_okD [OF ok, of b] by auto
  then show "\<exists>s v u. length s = W (Bounded w mn mx) \<and> state_ok X (Bounded w mn mx) s \<and>
      (\<forall>r. Update X (Bounded w mn mx) params md (b @ r) = Some (s @ r, W (Bounded w mn mx), v, u))"
    by (cases "bounded_test mn mx v") auto
qed

lemma Update_ok_IfExpr:
  assumes wf: "wf_expr X (IfExpr c w width)" "hdr_laws X" and ok: "upd_ok X w (Update X w params md)"
  shows "upd_ok X (IfExpr c w width) (Update X (IfExpr c w width) params md)"
proof (rule upd_okI)
  have w: "W (IfExpr c w width) = W w" using wf(1) by (auto simp: W_def)
  fix b :: bytes assume b: "length b = W (IfExpr c w width)" "state_ok X (IfExpr c w width) b"
  show "\<exists>s v u. length s = W (IfExpr c w width) \<and> state_ok X (IfExpr c w width) s \<and>
      (\<forall>r. Update X (IfExpr c w width) params md (b @ r) = Some (s @ r, W (IfExpr c w width), v, u))"
  proof (cases "if_include X c md")
    case True
    then show ?thesis using upd_okD [OF ok, of b] b w by (simp del: W_simps) metis
  next
    case False
    obtain v s where "\<And>r. Get X w (b @ r) = Some (v, s, W w)" using Get_ok [of X w b] wf b w by auto
    then show ?thesis using False b w by auto
  qed
qed

text \<open>An argument without state, such as the value of a percentile, leaves the buffer as it is.\<close>

lemma upd_ok_pure:
  assumes "upd_ok X e (Update X e params md)" "wf_expr X e" "EncodedWidth e = 0"
  shows "\<exists>v u. \<forall>r. Update X e params md r = Some (r, 0, v, u)"
proof -
  have "W e = 0" using assms(3) by (simp add: W_def)
  from upd_ok_zero [OF assms(1) this state_ok_zero [OF assms(2,3)]] show ?thesis by metis
qed

lemma Update_ok:
  assumes "wf_expr X e" "hdr_laws X" "\<And>n. params n \<noteq> None"
  shows "upd_ok X e (Update X e params md)"
  using assms(1)
proof (induction e)
  case (Field n)
  obtain v ok where "params n = Some (v, ok)" using assms(3) by fastforce
  then show ?case by (auto intro!: upd_okI)
next
  case (Bounded w mn mx)
  then show ?case by (intro Update_ok_Bounded) auto
next
  case (Aggregate a w)
  then show ?case by (intro Update_ok_Aggregate state_ok_zero) auto
next
  case (IfExpr c w width)
  then show ?case using assms(2) by (intro Update_ok_IfExpr) auto
next
  case (Avg v wt)
  then show ?case by (intro Update_ok_Avg state_ok_zero) auto
next
  case (Binary op l r d)
  then show ?case by (intro Update_ok_Binary) auto
next
  case (Shift w off width)
  then show ?case by (auto simp: upd_ok_def W_def)
next
  case (UnaryMath f w width)
  then show ?case by (auto simp: upd_ok_def W_def)
next
  case (Ptile v p mn mx prec hdr width)
  then obtain vv uv vp up where "\<And>r. Update X v params md r = Some (r, 0, vv, uv)" "\<And>r. Update X p params md r = Some (r, 0, vp, up)"
    using upd_ok_pure [of X v params md] upd_ok_pure [of X p params md] by auto
  then show ?case
    using ptile_update_ok [of X mn mx hdr width _ "Update X v params md" vv uv "Update X p params md" vp up prec]
      Ptile.prems assms(2) by (intro upd_okI) simp
next
  case (PtileOptimized v p mn mx prec hdr width p2)
  then obtain vv uv vp up where "\<And>r. Update X v params md r = Some (r, 0, vv, uv)" "\<And>r. Update X p params md r = Some (r, 0, vp, up)"
    using upd_ok_pure [of X v params md] upd_ok_pure [of X p params md] by auto
  then show ?case
    using ptile_update_ok [of X mn mx hdr width _ "Update X v params md" vv uv "Update X p params md" vp up prec]
      PtileOptimized.prems assms(2) by (intro upd_okI) simp
qed (auto intro!: upd_okI)

end
