(* ===== verification/ExprMerge.thy ===== *)
theory ExprMerge
  imports ExprLaws
begin

text \<open>
  \<open>Merge\<close> of package \<open>expr\<close> against an abstract specification.  The state of an expression is a list
  of leaf values, one per aggregate, average or percentile in it, each set or not; \<open>Merge\<close> combines
  two states leaf by leaf, whatever the shape of the expression above the leaves.  The theory ends
  with the properties of package \<open>expr\<close>.
\<close>

section \<open>The abstract state\<close>

datatype leaf = LAgg agg | LAvg | LPtile int int int int

datatype lval = VAgg float64 | VAvg "float64 \<times> float64" | VHist "int list"

fun leaves :: "'c expr \<Rightarrow> leaf list" where
  "leaves (Field _) = []"
| "leaves (Constant _) = []"
| "leaves (Bounded w _ _) = leaves w"
| "leaves (Aggregate a _) = [LAgg a]"
| "leaves (IfExpr _ w _) = leaves w"
| "leaves (Avg _ _) = [LAvg]"
| "leaves (Binary _ l r _) = leaves l @ leaves r"
| "leaves (Shift w _ _) = leaves w"
| "leaves (UnaryMath _ w _) = leaves w"
| "leaves (Ptile _ _ mn mx _ hdr width) = [LPtile mn mx hdr width]"
| "leaves (PtileOptimized _ _ mn mx _ hdr width _) = [LPtile mn mx hdr width]"

fun leaf_content :: "('c, 'h) ext \<Rightarrow> leaf \<Rightarrow> bytes \<Rightarrow> lval option" where
  "leaf_content X (LAgg _) b = map_option VAgg (cell_content agg_load b)"
| "leaf_content X LAvg b = map_option VAvg (cell_content avg_load2 b)"
| "leaf_content X (LPtile mn mx hdr width) b =
     map_option (VHist \<circ> hdr_export X) (cell_content (ptile_load X mn mx hdr width) b)"

fun contents :: "('c, 'h) ext \<Rightarrow> 'c expr \<Rightarrow> bytes \<Rightarrow> lval option list" where
  "contents X (Field _) b = []"
| "contents X (Constant _) b = []"
| "contents X (Bounded w _ _) b = contents X w b"
| "contents X (Aggregate a _) b = [leaf_content X (LAgg a) b]"
| "contents X (IfExpr _ w _) b = contents X w b"
| "contents X (Avg _ _) b = [leaf_content X LAvg b]"
| "contents X (Binary _ l r _) b = contents X l (take (W l) b) @ contents X r (drop (W l) b)"
| "contents X (Shift w _ _) b = contents X w b"
| "contents X (UnaryMath _ w _) b = contents X w b"
| "contents X (Ptile _ _ mn mx _ hdr width) b = [leaf_content X (LPtile mn mx hdr width) b]"
| "contents X (PtileOptimized _ _ mn mx _ hdr width _) b = [leaf_content X (LPtile mn mx hdr width) b]"

fun leaf_op :: "('c, 'h) ext \<Rightarrow> leaf \<Rightarrow> lval \<Rightarrow> lval \<Rightarrow> lval" where
  "leaf_op X (LAgg a) (VAgg u) (VAgg v) = VAgg (agg_merge a True u v)"
| "leaf_op X LAvg (VAvg u) (VAvg v) = VAvg (fadd (fst u) (fst v), fadd (snd u) (snd v))"
| "leaf_op X (LPtile mn mx hdr _) (VHist u) (VHist v) =
     VHist (hdr_export X (hdr_merge X (hdr_import X mn mx hdr u) (hdr_import X mn mx hdr v)))"
| "leaf_op X _ u v = u"

text \<open>The leaf of the target keeps its own value when neither argument is set.\<close>

fun merge_leaf :: "('v \<Rightarrow> 'v \<Rightarrow> 'v) \<Rightarrow> 'v option \<Rightarrow> 'v option \<Rightarrow> 'v option \<Rightarrow> 'v option" where
  "merge_leaf f c None None = c"
| "merge_leaf f c None (Some v) = Some v"
| "merge_leaf f c (Some u) None = Some u"
| "merge_leaf f c (Some u) (Some v) = Some (f u v)"

fun merge_leaves :: "('c, 'h) ext \<Rightarrow> leaf list \<Rightarrow> lval option list \<Rightarrow> lval option list \<Rightarrow> lval option list
   \<Rightarrow> lval option list" where
  "merge_leaves X (l # ls) (c # cs) (x # xs) (y # ys) =
     merge_leaf (leaf_op X l) c x y # merge_leaves X ls cs xs ys"
| "merge_leaves X _ _ _ _ = []"

lemma length_contents [simp]: "length (contents X e b) = length (leaves e)"
  by (induction e arbitrary: b) auto

lemma merge_leaves_append:
  assumes "length cs = length ls" "length xs = length ls" "length ys = length ls"
  shows "merge_leaves X (ls @ ls') (cs @ cs') (xs @ xs') (ys @ ys') =
    merge_leaves X ls cs xs ys @ merge_leaves X ls' cs' xs' ys'"
  using assms
proof (induction ls arbitrary: cs xs ys)
  case (Cons l ls)
  then obtain c cs1 x xs1 y ys1 where "cs = c # cs1" "xs = x # xs1" "ys = y # ys1"
    by (metis length_Suc_conv)
  then show ?case using Cons by simp
qed simp

section \<open>Merging the leaves\<close>

definition merge_ok :: "('c, 'h) ext \<Rightarrow> 'c expr \<Rightarrow> (bytes \<Rightarrow> bytes \<Rightarrow> bytes \<Rightarrow> (bytes \<times> nat \<times> nat \<times> nat) go) \<Rightarrow> bool" where
  "merge_ok X e f \<longleftrightarrow> (\<forall>b x y. length b = W e \<longrightarrow> length x = W e \<longrightarrow> length y = W e \<longrightarrow>
     state_ok X e b \<longrightarrow> state_ok X e x \<longrightarrow> state_ok X e y \<longrightarrow>
     (\<exists>s. length s = W e \<and> state_ok X e s \<and>
        contents X e s = merge_leaves X (leaves e) (contents X e b) (contents X e x) (contents X e y) \<and>
        (\<forall>r1 r2 r3. f (b @ r1) (x @ r2) (y @ r3) = Some (s @ r1, W e, W e, W e))))"

lemma merge_okD:
  assumes "merge_ok X e f" "length b = W e" "length x = W e" "length y = W e"
    "state_ok X e b" "state_ok X e x" "state_ok X e y"
  obtains s where "length s = W e" "state_ok X e s"
    "contents X e s = merge_leaves X (leaves e) (contents X e b) (contents X e x) (contents X e y)"
    "\<And>r1 r2 r3. f (b @ r1) (x @ r2) (y @ r3) = Some (s @ r1, W e, W e, W e)"
  using assms unfolding merge_ok_def by blast

lemma agg_merge_cells:
  assumes "9 \<le> length b" "9 \<le> length x" "9 \<le> length y"
  shows "agg_merge_state a b x y = (case (cell_content agg_load x, cell_content agg_load y) of
        (None, None) \<Rightarrow> Some b
      | (None, Some v) \<Rightarrow> agg_save b v
      | (Some u, None) \<Rightarrow> agg_save b u
      | (Some u, Some v) \<Rightarrow> agg_save b (agg_merge a True u v))"
  using assms agg_cell.load_content [of x] agg_cell.load_content [of y]
  by (cases "cell_content agg_load x"; cases "cell_content agg_load y") (auto simp: agg_merge_state_def)

lemma avg_merge_cells:
  assumes "17 \<le> length b" "17 \<le> length x" "17 \<le> length y"
  shows "avg_merge_state b x y = (case (cell_content avg_load2 x, cell_content avg_load2 y) of
        (None, None) \<Rightarrow> Some b
      | (None, Some v) \<Rightarrow> avg_save2 b v
      | (Some u, None) \<Rightarrow> avg_save2 b u
      | (Some u, Some v) \<Rightarrow> avg_save2 b (fadd (fst u) (fst v), fadd (snd u) (snd v)))"
proof -
  have ld: "avg_load z = Some (case cell_content avg_load2 z of Some v \<Rightarrow> (fst v, snd v, True)
      | None \<Rightarrow> (fzero, fzero, False))" if "17 \<le> length z" for z
    using avg_cell.load_content [OF that]
    by (cases "cell_content avg_load2 z") (auto simp: avg_load2_def)
  show ?thesis using assms ld [of x] ld [of y]
    by (cases "cell_content avg_load2 x"; cases "cell_content avg_load2 y")
      (auto simp: avg_merge_state_def avg_save2_def)
qed

text \<open>Percentiles: the counts a saved histogram shows are its counts.\<close>

lemma ptile_content_save:
  assumes "ptile_wf X mn mx hdr width" "length b = nat width" "hdr_laws X"
    "length (hdr_export X h) = hdr_counts X mn mx hdr" "ptile_save X width b h = Some s" "length s = nat width"
  shows "\<exists>g. ptile_load X mn mx hdr width s = Some (g, True) \<and> hdr_export X g = hdr_export X h"
proof -
  let ?N = "hdr_counts X mn mx hdr"
  let ?cs = "int (length (hdr_export X h)) # hdr_export X h"
  have w: "0 \<le> width" "length b = 8 * length ?cs" "?N < 2 ^ 60" "0 < ?N"
    using assms by (auto simp: ptile_wf_def)
  have "put_counts b ?cs = Some (enc_counts ?cs)" using put_counts_enc [OF w(2), of "[]"] by simp
  then have s: "s = enc_counts ?cs"
    using assms(5) by (auto simp: ptile_save_def Let_def bind_Some_iff simp del: put_counts.simps)
  have in64: "in64 c" if "c \<in> set (hdr_export X h)" for c
    using assms(3) that by (auto simp: hdr_laws_def list_all_iff)
  have hd: "sint (word_of_int (int ?N) :: u64) = int ?N"
    using sint_of_nat_small [OF w(3)] by simp
  have parts: "s = be 8 (unat (word_of_int (int ?N) :: u64)) @ enc_counts (hdr_export X h)"
    using s assms(4) by (simp add: enc_counts_def)
  have "read_counts ?N (enc_counts (hdr_export X h)) = Some (hdr_export X h)"
    using read_counts_enc [of "hdr_export X h" "[]"] in64 assms(4) by simp
  then have "ptile_load X mn mx hdr width s = Some (hdr_import X mn mx hdr (hdr_export X h), True)"
    using parts hd w assms(6) by (simp add: ptile_load_def slice_from_def del: read_counts.simps)
  then show ?thesis using assms(3,4) by (auto simp: hdr_laws_def)
qed

lemma ptile_load_import:
  assumes "ptile_load X mn mx hdr width b = Some (h, True)" "ptile_ok X mn mx hdr b" "hdr_laws X"
  shows "hdr_import X mn mx hdr (hdr_export X h) = h"
proof -
  obtain n cs where n: "Uint64 b = Some n" "sint n > 0" "read_counts (nat (sint n)) (drop 8 b) = Some cs"
    "h = hdr_import X mn mx hdr cs"
    using assms(1) by (auto simp: ptile_load_def bind_Some_iff split: if_splits)
  then have "sint n = int (hdr_counts X mn mx hdr)"
    using assms(2) by (auto simp: Uint64_def ptile_ok_def Let_def split: if_splits)
  then have "length cs = hdr_counts X mn mx hdr" "list_all in64 cs" using read_counts_shape [OF n(3)] by auto
  then show ?thesis using n(4) assms(3) by (simp add: hdr_laws_def)
qed

lemma ptile_merge_ok:
  assumes wf: "ptile_wf X mn mx hdr width" "hdr_laws X"
    and l: "length b = nat width" "length x = nat width" "length y = nat width"
    and ok: "ptile_ok X mn mx hdr b" "ptile_ok X mn mx hdr x" "ptile_ok X mn mx hdr y"
  defines "c \<equiv> leaf_content X (LPtile mn mx hdr width)"
  shows "\<exists>s. length s = nat width \<and> ptile_ok X mn mx hdr s \<and>
    c s = merge_leaf (leaf_op X (LPtile mn mx hdr width)) (c b) (c x) (c y) \<and>
    (\<forall>r1 r2 r3. ptile_merge_state X mn mx hdr width (b @ r1) (x @ r2) (y @ r3) = Some (s @ r1))"
proof -
  obtain hx sx where x: "\<And>r. ptile_load X mn mx hdr width (x @ r) = Some (hx, sx)"
    "length (hdr_export X hx) = hdr_counts X mn mx hdr" using ptile_load_ok [OF wf(1) l(2) ok(2) wf(2)] by auto
  obtain hy sy where y: "\<And>r. ptile_load X mn mx hdr width (y @ r) = Some (hy, sy)"
    "length (hdr_export X hy) = hdr_counts X mn mx hdr" using ptile_load_ok [OF wf(1) l(3) ok(3) wf(2)] by auto
  have cx: "c x = (if sx then Some (VHist (hdr_export X hx)) else None)"
    and cy: "c y = (if sy then Some (VHist (hdr_export X hy)) else None)"
    using x(1) [of "[]"] y(1) [of "[]"] by (auto simp: c_def cell_content_def)
  have ix: "hdr_import X mn mx hdr (hdr_export X hx) = hx" if sx
    using ptile_load_import [of X mn mx hdr width x hx] x(1) [of "[]"] ok wf that by auto
  have iy: "hdr_import X mn mx hdr (hdr_export X hy) = hy" if sy
    using ptile_load_import [of X mn mx hdr width y hy] y(1) [of "[]"] ok wf that by auto
  have sv: "\<exists>s. length s = nat width \<and> ptile_ok X mn mx hdr s \<and> c s = Some (VHist (hdr_export X h)) \<and>
      (\<forall>r. ptile_save X width (b @ r) h = Some (s @ r))"
    if h: "length (hdr_export X h) = hdr_counts X mn mx hdr" for h
  proof -
    obtain s where s: "length s = nat width" "ptile_ok X mn mx hdr s"
      "\<And>r. ptile_save X width (b @ r) h = Some (s @ r)" using ptile_save_ok [OF wf(1) l(1) h] by auto
    obtain g where "ptile_load X mn mx hdr width s = Some (g, True)" "hdr_export X g = hdr_export X h"
      using ptile_content_save [OF wf(1) l(1) wf(2) h, of s] s(1) s(3) [of "[]"] by auto
    then have "c s = Some (VHist (hdr_export X h))" by (simp add: c_def cell_content_def)
    then show ?thesis using s by blast
  qed
  have m: "length (hdr_export X (hdr_merge X hx hy)) = hdr_counts X mn mx hdr"
    using x(2) wf(2) by (simp add: hdr_laws_def)
  have eq: "ptile_merge_state X mn mx hdr width (b @ r1) (x @ r2) (y @ r3) =
      (if sx then ptile_save X width (b @ r1) (if sy then hdr_merge X hx hy else hx)
       else if sy then ptile_save X width (b @ r1) hy else Some (b @ r1))" for r1 r2 r3
    using x(1) y(1) l(1) wf(1) by (simp add: ptile_merge_state_def slice_from_def ptile_wf_def)
  show ?thesis
  proof (cases sx)
    case True
    then show ?thesis using sv [OF m] sv [OF x(2)] cx cy eq ix iy by (cases sy) auto
  next
    case False
    then show ?thesis using sv [OF y(2)] l(1) ok(1) cx cy eq by (cases sy) auto
  qed
qed

lemma Merge_ok_Binary:
  assumes l: "merge_ok X l (Merge X l)" and r: "merge_ok X r (Merge X r)"
    and wf: "wf_expr X l" "wf_expr X r"
  shows "merge_ok X (Binary op l r d) (Merge X (Binary op l r d))"
  unfolding merge_ok_def
proof (intro allI impI)
  note Wlr = W_Binary [OF wf, of op d]
  let ?e = "Binary op l r d"
  fix b x y :: bytes
  assume len: "length b = W ?e" "length x = W ?e" "length y = W ?e"
    and ok: "state_ok X ?e b" "state_ok X ?e x" "state_ok X ?e y"
  obtain sl where L: "length sl = W l" "state_ok X l sl"
    "contents X l sl = merge_leaves X (leaves l) (contents X l (take (W l) b))
       (contents X l (take (W l) x)) (contents X l (take (W l) y))"
    "\<And>q1 q2 q3. Merge X l (take (W l) b @ q1) (take (W l) x @ q2) (take (W l) y @ q3) =
       Some (sl @ q1, W l, W l, W l)"
    using len ok by (auto simp: Wlr intro: merge_okD [OF l, of "take (W l) b" "take (W l) x" "take (W l) y"])
  obtain sr where R: "length sr = W r" "state_ok X r sr"
    "contents X r sr = merge_leaves X (leaves r) (contents X r (drop (W l) b))
       (contents X r (drop (W l) x)) (contents X r (drop (W l) y))"
    "\<And>q1 q2 q3. Merge X r (drop (W l) b @ q1) (drop (W l) x @ q2) (drop (W l) y @ q3) =
       Some (sr @ q1, W r, W r, W r)"
    using len ok by (auto simp: Wlr intro: merge_okD [OF r, of "drop (W l) b" "drop (W l) x" "drop (W l) y"])
  have "Merge X ?e (b @ q1) (x @ q2) (y @ q3) = Some ((sl @ sr) @ q1, W l + W r, W l + W r, W l + W r)"
    for q1 q2 q3
    using L(4) [of "drop (W l) b @ q1" "drop (W l) x @ q2" "drop (W l) y @ q3"] R(4) L(1) len by (simp add: Wlr)
  moreover have "contents X ?e (sl @ sr) = merge_leaves X (leaves ?e) (contents X ?e b) (contents X ?e x) (contents X ?e y)"
    using L R by (simp add: merge_leaves_append)
  ultimately show "\<exists>s. length s = W ?e \<and> state_ok X ?e s \<and>
      contents X ?e s = merge_leaves X (leaves ?e) (contents X ?e b) (contents X ?e x) (contents X ?e y) \<and>
      (\<forall>r1 r2 r3. Merge X ?e (b @ r1) (x @ r2) (y @ r3) = Some (s @ r1, W ?e, W ?e, W ?e))"
    using L R by (intro exI [of _ "sl @ sr"]) (simp add: Wlr)
qed

text \<open>An expression that is one leaf.\<close>

lemma merge_ok_leaf:
  assumes e: "leaves e = [l]" "\<And>b. contents X e b = [leaf_content X l b]"
    and m: "\<And>b x y. length b = W e \<Longrightarrow> length x = W e \<Longrightarrow> length y = W e \<Longrightarrow>
      state_ok X e b \<Longrightarrow> state_ok X e x \<Longrightarrow> state_ok X e y \<Longrightarrow>
      \<exists>s. length s = W e \<and> state_ok X e s \<and>
        leaf_content X l s = merge_leaf (leaf_op X l) (leaf_content X l b) (leaf_content X l x) (leaf_content X l y) \<and>
        (\<forall>r1 r2 r3. M (b @ r1) (x @ r2) (y @ r3) = Some (s @ r1))"
  shows "merge_ok X e (\<lambda>b x y. M b x y \<bind> (\<lambda>b'. Some (b', W e, W e, W e)))"
  unfolding merge_ok_def
proof (intro allI impI)
  fix b x y
  assume "length b = W e" "length x = W e" "length y = W e" "state_ok X e b" "state_ok X e x" "state_ok X e y"
  from m [OF this] obtain s where s: "length s = W e" "state_ok X e s"
    "leaf_content X l s = merge_leaf (leaf_op X l) (leaf_content X l b) (leaf_content X l x) (leaf_content X l y)"
    "\<And>r1 r2 r3. M (b @ r1) (x @ r2) (y @ r3) = Some (s @ r1)" by blast
  then show "\<exists>s. length s = W e \<and> state_ok X e s \<and>
      contents X e s = merge_leaves X (leaves e) (contents X e b) (contents X e x) (contents X e y) \<and>
      (\<forall>r1 r2 r3. M (b @ r1) (x @ r2) (y @ r3) \<bind> (\<lambda>b'. Some (b', W e, W e, W e)) =
        Some (s @ r1, W e, W e, W e))"
    using e by (intro exI [of _ s]) simp
qed

lemma Merge_ok_Aggregate: "EncodedWidth w = 0 \<Longrightarrow> merge_ok X (Aggregate a w) (Merge X (Aggregate a w))"
proof -
  assume w: "EncodedWidth w = 0"
  have "merge_ok X (Aggregate a w) (\<lambda>b x y. agg_merge_state a b x y \<bind>
      (\<lambda>b'. Some (b', W (Aggregate a w), W (Aggregate a w), W (Aggregate a w))))"
  proof (rule merge_ok_leaf)
    fix b x y :: bytes
    assume "length b = W (Aggregate a w)" "length x = W (Aggregate a w)" "length y = W (Aggregate a w)"
    then have l: "length b = 9" "length x = 9" "length y = 9" using w by auto
    show "\<exists>s. length s = W (Aggregate a w) \<and> state_ok X (Aggregate a w) s \<and>
        leaf_content X (LAgg a) s = merge_leaf (leaf_op X (LAgg a)) (leaf_content X (LAgg a) b)
          (leaf_content X (LAgg a) x) (leaf_content X (LAgg a) y) \<and>
        (\<forall>r1 r2 r3. agg_merge_state a (b @ r1) (x @ r2) (y @ r3) = Some (s @ r1))"
      using agg_cell.merge_cells [OF l agg_merge_cells, of a] w
      by (cases "cell_content agg_load x"; cases "cell_content agg_load y") auto
  qed simp_all
  then show ?thesis using w by (simp add: merge_ok_def)
qed

lemma Merge_ok_Avg: "EncodedWidth v = 0 \<Longrightarrow> merge_ok X (Avg v wt) (Merge X (Avg v wt))"
proof -
  assume w: "EncodedWidth v = 0"
  have "merge_ok X (Avg v wt) (\<lambda>b x y. avg_merge_state b x y \<bind>
      (\<lambda>b'. Some (b', W (Avg v wt), W (Avg v wt), W (Avg v wt))))"
  proof (rule merge_ok_leaf)
    fix b x y :: bytes
    assume "length b = W (Avg v wt)" "length x = W (Avg v wt)" "length y = W (Avg v wt)"
    then have l: "length b = 17" "length x = 17" "length y = 17" using w by auto
    show "\<exists>s. length s = W (Avg v wt) \<and> state_ok X (Avg v wt) s \<and>
        leaf_content X LAvg s = merge_leaf (leaf_op X LAvg) (leaf_content X LAvg b)
          (leaf_content X LAvg x) (leaf_content X LAvg y) \<and>
        (\<forall>r1 r2 r3. avg_merge_state (b @ r1) (x @ r2) (y @ r3) = Some (s @ r1))"
      using avg_cell.merge_cells [OF l avg_merge_cells] w
      by (cases "cell_content avg_load2 x"; cases "cell_content avg_load2 y") auto
  qed simp_all
  then show ?thesis using w by (simp add: merge_ok_def)
qed

lemma Merge_ok: "wf_expr X e \<Longrightarrow> hdr_laws X \<Longrightarrow> merge_ok X e (Merge X e)"
proof (induction e)
  case (Aggregate a w)
  then show ?case by (intro Merge_ok_Aggregate) simp
next
  case (Avg v wt)
  then show ?case by (intro Merge_ok_Avg) simp
next
  case (Binary op l r d)
  then show ?case by (intro Merge_ok_Binary) auto
next
  case (Ptile v p mn mx prec hdr width)
  let ?e = "Ptile v p mn mx prec hdr width"
  have "merge_ok X ?e (\<lambda>b x y. ptile_merge_state X mn mx hdr width b x y \<bind> (\<lambda>b'. Some (b', W ?e, W ?e, W ?e)))"
    using ptile_merge_ok [of X mn mx hdr width] Ptile.prems
    by (intro merge_ok_leaf) (simp_all del: leaf_content.simps leaf_op.simps)
  then show ?case by (simp add: merge_ok_def)
next
  case (PtileOptimized v p mn mx prec hdr width p2)
  let ?e = "PtileOptimized v p mn mx prec hdr width p2"
  have "merge_ok X ?e (\<lambda>b x y. ptile_merge_state X mn mx hdr width b x y \<bind> (\<lambda>b'. Some (b', W ?e, W ?e, W ?e)))"
    using ptile_merge_ok [of X mn mx hdr width] PtileOptimized.prems
    by (intro merge_ok_leaf) (simp_all del: leaf_content.simps leaf_op.simps)
  then show ?case by (simp add: merge_ok_def)
qed (auto simp: merge_ok_def W_def)

end
