(* ===== verification/ExprProps.thy ===== *)
theory ExprProps
  imports ExprMerge
begin

text \<open>
  The properties of package \<open>expr\<close>: memory safety of \<open>Update\<close>, \<open>Get\<close> and \<open>Merge\<close>, the refinement of
  \<open>Merge\<close> by leafwise merging, and that merging partial aggregates gives the aggregate of all points,
  which is what lets the database split its data between memory, disk and partitions.
\<close>

section \<open>Exact sums\<close>

lemma neg_float_of_int: "\<bar>i\<bar> \<le> 2 ^ 53 \<Longrightarrow> neg (float_of_int i) \<longleftrightarrow> i < 0"
  using fval_neg [of "float_of_int i"] float_of_int_exact [of i] fval_zero_iff [of "float_of_int i"]
  by (cases "i = 0") (auto simp: float_of_int_def)

lemma fadd_of_int':
  assumes "\<bar>i\<bar> \<le> 2 ^ 53" "\<bar>j\<bar> \<le> 2 ^ 53" "\<bar>i + j\<bar> \<le> 2 ^ 53"
  shows "fadd (float_of_int i) (float_of_int j) = float_of_int (i + j)"
proof (cases "i + j = 0")
  case True
  obtain s e where r: "real_of_int s * 2 powi (e - 1074) = fval (float_of_int i) + fval (float_of_int j)"
    "fadd (float_of_int i) (float_of_int j) = (if s = 0 then mk_float (neg (float_of_int i) \<and> neg (float_of_int j)) 0
       else mk_float (s < 0) (round_mag \<bar>s\<bar> 1 e))"
    using assms float_of_int_exact by (metis fadd_scaled)
  have "fval (float_of_int i) + fval (float_of_int j) = 0"
    using True assms float_of_int_exact(2) by (simp flip: of_int_add)
  then have "s = 0" using r(1) by simp
  moreover have "\<not> (neg (float_of_int i) \<and> neg (float_of_int j))" using True assms neg_float_of_int by auto
  ultimately show ?thesis using r(2) True by (auto simp: float_of_int_def)
next
  case False
  then show ?thesis using assms by (intro fadd_of_int) auto
qed

section \<open>Folding points into an aggregate\<close>

definition agg_step :: "agg \<Rightarrow> float64 option \<Rightarrow> float64 \<Rightarrow> float64 option" where
  "agg_step a c v = Some (case c of None \<Rightarrow> agg_update a False fzero v | Some u \<Rightarrow> agg_update a True u v)"

text \<open>The values on which the arithmetic of an aggregate is exact.\<close>

fun exact_vals :: "agg \<Rightarrow> float64 list \<Rightarrow> bool" where
  "exact_vals AggSum vs = (\<exists>is. vs = map float_of_int is \<and> sum_list (map abs is) \<le> 2 ^ 53)"
| "exact_vals AggCount vs = (length vs \<le> 2 ^ 53)"
| "exact_vals _ vs = (\<forall>v \<in> set vs. \<not> isNaN v)"

lemma sum_step:
  "\<bar>i\<bar> + sum_list (map abs is) \<le> 2 ^ 53 \<Longrightarrow>
   foldl (agg_step AggSum) (Some (float_of_int i)) (map float_of_int is) = Some (float_of_int (i + sum_list is))"
proof (induction "is" arbitrary: i)
  case (Cons j "is")
  have p: "0 \<le> sum_list (map abs is)" by (rule sum_list_nonneg) auto
  then have "fadd (float_of_int i) (float_of_int j) = float_of_int (i + j)"
    using Cons.prems by (intro fadd_of_int') auto
  moreover have "\<bar>i + j\<bar> + sum_list (map abs is) \<le> 2 ^ 53" using Cons.prems by auto
  ultimately show ?case using Cons.IH [of "i + j"] by (simp add: agg_step_def add.assoc)
qed simp

lemma sum_run:
  assumes "sum_list (map abs is) \<le> 2 ^ 53" "is \<noteq> []"
  shows "foldl (agg_step AggSum) None (map float_of_int is) = Some (float_of_int (sum_list is))"
proof -
  have z: "float_of_int 0 = fzero" by (simp add: float_of_int_def)
  have "foldl (agg_step AggSum) None (map float_of_int is) =
      foldl (agg_step AggSum) (Some (float_of_int 0)) (map float_of_int is)"
    using assms(2) z by (cases "is") (auto simp: agg_step_def)
  then show ?thesis using sum_step [of 0 "is"] assms(1) by simp
qed

lemma count_run:
  assumes "length vs \<le> 2 ^ 53" "vs \<noteq> []"
  shows "foldl (agg_step AggCount) None vs = Some (float_of_int (int (length vs)))"
proof -
  have "foldl (agg_step AggCount) c vs = foldl (agg_step AggSum) c (map (\<lambda>_. float_of_int 1) vs)" for c
    by (induction vs arbitrary: c) (auto simp: agg_step_def split: option.split)
  moreover have "map (\<lambda>_. float_of_int 1) vs = map float_of_int (replicate (length vs) 1)"
    by (simp add: map_replicate_const)
  moreover have "sum_list (map abs (replicate (length vs) 1)) \<le> (2 :: int) ^ 53"
    using assms(1) by (simp add: sum_list_replicate)
  moreover have "replicate (length vs) (1 :: int) \<noteq> []" using assms(2) by simp
  ultimately show ?thesis using sum_run [of "replicate (length vs) 1"] by (simp add: sum_list_replicate)
qed

text \<open>Minimum and maximum keep the first of the best values; on numbers this choice is associative.\<close>

lemma minmax_assoc:
  assumes "a = AggMin \<or> a = AggMax" "\<not> isNaN u" "\<not> isNaN v" "\<not> isNaN w"
  shows "agg_update a True (agg_merge a True u v) w = agg_merge a True u (agg_update a True v w)"
    and "\<not> isNaN (agg_update a True v w)"
  using assms by (auto simp: flt_def split: if_splits)

lemma minmax_fold:
  assumes "a = AggMin \<or> a = AggMax" "\<forall>v \<in> set ws. \<not> isNaN v" "\<not> isNaN u" "\<not> isNaN w"
  shows "foldl (agg_step a) (Some (agg_merge a True u w)) ws =
     map_option (agg_merge a True u) (foldl (agg_step a) (Some w) ws)"
  using assms
proof (induction ws arbitrary: w)
  case (Cons v ws)
  then show ?case using minmax_assoc [of a u w v] by (simp add: agg_step_def)
qed simp

lemma minmax_run:
  assumes "a = AggMin \<or> a = AggMax" "\<forall>v \<in> set vs. \<not> isNaN v" "vs \<noteq> []"
  shows "\<exists>u. foldl (agg_step a) None vs = Some u \<and> \<not> isNaN u"
proof -
  have "\<exists>u. foldl (agg_step a) (Some w) vs = Some u \<and> \<not> isNaN u"
    if "\<not> isNaN w" "\<forall>v \<in> set vs. \<not> isNaN v" for w vs
    using that assms(1) by (induction vs arbitrary: w) (auto simp: agg_step_def)
  then show ?thesis using assms by (cases vs) (auto simp: agg_step_def)
qed

lemma minmax_merge:
  assumes "a = AggMin \<or> a = AggMax" "\<forall>v \<in> set (vs @ ws). \<not> isNaN v" "vs \<noteq> []" "ws \<noteq> []"
  shows "foldl (agg_step a) None (vs @ ws) =
    merge_leaf (agg_merge a True) (foldl (agg_step a) None vs) (foldl (agg_step a) None vs) (foldl (agg_step a) None ws)"
proof -
  obtain u where u: "foldl (agg_step a) None vs = Some u" "\<not> isNaN u" using minmax_run [of a vs] assms by auto
  obtain w ws' where ws: "ws = w # ws'" using assms(4) by (cases ws) auto
  have "foldl (agg_step a) None ws = foldl (agg_step a) (Some w) ws'" using assms(1) by (auto simp: ws agg_step_def)
  then show ?thesis using u ws assms minmax_fold [of a ws' u w] minmax_run [of a ws] by (auto simp: agg_step_def)
qed

lemma fold_merge:
  assumes "exact_vals a (vs @ ws)"
  shows "foldl (agg_step a) None (vs @ ws) =
    merge_leaf (agg_merge a True) (foldl (agg_step a) None vs) (foldl (agg_step a) None vs) (foldl (agg_step a) None ws)"
proof (cases "vs = [] \<or> ws = []")
  case True
  then show ?thesis
    by (cases "foldl (agg_step a) None vs"; cases "foldl (agg_step a) None ws") auto
next
  case False
  show ?thesis
  proof (cases a)
    case AggSum
    then obtain "is" where is_: "vs @ ws = map float_of_int is" "sum_list (map abs is) \<le> 2 ^ 53"
      using assms by auto
    then obtain i j where ij: "is = i @ j" "vs = map float_of_int i" "ws = map float_of_int j"
      by (metis map_eq_append_conv)
    have nn: "0 \<le> sum_list (map abs i)" "0 \<le> sum_list (map abs j)"
      "\<bar>sum_list i\<bar> \<le> sum_list (map abs i)" "\<bar>sum_list j\<bar> \<le> sum_list (map abs j)"
      by (auto intro!: sum_list_nonneg sum_list_abs)
    then have "fadd (float_of_int (sum_list i)) (float_of_int (sum_list j)) = float_of_int (sum_list i + sum_list j)"
      using is_(2) ij(1) by (intro fadd_of_int') auto
    then show ?thesis using False AggSum is_ ij nn sum_run [of i] sum_run [of j] sum_run [of "is"] by auto
  next
    case AggCount
    then have "fadd (float_of_int (int (length vs))) (float_of_int (int (length ws))) =
        float_of_int (int (length vs) + int (length ws))"
      using assms by (intro fadd_of_int') auto
    then show ?thesis using False AggCount assms count_run [of vs] count_run [of ws] count_run [of "vs @ ws"] by auto
  next
    case AggMin
    then show ?thesis using False assms by (intro minmax_merge) auto
  next
    case AggMax
    then show ?thesis using False assms by (intro minmax_merge) auto
  qed
qed

section \<open>Runs of updates\<close>

text \<open>A sequence of points folded into a state by \<open>Update\<close>.\<close>

fun updates :: "('c, 'h) ext \<Rightarrow> 'c expr \<Rightarrow> (params \<times> metadata) list \<Rightarrow> bytes \<Rightarrow> bytes go" where
  "updates X e [] b = Some b"
| "updates X e ((p, md) # ps) b = do { (b', _, _, _) \<leftarrow> Update X e p md b; updates X e ps b' }"

text \<open>The values the points contribute to an aggregate of \<open>w\<close>.\<close>

definition point_vals :: "('c, 'h) ext \<Rightarrow> 'c expr \<Rightarrow> (params \<times> metadata) list \<Rightarrow> float64 list" where
  "point_vals X w ps = concat (map (\<lambda>(p, md).
     case Update X w p md [] of Some (_, _, v, True) \<Rightarrow> [v] | _ \<Rightarrow> []) ps)"

lemma point_vals_append: "point_vals X w (ps @ qs) = point_vals X w ps @ point_vals X w qs"
  by (simp add: point_vals_def)

lemma agg_update_content:
  assumes "wf_expr X (Aggregate a w)" "hdr_laws X" "\<And>n. p n \<noteq> None" "length b = 9"
  shows "\<exists>s v u. length s = 9 \<and> Update X (Aggregate a w) p md b = Some (s, 9, v, u) \<and>
    cell_content agg_load s = foldl (agg_step a) (cell_content agg_load b) (point_vals X w [(p, md)])"
proof -
  have w: "wf_expr X w" "EncodedWidth w = 0" using assms(1) by auto
  obtain v u where U: "\<And>r. Update X w p md r = Some (r, 0, v, u)"
    using upd_ok_zero [OF Update_ok [where params = p and md = md, OF w(1) assms(2,3)] W_zero [OF w(2)] state_ok_zero [OF w]] by blast
  obtain c s where L: "agg_load b = Some (c, s)" using agg_cell.load_total [of b] assms(4) by auto
  have c: "cell_content agg_load b = (if s then Some c else None)" "\<not> s \<Longrightarrow> c = fzero"
    using L agg_cell.load_unset [of b c] by (auto simp: cell_content_def)
  obtain z where z: "length z = 9" "agg_save b (agg_update a s c v) = Some z"
    using agg_cell.save_shape [OF assms(4), of "agg_update a s c v"] by (metis append_Nil2)
  have pv: "point_vals X w [(p, md)] = (if u then [v] else [])" using U by (simp add: point_vals_def)
  show ?thesis
  proof (cases u)
    case True
    then have "Update X (Aggregate a w) p md b = Some (z, 9, agg_update a s c v, True)"
      using L U z assms(4) by simp
    moreover have "cell_content agg_load z = agg_step a (cell_content agg_load b) v"
      using agg_cell.content_save [OF z(2)] c by (cases s) (auto simp: agg_step_def)
    ultimately show ?thesis using z(1) True pv by auto
  next
    case False
    then show ?thesis using L U assms(4) pv by auto
  qed
qed

lemma agg_updates_content:
  assumes "wf_expr X (Aggregate a w)" "hdr_laws X" "\<forall>(p, md) \<in> set ps. \<forall>n. p n \<noteq> None" "length b = 9"
  shows "\<exists>s. updates X (Aggregate a w) ps b = Some s \<and> length s = 9 \<and>
    cell_content agg_load s = foldl (agg_step a) (cell_content agg_load b) (point_vals X w ps)"
  using assms(3,4)
proof (induction ps arbitrary: b)
  case Nil
  then show ?case by (simp add: point_vals_def)
next
  case (Cons q ps)
  obtain p md where q: "q = (p, md)" by (cases q)
  then have p: "\<And>n. p n \<noteq> None" using Cons.prems(1) by auto
  obtain s v u where s: "length s = 9" "Update X (Aggregate a w) p md b = Some (s, 9, v, u)"
    "cell_content agg_load s = foldl (agg_step a) (cell_content agg_load b) (point_vals X w [(p, md)])"
    using agg_update_content [where p = p and md = md, OF assms(1,2) p Cons.prems(2)] by blast
  obtain t where "updates X (Aggregate a w) ps s = Some t" "length t = 9"
    "cell_content agg_load t = foldl (agg_step a) (cell_content agg_load s) (point_vals X w ps)"
    using Cons.IH [of s] Cons.prems s(1) by auto
  then show ?case using s q point_vals_append [of X w "[q]" ps] by auto
qed

section \<open>A concrete environment\<close>

text \<open>
  Histograms of two 64-bit counts, conditions that are constants: an environment in which the laws
  the package relies on hold.
\<close>

definition sample_ext :: "(bool, u64 list) ext" where
  "sample_ext = \<lparr>
     ge_eval = (\<lambda>c _. Some (GBool c)), ge_string = (\<lambda>c. if c then ''true'' else ''false''),
     fmt_f = (\<lambda>v. itoa (int64_of_float v)), fmt_v = (\<lambda>v. itoa (int64_of_float v)), fmt_dur = itoa,
     parse_float = (\<lambda>_. None), math_log = (\<lambda>_ v. v),
     hdr_new = (\<lambda>_ _ _. [0, 0]), hdr_import = (\<lambda>_ _ _ cs. map word_of_int cs), hdr_export = map sint,
     hdr_record = (\<lambda>h v. case h of [] \<Rightarrow> [] | c # cs \<Rightarrow> (c + 1) # cs),
     hdr_merge = (\<lambda>h g. map2 (+) h (g @ replicate (length h) 0)),
     hdr_quantile = (\<lambda>h q. 0) \<rparr>"

lemma map_sint_word: "list_all in64 cs \<Longrightarrow> map (sint \<circ> (word_of_int :: int \<Rightarrow> u64)) cs = cs"
  by (induction cs) (auto simp: sint_word_of_int64)

lemma sample_hdr_laws: "hdr_laws sample_ext"
  by (auto simp: hdr_laws_def sample_ext_def map_sint_word list_all_iff split: list.split)

section \<open>Properties\<close>

text \<open>
  C34. \<open>Update\<close> and \<open>Get\<close> of a well-formed expression never panic on a slice that holds its state: they
  consume exactly its encoded width, \<open>Update\<close> leaves the bytes after it alone and the state valid, and
  what they return does not depend on the bytes after it.
\<close>

theorem expr_update_get_safe:
  assumes "wf_expr X e" "hdr_laws X" "\<And>n. params n \<noteq> None" "length b = W e" "state_ok X e b"
  shows "(\<exists>s v u. length s = W e \<and> state_ok X e s \<and>
      (\<forall>r. Update X e params md (b @ r) = Some (s @ r, W e, v, u))) \<and>
    (\<exists>v s. \<forall>r. Get X e (b @ r) = Some (v, s, W e))"
  using Update_ok [where params = params, OF assms(1-3)] Get_ok [OF assms(1,2,4,5)] assms(4,5) by (auto simp: upd_ok_def)

theorem expr_update_get_safe_witness:
  "\<exists>s v u. length s = W (Binary Plus (Aggregate AggSum (Field ''a'')) (AVG (Field ''b'')) False :: bool expr) \<and>
     (\<forall>r. Update sample_ext (Binary Plus (Aggregate AggSum (Field ''a'')) (AVG (Field ''b'')) False)
        (\<lambda>_. Some (float_of_int 1, True)) None (replicate 26 0 @ r) = Some (s @ r, 26, v, u))"
  using expr_update_get_safe [of sample_ext "Binary Plus (Aggregate AggSum (Field ''a'')) (AVG (Field ''b'')) False"
      "\<lambda>_. Some (float_of_int 1, True)" "replicate 26 0" None] sample_hdr_laws
  by (auto simp: AVG_def W_def)

text \<open>
  C2. \<open>Merge\<close> refines the leafwise merge: on the states \<open>x\<close> and \<open>y\<close> of a well-formed expression it does not
  panic, consumes the encoded width of all three slices, writes only the first \<open>W e\<close> bytes of \<open>b\<close>, and every
  aggregate, average and percentile of the new state is the merge of that of \<open>x\<close> and that of \<open>y\<close>, or that of \<open>b\<close>
  when neither is set.
\<close>

theorem expr_merge_refines:
  assumes "wf_expr X e" "hdr_laws X" "length b = W e" "length x = W e" "length y = W e"
    "state_ok X e b" "state_ok X e x" "state_ok X e y"
  shows "\<exists>s. length s = W e \<and> state_ok X e s \<and>
    contents X e s = merge_leaves X (leaves e) (contents X e b) (contents X e x) (contents X e y) \<and>
    (\<forall>r1 r2 r3. Merge X e (b @ r1) (x @ r2) (y @ r3) = Some (s @ r1, W e, W e, W e))"
  using Merge_ok [OF assms(1,2)] assms(3-) by (auto simp: merge_ok_def)

theorem expr_merge_refines_witness:
  "\<exists>s. length s = 26 \<and>
    contents sample_ext (Binary Plus (Aggregate AggSum (Field ''a'')) (AVG (Field ''b'')) False) s =
      merge_leaves sample_ext [LAgg AggSum, LAvg] [None, None] [None, None] [Some (VAgg 0), None] \<and>
    (\<forall>r1 r2 r3. Merge sample_ext (Binary Plus (Aggregate AggSum (Field ''a'')) (AVG (Field ''b'')) False)
       (replicate 26 0 @ r1) (replicate 26 0 @ r2) (1 # replicate 25 0 @ r3) = Some (s @ r1, 26, 26, 26))"
  using expr_merge_refines [of sample_ext "Binary Plus (Aggregate AggSum (Field ''a'')) (AVG (Field ''b'')) False"
      "replicate 26 0" "replicate 26 0" "1 # replicate 25 0"] sample_hdr_laws
  by (simp add: AVG_def W_def cell_content_def agg_load_def avg_load2_def avg_load_def Uint64_def
      unbe_def numeral_eq_Suc)

text \<open>
  C1. Partial aggregates: the \<open>Merge\<close> of the state built from one part of the points with the state built from
  the rest holds the same aggregate as the state built from all the points in order.  This is exact for minimum
  and maximum of numbers, for counts up to \<open>2 ^ 53\<close> and for sums of integers whose absolute values add up to at
  most \<open>2 ^ 53\<close>; other sums are rounded.
\<close>

theorem merge_partial_aggregates:
  assumes "wf_expr X (Aggregate a w)" "hdr_laws X" "\<forall>(p, md) \<in> set (ps @ qs). \<forall>n. p n \<noteq> None"
    "exact_vals a (point_vals X w (ps @ qs))"
  shows "\<exists>s1 s2 s t. updates X (Aggregate a w) ps (replicate 9 0) = Some s1 \<and>
    updates X (Aggregate a w) qs (replicate 9 0) = Some s2 \<and>
    Merge X (Aggregate a w) s1 s1 s2 = Some (s, 9, 9, 9) \<and>
    updates X (Aggregate a w) (ps @ qs) (replicate 9 0) = Some t \<and>
    Get X (Aggregate a w) s = Get X (Aggregate a w) t"
proof -
  let ?e = "Aggregate a w" and ?z = "replicate 9 0 :: bytes"
  note run = agg_updates_content [OF assms(1,2), where b = ?z]
  have z: "cell_content agg_load ?z = None" by (simp add: cell_content_def agg_load_def)
  obtain s1 where s1: "updates X ?e ps ?z = Some s1" "length s1 = 9"
    "cell_content agg_load s1 = foldl (agg_step a) None (point_vals X w ps)" using run [of ps] assms(3) z by auto
  obtain s2 where s2: "updates X ?e qs ?z = Some s2" "length s2 = 9"
    "cell_content agg_load s2 = foldl (agg_step a) None (point_vals X w qs)" using run [of qs] assms(3) z by auto
  obtain t where t: "updates X ?e (ps @ qs) ?z = Some t" "length t = 9"
    "cell_content agg_load t = foldl (agg_step a) None (point_vals X w (ps @ qs))"
    using run [of "ps @ qs"] assms(3) z by auto
  have W9: "W ?e = 9" using assms(1) by simp
  obtain s where s: "length s = 9" "Merge X ?e s1 s1 s2 = Some (s, 9, 9, 9)"
    "contents X ?e s = merge_leaves X (leaves ?e) (contents X ?e s1) (contents X ?e s1) (contents X ?e s2)"
    using merge_okD [OF Merge_ok [OF assms(1,2)], of s1 s1 s2] s1(2) s2(2) unfolding W9 by (metis append_Nil2 state_ok.simps(10))
  have "cell_content agg_load s = merge_leaf (agg_merge a True) (cell_content agg_load s1)
      (cell_content agg_load s1) (cell_content agg_load s2)"
    using s(3) by (cases "cell_content agg_load s1"; cases "cell_content agg_load s2") auto
  then have "cell_content agg_load s = cell_content agg_load t"
    using s1(3) s2(3) t(3) fold_merge [of a "point_vals X w ps" "point_vals X w qs"] assms(4)
    by (simp add: point_vals_append)
  then have "Get X ?e s = Get X ?e t"
    using agg_cell.load_content [of s] agg_cell.load_content [of t] s(1) t(2) by simp
  then show ?thesis using s1 s2 s t by blast
qed

definition sample_points :: "int list \<Rightarrow> (params \<times> metadata) list" where
  "sample_points is = map (\<lambda>i. (\<lambda>n. Some (float_of_int i, n = ''a''), None)) is"

lemma sample_point_vals: "point_vals X (Field ''a'') (sample_points is) = map float_of_int is"
  by (induction "is") (auto simp: point_vals_def sample_points_def)

theorem merge_partial_aggregates_witness:
  "\<exists>s1 s2 s t. updates sample_ext (Aggregate AggSum (Field ''a'')) (sample_points [3, -5]) (replicate 9 0) = Some s1 \<and>
    updates sample_ext (Aggregate AggSum (Field ''a'')) (sample_points [7]) (replicate 9 0) = Some s2 \<and>
    Merge sample_ext (Aggregate AggSum (Field ''a'')) s1 s1 s2 = Some (s, 9, 9, 9) \<and>
    updates sample_ext (Aggregate AggSum (Field ''a'')) (sample_points [3, -5] @ sample_points [7])
      (replicate 9 0) = Some t \<and>
    Get sample_ext (Aggregate AggSum (Field ''a'')) s = Get sample_ext (Aggregate AggSum (Field ''a'')) t"
proof (rule merge_partial_aggregates)
  have "sample_points [3, -5] @ sample_points [7] = sample_points [3, -5, 7]" by (simp add: sample_points_def)
  then have "point_vals sample_ext (Field ''a'') (sample_points [3, -5] @ sample_points [7]) = map float_of_int [3, -5, 7]"
    by (simp only: sample_point_vals)
  then show "exact_vals AggSum (point_vals sample_ext (Field ''a'') (sample_points [3, -5] @ sample_points [7]))"
    by (auto intro!: exI [of _ "[3, -5, 7]"])
qed (auto simp: sample_points_def sample_hdr_laws)

text \<open>\<open>DeAggregate\<close> strips every aggregate, so that what is left has no state.\<close>

lemma DeAggregate_width: "DeAggregate e = Some e' \<Longrightarrow> EncodedWidth e' = 0"
  by (induction e arbitrary: e' rule: DeAggregate.induct)
    (auto simp: BOUNDED_def IF_def SHIFT_def UnaryMathFor_def bind_Some_iff split: expr.splits)

lemma DeAggregate_wf: "wf_expr X e \<Longrightarrow> DeAggregate e = Some e' \<Longrightarrow> wf_expr X e'"
  by (induction e arbitrary: e' rule: DeAggregate.induct)
    (auto simp: BOUNDED_def IF_def SHIFT_def UnaryMathFor_def bind_Some_iff split: expr.splits)

lemma DeAggregate_valid: "DeAggregate e = Some e' \<Longrightarrow> Validate e' = None"
  by (induction e arbitrary: e' rule: DeAggregate.induct)
    (auto simp: BOUNDED_def IF_def SHIFT_def UnaryMathFor_def bind_Some_iff split: expr.splits)

text \<open>
  \<open>PERCENTILE\<close> over any well-formed value it accepts builds a well-formed expression whose width is exactly
  the number of counts plus one words, provided the percentile itself has no state, so that C6 and C7 apply to it;
  \<open>PERCENTILEOPT\<close> over the result keeps it well-formed, with the same state.
\<close>

theorem percentile_well_formed:
  assumes "wf_expr X value" "wf_expr X p" "EncodedWidth p = 0" "wf_expr X q" "EncodedWidth q = 0"
    "PERCENTILE X value p mn mx prec = Some e"
    "\<forall>a b c. 0 < hdr_counts X a b c \<and> hdr_counts X a b c < 2 ^ 60"
  shows "wf_expr X e \<and> Validate e = None \<and>
    (\<exists>e'. PERCENTILEOPT e q = Some e' \<and> wf_expr X e' \<and> W e' = W e \<and> leaves e' = leaves e)"
proof -
  obtain v where v: "DeAggregate value = Some v"
    "e = Ptile (BOUNDED v mn mx) p (scaleToInt mn prec) (scaleToInt mx prec) prec
       (if prec < 1 then 1 else if prec > 5 then 5 else prec)
       ((1 + int (hdr_counts X (scaleToInt mn prec) (scaleToInt mx prec)
          (if prec < 1 then 1 else if prec > 5 then 5 else prec))) * 8 + EncodedWidth v)"
    using assms(6) by (auto simp: PERCENTILE_def bind_Some_iff hdr_counts_def Let_def split: if_splits)
  have "wf_expr X v" "EncodedWidth v = 0" "Validate v = None"
    using DeAggregate_wf DeAggregate_width DeAggregate_valid assms(1) v(1) by auto
  then show ?thesis using v(2) assms by (simp add: BOUNDED_def ptile_wf_def)
qed

theorem percentile_well_formed_witness:
  "wf_expr sample_ext (Ptile (Bounded (Field ''a'') fzero fzero) (Constant 99) (scaleToInt fzero 2) (scaleToInt fzero 2) 2 2 24)"
  using percentile_well_formed [of sample_ext "Aggregate AggSum (Field ''a'')" "Constant 99" "Constant 95" fzero fzero 2
      "Ptile (Bounded (Field ''a'') fzero fzero) (Constant 99) (scaleToInt fzero 2) (scaleToInt fzero 2) 2 2 24"]
  by (simp add: PERCENTILE_def BOUNDED_def sample_ext_def hdr_counts_def)

text \<open>
  \<open>Validate\<close> accepts an aggregate over a bounded aggregate, whose encoded width is 18 bytes; \<open>Merge\<close> of that
  expression consumes and merges only the first 9 of them, so that the inner aggregate is lost.
\<close>

theorem nested_aggregate_merge_incomplete:
  "Validate (Aggregate AggSum (Bounded (Aggregate AggSum (Field ''a'')) mn mx)) = None \<and>
   EncodedWidth (Aggregate AggSum (Bounded (Aggregate AggSum (Field ''a'')) mn mx)) = 18 \<and>
   map_option snd (Merge X (Aggregate AggSum (Bounded (Aggregate AggSum (Field ''a'')) mn mx))
     (replicate 18 0) (replicate 18 0) (replicate 18 0)) = Some (9, 9, 9)"
  by (simp add: agg_merge_state_def agg_load_def)

text \<open>
  The constructor \<open>UnaryMath\<close> has no sub-merger for a column that holds the very same expression: the loop of
  \<open>unaryMathExpr.SubMergers\<close> that looks for it fills a slice that is not returned, and \<open>LN(SUM(a))\<close> over the column
  \<open>LN(SUM(a))\<close> merges nothing.
\<close>

theorem unary_math_exact_match_lost:
  "SubMergers sample_ext (UnaryMathFor LN (Aggregate AggSum (Field ''a'')))
     [UnaryMathFor LN (Aggregate AggSum (Field ''a''))] = [None]"
  by (simp add: UnaryMathFor_def exact_def)

text \<open>
  The printed form of a weighted average leaves the weight out, so \<open>exact\<close> matches averages with different
  weights: \<open>SubMergers\<close> offers to merge a column \<open>AVG(a)\<close> into \<open>WAVG(a, b)\<close>.
\<close>

theorem weighted_average_conflated:
  "String X (WAVG (Field ''a'') (Field ''b'')) = String X (AVG (Field ''a'')) \<and>
   SubMergers X (WAVG (Field ''a'') (Field ''b'')) [AVG (Field ''a'')] \<noteq> [None]"
  by (simp add: WAVG_def AVG_def exact_def)

end
