(* ===== verification/Sequence.thy ===== *)
theory Sequence
  imports ExprProps
begin

text \<open>
  \<open>encoding/seq.go\<close>: a sequence of accumulator states in descending time order.  The first 8 bytes
  hold the time at which the sequence ends, each following chunk of the width of the expression is the
  state of one period, going back in time.  The empty list is the nil or empty sequence.

  Writes go to the slice: \<open>SetUntil\<close> and the updates return the new contents.  \<open>Truncate\<close> and \<open>SubMerge\<close>
  can write into the slice they are called on, or given, while they return another one; they return
  what the caller's slice holds afterwards as well.  \<open>Time.Add\<close> is addition, \<open>Time.After\<close> and
  \<open>Time.Before\<close> are the order of the integers.
\<close>

text \<open>\<open>make([]byte, n)\<close>: a negative length panics.\<close>

definition make_bytes :: "int \<Rightarrow> bytes go" where
  "make_bytes n = (if n < 0 then None else Some (replicate (nat n) 0))"

section \<open>Operations\<close>

definition NewSequence :: "int \<Rightarrow> int \<Rightarrow> bytes go" where
  "NewSequence width numPeriods = make_bytes (wrap64 (Width64bits + wrap64 (numPeriods * width)))"

definition Until :: "bytes \<Rightarrow> gotime go" where
  "Until seq = (if seq = [] then Some zeroTime else TimeFromBytes seq)"

definition UntilInt :: "bytes \<Rightarrow> int go" where
  "UntilInt seq = (if seq = [] then Some 0 else TimeIntFromBytes seq)"

definition SetUntil :: "bytes \<Rightarrow> gotime \<Rightarrow> bytes go" where
  "SetUntil seq t = PutUint64 seq (word_of_int (UnixNano t))"

definition DataLength :: "bytes \<Rightarrow> int" where
  "DataLength seq = int (length seq) - Width64bits"

definition NumPeriods :: "bytes \<Rightarrow> int \<Rightarrow> int go" where
  "NumPeriods seq width = (if seq = [] then Some 0 else go_div (DataLength seq) width)"

definition AsOf :: "bytes \<Rightarrow> int \<Rightarrow> duration \<Rightarrow> gotime go" where
  "AsOf seq width resolution =
     (if seq = [] then Some zeroTime
      else do { u \<leftarrow> Until seq; n \<leftarrow> NumPeriods seq width;
                Some (u + wrap64 (wrap64 (- n) * resolution)) })"

definition ValueAtOffset :: "('c, 'h) ext \<Rightarrow> bytes \<Rightarrow> int \<Rightarrow> 'c expr \<Rightarrow> (float64 \<times> bool) go" where
  "ValueAtOffset X seq offset e =
     (if IsConstant e then do { (val, found, _) \<leftarrow> Get X e []; Some (val, found) }
      else if seq = [] then Some (fzero, False)
      else let off = wrap64 (offset + Width64bits) in
        if int (length seq) \<le> off then Some (fzero, False)
        else do { b \<leftarrow> slice_from off seq; (val, wasSet, _) \<leftarrow> Get X e b; Some (val, wasSet) })"

definition ValueAt :: "('c, 'h) ext \<Rightarrow> bytes \<Rightarrow> int \<Rightarrow> 'c expr \<Rightarrow> (float64 \<times> bool) go" where
  "ValueAt X seq period e =
     (if IsConstant e then do { (val, found, _) \<leftarrow> Get X e []; Some (val, found) }
      else if seq = [] then Some (fzero, False)
      else if period < 0 then Some (fzero, False)
      else ValueAtOffset X seq (wrap64 (period * EncodedWidth e)) e)"

definition ValueAtTime :: "('c, 'h) ext \<Rightarrow> bytes \<Rightarrow> gotime \<Rightarrow> 'c expr \<Rightarrow> duration \<Rightarrow> (float64 \<times> bool) go" where
  "ValueAtTime X seq t e resolution =
     (if IsConstant e then do { (val, found, _) \<leftarrow> Get X e []; Some (val, found) }
      else if seq = [] then Some (fzero, False)
      else do { u \<leftarrow> Until seq;
                let t' = RoundTimeUntilUp t resolution u;
                if u < t' then Some (fzero, False)
                else do { period \<leftarrow> go_div (Sub u t') resolution; ValueAt X seq period e } })"

definition UpdateValueAtOffset ::
  "('c, 'h) ext \<Rightarrow> bytes \<Rightarrow> int \<Rightarrow> 'c expr \<Rightarrow> params \<Rightarrow> metadata \<Rightarrow> bytes go" where
  "UpdateValueAtOffset X seq offset e params md =
     map_option fst (at_suffix (wrap64 (offset + Width64bits)) (Update X e params md) seq)"

definition UpdateValueAt ::
  "('c, 'h) ext \<Rightarrow> bytes \<Rightarrow> int \<Rightarrow> 'c expr \<Rightarrow> params \<Rightarrow> metadata \<Rightarrow> bytes go" where
  "UpdateValueAt X seq period e params md =
     UpdateValueAtOffset X seq (wrap64 (period * EncodedWidth e)) e params md"

text \<open>\<open>FloatParams\<close>: every name has the same value.\<close>

definition FloatParams :: "float64 \<Rightarrow> params" where "FloatParams v name = Some (v, True)"

definition NewValue :: "('c, 'h) ext \<Rightarrow> 'c expr \<Rightarrow> gotime \<Rightarrow> params \<Rightarrow> metadata \<Rightarrow> bytes go" where
  "NewValue X e ts params md =
     do { seq \<leftarrow> NewSequence (EncodedWidth e) 1;
          seq \<leftarrow> SetUntil seq ts;
          UpdateValueAt X seq 0 e params md }"

definition NewFloatValue :: "('c, 'h) ext \<Rightarrow> 'c expr \<Rightarrow> gotime \<Rightarrow> float64 \<Rightarrow> bytes go" where
  "NewFloatValue X e ts val = NewValue X e ts (FloatParams val) None"

text \<open>
  \<open>Truncate\<close>: the result, and the caller's slice afterwards.  \<open>SetUntil\<close> on the re-sliced sequence
  writes into the 8 bytes of the caller's slice before the first period that is kept.
\<close>

definition Truncate :: "bytes \<Rightarrow> int \<Rightarrow> duration \<Rightarrow> gotime \<Rightarrow> gotime \<Rightarrow> (bytes \<times> bytes) go" where
  "Truncate seq width resolution asOf until =
     (if seq = [] then Some ([], [])
      else do {
        oldUntil \<leftarrow> Until seq;
        let asOf' = RoundTimeUntilDown asOf resolution oldUntil;
        let until' = RoundTimeUntilDown until resolution oldUntil;
        r \<leftarrow> (if \<not> IsZero until' then do {
                periodsToRemove \<leftarrow> go_div (Sub oldUntil until') resolution;
                if 0 < periodsToRemove then
                  (let bytesToRemove = wrap64 (periodsToRemove * width) in
                   if int (length seq) \<le> wrap64 (bytesToRemove + Width64bits) then Some None
                   else do { res \<leftarrow> slice_from bytesToRemove seq;
                             res \<leftarrow> SetUntil res until';
                             Some (Some (res, take (nat bytesToRemove) seq @ res)) })
                else Some (Some (seq, seq)) }
              else Some (Some (seq, seq)));
        (case r of
           None \<Rightarrow> Some ([], seq)
         | Some (result, seq') \<Rightarrow>
             if \<not> IsZero asOf' then do {
               u \<leftarrow> Until result;
               maxPeriods \<leftarrow> go_div (Sub u asOf') resolution;
               if maxPeriods \<le> 0 then Some ([], seq')
               else let maxLength = wrap64 (Width64bits + wrap64 (maxPeriods * width)) in
                 if int (length result) \<le> maxLength then Some (result, seq')
                 else do { res \<leftarrow> slice_to maxLength result; Some (res, seq') } }
             else Some (result, seq')) })"

text \<open>
  \<open>UpdateValue\<close>.  The variables \<open>start\<close>, \<open>gapPeriods\<close> and \<open>maxPeriods\<close> are only set for a sequence that is
  not empty, and the test \<open>sequenceEmpty || ...\<close> is a short circuit.
\<close>

definition UpdateValue ::
  "('c, 'h) ext \<Rightarrow> bytes \<Rightarrow> gotime \<Rightarrow> params \<Rightarrow> metadata \<Rightarrow> 'c expr \<Rightarrow> duration \<Rightarrow> gotime \<Rightarrow> bytes go" where
  "UpdateValue X seq ts0 params md e resolution truncateBefore0 =
     do { let width = EncodedWidth e;
          until0 \<leftarrow> Until seq;
          let ts = RoundTimeUp ts0 resolution;
          let until = (if IsZero until0 then ts else until0);
          let truncateBefore = RoundTimeUntilUp truncateBefore0 resolution until;
          if ts \<le> truncateBefore then map_option fst (Truncate seq width resolution truncateBefore zeroTime)
          else do {
            (start, gapPeriods, maxPeriods) \<leftarrow>
              (if seq = [] then Some (zeroTime, 0, 0)
               else do { s \<leftarrow> Until seq; g \<leftarrow> go_div (Sub ts s) resolution;
                         m \<leftarrow> go_div (Sub ts truncateBefore) resolution; Some (s, g, m) });
            if seq = [] \<or> start < truncateBefore \<or> maxPeriods < gapPeriods then do {
              out \<leftarrow> make_bytes (wrap64 (Width64bits + width));
              out \<leftarrow> SetUntil out ts;
              UpdateValueAt X out 0 e params md }
            else if start < ts then do {
              n \<leftarrow> NumPeriods seq width;
              let numPeriods0 = wrap64 (n + gapPeriods);
              let numPeriods = (if maxPeriods < numPeriods0 then maxPeriods else numPeriods0);
              let origEnd = (if maxPeriods < numPeriods0
                then wrap64 (Width64bits + wrap64 (width * wrap64 (maxPeriods - gapPeriods)))
                else int (length seq));
              out \<leftarrow> NewSequence width numPeriods;
              src \<leftarrow> slice_to origEnd seq;
              src \<leftarrow> slice_from Width64bits src;
              out \<leftarrow> map_option fst (at_suffix (wrap64 (Width64bits + wrap64 (gapPeriods * width)))
                       (\<lambda>dst. Some (go_copy dst src, ())) out);
              out \<leftarrow> SetUntil out ts;
              UpdateValueAt X out 0 e params md }
            else do {
              period \<leftarrow> go_div (Sub start ts) resolution;
              let offset = wrap64 (period * width);
              out \<leftarrow> (if int (length seq) \<le> wrap64 (offset + width)
                      then map_option (\<lambda>o'. go_copy o' seq) (make_bytes (wrap64 (wrap64 (offset + Width64bits) + width)))
                      else Some seq);
              UpdateValueAtOffset X out offset e params md } } }"

definition seq_Update ::
  "('c, 'h) ext \<Rightarrow> bm_get \<Rightarrow> bytes \<Rightarrow> bytes \<Rightarrow> metadata \<Rightarrow> 'c expr \<Rightarrow> duration \<Rightarrow> gotime \<Rightarrow> bytes go" where
  "seq_Update X get seq tsp md e resolution truncateBefore =
     do { (ts, params) \<leftarrow> TimeAndParams get tsp;
          UpdateValue X seq ts params md e resolution truncateBefore }"

text \<open>
  The loop of \<open>SubMerge\<close> from period \<open>po\<close> of \<open>other\<close> on, with \<open>n\<close> periods left; it ends at the first period
  beyond the result.
\<close>

fun subMerge_loop ::
  "submerge \<Rightarrow> bytes \<Rightarrow> duration \<Rightarrow> metadata \<Rightarrow> int \<Rightarrow> int \<Rightarrow> int \<Rightarrow> int \<Rightarrow> int \<Rightarrow> duration \<Rightarrow> int
   \<Rightarrow> nat \<Rightarrow> int \<Rightarrow> bytes \<Rightarrow> bytes go" where
  "subMerge_loop sm other otherRes md width otherWidth scale untilOffset resultPeriods strideSlice
     strideSlicePeriods 0 po result = Some result"
| "subMerge_loop sm other otherRes md width otherWidth scale untilOffset resultPeriods strideSlice
     strideSlicePeriods (Suc n) po result =
     (let p = int64_of_float (ffloor (fdiv (float_of_int (wrap64 (po + untilOffset))) (float_of_int scale))) in
      if resultPeriods \<le> p then Some result
      else do {
        selected \<leftarrow> (if strideSlice \<le> 0 then Some True
                    else if scale = 0 then None
                    else Some (trem (wrap64 (po + untilOffset)) scale < strideSlicePeriods));
        result' \<leftarrow> (if selected then do {
            o' \<leftarrow> slice_from (wrap64 (Width64bits + wrap64 (po * otherWidth))) other;
            map_option fst (at_suffix (wrap64 (Width64bits + wrap64 (p * width)))
              (\<lambda>d. map_option (\<lambda>d'. (d', ())) (sm d o' otherRes md)) result) }
          else Some result);
        subMerge_loop sm other otherRes md width otherWidth scale untilOffset resultPeriods strideSlice
          strideSlicePeriods n (po + 1) result' })"

text \<open>\<open>SubMerge\<close>: the result, and the slice \<open>other\<close> of the caller afterwards.\<close>

definition SubMerge ::
  "bytes \<Rightarrow> bytes \<Rightarrow> metadata \<Rightarrow> duration \<Rightarrow> duration \<Rightarrow> 'c expr \<Rightarrow> 'c expr \<Rightarrow> submerge
   \<Rightarrow> gotime \<Rightarrow> gotime \<Rightarrow> duration \<Rightarrow> (bytes \<times> bytes) go" where
  "SubMerge seq other0 md resolution otherRes e otherEx sm asOf until strideSlice =
     do { let shiftBack = wrap64 (- ShiftOf e);
          let otherWidth = EncodedWidth otherEx;
          otherAsOf0 \<leftarrow> AsOf other0 otherWidth otherRes;
          let otherAsOf = (if otherAsOf0 < asOf then asOf else otherAsOf0);
          (other, other0') \<leftarrow> Truncate other0 otherWidth otherRes (asOf + wrap64 (- shiftBack)) until;
          otherPeriods \<leftarrow> NumPeriods other otherWidth;
          if otherPeriods = 0 then Some (seq, other0')
          else do {
            let width = EncodedWidth e;
            (result, _) \<leftarrow> Truncate seq width resolution asOf until;
            resultUntil \<leftarrow> Until result;
            otherUntil \<leftarrow> Until other;
            (other, otherUntil, otherPeriods) \<leftarrow>
              (if 0 < shiftBack then do {
                 let shiftedOtherUntil = (if until < otherUntil + shiftBack then until else otherUntil + shiftBack);
                 growByPeriods \<leftarrow> go_div (Sub shiftedOtherUntil otherUntil) otherRes;
                 if 0 < growByPeriods then do {
                   let growBy = wrap64 (growByPeriods * otherWidth);
                   grown \<leftarrow> make_bytes (wrap64 (int (length other) + growBy));
                   grown \<leftarrow> SetUntil grown shiftedOtherUntil;
                   src \<leftarrow> slice_from Width64bits other;
                   grown \<leftarrow> map_option fst (at_suffix (wrap64 (Width64bits + growBy))
                              (\<lambda>dst. Some (go_copy dst src, ())) grown);
                   n \<leftarrow> NumPeriods grown otherWidth;
                   Some (grown, shiftedOtherUntil, n) }
                 else Some (other, otherUntil, otherPeriods) }
               else Some (other, otherUntil, otherPeriods));
            let newUntil = RoundTimeUntilUp otherUntil resolution until;
            (result, resultUntil) \<leftarrow>
              (if int (length result) \<le> Width64bits then do {
                 r \<leftarrow> NewSequence width 1;
                 r \<leftarrow> SetUntil r newUntil;
                 Some (r, newUntil) }
               else do {
                 periodsToPrepend \<leftarrow> go_div (Sub newUntil resultUntil) resolution;
                 if 0 < periodsToPrepend then do {
                   r \<leftarrow> NewSequence width periodsToPrepend;
                   r \<leftarrow> SetUntil r newUntil;
                   d \<leftarrow> slice_from Width64bits result;
                   Some (r @ d, newUntil) }
                 else Some (result, resultUntil) });
            resultAsOf \<leftarrow> AsOf result width resolution;
            let oldAsOf = RoundTimeUntilUp resultAsOf resolution resultUntil;
            let newAsOf = RoundTimeUntilDown otherAsOf resolution resultUntil;
            periodsToAppend \<leftarrow> go_div (Sub oldAsOf newAsOf) resolution;
            result \<leftarrow> (if 0 < periodsToAppend then do {
                n \<leftarrow> NumPeriods result width;
                appended \<leftarrow> NewSequence width (wrap64 (n + periodsToAppend));
                Some (go_copy appended result) }
              else Some result);
            scale \<leftarrow> go_div resolution otherRes;
            untilOffset \<leftarrow> go_div (Sub resultUntil otherUntil) otherRes;
            resultPeriods \<leftarrow> NumPeriods result width;
            strideSlicePeriods \<leftarrow> go_div strideSlice otherRes;
            result \<leftarrow> subMerge_loop sm other otherRes md width otherWidth scale untilOffset resultPeriods
                        strideSlice strideSlicePeriods (nat otherPeriods) 0 result;
            Some (result, other0') } }"

text \<open>
  The overlap loop of \<open>Merge\<close>: what it wrote, and the rests of the three slices.
\<close>

fun merge_loop :: "('c, 'h) ext \<Rightarrow> 'c expr \<Rightarrow> nat \<Rightarrow> bytes \<Rightarrow> bytes \<Rightarrow> bytes \<Rightarrow> (bytes \<times> bytes \<times> bytes \<times> bytes) go" where
  "merge_loop X e 0 sout sa sb = Some ([], sout, sa, sb)"
| "merge_loop X e (Suc n) sout sa sb =
     do { (b, nb, nx, ny) \<leftarrow> Merge X e sout sa sb;
          (d, r) \<leftarrow> merge_loop X e n (drop nb b) (drop nx sa) (drop ny sb);
          Some (take nb b @ d, r) }"

text \<open>\<open>Merge\<close> of two sequences of which the first ends last, after the switch.\<close>

definition mergeOrdered ::
  "('c, 'h) ext \<Rightarrow> bytes \<Rightarrow> gotime \<Rightarrow> bytes \<Rightarrow> gotime \<Rightarrow> 'c expr \<Rightarrow> duration \<Rightarrow> gotime \<Rightarrow> bytes go" where
  "mergeOrdered X sa startA sb startB e resolution truncateBefore0 =
     (let truncateBefore = RoundTimeUntilUp truncateBefore0 resolution startA in
        if startB < truncateBefore then Some sa
        else do {
          let encodedWidth = EncodedWidth e;
          aPeriods \<leftarrow> NumPeriods sa encodedWidth;
          bPeriods \<leftarrow> NumPeriods sb encodedWidth;
          let endA = startA + wrap64 (wrap64 (- aPeriods) * resolution);
          let endB = startB + wrap64 (wrap64 (- bPeriods) * resolution);
          let ende = (if endA < endB then endA else endB);
          totalPeriods \<leftarrow> go_div (Sub startA ende) resolution;
          out \<leftarrow> make_bytes (wrap64 (Width64bits + wrap64 (totalPeriods * encodedWidth)));
          hd \<leftarrow> slice_to Width64bits sa;
          let out = go_copy out hd;
          sout \<leftarrow> slice_from Width64bits out;
          let done = take 8 out;
          sa \<leftarrow> slice_from Width64bits sa;
          sb \<leftarrow> slice_from Width64bits sb;
          let leadEnd = (if startB < endA then endA else startB);
          lead \<leftarrow> go_div (Sub startA leadEnd) resolution;
          (done, sout, sa) \<leftarrow>
            (if 0 < lead then do {
               let l = wrap64 (lead * encodedWidth);
               src \<leftarrow> slice_to l sa;
               let sout = go_copy sout src;
               d \<leftarrow> slice_to l sout;
               sout \<leftarrow> slice_from l sout;
               sa \<leftarrow> slice_from l sa;
               Some (done @ d, sout, sa) }
             else Some (done, sout, sa));
          (done, sout, sa, sb) \<leftarrow>
            (if endA < startB then do {
               op \<leftarrow> (if endA < endB then go_div (Sub startA endB) resolution
                      else go_div (Sub startA endA) resolution);
               (d, sout, sa, sb) \<leftarrow> merge_loop X e (nat (op - lead)) sout sa sb;
               Some (done @ d, sout, sa, sb) }
             else if startB < endA then do {
               gapPeriods \<leftarrow> go_div (Sub endA startB) resolution;
               let gap = wrap64 (gapPeriods * encodedWidth);
               d \<leftarrow> slice_to gap sout;
               sout \<leftarrow> slice_from gap sout;
               Some (done @ d, sout, sa, sb) }
             else Some (done, sout, sa, sb));
          let sout = (if endA < endB then go_copy sout sa else if endB < endA then go_copy sout sb else sout);
          Some (done @ sout) })"

definition seq_Merge :: "('c, 'h) ext \<Rightarrow> bytes \<Rightarrow> bytes \<Rightarrow> 'c expr \<Rightarrow> duration \<Rightarrow> gotime \<Rightarrow> bytes go" where
  "seq_Merge X seq other e resolution truncateBefore =
     (if seq = [] then Some other
      else if other = [] then Some seq
      else do {
        startA \<leftarrow> Until seq;
        startB \<leftarrow> Until other;
        if startA < startB then mergeOrdered X other startB seq startA e resolution truncateBefore
        else mergeOrdered X seq startA other startB e resolution truncateBefore })"

end
