(* ===== verification/SeqLaws.thy ===== *)
theory SeqLaws
  imports Sequence
begin

text \<open>
  What the operations of \<open>encoding/seq.go\<close> do to the periods of a sequence.  A sequence is written as
  \<open>seq_of u cs\<close>: it ends at \<open>u\<close> and \<open>cs\<close> are the states of its periods, the latest first.
\<close>

section \<open>Sequences as lists of cells\<close>

definition seq_of :: "gotime \<Rightarrow> bytes list \<Rightarrow> bytes" where
  "seq_of u cs = be 8 (unat (word_of_int u :: u64)) @ concat cs"

definition cells_ok :: "('c, 'h) ext \<Rightarrow> 'c expr \<Rightarrow> bytes list \<Rightarrow> bool" where
  "cells_ok X e cs \<longleftrightarrow> (\<forall>c \<in> set cs. length c = W e \<and> state_ok X e c)"

definition zero_cell :: "'c expr \<Rightarrow> bytes" where
  "zero_cell e = replicate (W e) 0"

lemma wrap64_0 [simp]: "wrap64 0 = 0"
  by (rule wrap64_id) (simp add: in64_def)

lemma at_suffix_nat: "at_suffix (int n) f b =
    (if n \<le> length b then map_option (\<lambda>(s, r). (take n b @ s, r)) (f (drop n b)) else None)"
  by (simp add: at_suffix_def)

lemma slice_to_nat: "slice_to (int n) b = (if n \<le> length b then Some (take n b) else None)"
  by (simp add: slice_to_def)

lemma length_concat_cells: "(\<And>c. c \<in> set cs \<Longrightarrow> length c = w) \<Longrightarrow> length (concat cs) = length cs * w"
  by (induction cs) auto

lemma length_seq_of [simp]: "cells_ok X e cs \<Longrightarrow> length (seq_of u cs) = 8 + length cs * W e"
  by (simp add: seq_of_def cells_ok_def length_concat_cells)

lemma be8_not_Nil [simp]: "be 8 v \<noteq> []"
proof
  assume "be 8 v = []"
  then have "length (be 8 v) = 0" by simp
  then show False by simp
qed

lemma seq_of_not_Nil [simp]: "seq_of u cs \<noteq> []"
  by (simp add: seq_of_def)

lemma Until_seq_of [simp]: "in64 u \<Longrightarrow> Until (seq_of u cs) = Some u"
  by (simp add: Until_def seq_of_def sint_word_of_int64)

lemma SetUntil_zero:
  "in64 t \<Longrightarrow> SetUntil (replicate (8 + n) 0) t = Some (be 8 (unat (word_of_int t :: u64)) @ replicate n 0)"
  by (simp add: SetUntil_def PutUint64_def UnixNano_def)

lemma cells_ok_Nil [simp]: "cells_ok X e []" by (simp add: cells_ok_def)

lemma cells_ok_Cons [simp]:
  "cells_ok X e (c # cs) \<longleftrightarrow> length c = W e \<and> state_ok X e c \<and> cells_ok X e cs" by (auto simp: cells_ok_def)

lemma cells_ok_append [simp]: "cells_ok X e (cs @ ds) \<longleftrightarrow> cells_ok X e cs \<and> cells_ok X e ds"
  by (auto simp: cells_ok_def)

lemma cells_ok_take: "cells_ok X e cs \<Longrightarrow> cells_ok X e (take n cs)"
  by (auto simp: cells_ok_def dest: in_set_takeD)

lemma cells_ok_drop: "cells_ok X e cs \<Longrightarrow> cells_ok X e (drop n cs)"
  by (auto simp: cells_ok_def dest: in_set_dropD)

lemma unbe_zeros [simp]: "unbe (replicate n 0) = 0"
  by (induction n) (auto simp: unbe_def)

lemma state_ok_zeros: "state_ok X e (replicate n 0)"
  by (induction e arbitrary: n) (auto simp: ptile_ok_def Let_def)

lemma cells_ok_zeros [simp]: "cells_ok X e (replicate n (zero_cell e))"
  by (auto simp: cells_ok_def zero_cell_def state_ok_zeros)

lemma concat_zeros: "concat (replicate n (zero_cell e)) = replicate (n * W e) 0"
  by (induction n) (auto simp: zero_cell_def replicate_add)

lemma concat_take_cells: "cells_ok X e cs \<Longrightarrow> take (k * W e) (concat cs) = concat (take k cs)"
proof (induction k arbitrary: cs)
  case (Suc k)
  then show ?case by (cases cs) auto
qed simp

lemma concat_drop_cells: "cells_ok X e cs \<Longrightarrow> drop (k * W e) (concat cs) = concat (drop k cs)"
proof (induction k arbitrary: cs)
  case (Suc k)
  then show ?case by (cases cs) auto
qed simp

lemma seq_of_take: "cells_ok X e cs \<Longrightarrow> take (8 + k * W e) (seq_of u cs) = seq_of u (take k cs)"
  by (simp add: seq_of_def concat_take_cells)

lemma seq_of_drop: "cells_ok X e cs \<Longrightarrow> drop (8 + k * W e) (seq_of u cs) = concat (drop k cs)"
  by (simp add: seq_of_def concat_drop_cells)

lemma seq_of_zeros: "in64 t \<Longrightarrow> SetUntil (replicate (8 + n * W e) 0) t = Some (seq_of t (replicate n (zero_cell e)))"
  by (simp add: SetUntil_zero seq_of_def concat_zeros)

section \<open>Updating a period\<close>

definition upd_cell :: "('c, 'h) ext \<Rightarrow> 'c expr \<Rightarrow> params \<Rightarrow> metadata \<Rightarrow> bytes \<Rightarrow> bytes" where
  "upd_cell X e params md b = (case Update X e params md b of Some (s, _) \<Rightarrow> s | None \<Rightarrow> b)"

lemma upd_cell_ok:
  assumes "wf_expr X e" "hdr_laws X" "\<And>n. params n \<noteq> None" "length b = W e" "state_ok X e b"
  shows "length (upd_cell X e params md b) = W e" "state_ok X e (upd_cell X e params md b)"
    "\<exists>v u. Update X e params md (b @ r) = Some (upd_cell X e params md b @ r, W e, v, u)"
proof -
  obtain s v u where s: "length s = W e" "state_ok X e s" "\<And>r. Update X e params md (b @ r) = Some (s @ r, W e, v, u)"
    using upd_okD [OF Update_ok [where params = params and md = md, OF assms(1-3)] assms(4,5)] by blast
  have "upd_cell X e params md b = s" using s(3) [of "[]"] by (simp add: upd_cell_def)
  then show "length (upd_cell X e params md b) = W e" "state_ok X e (upd_cell X e params md b)"
    "\<exists>v u. Update X e params md (b @ r) = Some (upd_cell X e params md b @ r, W e, v, u)"
    using s by auto
qed

lemma EncodedWidth_W: "wf_expr X e \<Longrightarrow> EncodedWidth e = int (W e)"
  using EncodedWidth_nonneg [of X e] by (simp add: W_def)

lemma UpdateValueAtOffset_cell:
  assumes wf: "wf_expr X e" "hdr_laws X" "\<And>n. params n \<noteq> None" and cs: "cells_ok X e cs"
    and k: "k < length cs" "int (length cs * W e) < 2 ^ 62"
  shows "UpdateValueAtOffset X (seq_of u cs) (int (k * W e)) e params md =
    Some (seq_of u (cs[k := upd_cell X e params md (cs ! k)]))"
proof -
  have c: "length (cs ! k) = W e" "state_ok X e (cs ! k)" using cs k(1) by (auto simp: cells_ok_def)
  have le: "k * W e \<le> length cs * W e" using k(1) by simp
  then have b: "int (k * W e) < 2 ^ 62" using k(2) by linarith
  then have wr: "wrap64 (int (k * W e) + Width64bits) = int (8 + k * W e)"
    by (simp add: Width64bits_def in64_def)
  have dr: "drop (8 + k * W e) (seq_of u cs) = cs ! k @ concat (drop (Suc k) cs)"
    using seq_of_drop [OF cs] k(1) by (simp add: Cons_nth_drop_Suc [symmetric])
  obtain v x where U: "Update X e params md (cs ! k @ concat (drop (Suc k) cs)) =
      Some (upd_cell X e params md (cs ! k) @ concat (drop (Suc k) cs), W e, v, x)"
    using upd_cell_ok(3) [where params = params, OF wf c] by blast
  have "take (8 + k * W e) (seq_of u cs) @ upd_cell X e params md (cs ! k) @ concat (drop (Suc k) cs) =
      seq_of u (cs[k := upd_cell X e params md (cs ! k)])"
    using seq_of_take [OF cs] k(1) by (simp add: seq_of_def upd_conv_take_nth_drop)
  then show ?thesis
    using dr U le cs unfolding UpdateValueAtOffset_def wr at_suffix_nat by simp
qed

text \<open>A sequence of one period, as made for a first value.\<close>

lemma new_sequence_cell:
  assumes wf: "wf_expr X e" "hdr_laws X" "\<And>n. params n \<noteq> None" and t: "in64 t" and w: "int (W e) < 2 ^ 60"
  shows "do { out \<leftarrow> make_bytes (wrap64 (Width64bits + EncodedWidth e)); out \<leftarrow> SetUntil out t;
       UpdateValueAt X out 0 e params md } = Some (seq_of t [upd_cell X e params md (zero_cell e)])"
proof -
  have "wrap64 (Width64bits + EncodedWidth e) = int (8 + W e)"
    using w EncodedWidth_W [OF wf(1)] by (simp add: Width64bits_def in64_def)
  then have m: "make_bytes (wrap64 (Width64bits + EncodedWidth e)) = Some (replicate (8 + 1 * W e) 0)"
    by (simp only: make_bytes_def) simp
  have "UpdateValueAtOffset X (seq_of t [zero_cell e]) (int (0 * W e)) e params md =
      Some (seq_of t [upd_cell X e params md (zero_cell e)])"
    using UpdateValueAtOffset_cell [where params = params and cs = "[zero_cell e]" and k = 0, OF wf] w
      cells_ok_zeros [of X e 1] by simp
  then show ?thesis using seq_of_zeros [OF t, of 1 e] by (simp add: m UpdateValueAt_def del: mult_1)
qed

lemma NumPeriods_seq_of:
  assumes "cells_ok X e cs" "0 < W e" "int (length cs * W e) < 2 ^ 62" "wf_expr X e"
  shows "NumPeriods (seq_of u cs) (EncodedWidth e) = Some (int (length cs))"
proof -
  have "DataLength (seq_of u cs) = int (length cs) * int (W e)" using assms(1) by (simp add: DataLength_def Width64bits_def)
  moreover have "int (length cs) < 2 ^ 62"
  proof -
    have "length cs * 1 \<le> length cs * W e" using assms(2) by (intro mult_le_mono) auto
    then show ?thesis using assms(3) by linarith
  qed
  ultimately show ?thesis using assms(2) EncodedWidth_W [OF assms(4)]
    by (simp add: NumPeriods_def go_div_def tdiv_mult in64_def)
qed

lemma go_div_exact: "0 < res \<Longrightarrow> in64 k \<Longrightarrow> go_div (k * res) res = Some k"
  by (simp add: go_div_def tdiv_mult)

text \<open>The copy of \<open>UpdateValue\<close> when the value is later than the sequence.\<close>

lemma prepend_cells:
  assumes "cells_ok X e cs" "m \<le> length cs" "0 < g" "in64 t"
  shows "do { src \<leftarrow> slice_to (int (8 + m * W e)) (seq_of u cs);
       src \<leftarrow> slice_from Width64bits src;
       out \<leftarrow> map_option fst (at_suffix (int (8 + g * W e)) (\<lambda>dst. Some (go_copy dst src, ()))
                (replicate (8 + (g + m) * W e) 0));
       out \<leftarrow> SetUntil out t; K out } = K (seq_of t (replicate g (zero_cell e) @ take m cs))"
proof -
  have mW: "m * W e \<le> length cs * W e" using assms(2) by simp
  have sl: "slice_to (int (8 + m * W e)) (seq_of u cs) = Some (seq_of u (take m cs))"
    using assms(1) mW seq_of_take [OF assms(1)] by (simp only: slice_to_nat) simp
  have sf: "slice_from Width64bits (seq_of u (take m cs)) = Some (concat (take m cs))"
    by (simp add: slice_from_def Width64bits_def seq_of_def)
  have len: "length (concat (take m cs)) = m * W e"
    using cells_ok_take [OF assms(1), of m] assms(2) by (simp add: cells_ok_def length_concat_cells)
  have cp: "go_copy (replicate (m * W e) 0) (concat (take m cs)) = concat (take m cs)"
    using len by (simp add: go_copy_def)
  have "8 + (g + m) * W e = (8 + g * W e) + m * W e" by (simp add: algebra_simps)
  then have out: "at_suffix (int (8 + g * W e)) (\<lambda>dst. Some (go_copy dst (concat (take m cs)), ()))
      (replicate (8 + (g + m) * W e) 0) = Some (replicate (8 + g * W e) 0 @ concat (take m cs), ())"
    unfolding at_suffix_nat by (simp add: cp replicate_add)
  have "SetUntil (replicate (8 + g * W e) 0 @ concat (take m cs)) t =
      Some (seq_of t (replicate g (zero_cell e) @ take m cs))"
    using assms(4) by (simp add: SetUntil_def PutUint64_def UnixNano_def seq_of_def concat_zeros)
  then show ?thesis by (simp only: sl sf out bind.bind_lunit option.map fst_conv)
qed

text \<open>Growing the sequence when the value is earlier than its first period.\<close>

lemma grow_cells:
  assumes "cells_ok X e cs"
  shows "go_copy (replicate (8 + k * W e + W e) 0) (seq_of u cs) =
    (if length cs \<le> Suc k then seq_of u (cs @ replicate (Suc k - length cs) (zero_cell e))
     else seq_of u (take (Suc k) cs))"
proof (cases "length cs \<le> Suc k")
  case True
  then have "length cs * W e \<le> Suc k * W e" by (intro mult_le_mono1)
  then have le: "length (seq_of u cs) \<le> length (replicate (8 + k * W e + W e) (0 :: byte))"
    using assms by simp
  have "8 + k * W e + W e - (8 + length cs * W e) = (Suc k - length cs) * W e" by (simp add: diff_mult_distrib)
  then have "drop (length (seq_of u cs)) (replicate (8 + k * W e + W e) (0 :: byte)) =
      concat (replicate (Suc k - length cs) (zero_cell e))"
    using assms by (simp add: concat_zeros)
  then have "go_copy (replicate (8 + k * W e + W e) 0) (seq_of u cs) =
      seq_of u cs @ concat (replicate (Suc k - length cs) (zero_cell e))"
    by (simp only: go_copy_fits [OF le])
  then show ?thesis using True by (simp add: seq_of_def)
next
  case False
  then have "Suc k * W e \<le> length cs * W e" by (intro mult_le_mono1) simp
  then have "go_copy (replicate (8 + k * W e + W e) 0) (seq_of u cs) = take (8 + Suc k * W e) (seq_of u cs)"
    using assms by (simp add: go_copy_def add.commute add.left_commute)
  also have "\<dots> = seq_of u (take (Suc k) cs)" by (rule seq_of_take [OF assms])
  finally show ?thesis using False by simp
qed

text \<open>
  \<open>UpdateValue\<close> for a value at \<open>j\<close> periods before the end of the sequence, with the truncation \<open>m\<close> periods
  before it, on the cells.
\<close>

definition upd_cells :: "('c, 'h) ext \<Rightarrow> 'c expr \<Rightarrow> params \<Rightarrow> metadata \<Rightarrow> int \<Rightarrow> int \<Rightarrow> bytes list \<Rightarrow> bytes list" where
  "upd_cells X e params md j m cs =
     (if m < 0 then [upd_cell X e params md (zero_cell e)]
      else if j < 0 then upd_cell X e params md (zero_cell e) # replicate (nat (- j) - 1) (zero_cell e) @ take (nat m) cs
      else let ds = cs @ replicate (Suc (nat j) - length cs) (zero_cell e)
           in ds[nat j := upd_cell X e params md (ds ! nat j)])"

lemma small_le: "a \<le> b \<Longrightarrow> b < 2 ^ 61 \<Longrightarrow> int a < 2 ^ 61"
  by (metis le_less_trans of_nat_less_numeral_power_cancel_iff)

lemma wrap_len: "int (n * w) < 2 ^ 61 \<Longrightarrow> wrap64 (Width64bits + wrap64 (int n * int w)) = int (8 + n * w)"
proof -
  assume "int (n * w) < 2 ^ 61"
  then have "in64 (int (n * w))" "in64 (8 + int (n * w))" by (auto simp: in64_def simp del: of_nat_mult)
  then show ?thesis by (simp add: Width64bits_def)
qed

lemma make_bytes_nat: "make_bytes (int n) = Some (replicate n 0)"
  by (simp add: make_bytes_def)

lemma NewSequence_nat: "int (n * w) < 2 ^ 61 \<Longrightarrow> NewSequence (int w) (int n) = Some (replicate (8 + n * w) 0)"
  unfolding NewSequence_def by (simp only: wrap_len make_bytes_nat)

lemma upd_prepended:
  assumes wf: "wf_expr X e" "hdr_laws X" "\<And>n. params n \<noteq> None" and cs: "cells_ok X e cs" and g: "0 < g"
    and size: "int ((g + length cs) * W e) < 2 ^ 62"
  shows "UpdateValueAt X (seq_of t (replicate g (zero_cell e) @ cs)) 0 e params md =
      Some (seq_of t (upd_cell X e params md (zero_cell e) # replicate (g - 1) (zero_cell e) @ cs))"
proof -
  let ?ds = "replicate g (zero_cell e) @ cs"
  have "cells_ok X e ?ds" using cs by simp
  from UpdateValueAtOffset_cell [where params = params and k = 0, OF wf this] g size
  have "UpdateValueAtOffset X (seq_of t ?ds) (int (0 * W e)) e params md =
      Some (seq_of t (?ds[0 := upd_cell X e params md (?ds ! 0)]))" by simp
  then show ?thesis using g by (cases g) (auto simp: UpdateValueAt_def)
qed

lemma prepend_kept_end:
  fixes g m n w :: nat
  assumes m: "g \<le> m" and len: "l = 8 + n * w" and size: "int (min (m - g) n * w) < 2 ^ 61"
  shows "(if int m < int n + int g then wrap64 (Width64bits + wrap64 (int w * int (m - g))) else int l) =
    int (8 + min (m - g) n * w)"
proof (cases "int m < int n + int g")
  case True
  then have k: "min (m - g) n = m - g" using m by auto
  then have "int w * int (m - g) = int (min (m - g) n * w)" by (simp add: mult.commute)
  then show ?thesis using True size by (simp add: Width64bits_def in64_def k del: of_nat_mult)
next
  case False
  then have "min (m - g) n = n" by auto
  then show ?thesis using False len by simp
qed

text \<open>A bound on the size of the whole sequence bounds the offsets into it.\<close>

lemma sizes_small:
  assumes "(int n + int g + 1) * int w < 2 ^ 61" "0 < w" "k \<le> n"
  shows "int (n * w) < 2 ^ 61" "int (g * w) < 2 ^ 61" "int (k * w) < 2 ^ 61" "int ((g + k) * w) < 2 ^ 61" "int n + int g < 2 ^ 61"
proof -
  have bnd: "(n + g + 1) * w < 2 ^ 61" using assms(1)
    by (metis (mono_tags, lifting) of_nat_1 of_nat_add of_nat_less_numeral_power_cancel_iff of_nat_mult)
  have le: "n * w \<le> (n + g + 1) * w" "g * w \<le> (n + g + 1) * w" "k * w \<le> (n + g + 1) * w" "(g + k) * w \<le> (n + g + 1) * w"
    using assms(3) by (intro mult_le_mono1; simp)+
  show "int (n * w) < 2 ^ 61" "int (g * w) < 2 ^ 61" "int (k * w) < 2 ^ 61" "int ((g + k) * w) < 2 ^ 61"
    using small_le [OF le(1) bnd] small_le [OF le(2) bnd] small_le [OF le(3) bnd] small_le [OF le(4) bnd] .
  have "(n + g + 1) * 1 \<le> (n + g + 1) * w" using assms(2) by (intro mult_le_mono) auto
  from small_le [OF this bnd] show "int n + int g < 2 ^ 61" by simp
qed

lemma UpdateValue_prepend:
  assumes wf: "wf_expr X e" "hdr_laws X" "\<And>n. params n \<noteq> None" "0 < W e" and cs: "cells_ok X e cs"
    and t: "in64 t" and g: "0 < g" and m: "g \<le> m"
    and size: "(int (length cs) + int g + 1) * int (W e) < 2 ^ 61" "int m < 2 ^ 62"
  shows "do { n \<leftarrow> NumPeriods (seq_of u cs) (EncodedWidth e);
       let numPeriods0 = wrap64 (n + int g);
       let numPeriods = (if int m < numPeriods0 then int m else numPeriods0);
       let origEnd = (if int m < numPeriods0
         then wrap64 (Width64bits + wrap64 (EncodedWidth e * wrap64 (int m - int g)))
         else int (length (seq_of u cs)));
       out \<leftarrow> NewSequence (EncodedWidth e) numPeriods;
       src \<leftarrow> slice_to origEnd (seq_of u cs);
       src \<leftarrow> slice_from Width64bits src;
       out \<leftarrow> map_option fst (at_suffix (wrap64 (Width64bits + wrap64 (int g * EncodedWidth e)))
                (\<lambda>dst. Some (go_copy dst src, ())) out);
       out \<leftarrow> SetUntil out t;
       UpdateValueAt X out 0 e params md } =
     Some (seq_of t (upd_cell X e params md (zero_cell e) # replicate (g - 1) (zero_cell e) @ take (m - g) cs))"
proof -
  define k where "k = min (m - g) (length cs)"
  have kn: "k \<le> length cs" by (simp add: k_def)
  have W: "EncodedWidth e = int (W e)" by (rule EncodedWidth_W [OF wf(1)])
  note sm = sizes_small [OF size(1) wf(4) kn]
  have n: "NumPeriods (seq_of u cs) (int (W e)) = Some (int (length cs))"
    unfolding W [symmetric] using NumPeriods_seq_of [OF cs wf(4) _ wf(1)] sm(1) by simp
  have w0: "wrap64 (int (length cs) + int g) = int (length cs) + int g" using sm(5) by (simp add: in64_def)
  have num: "(if int m < int (length cs) + int g then int m else int (length cs) + int g) = int (g + k)"
    using m by (auto simp: k_def)
  have w1: "wrap64 (int m - int g) = int (m - g)" using m size(2) by (simp add: in64_def of_nat_diff)
  note oe = prepend_kept_end [OF m length_seq_of [OF cs] sm(3) [unfolded k_def], folded k_def]
  note out = NewSequence_nat [OF sm(4)] and w2 = wrap_len [OF sm(2)]
  have "int ((g + length (take k cs)) * W e) < 2 ^ 62" using sm(4) kn by (simp add: min_absorb2)
  note up = upd_prepended [where params = params, OF wf(1-3) cells_ok_take [OF cs] g this]
  have tk: "take k cs = take (m - g) cs" by (simp add: k_def min_def)
  show ?thesis
    unfolding W n Let_def bind.bind_lunit w0 num w1 oe out w2 prepend_cells [where u = u, OF cs kn g t] up
    unfolding tk ..
qed

lemma cell_beyond:
  fixes n j w :: nat
  assumes "8 \<le> w" shows "8 + n * w \<le> Suc j * w \<longleftrightarrow> n \<le> j"
proof
  assume "n \<le> j"
  then have "n * w \<le> j * w" by (rule mult_le_mono1)
  from add_le_mono [OF assms this] show "8 + n * w \<le> Suc j * w" by (simp only: mult_Suc)
next
  assume "8 + n * w \<le> Suc j * w"
  then have "n * w < Suc j * w" by linarith
  then show "n \<le> j" by (metis less_Suc_eq_le mult_less_cancel2)
qed

lemma cell_offsets:
  assumes "int (j * w) < 2 ^ 61" "int (Suc j * w) < 2 ^ 61"
  shows "wrap64 (int j * int w) = int (j * w)" "wrap64 (int (j * w) + int w) = int (Suc j * w)"
    "wrap64 (wrap64 (int (j * w) + Width64bits) + int w) = int (8 + j * w + w)"
proof -
  show "wrap64 (int j * int w) = int (j * w)"
    using assms(1) by (intro trans [OF wrap64_id]) (auto simp: in64_def simp del: of_nat_mult simp flip: of_nat_mult)
  show "wrap64 (int (j * w) + int w) = int (Suc j * w)"
    using assms(2) by (intro trans [OF wrap64_id]) (auto simp: in64_def simp del: of_nat_mult simp flip: of_nat_mult of_nat_add)
  have "in64 (int (j * w) + 8)" "in64 (int (j * w) + 8 + int w)"
    using assms by (auto simp: in64_def simp del: of_nat_mult)
  then show "wrap64 (wrap64 (int (j * w) + Width64bits) + int w) = int (8 + j * w + w)" by (simp add: Width64bits_def)
qed

lemma UpdateValue_inplace:
  assumes wf: "wf_expr X e" "hdr_laws X" "\<And>n. params n \<noteq> None" "8 \<le> W e" and cs: "cells_ok X e cs"
    and size: "(int (length cs) + int j + 2) * int (W e) < 2 ^ 61"
  shows "do { out \<leftarrow> (if int (length (seq_of u cs)) \<le> wrap64 (wrap64 (int j * EncodedWidth e) + EncodedWidth e)
           then map_option (\<lambda>o'. go_copy o' (seq_of u cs))
             (make_bytes (wrap64 (wrap64 (wrap64 (int j * EncodedWidth e) + Width64bits) + EncodedWidth e)))
           else Some (seq_of u cs));
       UpdateValueAtOffset X out (wrap64 (int j * EncodedWidth e)) e params md } =
     Some (seq_of u (let ds = cs @ replicate (Suc j - length cs) (zero_cell e)
       in ds[j := upd_cell X e params md (ds ! j)]))"
proof -
  let ?ds = "cs @ replicate (Suc j - length cs) (zero_cell e)"
  have W: "EncodedWidth e = int (W e)" by (rule EncodedWidth_W [OF wf(1)])
  have bnd: "(length cs + j + 2) * W e < 2 ^ 61" using size
    by (metis (mono_tags, lifting) of_nat_add of_nat_less_numeral_power_cancel_iff of_nat_mult of_nat_numeral)
  have le: "j * W e \<le> (length cs + j + 2) * W e" "Suc j * W e \<le> (length cs + j + 2) * W e"
    "length ?ds * W e \<le> (length cs + j + 2) * W e"
    by (intro mult_le_mono1; simp)+
  note sm = small_le [OF le(1) bnd] small_le [OF le(2) bnd] small_le [OF le(3) bnd]
  have grow: "int (length (seq_of u cs)) \<le> int (Suc j * W e) \<longleftrightarrow> length cs \<le> j"
    using cell_beyond [OF wf(4)] cs by (simp only: length_seq_of of_nat_le_iff)
  have out: "(if int (length (seq_of u cs)) \<le> int (Suc j * W e)
       then map_option (\<lambda>o'. go_copy o' (seq_of u cs)) (make_bytes (int (8 + j * W e + W e)))
       else Some (seq_of u cs)) = Some (seq_of u ?ds)"
    unfolding grow make_bytes_nat option.map grow_cells [OF cs] by auto
  have ds: "cells_ok X e ?ds" "j < length ?ds" using cs by auto
  have "int (length ?ds * W e) < 2 ^ 62" by (rule less_trans [OF sm(3)]) simp
  from UpdateValueAtOffset_cell [where params = params, OF wf(1-3) ds this]
  show ?thesis unfolding W cell_offsets [OF sm(1,2)] out bind.bind_lunit Let_def .
qed

lemma in64_not_zero: "in64 u \<Longrightarrow> \<not> IsZero u"
  by (simp add: in64_def IsZero_def zeroTime_def)

lemma Sub_exact: "\<bar>t - u\<bar> < 2 ^ 62 \<Longrightarrow> Sub t u = t - u"
  by (auto simp: Sub_def in64_def abs_less_iff intro!: sat64_id)

lemma go_div_periods: "0 < res \<Longrightarrow> \<bar>k * res\<bar> < 2 ^ 62 \<Longrightarrow> go_div (k * res) res = Some k"
proof (rule go_div_exact)
  assume r: "0 < res" "\<bar>k * res\<bar> < 2 ^ 62"
  have "\<bar>k\<bar> * 1 \<le> \<bar>k\<bar> * res" using r(1) by (intro mult_left_mono) auto
  then have "\<bar>k\<bar> < 2 ^ 62" using r by (simp add: abs_mult)
  then show "in64 k" by (auto simp: in64_def abs_less_iff)
qed

text \<open>The three branches of an update, with the times replaced by numbers of periods.\<close>

lemma UpdateValue_branches:
  assumes t: "in64 u" "0 < res" "RoundTimeUp ts0 res = u - j * res"
    and tb: "RoundTimeUntilUp tb0 res u = u - m * res" "j < m"
    and size: "\<bar>j * res\<bar> < 2 ^ 62" "\<bar>(m - j) * res\<bar> < 2 ^ 62"
  shows "UpdateValue X (seq_of u cs) ts0 params md e res tb0 =
         (if m < 0 then do { out \<leftarrow> make_bytes (wrap64 (Width64bits + EncodedWidth e));
              out \<leftarrow> SetUntil out (u - j * res); UpdateValueAt X out 0 e params md }
            else if j < 0 then do {
              n \<leftarrow> NumPeriods (seq_of u cs) (EncodedWidth e);
              let numPeriods0 = wrap64 (n + - j);
              let numPeriods = (if m - j < numPeriods0 then m - j else numPeriods0);
              let origEnd = (if m - j < numPeriods0
                then wrap64 (Width64bits + wrap64 (EncodedWidth e * wrap64 (m - j - - j)))
                else int (length (seq_of u cs)));
              out \<leftarrow> NewSequence (EncodedWidth e) numPeriods;
              src \<leftarrow> slice_to origEnd (seq_of u cs);
              src \<leftarrow> slice_from Width64bits src;
              out \<leftarrow> map_option fst (at_suffix (wrap64 (Width64bits + wrap64 (- j * EncodedWidth e)))
                       (\<lambda>dst. Some (go_copy dst src, ())) out);
              out \<leftarrow> SetUntil out (u - j * res);
              UpdateValueAt X out 0 e params md }
            else do {
              out \<leftarrow> (if int (length (seq_of u cs)) \<le> wrap64 (wrap64 (j * EncodedWidth e) + EncodedWidth e)
                      then map_option (\<lambda>o'. go_copy o' (seq_of u cs))
                        (make_bytes (wrap64 (wrap64 (wrap64 (j * EncodedWidth e) + Width64bits) + EncodedWidth e)))
                      else Some (seq_of u cs));
              UpdateValueAtOffset X out (wrap64 (j * EncodedWidth e)) e params md })"
proof -
  have g: "go_div (Sub (u - j * res) u) res = Some (- j)"
    using go_div_periods [OF t(2), of "- j"] size(1) by (simp add: Sub_exact)
  have jd: "go_div (Sub u (u - j * res)) res = Some j"
    using go_div_periods [OF t(2) size(1)] size(1) by (simp add: Sub_exact)
  have "u - j * res - (u - m * res) = (m - j) * res" by (simp add: algebra_simps)
  then have mx: "go_div (Sub (u - j * res) (u - m * res)) res = Some (m - j)"
    using go_div_periods [OF t(2) size(2)] Sub_exact [of "u - j * res" "u - m * res"] size(2) by simp
  have cmp: "u - j * res \<le> u - m * res \<longleftrightarrow> m \<le> j" "u < u - m * res \<longleftrightarrow> m < 0" "u < u - j * res \<longleftrightarrow> j < 0"
    using t(2) by (simp_all add: zero_le_mult_iff mult_less_0_iff not_less mult_le_cancel_right)
  show ?thesis unfolding UpdateValue_def [of X "seq_of u cs"] Let_def Until_seq_of [OF t(1)] bind.bind_lunit t(3)
    using in64_not_zero [OF t(1)] tb cmp by (simp add: g mx jd Let_def)
qed

text \<open>The number of periods to put in front, and the size of what results.\<close>

lemma prepend_counts:
  assumes "j < 0" "j < m" "\<not> m < 0" "0 < res" "\<bar>(m - j) * res\<bar> < 2 ^ 62" "(n + \<bar>j\<bar> + 2) * int w < 2 ^ 61"
  obtains g k where "- j = int g" "0 < g" "m - j = int k" "g \<le> k" "int k < 2 ^ 62" "k - g = nat m" "(n + int g + 1) * int w < 2 ^ 61"
proof
  let ?g = "nat (- j)" and ?k = "nat (m - j)"
  show g: "- j = int ?g" and "0 < ?g" and k: "m - j = int ?k" and "?g \<le> ?k" and "?k - ?g = nat m" using assms(1-3) by auto
  have "m - j \<le> (m - j) * res" using mult_left_mono [of 1 res "m - j"] assms(2,4) by simp
  then have "m - j < 2 ^ 62" using assms(5) by (meson abs_less_iff le_less_trans)
  then show "int ?k < 2 ^ 62" by simp
  have "(n + int ?g + 1) * int w \<le> (n + \<bar>j\<bar> + 2) * int w" using assms(1) by (intro mult_right_mono) auto
  then show "(n + int ?g + 1) * int w < 2 ^ 61" using assms(6) by linarith
qed

lemma UpdateValue_cells:
  assumes wf: "wf_expr X e" "hdr_laws X" "\<And>n. params n \<noteq> None" "8 \<le> W e" and cs: "cells_ok X e cs"
    and t: "in64 u" "in64 (u - j * res)" "0 < res" "RoundTimeUp ts0 res = u - j * res"
    and tb: "RoundTimeUntilUp tb0 res u = u - m * res" "j < m"
    and size: "\<bar>j * res\<bar> < 2 ^ 62" "\<bar>(m - j) * res\<bar> < 2 ^ 62"
      "(int (length cs) + \<bar>j\<bar> + 2) * int (W e) < 2 ^ 61"
  shows "UpdateValue X (seq_of u cs) ts0 params md e res tb0 =
    Some (seq_of (if j < 0 then u - j * res else u) (upd_cells X e params md j m cs))"
proof -
  have We: "int (W e) < 2 ^ 60" "0 < W e"
  proof -
    have "2 * int (W e) \<le> (int (length cs) + \<bar>j\<bar> + 2) * int (W e)" by (intro mult_right_mono) auto
    then show "int (W e) < 2 ^ 60" using size(3) by simp
  qed (use wf(4) in simp)
  note branches = UpdateValue_branches [OF t(1,3,4) tb size(1,2)]
  consider (new) "m < 0" | (prepend) "\<not> m < 0" "j < 0" | (inplace) "\<not> m < 0" "\<not> j < 0" by blast
  then show ?thesis
  proof cases
    case new
    then show ?thesis
      using new_sequence_cell [where params = params, OF wf(1-3) t(2) We(1)] tb(2) by (simp add: branches upd_cells_def)
  next
    case prepend
    obtain g k where c: "- j = int g" "0 < g" "m - j = int k" "g \<le> k" "int k < 2 ^ 62" "k - g = nat m"
      "(int (length cs) + int g + 1) * int (W e) < 2 ^ 61"
      by (rule prepend_counts [OF prepend(2) tb(2) prepend(1) t(3) size(2,3)])
    show ?thesis
      unfolding branches upd_cells_def if_not_P [OF prepend(1)] if_P [OF prepend(2)] c(1,3) nat_int
        UpdateValue_prepend [where params = params and u = u, OF wf(1-3) We(2) cs t(2) c(2,4,7,5)] c(6) ..
  next
    case inplace
    obtain i where i: "j = int i" using inplace(2) by (metis not_le zero_le_imp_eq_int)
    have sz: "(int (length cs) + int i + 2) * int (W e) < 2 ^ 61" using size(3) i by simp
    show ?thesis
      by (unfold branches upd_cells_def if_not_P [OF inplace(1)] if_not_P [OF inplace(2)], unfold i nat_int
        UpdateValue_inplace [where params = params and u = u, OF wf cs sz], rule refl)
  qed
qed

end
