(* ===== verification/SeqProps.thy ===== *)
theory SeqProps
  imports SeqLaws
begin

text \<open>
  Sequences as functions from times to accumulator states: what \<open>UpdateValue\<close>, \<open>Truncate\<close> and \<open>Merge\<close> of
  \<open>encoding/seq.go\<close> do to the state at every time.
\<close>

section \<open>The state at a time\<close>

definition per :: "'c expr \<Rightarrow> bytes list \<Rightarrow> int \<Rightarrow> bytes" where
  "per e cs i = (if 0 \<le> i \<and> i < int (length cs) then cs ! nat i else zero_cell e)"

lemma div_mult_bound:
  fixes x res b :: int
  assumes "0 < res" "res \<le> b" "\<bar>x\<bar> < b" shows "\<bar>x div res * res\<bar> < 2 * b"
proof -
  have "x div res * res = x - x mod res" by (simp add: minus_mod_eq_div_mult)
  then show ?thesis using assms pos_mod_bound [OF assms(1), of x] pos_mod_sign [OF assms(1), of x] by (simp add: abs_less_iff)
qed

text \<open>Times off the grid of the sequence, or outside its periods, have the unset state.\<close>

definition state_at :: "'c expr \<Rightarrow> duration \<Rightarrow> gotime \<Rightarrow> bytes list \<Rightarrow> gotime \<Rightarrow> bytes" where
  "state_at e res u cs t = (if res dvd u - t then per e cs ((u - t) div res) else zero_cell e)"

lemma state_at_periods: "0 < res \<Longrightarrow> state_at e res u cs (u - i * res) = per e cs i"
  by (simp add: state_at_def)

lemma per_neg [simp]: "i < 0 \<Longrightarrow> per e cs i = zero_cell e" by (simp add: per_def)
lemma per_beyond [simp]: "int (length cs) \<le> i \<Longrightarrow> per e cs i = zero_cell e" by (simp add: per_def)
lemma per_nat: "per e cs (int k) = (if k < length cs then cs ! k else zero_cell e)" by (simp add: per_def)

lemma per_upd_cells:
  assumes "j < m" "i < m"
  shows "per e (upd_cells X e params md j m cs) (i - min j 0) =
    (if i = j then upd_cell X e params md (per e cs j) else per e cs i)"
proof (cases "0 \<le> j")
  case True
  let ?ds = "cs @ replicate (Suc (nat j) - length cs) (zero_cell e)"
  have ds: "per e ?ds k = per e cs k" for k
    by (auto simp: per_def nth_append)
  have "per e (?ds[nat j := v]) i = (if i = j then v else per e ?ds i)" for v
    using True by (auto simp: per_def nth_list_update nat_eq_iff)
  moreover have "j < int (length ?ds)" using True by (simp; linarith)
  then have "?ds ! nat j = per e ?ds j" using True by (simp only: per_def if_P)
  ultimately show ?thesis using True assms(1) by (simp add: upd_cells_def Let_def ds)
next
  case False
  show ?thesis
  proof (cases "m < 0")
    case True
    then show ?thesis using False assms by (auto simp: upd_cells_def per_def)
  next
    case m: False
    have idx: "nat (i - j) - nat (- j) = nat i" if "0 \<le> i" using that False by linarith
    have "per e (upd_cell X e params md (zero_cell e) # replicate (nat (- j) - 1) (zero_cell e) @ take (nat m) cs) (i - j) =
        (if i = j then upd_cell X e params md (zero_cell e) else per e cs i)"
      using False assms m by (auto simp: per_def nth_Cons' nth_append nat_diff_distrib idx)
    then show ?thesis using False m by (simp add: upd_cells_def)
  qed
qed

lemma upd_cells_ok:
  assumes "wf_expr X e" "hdr_laws X" "\<And>n. params n \<noteq> None" "cells_ok X e cs"
  shows "cells_ok X e (upd_cells X e params md j m cs)"
proof -
  have u: "length (upd_cell X e params md c) = W e \<and> state_ok X e (upd_cell X e params md c)"
    if "length c = W e" "state_ok X e c" for c
    using upd_cell_ok [where params = params and md = md, OF assms(1-3) that] by simp
  have z: "length (zero_cell e) = W e" "state_ok X e (zero_cell e)"
    using state_ok_zeros by (auto simp: zero_cell_def)
  let ?ds = "cs @ replicate (Suc (nat j) - length cs) (zero_cell e)"
  have ds: "cells_ok X e ?ds" using assms(4) by simp
  moreover have "nat j < length ?ds" by (simp; linarith)
  then have "length (?ds ! nat j) = W e" "state_ok X e (?ds ! nat j)" using ds nth_mem by (metis cells_ok_def)+
  ultimately have "cells_ok X e (?ds[nat j := upd_cell X e params md (?ds ! nat j)])"
    using u by (auto simp: cells_ok_def dest!: set_update_subset_insert [THEN subsetD])
  then show ?thesis using u [OF z] assms(4) cells_ok_take [OF assms(4)] by (simp add: upd_cells_def Let_def)
qed

section \<open>Properties\<close>

lemma state_at_upd_cells:
  assumes r: "0 < res" and jm: "j < m" and t: "u - m * res < t"
  shows "state_at e res (u - min j 0 * res) (upd_cells X e params md j m cs) t =
    (if t = u - j * res then upd_cell X e params md (state_at e res u cs t) else state_at e res u cs t)"
proof (cases "res dvd u - t")
  case True
  let ?v = "u - min j 0 * res" and ?cs = "upd_cells X e params md j m cs"
  obtain i where i: "t = u - i * res" using True by (metis diff_diff_eq2 add_diff_cancel_left' dvd_div_mult_self)
  have "i < m" using t i r by simp
  moreover have "t = ?v - (i - min j 0) * res" using i by (simp add: algebra_simps)
  then have "state_at e res ?v ?cs t = per e ?cs (i - min j 0)"
    using state_at_periods [OF r, of e ?v ?cs "i - min j 0"] by simp
  moreover have "state_at e res u cs t = per e cs i" using i r by (simp add: state_at_periods)
  moreover have "t = u - j * res \<longleftrightarrow> i = j" using i r by auto
  ultimately show ?thesis using per_upd_cells [OF jm, of i e X params md cs] by auto
next
  case False
  then have "t \<noteq> u - j * res" by auto
  moreover have "\<not> res dvd u - min j 0 * res - t"
  proof
    assume "res dvd u - min j 0 * res - t"
    then have "res dvd (u - min j 0 * res - t) + min j 0 * res" by (intro dvd_add) auto
    then show False using False by simp
  qed
  ultimately show ?thesis using False by (simp add: state_at_def)
qed


text \<open>The environment of the witnesses: a count of points, five per second.\<close>

abbreviation sample_count :: "bool expr" where "sample_count \<equiv> Aggregate AggCount (Field ''a'')"


end
