(* ===== verification/SeqTrunc.thy ===== *)
theory SeqTrunc
  imports SeqProps
begin

text \<open>\<open>Sequence.Truncate\<close> and \<open>Sequence.Merge\<close> on the periods of a sequence.\<close>

section \<open>Truncate\<close>

lemma per_Nil [simp]: "per e [] i = zero_cell e" by (auto simp: per_def)

text \<open>
  The periods that are left when \<open>r\<close> periods are removed from the end of the sequence, if any, and the
  sequence must not reach back further than \<open>a\<close> periods from its end; nothing is left for \<open>None\<close>.
\<close>

definition trunc_cells :: "int option \<Rightarrow> int option \<Rightarrow> bytes list \<Rightarrow> (int \<times> bytes list) option" where
  "trunc_cells a r cs =
     (let k = (case r of Some r \<Rightarrow> max r 0 | None \<Rightarrow> 0) in
      if 0 < k \<and> int (length cs) \<le> k then None
      else case a of
          None \<Rightarrow> Some (k, drop (nat k) cs)
        | Some a \<Rightarrow> if a \<le> k then None else Some (k, take (nat (a - k)) (drop (nat k) cs)))"

lemma SetUntil_drop:
  assumes "cells_ok X e cs" "in64 t" "k < length cs"
  shows "SetUntil (drop (k * W e) (seq_of u cs)) t = Some (seq_of t (drop k cs))"
proof -
  have "drop 8 (drop (k * W e) (seq_of u cs)) = concat (drop k cs)"
    using seq_of_drop [OF assms(1), of k u] by (simp add: add.commute)
  moreover have "k * W e \<le> length cs * W e" using assms(3) by simp
  then have "8 \<le> length (drop (k * W e) (seq_of u cs))"
    unfolding length_drop length_seq_of [OF assms(1)] by linarith
  ultimately show ?thesis using assms(2)
    by (simp add: SetUntil_def PutUint64_def UnixNano_def seq_of_def [of t] del: drop_drop length_drop)
qed

lemma Truncate_until:
  assumes "wf_expr X e" "cells_ok X e cs" "0 < W e" "0 < res" "in64 u" "in64 (u - k * res)"
    and k: "0 < k" "\<bar>k * res\<bar> < 2 ^ 62" "int (length cs) * int (W e) < 2 ^ 61" "\<bar>k * int (W e)\<bar> < 2 ^ 61"
  shows "(if int (length (seq_of u cs)) \<le> wrap64 (wrap64 (k * EncodedWidth e) + Width64bits) then Some None
      else do { res' \<leftarrow> slice_from (wrap64 (k * EncodedWidth e)) (seq_of u cs);
                res' \<leftarrow> SetUntil res' (u - k * res);
                Some (Some (res', take (nat (wrap64 (k * EncodedWidth e))) (seq_of u cs) @ res')) }) =
     (if int (length cs) \<le> k then Some None
      else Some (Some (seq_of (u - k * res) (drop (nat k) cs),
             take (nat k * W e) (seq_of u cs) @ seq_of (u - k * res) (drop (nat k) cs))))"
proof -
  obtain n where n: "k = int n" using k(1) by (metis zero_less_imp_eq_int)
  have kb: "int (n * W e) < 2 ^ 61" using k(4) n by (simp add: abs_less_iff)
  have w: "wrap64 (k * EncodedWidth e) = int (n * W e)"
  proof -
    have "k * EncodedWidth e = int (n * W e)" using n EncodedWidth_W [OF assms(1)] by simp
    moreover have "in64 (int (n * W e))" using kb by (auto simp: in64_def simp del: of_nat_mult)
    ultimately show ?thesis by simp
  qed
  have w2: "wrap64 (int (n * W e) + Width64bits) = int (8 + n * W e)"
  proof -
    have "in64 (int (n * W e) + 8)" using kb by (auto simp: in64_def simp del: of_nat_mult)
    then show ?thesis by (simp add: Width64bits_def)
  qed
  have le: "int (length (seq_of u cs)) \<le> int (8 + n * W e) \<longleftrightarrow> length cs \<le> n"
    using assms(2,3) by (simp only: length_seq_of of_nat_le_iff) simp
  show ?thesis
  proof (cases "length cs \<le> n")
    case True
    then show ?thesis unfolding w w2 le using n by simp
  next
    case False
    then have "n * W e \<le> length cs * W e" by simp
    then have "slice_from (int (n * W e)) (seq_of u cs) = Some (drop (n * W e) (seq_of u cs))"
      unfolding slice_from_nat length_seq_of [OF assms(2)] by (intro if_P) linarith
    then show ?thesis unfolding w w2 le using False n SetUntil_drop [OF assms(2,6), of n u]
      by (simp del: of_nat_mult)
  qed
qed

lemma Truncate_asOf:
  assumes "wf_expr X e" "cells_ok X e cs" "0 < W e" "0 < res" "in64 u" "\<bar>a * res\<bar> < 2 ^ 62" "\<bar>a * int (W e)\<bar> < 2 ^ 61"
  shows "do { u' \<leftarrow> Until (seq_of u cs);
       maxPeriods \<leftarrow> go_div (Sub u' (u - a * res)) res;
       if maxPeriods \<le> 0 then Some ([], s)
       else if int (length (seq_of u cs)) \<le> wrap64 (Width64bits + wrap64 (maxPeriods * EncodedWidth e)) then Some (seq_of u cs, s)
         else do { r \<leftarrow> slice_to (wrap64 (Width64bits + wrap64 (maxPeriods * EncodedWidth e))) (seq_of u cs); Some (r, s) } } =
     Some (if a \<le> 0 then [] else seq_of u (take (nat a) cs), s)"
proof -
  have d: "go_div (Sub u (u - a * res)) res = Some a"
    using go_div_periods [OF assms(4,6)] assms(6) by (simp add: Sub_exact)
  show ?thesis
  proof (cases "a \<le> 0")
    case False
    then obtain n where n: "a = int n" by (metis not_le order_less_imp_le zero_le_imp_eq_int)
    have nb: "int (n * W e) < 2 ^ 61" using assms(7) n by (simp add: abs_less_iff)
    have w: "wrap64 (Width64bits + wrap64 (a * EncodedWidth e)) = int (8 + n * W e)"
      using wrap_len [OF nb] n EncodedWidth_W [OF assms(1)] by simp
    have le: "int (length (seq_of u cs)) \<le> int (8 + n * W e) \<longleftrightarrow> length cs \<le> n"
      using assms(2,3) by (simp only: length_seq_of of_nat_le_iff) simp
    have sl: "\<not> length cs \<le> n \<Longrightarrow> slice_to (int (8 + n * W e)) (seq_of u cs) = Some (seq_of u (take n cs))"
      using assms(2,3) seq_of_take [OF assms(2)] by (simp only: slice_to_nat length_seq_of) simp
    show ?thesis using False sl n unfolding Until_seq_of [OF assms(5)] bind.bind_lunit d w le
      by (auto simp del: of_nat_add of_nat_mult)
  qed (simp add: d assms(5))
qed

text \<open>
  The times are given in periods before the end: \<open>None\<close> for the zero time.  The second component is the
  caller's slice: when periods are removed from the end, it holds the new end in the last bytes before them.
\<close>

definition periods_before :: "gotime \<Rightarrow> duration \<Rightarrow> gotime \<Rightarrow> int option" where
  "periods_before u res t = (if IsZero t then None else Some ((u - RoundTimeUntilDown t res u) div res))"

definition near :: "gotime \<Rightarrow> gotime \<Rightarrow> bool" where
  "near u t \<longleftrightarrow> IsZero t \<or> \<bar>u - t\<bar> < 2 ^ 53"

lemma periods_before_Some:
  assumes "0 < res" "res \<le> 2 ^ 53" "\<bar>u\<bar> < 2 ^ 62" "near u t" "\<not> IsZero t"
  obtains r where "periods_before u res t = Some r" "RoundTimeUntilDown t res u = u - r * res" "\<bar>r * res\<bar> < 2 ^ 55"
    "\<not> IsZero (u - r * res)" "in64 (u - r * res)"
proof -
  define r where "r = - ((t - u) div res)"
  have uz: "\<not> IsZero u" using assms(3) by (auto simp: IsZero_def zeroTime_def abs_less_iff)
  have eq: "RoundTimeUntilDown t res u = u - r * res"
    using RoundTimeUntilDown_eq [OF assms(5) uz assms(1,2)] assms(4,5) by (simp add: r_def near_def)
  have "\<bar>t - u\<bar> < 2 ^ 53" using assms(4,5) by (auto simp: near_def abs_minus_commute)
  then have b: "\<bar>r * res\<bar> < 2 ^ 55" using div_mult_bound [OF assms(1,2)] by (fastforce simp: r_def)
  then have "\<not> IsZero (u - r * res)" "in64 (u - r * res)"
    using assms(3) by (auto simp: IsZero_def zeroTime_def in64_def abs_less_iff)
  moreover have "periods_before u res t = Some r" using assms(1,5) by (simp add: periods_before_def eq)
  ultimately show thesis using that eq b by blast
qed

text \<open>What \<open>Truncate\<close> does after the end has been cut: it cuts the periods up to \<open>asOf\<close>.\<close>

definition trunc_rest :: "int \<Rightarrow> duration \<Rightarrow> gotime \<Rightarrow> bytes \<Rightarrow> (bytes \<times> bytes) option \<Rightarrow> (bytes \<times> bytes) go" where
  "trunc_rest w res asOf' s r = (case r of None \<Rightarrow> Some ([], s)
     | Some (result, seq') \<Rightarrow>
         if \<not> IsZero asOf' then do {
           u \<leftarrow> Until result;
           maxPeriods \<leftarrow> go_div (Sub u asOf') res;
           if maxPeriods \<le> 0 then Some ([], seq')
           else if int (length result) \<le> wrap64 (Width64bits + wrap64 (maxPeriods * w)) then Some (result, seq')
             else do { r \<leftarrow> slice_to (wrap64 (Width64bits + wrap64 (maxPeriods * w))) result; Some (r, seq') } }
         else Some (result, seq'))"

lemma trunc_rest_cells:
  assumes wf: "wf_expr X e" "cells_ok X e ds" "0 < W e" and res: "0 < res" "res \<le> 2 ^ 53" "\<bar>u\<bar> < 2 ^ 62" and t: "near u asOf"
    and w: "\<forall>k. \<bar>k * res\<bar> < 2 ^ 56 \<longrightarrow> \<bar>k * int (W e)\<bar> < 2 ^ 61" and k: "\<bar>k * res\<bar> < 2 ^ 55"
  shows "trunc_rest (EncodedWidth e) res (RoundTimeUntilDown asOf res u) s0 (Some (seq_of (u - k * res) ds, s)) =
    Some (case periods_before u res asOf of
        None \<Rightarrow> seq_of (u - k * res) ds
      | Some a \<Rightarrow> if a \<le> k then [] else seq_of (u - k * res) (take (nat (a - k)) ds), s)"
proof (cases "IsZero asOf")
  case True
  then show ?thesis by (simp add: trunc_rest_def RoundTimeUntilDown_def periods_before_def)
next
  case False
  obtain a where a: "periods_before u res asOf = Some a" "RoundTimeUntilDown asOf res u = u - a * res" "\<bar>a * res\<bar> < 2 ^ 55"
    "\<not> IsZero (u - a * res)"
    using periods_before_Some [OF res t False] by blast
  have eq: "u - a * res = (u - k * res) - (a - k) * res" by (simp add: algebra_simps)
  have b: "\<bar>(a - k) * res\<bar> < 2 ^ 56" using a(3) k by (simp add: left_diff_distrib abs_less_iff)
  then have b2: "\<bar>(a - k) * res\<bar> < 2 ^ 62" by simp
  have uk: "in64 (u - k * res)" using res(3) k by (auto simp: in64_def abs_less_iff)
  have nz: "\<not> IsZero (u - k * res - (a - k) * res)" using a(4) eq by simp
  have "trunc_rest (EncodedWidth e) res (RoundTimeUntilDown asOf res u) s0 (Some (seq_of (u - k * res) ds, s)) =
      Some (if a - k \<le> 0 then [] else seq_of (u - k * res) (take (nat (a - k)) ds), s)"
    unfolding trunc_rest_def option.case prod.case a(2) eq if_P [OF nz]
    by (rule Truncate_asOf [OF wf res(1) uk b2 w [rule_format, OF b]])
  then show ?thesis using a(1) by simp
qed

text \<open>Cutting the end: with no end, or one that is not before the sequence's, nothing is cut.\<close>

lemma Truncate_end:
  fixes asOf :: gotime
  assumes wf: "wf_expr X e" "cells_ok X e cs" "0 < W e" and res: "0 < res" "res \<le> 2 ^ 53" "\<bar>u\<bar> < 2 ^ 62" and t: "near u until"
    and w: "\<forall>k. \<bar>k * res\<bar> < 2 ^ 56 \<longrightarrow> \<bar>k * int (W e)\<bar> < 2 ^ 61" and size: "int (length cs) * int (W e) < 2 ^ 61"
  defines "rest \<equiv> trunc_rest (EncodedWidth e) res (RoundTimeUntilDown asOf res u) (seq_of u cs)"
    and "p \<equiv> periods_before u res until"
  shows "(p = None \<or> (\<exists>r \<le> 0. p = Some r)) \<and>
      Truncate (seq_of u cs) (EncodedWidth e) res asOf until = rest (Some (seq_of (u - 0 * res) cs, seq_of u cs)) \<or>
    (\<exists>r s. p = Some r \<and> 0 < r \<and> \<bar>r * res\<bar> < 2 ^ 55 \<and>
      Truncate (seq_of u cs) (EncodedWidth e) res asOf until =
        (if int (length cs) \<le> r then rest None else rest (Some (seq_of (u - r * res) (drop (nat r) cs), s))))"
proof (cases "IsZero until")
  case True
  have u: "in64 u" using res(3) by (auto simp: in64_def abs_less_iff)
  have "Truncate (seq_of u cs) (EncodedWidth e) res asOf until = rest (Some (seq_of (u - 0 * res) cs, seq_of u cs))"
    using True unfolding Truncate_def Let_def by (simp add: u rest_def trunc_rest_def RoundTimeUntilDown_def [of until])
  then show ?thesis using True by (simp add: periods_before_def p_def)
next
  case False
  have u: "in64 u" using res(3) by (auto simp: in64_def abs_less_iff)
  obtain r where r: "p = Some r" "RoundTimeUntilDown until res u = u - r * res"
    "\<bar>r * res\<bar> < 2 ^ 55" "\<not> IsZero (u - r * res)" "in64 (u - r * res)"
    using periods_before_Some [OF res t False] unfolding p_def by blast
  have d: "go_div (Sub u (u - r * res)) res = Some r"
    using go_div_periods [OF res(1), of r] r(3) by (simp add: Sub_exact)
  note start = Truncate_def trunc_rest_def Let_def Until_seq_of [OF u] bind.bind_lunit r(2) d if_not_P [OF seq_of_not_Nil] if_P [OF r(4)]
  show ?thesis
  proof (cases "0 < r")
    case True
    have b: "\<bar>r * res\<bar> < 2 ^ 62" "\<bar>r * int (W e)\<bar> < 2 ^ 61" using r(3) w [rule_format, of r] by auto
    note TU = Truncate_until [OF wf res(1) u r(5) True b(1) size b(2)]
    have "Truncate (seq_of u cs) (EncodedWidth e) res asOf until =
        (if int (length cs) \<le> r then rest None
         else rest (Some (seq_of (u - r * res) (drop (nat r) cs),
                take (nat r * W e) (seq_of u cs) @ seq_of (u - r * res) (drop (nat r) cs))))"
      unfolding rest_def start if_P [OF True] TU by simp
    then show ?thesis using True r(1,3) by blast
  next
    case False
    have "Truncate (seq_of u cs) (EncodedWidth e) res asOf until = rest (Some (seq_of (u - 0 * res) cs, seq_of u cs))"
      unfolding rest_def start if_not_P [OF False] by simp
    then show ?thesis using r(1) False by auto
  qed
qed

lemma Truncate_cells:
  assumes wf: "wf_expr X e" "cells_ok X e cs" "0 < W e" and res: "0 < res" "res \<le> 2 ^ 53" "\<bar>u\<bar> < 2 ^ 62"
    and t: "near u asOf" "near u until"
    and size: "int (length cs) * int (W e) < 2 ^ 61" "int (W e) < 32 * res"
  shows "\<exists>seq'. Truncate (seq_of u cs) (EncodedWidth e) res asOf until =
    Some (case trunc_cells (periods_before u res asOf) (periods_before u res until) cs of
        None \<Rightarrow> [] | Some (k, ds) \<Rightarrow> seq_of (u - k * res) ds, seq')"
proof -
  have w: "\<forall>k. \<bar>k * res\<bar> < 2 ^ 56 \<longrightarrow> \<bar>k * int (W e)\<bar> < 2 ^ 61"
  proof (intro allI impI)
    fix k assume k: "\<bar>k * res\<bar> < 2 ^ 56"
    have "\<bar>k\<bar> * int (W e) \<le> \<bar>k\<bar> * (32 * res)" using size(2) by (intro mult_left_mono) auto
    also have "\<dots> = 32 * \<bar>k * res\<bar>" using res(1) by (simp add: abs_mult)
    finally show "\<bar>k * int (W e)\<bar> < 2 ^ 61" using k by (simp add: abs_mult)
  qed
  note rest = trunc_rest_cells [OF wf(1) _ wf(3) res t(1) w]
  show ?thesis
    using Truncate_end [OF wf res t(2) w size(1), of asOf]
  proof (elim disjE conjE exE)
    fix r s
    assume "periods_before u res until = Some r" "0 < r" "\<bar>r * res\<bar> < 2 ^ 55"
      "Truncate (seq_of u cs) (EncodedWidth e) res asOf until =
        (if int (length cs) \<le> r then trunc_rest (EncodedWidth e) res (RoundTimeUntilDown asOf res u) (seq_of u cs) None
         else trunc_rest (EncodedWidth e) res (RoundTimeUntilDown asOf res u) (seq_of u cs)
           (Some (seq_of (u - r * res) (drop (nat r) cs), s)))"
    then show ?thesis using rest [OF cells_ok_drop [OF wf(2)], of r "seq_of u cs" "nat r" s]
      by (auto simp: trunc_cells_def trunc_rest_def [of _ _ _ _ None] split: option.split)
  qed (use rest [OF wf(2), of 0 "seq_of u cs" "seq_of u cs"] in \<open>auto simp: trunc_cells_def max_def split: option.split\<close>)
qed

definition in_range :: "int option \<Rightarrow> int option \<Rightarrow> int \<Rightarrow> bool" where
  "in_range a r i \<longleftrightarrow> (case a of None \<Rightarrow> True | Some x \<Rightarrow> i < x) \<and> (case r of None \<Rightarrow> True | Some x \<Rightarrow> x \<le> i)"

lemma trunc_cells_Some:
  assumes "trunc_cells a r cs = Some (k, ds)"
  shows "0 \<le> k" "per e ds (i - k) = (if in_range a r i then per e cs i else zero_cell e)"
proof -
  have k: "k = (case r of Some r \<Rightarrow> max r 0 | None \<Rightarrow> 0)" "0 < k \<Longrightarrow> k < int (length cs)"
    "ds = (case a of None \<Rightarrow> drop (nat k) cs | Some a \<Rightarrow> take (nat (a - k)) (drop (nat k) cs))"
    using assms by (auto simp: trunc_cells_def Let_def split: if_splits option.splits)
  show kp: "0 \<le> k" using k(1) by (auto split: option.splits)
  have dr: "per e (drop (nat k) cs) (i - k) = (if k \<le> i then per e cs i else zero_cell e)"
    using kp k(2) by (auto simp: per_def nat_diff_distrib)
  have tk: "per e (take n xs) j = (if j < int n then per e xs j else zero_cell e)" for n j and xs :: "bytes list"
    by (auto simp: per_def)
  show "per e ds (i - k) = (if in_range a r i then per e cs i else zero_cell e)"
    using k(1) unfolding k(3)
    by (cases a; cases r) (auto simp: in_range_def tk dr max_def split: if_splits)
qed

lemma trunc_cells_None:
  "trunc_cells a r cs = None \<Longrightarrow> in_range a r i \<Longrightarrow> per e cs i = zero_cell e"
  by (auto simp: trunc_cells_def Let_def in_range_def split: if_splits option.splits)

lemma state_at_shift:
  assumes "0 < res" "\<And>i. per e ds (i - k) = (if P (u - i * res) then per e cs i else zero_cell e)"
  shows "state_at e res (u - k * res) ds t = (if P t then state_at e res u cs t else zero_cell e)"
proof (cases "res dvd u - t")
  case True
  then obtain i where i: "t = u - i * res" by (metis diff_diff_eq2 add_diff_cancel_left' dvd_div_mult_self)
  have "t = (u - k * res) - (i - k) * res" using i by (simp add: algebra_simps)
  then have "state_at e res (u - k * res) ds t = per e ds (i - k)"
    using state_at_periods [OF assms(1), of e "u - k * res" ds "i - k"] by simp
  moreover have "state_at e res u cs t = per e cs i" using i assms(1) by (simp add: state_at_periods)
  ultimately show ?thesis using assms(2) [of i] i by simp
next
  case False
  then have "\<not> res dvd (u - k * res) - t" by (metis diff_add_cancel diff_diff_eq2 dvd_add_left_iff dvd_triv_right add.commute diff_diff_add)
  then show ?thesis using False by (simp add: state_at_def)
qed

lemma in_range_times:
  assumes "0 < res" "res \<le> 2 ^ 53" "\<bar>u\<bar> < 2 ^ 62" "near u asOf" "near u until"
  shows "in_range (periods_before u res asOf) (periods_before u res until) i \<longleftrightarrow>
    (\<not> IsZero asOf \<longrightarrow> RoundTimeUntilDown asOf res u < u - i * res) \<and>
    (\<not> IsZero until \<longrightarrow> u - i * res \<le> RoundTimeUntilDown until res u)"
proof -
  have "(case periods_before u res asOf of None \<Rightarrow> True | Some x \<Rightarrow> i < x) \<longleftrightarrow>
      (\<not> IsZero asOf \<longrightarrow> RoundTimeUntilDown asOf res u < u - i * res)"
  proof (cases "IsZero asOf")
    case False
    obtain a where "periods_before u res asOf = Some a" "RoundTimeUntilDown asOf res u = u - a * res"
      using periods_before_Some [OF assms(1-4) False] by blast
    then show ?thesis using False assms(1) by simp
  qed (simp add: periods_before_def)
  moreover have "(case periods_before u res until of None \<Rightarrow> True | Some x \<Rightarrow> x \<le> i) \<longleftrightarrow>
      (\<not> IsZero until \<longrightarrow> u - i * res \<le> RoundTimeUntilDown until res u)"
  proof (cases "IsZero until")
    case False
    obtain r where "periods_before u res until = Some r" "RoundTimeUntilDown until res u = u - r * res"
      using periods_before_Some [OF assms(1-3,5) False] by blast
    then show ?thesis using False assms(1) by simp
  qed (simp add: periods_before_def)
  ultimately show ?thesis by (simp add: in_range_def)
qed

text \<open>
  \<open>Truncate\<close> keeps exactly the states of the requested range: after it, the state at a time is the old one if the
  time lies after the rounded down \<open>asOf\<close> and not after the rounded down \<open>until\<close> (where they are not the zero time),
  and unset otherwise; an empty result stands for a sequence without states.
\<close>

theorem truncate_range:
  assumes "wf_expr X e" "cells_ok X e cs" "0 < W e" "0 < res" "res \<le> 2 ^ 53" "\<bar>u\<bar> < 2 ^ 62"
    "near u asOf" "near u until" "int (length cs) * int (W e) < 2 ^ 61" "int (W e) < 32 * res"
  shows "\<exists>result seq' u' ds. Truncate (seq_of u cs) (EncodedWidth e) res asOf until = Some (result, seq') \<and>
    (result = seq_of u' ds \<or> result = [] \<and> ds = []) \<and> u' \<le> u \<and>
    (\<forall>t. state_at e res u' ds t =
      (if (\<not> IsZero asOf \<longrightarrow> RoundTimeUntilDown asOf res u < t) \<and> (\<not> IsZero until \<longrightarrow> t \<le> RoundTimeUntilDown until res u)
       then state_at e res u cs t else zero_cell e))"
proof -
  let ?a = "periods_before u res asOf" and ?r = "periods_before u res until"
  note rng = in_range_times [OF assms(4-8)]
  obtain seq' where T: "Truncate (seq_of u cs) (EncodedWidth e) res asOf until =
      Some (case trunc_cells ?a ?r cs of None \<Rightarrow> [] | Some (k, ds) \<Rightarrow> seq_of (u - k * res) ds, seq')"
    using Truncate_cells [OF assms] by blast
  show ?thesis
  proof (cases "trunc_cells ?a ?r cs")
    case None
    have "state_at e res (u - 0 * res) [] t =
      (if (\<not> IsZero asOf \<longrightarrow> RoundTimeUntilDown asOf res u < t) \<and> (\<not> IsZero until \<longrightarrow> t \<le> RoundTimeUntilDown until res u)
       then state_at e res u cs t else zero_cell e)" for t
      by (rule state_at_shift [OF assms(4)]) (use trunc_cells_None [OF None, of _ e] in \<open>auto simp: rng [symmetric]\<close>)
    then show ?thesis using T None by (intro exI [of _ "[]"] exI [of _ seq'] exI [of _ u]) simp
  next
    case (Some p)
    obtain k ds where p: "p = (k, ds)" by (cases p)
    note c = trunc_cells_Some [OF Some [unfolded p]]
    have "state_at e res (u - k * res) ds t =
      (if (\<not> IsZero asOf \<longrightarrow> RoundTimeUntilDown asOf res u < t) \<and> (\<not> IsZero until \<longrightarrow> t \<le> RoundTimeUntilDown until res u)
       then state_at e res u cs t else zero_cell e)" for t
      by (rule state_at_shift [OF assms(4)]) (use c(2) [of e] in \<open>simp add: rng\<close>)
    then show ?thesis using T Some p c(1) assms(4)
      by (intro exI [of _ "seq_of (u - k * res) ds"] exI [of _ seq'] exI [of _ "u - k * res"] exI [of _ ds]) simp
  qed
qed

theorem truncate_range_witness:
  "\<exists>result seq' u' ds. Truncate (seq_of 1000 [replicate 9 0, replicate 9 0]) 9 100 0 920 = Some (result, seq') \<and>
    (result = seq_of u' ds \<or> result = [] \<and> ds = []) \<and> u' \<le> 1000"
  using truncate_range [of sample_ext sample_count "[replicate 9 0, replicate 9 0]" 100 1000 0 920]
  by (auto simp: near_def IsZero_def zeroTime_def)

text \<open>
  \<open>Truncate\<close> with an \<open>until\<close> before the end of the sequence writes into the sequence it is called on: the end of
  the shortened sequence overwrites the states of the periods that were cut off, although the caller's sequence
  is not the result.  Here the first of two periods is lost.
\<close>

theorem truncate_overwrites_caller:
  "Truncate (seq_of 1000 [1 # replicate 8 5, 1 # replicate 8 7]) 9 100 zeroTime 900 =
    Some (seq_of 900 [1 # replicate 8 7], seq_of 1000 [1 # be 8 900, 1 # replicate 8 7]) \<and>
   seq_of 1000 [1 # be 8 900, 1 # replicate 8 7] \<noteq> seq_of 1000 [1 # replicate 8 5, 1 # replicate 8 7]"
  by code_simp

end
