(* ===== verification/SeqMerge.thy ===== *)
theory SeqMerge
  imports SeqTrunc
begin

text \<open>\<open>Sequence.Merge\<close> on the periods of two sequences.\<close>

section \<open>Merging cells\<close>

definition mcell :: "('c, 'h) ext \<Rightarrow> 'c expr \<Rightarrow> bytes \<Rightarrow> bytes \<Rightarrow> bytes" where
  "mcell X e x y = (case Merge X e (zero_cell e) x y of Some (s, _) \<Rightarrow> s | None \<Rightarrow> x)"

lemma zero_cell_ok: "length (zero_cell e) = W e" "state_ok X e (zero_cell e)"
  using state_ok_zeros by (auto simp: zero_cell_def)

lemma mcell_ok:
  assumes "wf_expr X e" "hdr_laws X" "length x = W e" "length y = W e" "state_ok X e x" "state_ok X e y"
  shows "length (mcell X e x y) = W e" "state_ok X e (mcell X e x y)"
    "contents X e (mcell X e x y) = merge_leaves X (leaves e) (contents X e (zero_cell e)) (contents X e x) (contents X e y)"
    "Merge X e (zero_cell e @ r1) (x @ r2) (y @ r3) = Some (mcell X e x y @ r1, W e, W e, W e)"
proof -
  obtain s where s: "length s = W e" "state_ok X e s"
    "contents X e s = merge_leaves X (leaves e) (contents X e (zero_cell e)) (contents X e x) (contents X e y)"
    "\<And>r1 r2 r3. Merge X e (zero_cell e @ r1) (x @ r2) (y @ r3) = Some (s @ r1, W e, W e, W e)"
    using merge_okD [OF Merge_ok [OF assms(1,2)] zero_cell_ok(1) assms(3,4) zero_cell_ok(2) assms(5,6)] by blast
  have "mcell X e x y = s" using s(4) [of "[]" "[]" "[]"] by (simp add: mcell_def)
  then show "length (mcell X e x y) = W e" "state_ok X e (mcell X e x y)"
    "contents X e (mcell X e x y) = merge_leaves X (leaves e) (contents X e (zero_cell e)) (contents X e x) (contents X e y)"
    "Merge X e (zero_cell e @ r1) (x @ r2) (y @ r3) = Some (mcell X e x y @ r1, W e, W e, W e)" using s by auto
qed

lemma merge_loop_cells:
  assumes "wf_expr X e" "hdr_laws X" "cells_ok X e xs" "cells_ok X e ys" "length xs = n" "length ys = n"
  shows "merge_loop X e n (concat (replicate n (zero_cell e)) @ r1) (concat xs @ r2) (concat ys @ r3) =
    Some (concat (map2 (mcell X e) xs ys), r1, r2, r3)"
  using assms(3-)
proof (induction n arbitrary: xs ys)
  case (Suc n)
  then obtain x xs' y ys' where xy: "xs = x # xs'" "ys = y # ys'" by (metis length_Suc_conv)
  then have "length x = W e" "length y = W e" "state_ok X e x" "state_ok X e y" using Suc.prems by auto
  note m = mcell_ok [OF assms(1,2) this]
  show ?case using Suc.IH [of xs' ys'] Suc.prems xy m \<open>length x = W e\<close> \<open>length y = W e\<close> by simp
qed simp

definition mcells :: "('c, 'h) ext \<Rightarrow> 'c expr \<Rightarrow> nat \<Rightarrow> bytes list \<Rightarrow> bytes list \<Rightarrow> bytes list" where
  "mcells X e d xs ys =
     (if d < length xs
      then take d xs @ map2 (mcell X e) (drop d xs) ys @
        (if d + length ys < length xs then drop (d + length ys) xs else drop (length xs - d) ys)
      else xs @ replicate (d - length xs) (zero_cell e) @ ys)"

lemma length_mcells: "length (mcells X e d xs ys) = max (length xs) (d + length ys)"
  by (auto simp: mcells_def)

text \<open>The state of each period of the merged sequence, \<open>i\<close> periods before the end of the later one.\<close>

lemma per_mcells:
  "per e (mcells X e d xs ys) i =
     (if 0 \<le> i \<and> i < int (length xs) \<and> int d \<le> i \<and> i < int d + int (length ys)
      then mcell X e (per e xs i) (per e ys (i - int d))
      else if 0 \<le> i \<and> i < int (length xs) then per e xs i else per e ys (i - int d))"
proof (cases "0 \<le> i")
  case True
  then obtain k where k: "i = int k" by (metis zero_le_imp_eq_int)
  show ?thesis
    by (auto simp: k per_def mcells_def nth_append nat_diff_distrib of_nat_diff min_def)
qed simp

section \<open>The windows of Merge\<close>

lemma grid_div:
  "0 < res \<Longrightarrow> \<bar>(j - i) * res\<bar> < 2 ^ 62 \<Longrightarrow> go_div (Sub (u - i * res) (u - j * res)) res = Some (j - i)"
proof -
  assume r: "0 < res" "\<bar>(j - i) * res\<bar> < 2 ^ 62"
  have "u - i * res - (u - j * res) = (j - i) * res" by (simp add: algebra_simps)
  then show ?thesis using go_div_periods [OF r] Sub_exact [of "u - i * res" "u - j * res"] r(2) by simp
qed

definition zcells :: "'c expr \<Rightarrow> nat \<Rightarrow> bytes" where "zcells e n = replicate (n * W e) 0"

lemma length_zcells [simp]: "length (zcells e n) = n * W e" by (simp add: zcells_def)

lemma zcells_add: "zcells e (m + n) = zcells e m @ zcells e n"
  by (simp add: zcells_def add_mult_distrib replicate_add)

lemma zcells_concat: "zcells e n = concat (replicate n (zero_cell e))"
  by (simp add: zcells_def concat_zeros)

lemma length_concat_ok: "cells_ok X e cs \<Longrightarrow> length (concat cs) = length cs * W e"
  by (simp add: cells_ok_def length_concat_cells)

lemma wrap_mult: "int (n * w) < 2 ^ 61 \<Longrightarrow> wrap64 (int n * int w) = int (n * w)"
  by (rule trans [OF wrap64_id]) (auto simp: in64_def simp del: of_nat_mult simp flip: of_nat_mult)

text \<open>The leading window: \<open>n\<close> periods of the later sequence alone.\<close>

lemma lead_window:
  assumes "cells_ok X e xs" "n \<le> length xs" "n \<le> m" "int (n * W e) < 2 ^ 61"
  shows "(if 0 < int n then do {
       src \<leftarrow> slice_to (wrap64 (int n * int (W e))) (concat xs);
       d \<leftarrow> slice_to (wrap64 (int n * int (W e))) (go_copy (zcells e m) src);
       sout \<leftarrow> slice_from (wrap64 (int n * int (W e))) (go_copy (zcells e m) src);
       sa \<leftarrow> slice_from (wrap64 (int n * int (W e))) (concat xs);
       Some (done @ d, sout, sa) } else Some (done, zcells e m, concat xs)) =
     Some (done @ concat (take n xs), zcells e (m - n), concat (drop n xs))"
proof -
  have le: "n * W e \<le> length (concat xs)" using assms(1,2) by (simp add: length_concat_ok)
  have "zcells e m = zcells e n @ zcells e (m - n)" using zcells_add [of e n "m - n"] assms(3) by simp
  moreover have lt: "length (concat (take n xs)) = n * W e"
    using length_concat_ok [OF cells_ok_take [OF assms(1)], of n] assms(2) by simp
  ultimately have cp: "go_copy (zcells e m) (concat (take n xs)) = concat (take n xs) @ zcells e (m - n)"
    by (simp add: go_copy_def)
  have s1: "slice_to (int (n * W e)) (concat xs) = Some (concat (take n xs))"
    using le concat_take_cells [OF assms(1)] by (simp only: slice_to_nat) simp
  have s2: "slice_to (int (n * W e)) (concat (take n xs) @ zcells e (m - n)) = Some (concat (take n xs))"
    "slice_from (int (n * W e)) (concat (take n xs) @ zcells e (m - n)) = Some (zcells e (m - n))"
    using lt by (simp_all only: slice_to_nat slice_from_nat) simp_all
  have s3: "slice_from (int (n * W e)) (concat xs) = Some (concat (drop n xs))"
    using le concat_drop_cells [OF assms(1)] by (simp only: slice_from_nat) simp
  show ?thesis unfolding wrap_mult [OF assms(4)] s1 s3 bind.bind_lunit cp s2 by simp
qed

lemma overlap_window:
  assumes "wf_expr X e" "hdr_laws X" "cells_ok X e xs" "cells_ok X e ys" "k = min (length xs) (length ys)" "k \<le> m"
  shows "merge_loop X e k (zcells e m) (concat xs) (concat ys) =
    Some (concat (map2 (mcell X e) xs ys), zcells e (m - k), concat (drop k xs), concat (drop k ys))"
proof -
  have z: "zcells e m = concat (replicate k (zero_cell e)) @ zcells e (m - k)"
    using zcells_add [of e k "m - k"] assms(6) by (simp add: zcells_concat [symmetric])
  have c: "concat xs = concat (take k xs) @ concat (drop k xs)" "concat ys = concat (take k ys) @ concat (drop k ys)"
    by (metis append_take_drop_id concat_append)+
  have "zip (take k xs) (take k ys) = zip xs ys" using assms(5) by (simp flip: take_zip)
  then have "map2 (mcell X e) (take k xs) (take k ys) = map2 (mcell X e) xs ys" by simp
  then show ?thesis
    using merge_loop_cells [OF assms(1,2) cells_ok_take [OF assms(3)] cells_ok_take [OF assms(4)], of k k k] assms(5)
    by (simp add: z c)
qed

lemma tail_copy: "length s = n * W e \<Longrightarrow> go_copy (zcells e n) s = s"
  by (simp add: go_copy_def)

text \<open>Two sequences on one grid, the second ending \<open>d\<close> periods before the first, that are short enough for the arithmetic.\<close>

definition merge_fits :: "'c expr \<Rightarrow> nat \<Rightarrow> duration \<Rightarrow> bool" where
  "merge_fits e n res \<longleftrightarrow> 0 < res \<and> int n * res < 2 ^ 61 \<and> int (n * W e) < 2 ^ 61"

lemma merge_fits_width:
  assumes "merge_fits e N res" "n \<le> N"
  shows "int (n * W e) < 2 ^ 61"
proof -
  have "int (n * W e) \<le> int (N * W e)" using assms(2) by (simp only: of_nat_le_iff mult_le_mono1)
  then show ?thesis using assms(1) unfolding merge_fits_def by (meson order.strict_trans1)
qed

lemma merge_fits_time:
  assumes "merge_fits e N res" "\<bar>k\<bar> \<le> int N"
  shows "\<bar>k * res\<bar> < 2 ^ 62" "\<bar>k\<bar> < 2 ^ 61"
proof -
  have r: "0 < res" "int N * res < 2 ^ 61" using assms(1) by (simp_all add: merge_fits_def)
  have "\<bar>k\<bar> * res \<le> int N * res" using assms(2) r(1) by (intro mult_right_mono) auto
  then have "\<bar>k\<bar> * res < 2 ^ 61" using r(2) by (rule order.strict_trans1)
  moreover have "\<bar>k\<bar> * 1 \<le> \<bar>k\<bar> * res" using r(1) by (intro mult_left_mono) auto
  ultimately show "\<bar>k * res\<bar> < 2 ^ 62" "\<bar>k\<bar> < 2 ^ 61" using r by (simp_all add: abs_mult)
qed

lemma merge_fits_end:
  assumes "merge_fits e N res" "n \<le> N"
  shows "v + wrap64 (wrap64 (- int n) * res) = v - int n * res"
proof -
  have "in64 (- int n)" "in64 (- int n * res)" using merge_fits_time [OF assms(1), of "- int n"] assms(2) by (auto simp: in64_def abs_less_iff)
  then show ?thesis by simp
qed

lemma merge_fits_div:
  assumes "merge_fits e N res" "i \<le> N" "j \<le> N"
  shows "go_div (Sub (u - int i * res) (u - int j * res)) res = Some (int j - int i)"
  using grid_div [of res "int j" "int i"] merge_fits_time(1) [OF assms(1), of "int j - int i"] assms by (simp add: merge_fits_def)

text \<open>The part of \<open>mergeOrdered\<close> up to the leading window.\<close>

lemma mergeOrdered_lead:
  fixes u d res xs ys
  assumes wf: "wf_expr X e" "0 < W e" and c: "cells_ok X e xs" "cells_ok X e ys"
    and fits: "merge_fits e (length xs + d + length ys) res" and late: "\<not> u - int d * res < RoundTimeUntilUp tb res u"
  defines "T \<equiv> max (length xs) (d + length ys)" and "L \<equiv> min d (length xs)"
  shows "mergeOrdered X (seq_of u xs) u (seq_of (u - int d * res) ys) (u - int d * res) e res tb =
    do { (done, sout, sa, sb) \<leftarrow>
           (if d < length xs then do {
              (dn, sout, sa, sb) \<leftarrow> merge_loop X e (nat ((if d + length ys < length xs then int (d + length ys) else int (length xs)) - int L))
                 (zcells e (T - L)) (concat (drop L xs)) (concat ys);
              Some ((be 8 (unat (word_of_int u :: u64)) @ concat (take L xs)) @ dn, sout, sa, sb) }
            else if length xs < d then do {
              dn \<leftarrow> slice_to (wrap64 ((int d - int (length xs)) * int (W e))) (zcells e (T - L));
              sout \<leftarrow> slice_from (wrap64 ((int d - int (length xs)) * int (W e))) (zcells e (T - L));
              Some ((be 8 (unat (word_of_int u :: u64)) @ concat (take L xs)) @ dn, sout, concat (drop L xs), concat ys) }
            else Some (be 8 (unat (word_of_int u :: u64)) @ concat (take L xs), zcells e (T - L), concat (drop L xs), concat ys));
         Some (done @ (if d + length ys < length xs then go_copy sout sa else if length xs < d + length ys then go_copy sout sb else sout)) }"
proof -
  define nA nB where "nA = length xs" and "nB = length ys"
  note fits' = fits [folded nA_def nB_def]
  have res: "0 < res" using fits by (simp add: merge_fits_def)
  have W: "EncodedWidth e = int (W e)" by (rule EncodedWidth_W [OF wf(1)])
  have le: "nA \<le> nA + d + nB" "nB \<le> nA + d + nB" "d \<le> nA + d + nB" "d + nB \<le> nA + d + nB" "T \<le> nA + d + nB" "L \<le> nA + d + nB" "L \<le> nA" "L \<le> T"
    by (auto simp: T_def L_def nA_def nB_def)
  note wb = merge_fits_width [OF fits'] and ge = merge_fits_end [OF fits'] and gd = merge_fits_div [OF fits', of _ _ u]
  have P: "NumPeriods (seq_of u xs) (int (W e)) = Some (int nA)" "NumPeriods (seq_of (u - int d * res) ys) (int (W e)) = Some (int nB)"
    using NumPeriods_seq_of [OF c(1) wf(2) _ wf(1)] NumPeriods_seq_of [OF c(2) wf(2) _ wf(1)] wb [OF le(1)] wb [OF le(2)]
    by (simp_all add: nA_def nB_def W)
  have gd0: "go_div (Sub u (u - int j * res)) res = Some (int j)" if "j \<le> nA + d + nB" for j
    using gd [of 0 j] that by simp
  have lt: "u - int i * res < u - int j * res \<longleftrightarrow> j < i" for i j using res by simp
  have E: "u + wrap64 (wrap64 (- int nA) * res) = u - int nA * res" "u - int d * res + wrap64 (wrap64 (- int nB) * res) = u - int (d + nB) * res"
    unfolding ge [OF le(1)] ge [OF le(2)] by (simp_all add: algebra_simps)
  have ends: "(if d + nB < nA then u - int nA * res else u - int (d + nB) * res) = u - int T * res"
    "(if nA < d then u - int nA * res else u - int d * res) = u - int L * res" by (simp_all add: T_def L_def nA_def nB_def)
  have mk: "make_bytes (wrap64 (Width64bits + wrap64 (int T * int (W e)))) = Some (replicate (8 + T * W e) 0)"
    unfolding wrap_len [OF wb [OF le(5)]] make_bytes_nat ..
  let ?hd = "be 8 (unat (word_of_int u :: u64))"
  have hd: "slice_to Width64bits (seq_of u xs) = Some ?hd" "slice_from Width64bits (seq_of v zs) = Some (concat zs)" for v zs
    by (simp_all add: slice_to_def slice_from_def Width64bits_def seq_of_def)
  have so: "go_copy (replicate (8 + T * W e) 0) ?hd = ?hd @ zcells e T" "slice_from Width64bits (?hd @ zcells e T) = Some (zcells e T)"
    "take 8 (?hd @ zcells e T) = ?hd"
    by (simp_all add: go_copy_def zcells_def slice_from_def Width64bits_def)
  have op: "(if d + nB < nA then Some (int (d + nB)) else Some (int nA)) = Some (if d + nB < nA then int (d + nB) else int nA)" by simp
  show ?thesis
    unfolding mergeOrdered_def Let_def W if_not_P [OF late] P bind.bind_lunit E lt ends gd0 [OF le(5)] mk hd so gd0 [OF le(6)]
      lead_window [OF c(1) le(7) [unfolded nA_def] le(8) wb [OF le(6)]] prod.case gd0 [OF le(4)] gd0 [OF le(1)] gd [OF le(1,3)] op
    unfolding nA_def nB_def ..
qed

text \<open>The sequences overlap or touch.\<close>

lemma mergeOrdered_overlap:
  assumes wf: "wf_expr X e" "hdr_laws X" "0 < W e" and c: "cells_ok X e xs" "cells_ok X e ys"
    and fits: "merge_fits e (length xs + d + length ys) res" and late: "\<not> u - int d * res < RoundTimeUntilUp tb res u" and d: "d < length xs"
  shows "mergeOrdered X (seq_of u xs) u (seq_of (u - int d * res) ys) (u - int d * res) e res tb = Some (seq_of u (mcells X e d xs ys))"
proof -
  define k T where "k = min (length xs - d) (length ys)" and "T = max (length xs) (d + length ys)"
  have op: "(if d + length ys < length xs then int (d + length ys) else int (length xs)) - int (min d (length xs)) = int k"
    using d by (auto simp: k_def)
  have ml: "merge_loop X e k (zcells e (T - d)) (concat (drop d xs)) (concat ys) =
      Some (concat (map2 (mcell X e) (drop d xs) ys), zcells e (T - d - k), concat (drop (d + k) xs), concat (drop k ys))"
    using overlap_window [OF wf(1,2) cells_ok_drop [OF c(1)] c(2), of k d "T - d"] d by (simp add: k_def T_def add.commute)
  have tl: "(if d + length ys < length xs then go_copy (zcells e (T - d - k)) (concat (drop (d + k) xs))
      else if length xs < d + length ys then go_copy (zcells e (T - d - k)) (concat (drop k ys)) else zcells e (T - d - k)) =
    concat (if d + length ys < length xs then drop (d + length ys) xs else drop (length xs - d) ys)"
    using d length_concat_ok [OF cells_ok_drop [OF c(1)], of "d + k"] length_concat_ok [OF cells_ok_drop [OF c(2)], of k]
    by (auto simp: k_def T_def tail_copy [unfolded zcells_def] zcells_def)
  have m: "min d (length xs) = d" using d by simp
  show ?thesis
    unfolding mergeOrdered_lead [OF wf(1,3) c fits late] if_P [OF d] op [unfolded m] m nat_int T_def [symmetric] ml bind.bind_lunit prod.case tl
    using d by (simp add: mcells_def seq_of_def)
qed

text \<open>There is a gap between the sequences, possibly empty.\<close>

lemma mergeOrdered_gap:
  assumes wf: "wf_expr X e" "0 < W e" and c: "cells_ok X e xs" "cells_ok X e ys"
    and fits: "merge_fits e (length xs + d + length ys) res" and late: "\<not> u - int d * res < RoundTimeUntilUp tb res u" and d: "\<not> d < length xs"
  shows "mergeOrdered X (seq_of u xs) u (seq_of (u - int d * res) ys) (u - int d * res) e res tb = Some (seq_of u (mcells X e d xs ys))"
proof -
  let ?n = "d - length xs"
  have m: "min d (length xs) = length xs" "max (length xs) (d + length ys) = d + length ys" "int d - int (length xs) = int ?n"
    "d + length ys - length xs = ?n + length ys" using d by (simp_all add: of_nat_diff)
  have ne: "length xs < d + length ys" if "ys \<noteq> []" using d that by (cases ys) simp_all
  have fin: "(if d + length ys < length xs then go_copy (zcells e (length ys)) sa
      else if length xs < d + length ys then go_copy (zcells e (length ys)) (concat ys) else zcells e (length ys)) = concat ys" for sa
    using d length_concat_ok [OF c(2)] ne by (cases "ys = []") (auto simp: tail_copy [unfolded zcells_def] zcells_def go_copy_def)
  have w: "wrap64 (int ?n * int (W e)) = int (?n * W e)" by (rule wrap_mult, rule merge_fits_width [OF fits]) simp
  have mid: "(if length xs < d then do {
        dn \<leftarrow> slice_to (int (?n * W e)) (zcells e ?n @ zcells e (length ys));
        sout \<leftarrow> slice_from (int (?n * W e)) (zcells e ?n @ zcells e (length ys));
        Some (h @ dn, sout, sa, sb) } else Some (h, zcells e ?n @ zcells e (length ys), sa, sb)) =
      Some (h @ zcells e ?n, zcells e (length ys), sa, sb)" for h sa sb
    unfolding slice_to_nat slice_from_nat using d by (auto simp: zcells_def)
  show ?thesis
    unfolding mergeOrdered_lead [OF wf c fits late] if_not_P [OF d] m w zcells_add mid bind.bind_lunit prod.case fin
    using d by (simp add: mcells_def seq_of_def zcells_concat)
qed

lemma mergeOrdered_cells:
  assumes wf: "wf_expr X e" "hdr_laws X" "0 < W e" and c: "cells_ok X e xs" "cells_ok X e ys"
    and res: "0 < res" and size: "(int (length xs) + int d + int (length ys)) * res < 2 ^ 61"
      "int ((length xs + d + length ys) * W e) < 2 ^ 61"
    and late: "\<not> u - int d * res < RoundTimeUntilUp tb res u"
  shows "mergeOrdered X (seq_of u xs) u (seq_of (u - int d * res) ys) (u - int d * res) e res tb =
    Some (seq_of u (mcells X e d xs ys))"
proof -
  have "merge_fits e (length xs + d + length ys) res" using res size by (simp add: merge_fits_def)
  then show ?thesis using mergeOrdered_overlap [OF wf c _ late] mergeOrdered_gap [OF wf(1,3) c _ late] by (cases "d < length xs") auto
qed

end
