(* ===== verification/SeqMergeProps.thy ===== *)
theory SeqMergeProps
  imports SeqMerge
begin

text \<open>The properties of \<open>Sequence.Merge\<close> and of value lookup.\<close>

lemma leaf_content_zeros: "leaf_content X l (replicate n 0) = None"
  by (cases l) (auto simp: cell_content_def agg_load_def avg_load2_def avg_load_def ptile_load_def slice_from_def
      Uint64_def bind_eq_None_conv split: option.split)

lemma contents_zeros: "contents X e (replicate n 0) = replicate (length (leaves e)) None"
  by (induction e arbitrary: n) (auto simp: leaf_content_zeros replicate_add simp del: leaf_content.simps)

lemma contents_zero_cell: "contents X e (zero_cell e) = replicate (length (leaves e)) None"
  by (simp add: zero_cell_def contents_zeros)

lemma merge_leaves_unset:
  "length xs = length ls \<Longrightarrow> merge_leaves X ls (replicate (length ls) None) xs (replicate (length ls) None) = xs"
  "length ys = length ls \<Longrightarrow> merge_leaves X ls (replicate (length ls) None) (replicate (length ls) None) ys = ys"
proof -
  show "length xs = length ls \<Longrightarrow> merge_leaves X ls (replicate (length ls) None) xs (replicate (length ls) None) = xs"
  proof (induction ls arbitrary: xs)
    case (Cons l ls)
    then obtain x xs' where "xs = x # xs'" by (cases xs) auto
    then show ?case using Cons by (cases x) auto
  qed simp
  show "length ys = length ls \<Longrightarrow> merge_leaves X ls (replicate (length ls) None) (replicate (length ls) None) ys = ys"
  proof (induction ls arbitrary: ys)
    case (Cons l ls)
    then obtain y ys' where "ys = y # ys'" by (cases ys) auto
    then show ?case using Cons by (cases y) auto
  qed simp
qed

text \<open>The leafwise merge of two states into an unset one.\<close>

definition merge_states :: "('c, 'h) ext \<Rightarrow> 'c expr \<Rightarrow> bytes \<Rightarrow> bytes \<Rightarrow> lval option list" where
  "merge_states X e x y =
     merge_leaves X (leaves e) (replicate (length (leaves e)) None) (contents X e x) (contents X e y)"

lemma merge_states_zero:
  "merge_states X e x (zero_cell e) = contents X e x" "merge_states X e (zero_cell e) y = contents X e y"
  by (simp_all add: merge_states_def contents_zero_cell merge_leaves_unset)

lemma per_ok: "cells_ok X e cs \<Longrightarrow> length (per e cs i) = W e \<and> state_ok X e (per e cs i)"
  using zero_cell_ok by (auto simp: per_def cells_ok_def)

lemma contents_mcells:
  assumes "wf_expr X e" "hdr_laws X" "cells_ok X e xs" "cells_ok X e ys"
  shows "contents X e (per e (mcells X e d xs ys) i) = merge_states X e (per e xs i) (per e ys (i - int d))"
proof -
  have "contents X e (mcell X e (per e xs i) (per e ys (i - int d))) = merge_states X e (per e xs i) (per e ys (i - int d))"
    using mcell_ok(3) [OF assms(1,2)] per_ok [OF assms(3)] per_ok [OF assms(4)]
    by (simp add: merge_states_def contents_zero_cell)
  then show ?thesis
    by (auto simp: per_mcells merge_states_zero)
qed

lemma mcells_ok:
  assumes "wf_expr X e" "hdr_laws X" "cells_ok X e xs" "cells_ok X e ys"
  shows "cells_ok X e (mcells X e d xs ys)"
proof -
  have "cells_ok X e (map2 (mcell X e) as bs)" if "cells_ok X e as" "cells_ok X e bs" for as bs
    using that by (induction as bs rule: list_induct2') (auto simp: mcell_ok(1,2) [OF assms(1,2)])
  then show ?thesis using assms(3,4) cells_ok_take [OF assms(3)] cells_ok_drop [OF assms(3)] cells_ok_drop [OF assms(4)]
    by (simp add: mcells_def)
qed

section \<open>Properties\<close>



text \<open>
  \<open>Merge\<close> never shortens the merged sequence: here the truncation time is 850, and the result still holds the states
  of the periods that end at 800 and 700, which its documentation says are cut off.
\<close>

theorem sequence_merge_not_truncated:
  "map_option length (seq_Merge sample_ext (seq_of 1000 [1 # replicate 8 0, 1 # replicate 8 0, 1 # replicate 8 1, 1 # replicate 8 2])
     (seq_of 1000 [1 # replicate 8 0]) sample_count 100 850) = Some (8 + 4 * 9)"
  by code_simp

lemma ValueAt_cells:
  assumes "wf_expr X e" "hdr_laws X" "\<not> IsConstant e" "0 < W e" "cells_ok X e cs" "int (k * W e) < 2 ^ 61"
  shows "ValueAt X (seq_of u cs) (int k) e =
    (if k < length cs then map_option (\<lambda>(v, s, _). (v, s)) (Get X e (cs ! k)) else Some (fzero, False))"
proof -
  have w: "wrap64 (int k * EncodedWidth e) = int (k * W e)" "wrap64 (int (k * W e) + Width64bits) = int (8 + k * W e)"
    using wrap_mult [OF assms(6)] wrap_len [OF assms(6)] EncodedWidth_W [OF assms(1)] by (simp_all add: add.commute)
  have le: "int (length (seq_of u cs)) \<le> int (8 + k * W e) \<longleftrightarrow> length cs \<le> k"
    using assms(4,5) by (simp only: length_seq_of of_nat_le_iff) simp
  have V: "ValueAt X (seq_of u cs) (int k) e =
      (if length cs \<le> k then Some (fzero, False)
       else do { b \<leftarrow> slice_from (int (8 + k * W e)) (seq_of u cs); (val, wasSet, _) \<leftarrow> Get X e b; Some (val, wasSet) })"
    using assms(3) unfolding ValueAt_def ValueAtOffset_def Let_def by (simp only: w le) simp
  show ?thesis
  proof (cases "length cs \<le> k")
    case False
    have "8 + k * W e \<le> 8 + length cs * W e" using False by simp
    then have sl: "slice_from (int (8 + k * W e)) (seq_of u cs) = Some (cs ! k @ concat (drop (Suc k) cs))"
      unfolding slice_from_nat length_seq_of [OF assms(5)] seq_of_drop [OF assms(5)]
      using False by (simp add: Cons_nth_drop_Suc [symmetric])
    obtain v s where "\<And>q. Get X e (cs ! k @ q) = Some (v, s, W e)"
      using Get_ok [OF assms(1,2), of "cs ! k"] assms(5) False by (auto simp: cells_ok_def)
    from this [of "[]"] this [of "concat (drop (Suc k) cs)"] show ?thesis using V False sl by simp
  qed (simp add: V)
qed

text \<open>
  \<open>ValueAtTime\<close> reads the state of the period that contains the time: the value of the expression in that state, and
  no value for times after the end or before the first period.  It never panics.
\<close>

theorem value_at_time_reads:
  assumes "wf_expr X e" "hdr_laws X" "\<not> IsConstant e" "0 < W e" "cells_ok X e cs" "0 < res" "res \<le> 2 ^ 53" "in64 u"
    "\<not> IsZero t" "\<bar>u - t\<bar> < 2 ^ 53" "int (W e) < 32 * res" "int (length cs) * int (W e) < 2 ^ 61"
  shows "ValueAtTime X (seq_of u cs) t e res =
    (let i = (u - t) div res in
     if 0 \<le> i \<and> i < int (length cs) then map_option (\<lambda>(v, s, _). (v, s)) (Get X e (cs ! nat i)) else Some (fzero, False))"
proof -
  define i where "i = (u - t) div res"
  have r: "RoundTimeUntilUp t res u = u - i * res"
    using RoundTimeUntilUp_eq [OF assms(9) in64_not_zero [OF assms(8)] assms(6,7,10)] by (simp add: i_def)
  have "\<bar>i * res\<bar> < 2 ^ 54" using div_mult_bound [OF assms(6,7,10)] by (simp add: i_def)
  then have g: "go_div (Sub u (u - i * res)) res = Some i" and ib: "\<bar>i\<bar> * res < 2 ^ 54"
    using grid_div [OF assms(6), of i 0 u] assms(6) by (auto simp: abs_mult)
  show ?thesis
  proof (cases "i < 0")
    case True
    then show ?thesis using assms(3,6,8) by (simp add: ValueAtTime_def r i_def [symmetric] mult_less_0_iff)
  next
    case False
    then obtain k where k: "i = int k" by (metis not_less zero_le_imp_eq_int)
    have "int (k * W e) \<le> int k * (32 * res)" using assms(11) by (simp add: mult_left_mono)
    then have kb: "int (k * W e) < 2 ^ 61" using ib k by simp
    have "\<not> u < u - i * res" using assms(6) k by (simp add: mult_less_0_iff)
    then have "ValueAtTime X (seq_of u cs) t e res = ValueAt X (seq_of u cs) i e"
      using assms(3) unfolding ValueAtTime_def Until_seq_of [OF assms(8)] bind.bind_lunit r Let_def g by simp
    then show ?thesis using ValueAt_cells [OF assms(1-5) kb, of u] k by (simp add: i_def [symmetric])
  qed
qed

theorem value_at_time_reads_witness:
  "ValueAtTime sample_ext (seq_of 1000 [replicate 9 0, replicate 9 0]) 890 sample_count 100 =
    map_option (\<lambda>(v, s, _). (v, s)) (Get sample_ext sample_count (replicate 9 0))"
  using value_at_time_reads [of sample_ext sample_count "[replicate 9 0, replicate 9 0]" 100 1000 890]
    sample_hdr_laws by (simp add: in64_def IsZero_def zeroTime_def)

end
