(* ===== verification/ByteTree.thy ===== *)
theory ByteTree
  imports SeqMergeProps
begin

text \<open>
  The package \<open>bytetree\<close>: a radix tree from byte keys to the sequences of a row, with rows that can be
  removed for one context only.  Nodes are values: an update returns the changed tree.  The update of the
  data of a node is a function argument of the tree search, as the search does not look at it; \<open>Update\<close>
  puts the two together.

  The estimate of the bytes in use adds up capacities of slices, which the model does not have; it is
  left out.  A nil key is the empty list.
\<close>

datatype 'd node =
  Node (nkey: bytes) (edges: "(bytes \<times> 'd node) list") (ndata: "'d option") (removedFor: "int list")

section \<open>Searching\<close>

text \<open>Length of the common prefix, the loop over \<open>i\<close>.\<close>

fun common :: "bytes \<Rightarrow> bytes \<Rightarrow> nat" where
  "common (x # xs) (y # ys) = (if x = y then Suc (common xs ys) else 0)"
| "common _ _ = 0"

text \<open>\<open>edge.split\<close>: the new intermediate node, and the new leaf below it unless the key ends there.\<close>

definition split :: "('d option \<Rightarrow> ('d \<times> 's) go) \<Rightarrow> nat \<Rightarrow> bytes \<Rightarrow> bytes \<Rightarrow> bytes \<Rightarrow> 'd node \<Rightarrow> ((bytes \<times> 'd node) \<times> 's) go" where
  "split f splitOn fullKey key label target =
     do { (d, s) \<leftarrow> f None;
          let old = (drop splitOn label, target);
          let newNode = (if splitOn \<noteq> length key
             then Node [] [old, (drop splitOn key, Node fullKey [] (Some d) [])] None []
             else Node [] [old] (Some d) []);
          Some ((take splitOn label, newNode), s) }"

fun set_data :: "'d node \<Rightarrow> 'd \<Rightarrow> 'd node" where
  "set_data (Node k es _ r) d = Node k es (Some d) r"

lemma size_edges: "size_list (\<lambda>e. size (snd e)) es \<le> size_list (size_prod (\<lambda>_. 0) size) es"
  by (induction es) (auto simp: size_prod_def split: prod.split)

lemma size_edges_le: "2 * size_list (\<lambda>e. size (snd e)) es \<le> 2 * size_list (size_prod (\<lambda>_. 0) size) es + c"
  using size_edges [of es] by linarith

text \<open>
  \<open>Tree.doUpdate\<close>: the loop over the edges of a node and the descent into one of them.  \<open>f\<close> updates the
  data of the node of the key; the results are the tree, what \<open>f\<close> returned, and whether a node was added.
\<close>

function (sequential) doUpdate ::
  "('d option \<Rightarrow> ('d \<times> 's) go) \<Rightarrow> bytes \<Rightarrow> bytes \<Rightarrow> 'd node \<Rightarrow> ('d node \<times> 's \<times> bool) go"
and doUpdate_edges ::
  "('d option \<Rightarrow> ('d \<times> 's) go) \<Rightarrow> bytes \<Rightarrow> bytes \<Rightarrow> (bytes \<times> 'd node) list \<Rightarrow> ((bytes \<times> 'd node) list \<times> 's \<times> bool) go" where
  "doUpdate f fullKey key (Node k es d r) =
     do { (es', s, added) \<leftarrow> doUpdate_edges f fullKey key es; Some (Node k es' d r, s, added) }"
| "doUpdate_edges f fullKey key [] =
     do { (d, s) \<leftarrow> f None; Some ([(key, Node fullKey [] (Some d) [])], s, True) }"
| "doUpdate_edges f fullKey key ((label, target) # es) =
     (let i = common label key in
      if i = length key \<and> length key = length label then
        do { (d, s) \<leftarrow> f (ndata target); Some ((label, set_data target d) # es, s, False) }
      else if i = length label \<and> length label < length key then
        do { (t, s, added) \<leftarrow> doUpdate f fullKey (drop (length label) key) target; Some ((label, t) # es, s, added) }
      else if 0 < i then
        do { (e, s) \<leftarrow> split f i fullKey key label target; Some (e # es, s, True) }
      else
        do { (es', s, added) \<leftarrow> doUpdate_edges f fullKey key es; Some ((label, target) # es', s, added) })"
  by pat_completeness auto
termination
  by (relation "measure (\<lambda>p. case p of Inl (_, _, _, n) \<Rightarrow> 2 * size n | Inr (_, _, _, es) \<Rightarrow> 2 * size_list (\<lambda>e. size (snd e)) es + 1)")
    (auto simp: less_Suc_eq_le size_edges_le)

text \<open>
  The search of \<open>Tree.Remove\<close>: the node of a key, and the tree with that node replaced by \<open>g\<close> of it.
\<close>

function (sequential) find_node :: "bytes \<Rightarrow> 'd node \<Rightarrow> 'd node option"
and find_edges :: "bytes \<Rightarrow> (bytes \<times> 'd node) list \<Rightarrow> 'd node option" where
  "find_node key (Node _ es _ _) = find_edges key es"
| "find_edges key [] = None"
| "find_edges key ((label, target) # es) =
     (let i = common label key in
      if i = length key \<and> length key = length label then Some target
      else if i = length label \<and> length label < length key then find_node (drop (length label) key) target
      else find_edges key es)"
  by pat_completeness auto
termination
  by (relation "measure (\<lambda>p. case p of Inl (_, n) \<Rightarrow> 2 * size n | Inr (_, es) \<Rightarrow> 2 * size_list (\<lambda>e. size (snd e)) es + 1)")
    (auto simp: less_Suc_eq_le size_edges_le)

function (sequential) replace_node :: "('d node \<Rightarrow> 'd node) \<Rightarrow> bytes \<Rightarrow> 'd node \<Rightarrow> 'd node"
and replace_edges :: "('d node \<Rightarrow> 'd node) \<Rightarrow> bytes \<Rightarrow> (bytes \<times> 'd node) list \<Rightarrow> (bytes \<times> 'd node) list" where
  "replace_node g key (Node k es d r) = Node k (replace_edges g key es) d r"
| "replace_edges g key [] = []"
| "replace_edges g key ((label, target) # es) =
     (let i = common label key in
      if i = length key \<and> length key = length label then (label, g target) # es
      else if i = length label \<and> length label < length key
      then (label, replace_node g (drop (length label) key) target) # es
      else (label, target) # replace_edges g key es)"
  by pat_completeness auto
termination
  by (relation "measure (\<lambda>p. case p of Inl (_, _, n) \<Rightarrow> 2 * size n | Inr (_, _, es) \<Rightarrow> 2 * size_list (\<lambda>e. size (snd e)) es + 1)")
    (auto simp: less_Suc_eq_le size_edges_le)

definition wasRemovedFor :: "int \<Rightarrow> 'd node \<Rightarrow> bool" where
  "wasRemovedFor ctx n \<longleftrightarrow> ctx \<noteq> 0 \<and> ctx \<in> set (removedFor n)"

fun doRemoveFor :: "int \<Rightarrow> 'd node \<Rightarrow> 'd node" where
  "doRemoveFor ctx (Node k es d r) = Node k es d (if ctx = 0 then r else r @ [ctx])"

text \<open>\<open>Tree.Remove\<close> on the root: the data of the removed node, nil when it is not there or already removed.\<close>

definition Remove :: "int \<Rightarrow> bytes \<Rightarrow> 'd node \<Rightarrow> 'd option \<times> 'd node" where
  "Remove ctx fullKey rt =
     (case find_node fullKey rt of
        None \<Rightarrow> (None, rt)
      | Some n \<Rightarrow> if wasRemovedFor ctx n then (None, rt)
                 else (ndata n, replace_node (doRemoveFor ctx) fullKey rt))"

section \<open>Walking and copying\<close>

text \<open>
  \<open>Tree.Walk\<close>: breadth first, with the queue of nodes still to visit.  A node is identified by its path of
  edge positions, so that the removals, which the code makes in the nodes, are returned as a list of paths
  and applied to the tree at the end; no node is visited twice.  The callback \<open>fn\<close> gets the key, the data and
  the caller's state and returns \<open>more\<close>, \<open>keep\<close>, the error and the new state.
\<close>

type_synonym ('d, 'e, 's) walkfn = "bytes \<Rightarrow> 'd \<Rightarrow> 's \<Rightarrow> bool \<times> bool \<times> 'e option \<times> 's"

definition children :: "nat list \<times> 'd node \<Rightarrow> (nat list \<times> 'd node) list" where
  "children pn = map (\<lambda>(i, e). (fst pn @ [i], snd e)) (enumerate 0 (edges (snd pn)))"

definition queue_size :: "(nat list \<times> 'd node) list \<Rightarrow> nat" where
  "queue_size q = sum_list (map (\<lambda>pn. size (snd pn)) q)"

lemma queue_children:
  fixes pn :: "nat list \<times> 'd node"
  shows "queue_size (children pn) < size (snd pn)"
proof -
  have "queue_size (children pn) \<le> size_list (\<lambda>e. size (snd e)) (edges (snd pn))"
  proof -
    have "sum_list (map (\<lambda>e. size (snd e)) es) \<le> size_list (\<lambda>e. size (snd e)) es" for es :: "(bytes \<times> 'd node) list"
      by (induction es) auto
    moreover have "map (\<lambda>x. size (snd (case x of (i, e) \<Rightarrow> (fst pn @ [i], snd e)))) (enumerate n es) =
        map (\<lambda>e. size (snd e)) es" for n and es :: "(bytes \<times> 'd node) list"
      by (induction es arbitrary: n) auto
    ultimately show ?thesis by (simp add: queue_size_def children_def o_def)
  qed
  also have "\<dots> < size (snd pn)"
    using size_edges [of "edges (snd pn)"] by (cases "snd pn") auto
  finally show ?thesis .
qed

lemma queue_size_append [simp]: "queue_size (p @ q) = queue_size p + queue_size q"
  by (simp add: queue_size_def)

lemma queue_size_Cons [simp]: "queue_size (pn # q) = size (snd pn) + queue_size q"
  by (simp add: queue_size_def)

function walk_queue :: "int \<Rightarrow> ('d, 'e, 's) walkfn \<Rightarrow> (nat list \<times> 'd node) list \<Rightarrow> 's
    \<Rightarrow> 'e option \<times> nat list list \<times> 's" where
  "walk_queue ctx fn [] s = (None, [], s)"
| "walk_queue ctx fn (pn # q) s =
     (case ndata (snd pn) of
        Some d \<Rightarrow>
          if wasRemovedFor ctx (snd pn) then walk_queue ctx fn (q @ children pn) s
          else (case fn (nkey (snd pn)) d s of (cont, keep, err, s') \<Rightarrow>
            let removed = (if keep then [] else [fst pn]) in
            if \<not> cont \<or> err \<noteq> None then (err, removed, s')
            else (case walk_queue ctx fn (q @ children pn) s' of (err', rm, s'') \<Rightarrow> (err', removed @ rm, s'')))
      | None \<Rightarrow> walk_queue ctx fn (q @ children pn) s)"
  by pat_completeness auto
termination
  by (relation "measure (\<lambda>(_, _, q, _). queue_size q)") (use queue_children in auto)

text \<open>Applying a function to the node at a path.\<close>

fun at_path :: "nat list \<Rightarrow> ('d node \<Rightarrow> 'd node) \<Rightarrow> 'd node \<Rightarrow> 'd node" where
  "at_path [] g n = g n"
| "at_path (i # p) g (Node k es d r) =
     Node k (if i < length es then es[i := (fst (es ! i), at_path p g (snd (es ! i)))] else es) d r"

definition Walk :: "int \<Rightarrow> ('d, 'e, 's) walkfn \<Rightarrow> 'd node \<Rightarrow> 's \<Rightarrow> 'e option \<times> 'd node \<times> 's" where
  "Walk ctx fn rt s =
     (case walk_queue ctx fn [([], rt)] s of (err, removed, s') \<Rightarrow>
        (err, foldl (\<lambda>n p. at_path p (doRemoveFor ctx) n) rt removed, s'))"

text \<open>
  \<open>Tree.Copy\<close>: the labels, keys and data are shared with the original, the removals are dropped, and the
  key, data and removals of the root are those of a new node.
\<close>

fun copy_node :: "'d node \<Rightarrow> 'd node" where
  "copy_node (Node k es d r) = Node k (map (map_prod id copy_node) es) d []"

definition Copy :: "'d node \<Rightarrow> 'd node" where
  "Copy rt = Node [] (map (map_prod id copy_node) (edges rt)) None []"

section \<open>The tree of rows\<close>

record 'c tree =
  t_outExprs :: "'c expr list"
  t_inExprs :: "'c expr list"
  t_subMergers :: "submerge option list list"
  t_outResolution :: duration
  t_inResolution :: duration
  t_asOf :: gotime
  t_until :: gotime
  t_strideSlice :: duration
  t_root :: "bytes list node"
  t_length :: int

definition New ::
  "('c, 'h) ext \<Rightarrow> 'c expr list \<Rightarrow> 'c expr list \<Rightarrow> duration \<Rightarrow> duration \<Rightarrow> gotime \<Rightarrow> gotime \<Rightarrow> duration \<Rightarrow> 'c tree" where
  "New X outExprs inExprs outResolution inResolution asOf until strideSlice =
     \<lparr> t_outExprs = outExprs, t_inExprs = inExprs, t_subMergers = map (\<lambda>o'. SubMergers X o' inExprs) outExprs,
       t_outResolution = outResolution, t_inResolution = inResolution, t_asOf = asOf, t_until = until,
       t_strideSlice = strideSlice, t_root = Node [] [] None [], t_length = 0 \<rparr>"

text \<open>Element access of a Go slice: out of range panics.\<close>

definition nth_go :: "'a list \<Rightarrow> nat \<Rightarrow> 'a go" where
  "nth_go xs i = (if i < length xs then Some (xs ! i) else None)"

text \<open>The loop of \<open>node.doUpdate\<close> over the expressions, for a point.\<close>

fun update_data :: "('c, 'h) ext \<Rightarrow> bm_get \<Rightarrow> 'c tree \<Rightarrow> bytes \<Rightarrow> metadata \<Rightarrow> nat \<Rightarrow> 'c expr list \<Rightarrow> bytes list \<Rightarrow> bytes list go" where
  "update_data X get bt params md o' [] data = Some data"
| "update_data X get bt params md o' (e # es) data =
     do { current \<leftarrow> nth_go data o';
          updated \<leftarrow> seq_Update X get current params md e (t_outResolution bt) (t_asOf bt);
          update_data X get bt params md (Suc o') es (data[o' := updated]) }"

text \<open>
  The loops for a row of sequences.  \<open>SubMerge\<close> may write into the sequences it reads, so the row \<open>vals\<close> is
  threaded through.
\<close>

fun merge_out :: "'c tree \<Rightarrow> metadata \<Rightarrow> 'c expr \<Rightarrow> nat \<Rightarrow> submerge option list \<Rightarrow> bytes \<Rightarrow> bytes list \<Rightarrow> (bytes \<times> bytes list) go" where
  "merge_out bt md outEx i [] out vals = Some (out, vals)"
| "merge_out bt md outEx i (None # sms) out vals = merge_out bt md outEx (Suc i) sms out vals"
| "merge_out bt md outEx i (Some sm # sms) out vals =
     do { inSeq \<leftarrow> nth_go vals i;
          inEx \<leftarrow> nth_go (t_inExprs bt) i;
          (out', inSeq') \<leftarrow> SubMerge out inSeq md (t_outResolution bt) (t_inResolution bt) outEx inEx sm
                              (t_asOf bt) (t_until bt) (t_strideSlice bt);
          merge_out bt md outEx (Suc i) sms out' (vals[i := inSeq']) }"

fun merge_data :: "'c tree \<Rightarrow> metadata \<Rightarrow> nat \<Rightarrow> submerge option list list \<Rightarrow> bytes list \<Rightarrow> bytes list \<Rightarrow> (bytes list \<times> bytes list) go" where
  "merge_data bt md o' [] data vals = Some (data, vals)"
| "merge_data bt md o' (sms # smss) data vals =
     do { out \<leftarrow> nth_go data o';
          outEx \<leftarrow> nth_go (t_outExprs bt) o';
          (out', vals') \<leftarrow> merge_out bt md outEx 0 sms out vals;
          merge_data bt md (Suc o') smss (data[o' := out']) vals' }"

definition node_doUpdate :: "('c, 'h) ext \<Rightarrow> bm_get \<Rightarrow> 'c tree \<Rightarrow> bytes list \<Rightarrow> bytes option \<Rightarrow> metadata
   \<Rightarrow> bytes list option \<Rightarrow> (bytes list \<times> bytes list) go" where
  "node_doUpdate X get bt vals params md data0 =
     (let data = (case data0 of None \<Rightarrow> replicate (length (t_outExprs bt)) [] | Some d \<Rightarrow> d) in
      case params of
        Some p \<Rightarrow> do { d \<leftarrow> update_data X get bt p md 0 (t_outExprs bt) data; Some (d, vals) }
      | None \<Rightarrow> merge_data bt md 0 (t_subMergers bt) data vals)"

text \<open>\<open>Tree.Update\<close>: the new tree and the row of the caller afterwards.\<close>

definition tree_Update :: "('c, 'h) ext \<Rightarrow> bm_get \<Rightarrow> 'c tree \<Rightarrow> bytes \<Rightarrow> bytes list \<Rightarrow> bytes option \<Rightarrow> metadata
   \<Rightarrow> ('c tree \<times> bytes list) go" where
  "tree_Update X get bt key vals params md =
     do { (rt, vals', newNode) \<leftarrow> doUpdate (node_doUpdate X get bt vals params md) key key (t_root bt);
          Some (bt\<lparr>t_root := rt, t_length := t_length bt + (if newNode then 1 else 0)\<rparr>, vals') }"

definition tree_Length :: "'c tree \<Rightarrow> int" where "tree_Length bt = t_length bt"

end
