(* ===== verification/TreeLaws.thy ===== *)
theory TreeLaws
  imports ByteTree
begin

text \<open>
  The radix tree of package \<open>bytetree\<close> is a map from keys to data: the interface \<open>byte_map\<close> states what
  \<open>Update\<close> promises of lookups, and the tree is shown to provide it.  The keys are not empty, as the labels
  of the edges are then not empty either and each edge of a node is identified by the first byte of its label.
\<close>

section \<open>The interface\<close>

locale byte_map =
  fixes inv :: "'t \<Rightarrow> bool"
    and lookup :: "'t \<Rightarrow> bytes \<Rightarrow> 'd option"
    and update :: "('d option \<Rightarrow> ('d \<times> 's) go) \<Rightarrow> bytes \<Rightarrow> 't \<Rightarrow> ('t \<times> 's \<times> bool) go"
    and empty :: 't
    and okkey :: "bytes \<Rightarrow> bool"
  assumes inv_empty: "inv empty"
    and lookup_empty: "lookup empty k = None"
    and update_ok: "inv t \<Longrightarrow> okkey k \<Longrightarrow> f (lookup t k) = Some (d, s) \<Longrightarrow>
      \<exists>t' added. update f k t = Some (t', s, added) \<and> inv t' \<and> (\<forall>k'. okkey k' \<longrightarrow> lookup t' k' = (if k' = k then Some d else lookup t k'))"
    and update_panics: "inv t \<Longrightarrow> okkey k \<Longrightarrow> f (lookup t k) = None \<Longrightarrow> update f k t = None"
begin

text \<open>A run of updates, each with its key and the function that updates the data.\<close>

fun run :: "(bytes \<times> ('d option \<Rightarrow> ('d \<times> 's) go)) list \<Rightarrow> 't \<Rightarrow> 't go" where
  "run [] t = Some t"
| "run ((k, f) # us) t = do { (t', _, _) \<leftarrow> update f k t; run us t' }"

text \<open>What the updates of one key do to its data.\<close>

fun data_run :: "bytes \<Rightarrow> (bytes \<times> ('d option \<Rightarrow> ('d \<times> 's) go)) list \<Rightarrow> 'd option \<Rightarrow> 'd option" where
  "data_run k [] d = d"
| "data_run k ((k', f) # us) d = data_run k us (if k' = k then map_option fst (f d) else d)"

lemma run_lookup:
  assumes "inv t" "\<forall>(k, f) \<in> set us. okkey k \<and> (\<forall>d. f d \<noteq> None)" "okkey k"
  shows "\<exists>t'. run us t = Some t' \<and> inv t' \<and> lookup t' k = data_run k us (lookup t k)"
  using assms(1,2)
proof (induction us arbitrary: t)
  case (Cons u us)
  obtain k1 f where u: "u = (k1, f)" by (cases u)
  then obtain d s where f: "f (lookup t k1) = Some (d, s)" "okkey k1" using Cons.prems by fastforce
  obtain t1 added where t1: "update f k1 t = Some (t1, s, added)" "inv t1"
    "\<And>k'. okkey k' \<Longrightarrow> lookup t1 k' = (if k' = k1 then Some d else lookup t k')"
    using update_ok [of t k1 f d s] Cons.prems(1) f by blast
  obtain t' where "run us t1 = Some t'" "inv t'" "lookup t' k = data_run k us (lookup t1 k)"
    using Cons.IH [OF t1(2)] Cons.prems by auto
  then show ?case using u t1 f assms(3) by auto
qed simp

end

section \<open>Common prefixes\<close>

lemma common_le: "common xs ys \<le> length xs" "common xs ys \<le> length ys"
  by (induction xs ys rule: common.induct) auto

lemma common_take: "take (common xs ys) xs = take (common xs ys) ys"
  by (induction xs ys rule: common.induct) auto

lemma common_full: "common xs ys = length xs \<longleftrightarrow> (\<exists>zs. ys = xs @ zs)"
  by (induction xs ys rule: common.induct) auto

lemma common_eq: "common xs ys = length ys \<and> length ys = length xs \<longleftrightarrow> xs = ys"
  by (induction xs ys rule: common.induct) auto

lemma common_zero: "common xs ys = 0 \<longleftrightarrow> xs = [] \<or> ys = [] \<or> hd xs \<noteq> hd ys"
  by (cases xs; cases ys) auto

lemma common_next:
  "common xs ys < length xs \<Longrightarrow> common xs ys < length ys \<Longrightarrow> hd (drop (common xs ys) xs) \<noteq> hd (drop (common xs ys) ys)"
  by (induction xs ys rule: common.induct) auto

text \<open>The three ways an edge relates to a key.\<close>

definition descends :: "bytes \<Rightarrow> bytes \<Rightarrow> bool" where
  "descends label k \<longleftrightarrow> (\<exists>r. r \<noteq> [] \<and> k = label @ r)"

lemma descends_common: "common label k = length label \<and> length label < length k \<longleftrightarrow> descends label k"
  unfolding common_full descends_def by auto

lemma find_edges_Cons:
  "find_edges k ((label, t) # es) =
     (if label = k then Some t
      else if descends label k then find_node (drop (length label) k) t
      else find_edges k es)"
  unfolding find_edges.simps Let_def common_eq descends_common ..

lemma doUpdate_edges_Cons:
  "doUpdate_edges f fullKey k ((label, t) # es) =
     (if label = k then
        do { (d, s) \<leftarrow> f (ndata t); Some ((label, set_data t d) # es, s, False) }
      else if descends label k then
        do { (t', s, added) \<leftarrow> doUpdate f fullKey (drop (length label) k) t; Some ((label, t') # es, s, added) }
      else if 0 < common label k then
        do { (e, s) \<leftarrow> split f (common label k) fullKey k label t; Some (e # es, s, True) }
      else
        do { (es', s, added) \<leftarrow> doUpdate_edges f fullKey k es; Some ((label, t) # es', s, added) })"
  unfolding doUpdate_edges.simps Let_def common_eq descends_common ..

declare find_edges.simps(2) [simp del] doUpdate_edges.simps(2) [simp del]

section \<open>The invariant\<close>

definition heads_ok :: "bytes list \<Rightarrow> bool" where
  "heads_ok ls \<longleftrightarrow> [] \<notin> set ls \<and> distinct (map hd ls)"

fun tree_inv :: "'d node \<Rightarrow> bool" where
  "tree_inv (Node k es d r) \<longleftrightarrow> heads_ok (map fst es) \<and> (\<forall>e \<in> set es. tree_inv (snd e))"

definition edges_inv :: "(bytes \<times> 'd node) list \<Rightarrow> bool" where
  "edges_inv es \<longleftrightarrow> heads_ok (map fst es) \<and> (\<forall>e \<in> set es. tree_inv (snd e))"

definition tlookup :: "'d node \<Rightarrow> bytes \<Rightarrow> 'd option" where
  "tlookup n k = find_node k n \<bind> ndata"

definition elookup :: "(bytes \<times> 'd node) list \<Rightarrow> bytes \<Rightarrow> 'd option" where
  "elookup es k = find_edges k es \<bind> ndata"

lemma tree_inv_edges: "tree_inv n \<longleftrightarrow> edges_inv (edges n)"
  by (cases n) (simp add: edges_inv_def)

lemma tlookup_elookup: "tlookup n k = elookup (edges n) k"
  by (cases n) (simp add: tlookup_def elookup_def)

lemma edges_inv_Cons:
  "edges_inv ((l, t) # es) \<longleftrightarrow> l \<noteq> [] \<and> (\<forall>e \<in> set es. hd (fst e) \<noteq> hd l) \<and> edges_inv (edges t) \<and> edges_inv es"
proof -
  have "(\<forall>e \<in> set es. hd (fst e) \<noteq> hd l) \<longleftrightarrow> hd l \<notin> (hd \<circ> fst) ` set es" by force
  then show ?thesis unfolding edges_inv_def [of "(l, t) # es"] edges_inv_def [of es] heads_ok_def
    by (auto simp: tree_inv_edges [of t])
qed

lemma elookup_Nil [simp]: "elookup [] k = None"
  by (simp add: elookup_def)

lemma elookup_Cons:
  "elookup ((l, t) # es) k =
     (if l = k then ndata t else if descends l k then elookup (edges t) (drop (length l) k) else elookup es k)"
  by (simp add: elookup_def find_edges_Cons tlookup_elookup [unfolded tlookup_def elookup_def])

lemma elookup_other_head:
  "edges_inv es \<Longrightarrow> k \<noteq> [] \<Longrightarrow> \<forall>e \<in> set es. hd (fst e) \<noteq> hd k \<Longrightarrow> elookup es k = None"
  by (induction es) (auto simp: elookup_Cons edges_inv_Cons descends_def)

section \<open>Updates\<close>

lemma edges_set_data [simp]: "edges (set_data t d) = edges t" "ndata (set_data t d) = Some d"
  by (cases t; simp)+

lemma elookup_set_data:
  "elookup ((l, set_data t d) # es) k = (if k = l then Some d else elookup ((l, t) # es) k)"
  by (auto simp: elookup_Cons)

lemma edges_inv_Nil [simp]: "edges_inv []"
  by (simp add: edges_inv_def heads_ok_def)

text \<open>What an update of the edges of a node has to establish; \<open>new\<close> first bytes come from the key only.\<close>

definition upd_edges_ok :: "bytes \<Rightarrow> 'd \<Rightarrow> (bytes \<times> 'd node) list \<Rightarrow> (bytes \<times> 'd node) list \<Rightarrow> bool" where
  "upd_edges_ok k d es es' \<longleftrightarrow> edges_inv es' \<and>
     (\<forall>e \<in> set es'. hd (fst e) = hd k \<or> (\<exists>e0 \<in> set es. hd (fst e) = hd (fst e0))) \<and>
     (\<forall>k'. k' \<noteq> [] \<longrightarrow> elookup es' k' = (if k' = k then Some d else elookup es k'))"

lemma upd_new_edge:
  "k \<noteq> [] \<Longrightarrow> upd_edges_ok k d [] [(k, Node fk [] (Some d) [])]"
  by (auto simp: upd_edges_ok_def edges_inv_Cons elookup_Cons)

lemma upd_exact: "edges_inv ((l, t) # es) \<Longrightarrow> upd_edges_ok l d ((l, t) # es) ((l, set_data t d) # es)"
  by (auto simp: upd_edges_ok_def edges_inv_Cons elookup_set_data)

lemma upd_descend:
  assumes "edges_inv ((l, t) # es)" "k = l @ r" "r \<noteq> []" "edges t' = ts'" "ndata t' = ndata t"
    "upd_edges_ok r d (edges t) ts'"
  shows "upd_edges_ok k d ((l, t) # es) ((l, t') # es)"
proof -
  have "elookup ((l, t') # es) k' = (if k' = k then Some d else elookup ((l, t) # es) k')" for k'
    using assms by (auto simp: elookup_Cons upd_edges_ok_def descends_def split: if_splits)
  then show ?thesis using assms by (auto simp: upd_edges_ok_def edges_inv_Cons)
qed

lemma upd_skip:
  assumes "edges_inv ((l, t) # es)" "k \<noteq> []" "hd l \<noteq> hd k" "upd_edges_ok k d es es'"
  shows "upd_edges_ok k d ((l, t) # es) ((l, t) # es')"
proof -
  have "l \<noteq> []" using assms(1) by (simp add: edges_inv_Cons)
  then have "l \<noteq> k" "\<not> descends l k" using assms(2,3) by (auto simp: descends_def)
  moreover have "\<forall>e \<in> set es'. hd (fst e) \<noteq> hd l"
    using assms by (fastforce simp: upd_edges_ok_def edges_inv_Cons)
  ultimately show ?thesis using assms by (auto simp: upd_edges_ok_def edges_inv_Cons elookup_Cons)
qed

text \<open>
  A split: the label is \<open>p @ a\<close>, the key \<open>p @ b\<close>, and the edges \<open>es\<close> after it start with other bytes than \<open>p\<close>.
\<close>

lemma elookup_split_other:
  assumes "edges_inv ((p @ a, t) # es)" "p \<noteq> []" "k' = p @ r"
  shows "elookup es k' = None"
  using assms by (intro elookup_other_head) (auto simp: edges_inv_Cons)

lemma elookup_split_leaf:
  assumes "edges_inv ((p @ a, t) # es)" "p \<noteq> []" "a \<noteq> []" "b \<noteq> []" "hd a \<noteq> hd b" "k' \<noteq> []"
  shows "elookup ((p, Node [] [(a, t), (b, Node fk [] (Some d) [])] None []) # es) k' =
    (if k' = p @ b then Some d else elookup ((p @ a, t) # es) k')"
proof (cases "\<exists>r. k' = p @ r")
  case True
  then obtain r where r: "k' = p @ r" by blast
  note n = elookup_split_other [OF assms(1,2) r]
  have "\<not> descends b r" if "descends a r"
    using that assms(3-5) by (metis descends_def hd_append2)
  moreover have "\<not> descends a b" using assms by (auto simp: descends_def)
  ultimately show ?thesis using assms(2-5) r n
    by (auto simp: elookup_Cons descends_def)
next
  case False
  then show ?thesis by (auto simp: elookup_Cons descends_def)
qed

lemma elookup_split_prefix:
  assumes "edges_inv ((p @ a, t) # es)" "p \<noteq> []" "a \<noteq> []" "k' \<noteq> []"
  shows "elookup ((p, Node [] [(a, t)] (Some d) []) # es) k' =
    (if k' = p then Some d else elookup ((p @ a, t) # es) k')"
proof (cases "\<exists>r. k' = p @ r")
  case True
  then obtain r where r: "k' = p @ r" by blast
  note n = elookup_split_other [OF assms(1,2) r]
  show ?thesis using assms(2,3) r n by (auto simp: elookup_Cons descends_def)
next
  case False
  then show ?thesis by (auto simp: elookup_Cons descends_def)
qed

lemma upd_split:
  assumes inv: "edges_inv ((l, t) # es)" and k: "k \<noteq> []" "l \<noteq> k" "\<not> descends l k" "0 < common l k"
    and f: "f None = Some (d, s)"
  shows "\<exists>e. split f (common l k) fk k l t = Some (e, s) \<and> upd_edges_ok k d ((l, t) # es) (e # es)"
proof -
  define i p a b where "i = common l k" and "p = take i l" and "a = drop i l" and "b = drop i k"
  have l: "l = p @ a" "length p = i" "p \<noteq> []" using common_le(1) [of l k] k(4) by (auto simp: i_def p_def a_def)
  have kk: "k = p @ b" using common_take [of l k] by (simp add: p_def b_def i_def)
  have a: "a \<noteq> []"
  proof
    assume "a = []"
    then have "k = l @ b" "b \<noteq> []" using l kk k(2) by auto
    then show False using k(3) by (auto simp: descends_def)
  qed
  have h: "hd a \<noteq> hd b" if "b \<noteq> []"
    using common_next [of l k] that a unfolding i_def [symmetric] a_def b_def by auto
  have hd: "hd p = hd l" "hd p = hd k" using l kk by auto
  show ?thesis
  proof (cases "b = []")
    case True
    let ?e = "(p, Node [] [(a, t)] (Some d) [])"
    have "i = length k" using True kk l(2) by simp
    then have "split f i fk k l t = Some (?e, s)" using f by (simp add: split_def p_def a_def)
    moreover have "edges_inv (?e # es)" using inv l(3) a hd by (simp add: edges_inv_Cons)
    moreover have "elookup (?e # es) k' = (if k' = k then Some d else elookup ((l, t) # es) k')" if "k' \<noteq> []" for k'
      using elookup_split_prefix [OF inv [unfolded l(1)] l(3) a that] True kk unfolding l(1) [symmetric] by simp
    ultimately have "split f i fk k l t = Some (?e, s)" "upd_edges_ok k d ((l, t) # es) (?e # es)"
      using hd unfolding upd_edges_ok_def by (simp_all) blast
    then show ?thesis unfolding i_def by blast
  next
    case False
    let ?e = "(p, Node [] [(a, t), (b, Node fk [] (Some d) [])] None [])"
    have "i \<noteq> length k" using False kk l(2) by simp
    then have "split f i fk k l t = Some (?e, s)" using f by (simp add: split_def p_def a_def b_def)
    moreover have "edges_inv (?e # es)" using inv l(3) a hd False h [OF False] by (simp add: edges_inv_Cons)
    moreover have "elookup (?e # es) k' = (if k' = k then Some d else elookup ((l, t) # es) k')" if "k' \<noteq> []" for k'
      using elookup_split_leaf [OF inv [unfolded l(1)] l(3) a False h [OF False] that] kk unfolding l(1) [symmetric] by simp
    ultimately have "split f i fk k l t = Some (?e, s)" "upd_edges_ok k d ((l, t) # es) (?e # es)"
      using hd unfolding upd_edges_ok_def by (simp_all) blast
    then show ?thesis unfolding i_def by blast
  qed
qed

lemma doUpdate_edges_split:
  assumes inv: "edges_inv ((label, target) # es)" and key: "key \<noteq> []"
    and spl: "label \<noteq> key" "\<not> descends label key" "0 < common label key"
  shows "(f (elookup ((label, target) # es) key) = None \<longrightarrow> doUpdate_edges f fullKey key ((label, target) # es) = None) \<and>
    (\<forall>d s. f (elookup ((label, target) # es) key) = Some (d, s) \<longrightarrow>
      (\<exists>es' added. doUpdate_edges f fullKey key ((label, target) # es) = Some (es', s, added) \<and>
        upd_edges_ok key d ((label, target) # es) es'))"
proof -
  have "elookup es key = None"
    using key inv spl(3) common_zero [of label key] by (intro elookup_other_head) (auto simp: edges_inv_Cons)
  then have "elookup ((label, target) # es) key = None" using spl by (simp add: elookup_Cons)
  moreover have "doUpdate_edges f fullKey key ((label, target) # es) =
      do { (e, s) \<leftarrow> split f (common label key) fullKey key label target; Some (e # es, s, True) }"
    using spl by (simp add: doUpdate_edges_Cons)
  moreover have "f None = None \<Longrightarrow> split f (common label key) fullKey key label target = None" by (simp add: split_def)
  moreover have "f None = Some (d, s) \<Longrightarrow> \<exists>e. split f (common label key) fullKey key label target = Some (e, s) \<and>
      upd_edges_ok key d ((label, target) # es) (e # es)" for d s
    by (rule upd_split [OF inv key spl])
  ultimately show ?thesis by (cases "f None") (auto simp: ex_bool_eq)
qed

lemma doUpdate_ok:
  "k \<noteq> [] \<Longrightarrow> edges_inv (edges n) \<Longrightarrow>
     (f (elookup (edges n) k) = None \<longrightarrow> doUpdate f fk k n = None) \<and>
     (\<forall>d s. f (elookup (edges n) k) = Some (d, s) \<longrightarrow>
        (\<exists>n' added. doUpdate f fk k n = Some (n', s, added) \<and> ndata n' = ndata n \<and> upd_edges_ok k d (edges n) (edges n')))"
  "k \<noteq> [] \<Longrightarrow> edges_inv es \<Longrightarrow>
     (f (elookup es k) = None \<longrightarrow> doUpdate_edges f fk k es = None) \<and>
     (\<forall>d s. f (elookup es k) = Some (d, s) \<longrightarrow>
        (\<exists>es' added. doUpdate_edges f fk k es = Some (es', s, added) \<and> upd_edges_ok k d es es'))"
proof (induction f fk k n and f fk k es rule: doUpdate_doUpdate_edges.induct)
  case (1 f fullKey key k es d r)
  then show ?case by fastforce
next
  case (2 f fullKey key)
  then show ?case using upd_new_edge by fastforce
next
  case (3 f fullKey key label target es)
  consider (exact) "label = key" | (desc) "label \<noteq> key" "descends label key"
    | (spl) "label \<noteq> key" "\<not> descends label key" "0 < common label key"
    | (skip) "label \<noteq> key" "\<not> descends label key" "common label key = 0" by blast
  then show ?case
  proof cases
    case exact
    then show ?thesis using upd_exact [OF 3(4)] by (fastforce simp: doUpdate_edges_Cons elookup_Cons)
  next
    case desc
    then obtain r where r: "r \<noteq> []" "key = label @ r" by (auto simp: descends_def)
    have "edges_inv (edges target)" using 3(4) by (simp add: edges_inv_Cons)
    then have "(f (elookup (edges target) r) = None \<longrightarrow> doUpdate f fullKey r target = None) \<and>
     (\<forall>d s. f (elookup (edges target) r) = Some (d, s) \<longrightarrow>
        (\<exists>n' added. doUpdate f fullKey r target = Some (n', s, added) \<and> ndata n' = ndata target \<and>
           upd_edges_ok r d (edges target) (edges n')))"
      using 3(1) [OF refl] desc r unfolding common_eq descends_common by auto
    moreover have "elookup ((label, target) # es) key = elookup (edges target) r" "drop (length label) key = r"
      using desc r by (auto simp: elookup_Cons)
    ultimately show ?thesis using desc upd_descend [OF 3(4) r(2,1) refl] by (fastforce simp: doUpdate_edges_Cons)
  next
    case spl
    then show ?thesis by (rule doUpdate_edges_split [OF 3(4,3)])
  next
    case skip
    have "edges_inv es" "label \<noteq> []" using 3(4) by (auto simp: edges_inv_Cons)
    then have "(f (elookup es key) = None \<longrightarrow> doUpdate_edges f fullKey key es = None) \<and>
     (\<forall>d s. f (elookup es key) = Some (d, s) \<longrightarrow>
        (\<exists>es' added. doUpdate_edges f fullKey key es = Some (es', s, added) \<and> upd_edges_ok key d es es'))"
      using 3(2) [OF refl] 3(3) skip unfolding common_eq descends_common by auto
    moreover have "hd label \<noteq> hd key" using skip(3) common_zero [of label key] 3(3) \<open>label \<noteq> []\<close> by auto
    ultimately show ?thesis using skip upd_skip [OF 3(4,3)] by (fastforce simp: doUpdate_edges_Cons elookup_Cons)
  qed
qed

text \<open>The tree, from its root, is a map for keys that are not empty.\<close>

interpretation radix: byte_map tree_inv tlookup "\<lambda>f k. doUpdate f k k" "Node [] [] None []" "\<lambda>k. k \<noteq> []"
proof
  show "tree_inv (Node [] [] None [])" by (simp add: heads_ok_def)
  show "tlookup (Node [] [] None []) k = None" for k :: bytes by (simp add: tlookup_def)
next
  fix t :: "'a node" and k :: bytes and f :: "'a option \<Rightarrow> ('a \<times> 'b) go" and d s
  assume "tree_inv t" "k \<noteq> []" "f (tlookup t k) = Some (d, s)"
  then obtain n' added where "doUpdate f k k t = Some (n', s, added)" "upd_edges_ok k d (edges t) (edges n')"
    using doUpdate_ok(1) [of k t f k] by (auto simp: tree_inv_edges tlookup_elookup)
  then show "\<exists>t' added. doUpdate f k k t = Some (t', s, added) \<and> tree_inv t' \<and>
      (\<forall>k'. k' \<noteq> [] \<longrightarrow> tlookup t' k' = (if k' = k then Some d else tlookup t k'))"
    by (auto simp: upd_edges_ok_def tree_inv_edges tlookup_elookup)
next
  fix t :: "'a node" and k :: bytes and f :: "'a option \<Rightarrow> ('a \<times> 'b) go"
  assume "tree_inv t" "k \<noteq> []" "f (tlookup t k) = None"
  then show "doUpdate f k k t = None"
    using doUpdate_ok(1) [of k t f k] by (auto simp: tree_inv_edges tlookup_elookup)
qed

end
