(* ===== verification/TreeProps.thy ===== *)
theory TreeProps
  imports TreeLaws "HOL-Library.Multiset"
begin

text \<open>The properties of package \<open>bytetree\<close>.\<close>

section \<open>Removal\<close>

lemma doRemoveFor_simps [simp]:
  "edges (doRemoveFor ctx n) = edges n" "ndata (doRemoveFor ctx n) = ndata n" "nkey (doRemoveFor ctx n) = nkey n"
  "removedFor (doRemoveFor ctx n) = (if ctx = 0 then removedFor n else removedFor n @ [ctx])"
  by (cases n; simp)+

lemma find_node_edges: "find_node k n = find_edges k (edges n)"
  by (cases n) simp

lemma replace_edges_Cons:
  "replace_edges g k ((label, t) # es) =
     (if label = k then (label, g t) # es
      else if descends label k then (label, replace_node g (drop (length label) k) t) # es
      else (label, t) # replace_edges g k es)"
  unfolding replace_edges.simps Let_def common_eq descends_common ..

declare replace_edges.simps(2) [simp del]

text \<open>What a node shows: its key, data and removals.\<close>

definition info :: "'d node \<Rightarrow> bytes \<times> 'd option \<times> int list" where
  "info n = (nkey n, ndata n, removedFor n)"

lemma info_replace [simp]: "info (replace_node g k n) = info n"
  by (cases n) (simp add: info_def)

lemma find_replace:
  "(\<And>n. edges (g n) = edges n) \<Longrightarrow>
     map_option info (find_node k' (replace_node g k n)) =
     (if k' = k then map_option (info \<circ> g) (find_node k n) else map_option info (find_node k' n))"
  "(\<And>n. edges (g n) = edges n) \<Longrightarrow>
     map_option info (find_edges k' (replace_edges g k es)) =
     (if k' = k then map_option (info \<circ> g) (find_edges k es) else map_option info (find_edges k' es))"
proof (induction g k n and g k es arbitrary: k' and k' rule: replace_node_replace_edges.induct)
  case (3 g k label target es)
  have ed: "find_node q (g target) = find_node q target" for q using 3(3) by (simp add: find_node_edges)
  consider (exact) "label = k" | (desc) "label \<noteq> k" "descends label k" | (skip) "label \<noteq> k" "\<not> descends label k" by blast
  then show ?case
  proof cases
    case exact
    then show ?thesis using ed by (auto simp: replace_edges_Cons find_edges_Cons)
  next
    case desc
    then have IH: "map_option info (find_node q (replace_node g (drop (length label) k) target)) =
      (if q = drop (length label) k then map_option (info \<circ> g) (find_node (drop (length label) k) target)
       else map_option info (find_node q target))" for q
      using 3(1) [OF refl] 3(3) unfolding common_eq descends_common by blast
    have "k = k' \<longleftrightarrow> drop (length label) k = drop (length label) k'" if "descends label k'"
      using that desc(2) by (auto simp: descends_def)
    then show ?thesis using desc IH by (auto simp: replace_edges_Cons find_edges_Cons o_def)
  next
    case skip
    then have "map_option info (find_edges q (replace_edges g k es)) =
      (if q = k then map_option (info \<circ> g) (find_edges k es) else map_option info (find_edges q es))" for q
      using 3(2) [OF refl] 3(3) unfolding common_eq descends_common by blast
    then show ?thesis using skip by (auto simp: replace_edges_Cons find_edges_Cons o_def)
  qed
qed auto

section \<open>Walking\<close>

text \<open>The nodes in the order of a complete walk.\<close>

function bfs :: "(nat list \<times> 'd node) list \<Rightarrow> (nat list \<times> 'd node) list" where
  "bfs [] = []"
| "bfs (pn # q) = pn # bfs (q @ children pn)"
  by pat_completeness auto
termination
  by (relation "measure queue_size") (use queue_children in auto)

text \<open>All nodes below and including a node.\<close>

fun nodes :: "'d node \<Rightarrow> 'd node list" where
  "nodes (Node k es d r) = Node k es d r # concat (map (\<lambda>e. nodes (snd e)) es)"

lemma children_nodes: "concat (map (\<lambda>pn. nodes (snd pn)) (children pn)) = concat (map (\<lambda>e. nodes (snd e)) (edges (snd pn)))"
proof -
  have "map (\<lambda>x. nodes (snd (case x of (i, e) \<Rightarrow> (p @ [i], snd e)))) (enumerate n es) =
      map (\<lambda>e. nodes (snd e)) es" for p n and es :: "(bytes \<times> 'a node) list"
    by (induction es arbitrary: n) auto
  then show ?thesis by (simp add: children_def o_def)
qed

lemma bfs_nodes: "mset (map snd (bfs q)) = mset (concat (map (\<lambda>pn. nodes (snd pn)) q))"
proof (induction q rule: bfs.induct)
  case (2 pn q)
  have "mset (nodes (snd pn)) = add_mset (snd pn) (mset (concat (map (\<lambda>pn. nodes (snd pn)) (children pn))))"
    unfolding children_nodes by (cases "snd pn") simp
  then show ?case using 2 by simp
qed simp

text \<open>The rows that a context sees.\<close>

definition rows_of :: "int \<Rightarrow> 'd node list \<Rightarrow> (bytes \<times> 'd) list" where
  "rows_of ctx ns = concat (map (\<lambda>n. case ndata n of
     Some d \<Rightarrow> if wasRemovedFor ctx n then [] else [(nkey n, d)] | None \<Rightarrow> []) ns)"

lemma rows_of_Cons [simp]: "rows_of ctx (n # ns) =
    (case ndata n of Some d \<Rightarrow> if wasRemovedFor ctx n then [] else [(nkey n, d)] | None \<Rightarrow> []) @ rows_of ctx ns"
  by (simp add: rows_of_def)

lemma walk_queue_all:
  assumes "\<And>k d s. fn k d s = (True, keep k d, None, step k d s)"
  shows "\<exists>removed. walk_queue ctx fn q s =
    (None, removed, foldl (\<lambda>s (k, d). step k d s) s (rows_of ctx (map snd (bfs q))))"
proof (induction q arbitrary: s rule: bfs.induct)
  case 1
  then show ?case by (simp add: rows_of_def)
next
  case (2 pn q)
  show ?case
  proof (cases "ndata (snd pn)")
    case None
    then show ?thesis using 2 by auto
  next
    case (Some d)
    then show ?thesis using 2 [of s] 2 [of "step (nkey (snd pn)) d s"] assms
      by (cases "wasRemovedFor ctx (snd pn)") auto
  qed
qed

lemma rows_of_mset: "mset ns = mset ms \<Longrightarrow> mset (rows_of ctx ns) = mset (rows_of ctx ms)"
proof -
  have "mset (concat (map f xs)) = (\<Sum>x\<in>#mset xs. mset (f x))" for f :: "'a node \<Rightarrow> (bytes \<times> 'a) list" and xs
    by (induction xs) auto
  then show "mset ns = mset ms \<Longrightarrow> mset (rows_of ctx ns) = mset (rows_of ctx ms)" by (simp add: rows_of_def)
qed

section \<open>Properties\<close>

text \<open>
  \<open>Tree.Update\<close> with a key that is not empty changes exactly the row of that key: the row becomes what
  \<open>node.doUpdate\<close> makes of the old one (of nothing, for a new key), every other row is what it was, and the radix
  invariant is kept; it panics only if \<open>node.doUpdate\<close> does.
\<close>

theorem tree_update_row:
  assumes "tree_inv (t_root bt)" "k \<noteq> []"
    "node_doUpdate X get bt vals params md (tlookup (t_root bt) k) = Some (row, vals')"
  shows "\<exists>bt'. tree_Update X get bt k vals params md = Some (bt', vals') \<and> tree_inv (t_root bt') \<and>
    (\<forall>k'. k' \<noteq> [] \<longrightarrow> tlookup (t_root bt') k' = (if k' = k then Some row else tlookup (t_root bt) k'))"
proof -
  obtain rt added where "doUpdate (node_doUpdate X get bt vals params md) k k (t_root bt) = Some (rt, vals', added)"
    "tree_inv rt" "\<And>k'. k' \<noteq> [] \<Longrightarrow> tlookup rt k' = (if k' = k then Some row else tlookup (t_root bt) k')"
    using radix.update_ok [of "t_root bt" k "node_doUpdate X get bt vals params md" row vals'] assms by blast
  then show ?thesis by (simp add: tree_Update_def)
qed

theorem tree_update_row_witness:
  "\<exists>bt'. tree_Update sample_ext (\<lambda>_ _. None) (New sample_ext [] [] 1 1 0 0 0) [1] [] None None = Some (bt', []) \<and>
    tlookup (t_root bt') [1] = Some []"
  using tree_update_row [of "New sample_ext [] [] 1 1 0 0 0" "[1]" sample_ext "\<lambda>_ _. None" "[]" None None "[]" "[]"]
  by (auto simp: New_def heads_ok_def node_doUpdate_def tlookup_def [of "Node [] [] None []"])

fun tree_updates :: "(bytes \<times> ('d option \<Rightarrow> ('d \<times> 's) go)) list \<Rightarrow> 'd node \<Rightarrow> 'd node go" where
  "tree_updates [] rt = Some rt"
| "tree_updates ((k, f) # us) rt = do { (rt', _, _) \<leftarrow> doUpdate f k k rt; tree_updates us rt' }"

fun row_updates :: "bytes \<Rightarrow> (bytes \<times> ('d option \<Rightarrow> ('d \<times> 's) go)) list \<Rightarrow> 'd option \<Rightarrow> 'd option" where
  "row_updates k [] d = d"
| "row_updates k ((k', f) # us) d = row_updates k us (if k' = k then map_option fst (f d) else d)"

lemma tree_updates_run: "tree_updates us rt = radix.run us rt"
  by (induction us rt rule: tree_updates.induct) (auto intro!: bind_option_cong split: prod.split)

lemma row_updates_run: "row_updates k us d = radix.data_run k us d"
  by (induction k us d rule: row_updates.induct) auto

text \<open>
  C26. A sequence of updates of a tree: the data of every key is the result of applying to it, in order, the updates
  of that key and no others.
\<close>

theorem tree_updates_per_key:
  assumes "\<forall>(k, f) \<in> set us. k \<noteq> [] \<and> (\<forall>d. f d \<noteq> None)" "k \<noteq> []"
  shows "\<exists>rt. tree_updates us (Node [] [] None []) = Some rt \<and> tree_inv rt \<and> tlookup rt k = row_updates k us None"
  using radix.run_lookup [OF radix.inv_empty assms]
  by (simp add: tree_updates_run row_updates_run tlookup_def [of "Node [] [] None []"])

theorem tree_updates_per_key_witness:
  "\<exists>rt. tree_updates [([1, 2], \<lambda>_. Some (5, ())), ([1, 3], \<lambda>_. Some (6, ())), ([1, 2], \<lambda>d. Some (the d + 1, ()))]
      (Node [] [] None []) = Some rt \<and> tlookup rt [1, 2] = Some (6 :: nat)"
  using tree_updates_per_key [of "[([1, 2], \<lambda>_. Some (5 :: nat, ())), ([1, 3], \<lambda>_. Some (6, ())), ([1, 2], \<lambda>d. Some (the d + 1, ()))]" "[1, 2]"]
  by (auto simp del: tree_updates.simps)

definition sees :: "int \<Rightarrow> 'd node \<Rightarrow> bytes \<Rightarrow> 'd option" where
  "sees ctx rt k = (case find_node k rt of Some n \<Rightarrow> if wasRemovedFor ctx n then None else ndata n | None \<Rightarrow> None)"

lemma sees_info: "sees ctx rt k = (case map_option info (find_node k rt) of
    Some (_, d, r) \<Rightarrow> if ctx \<noteq> 0 \<and> ctx \<in> set r then None else d | None \<Rightarrow> None)"
  by (simp add: sees_def info_def wasRemovedFor_def split: option.split)

text \<open>
  \<open>Remove\<close> for a context hides the row from that context only: it returns the data of the key if the context
  still saw it, afterwards the context does not see the key, every other context and every other key is unaffected,
  and the data stay in the tree.
\<close>

theorem remove_hides_row:
  assumes "ctx \<noteq> 0" "Remove ctx k rt = (data, rt')"
  shows "data = sees ctx rt k \<and> sees ctx rt' k = None \<and>
    (\<forall>c k'. c \<noteq> ctx \<or> k' \<noteq> k \<longrightarrow> sees c rt' k' = sees c rt k') \<and> (\<forall>k'. tlookup rt' k' = tlookup rt k')"
proof (cases "find_node k rt")
  case None
  then show ?thesis using assms by (auto simp: Remove_def sees_def)
next
  case (Some n)
  show ?thesis
  proof (cases "wasRemovedFor ctx n")
    case True
    then show ?thesis using assms Some by (auto simp: Remove_def sees_def)
  next
    case False
    then have r: "data = ndata n" "rt' = replace_node (doRemoveFor ctx) k rt" using assms Some by (auto simp: Remove_def)
    note f = find_replace(1) [of "doRemoveFor ctx" _ k rt]
    have "tlookup t k' = map_option info (find_node k' t) \<bind> (\<lambda>i. fst (snd i))" for t :: "'a node" and k'
      by (cases "find_node k' t") (auto simp: tlookup_def info_def)
    then have "tlookup rt' k' = tlookup rt k'" for k' using f [of k'] Some by (simp add: r info_def)
    moreover have "sees c rt' k' = sees c rt k'" if "c \<noteq> ctx \<or> k' \<noteq> k" for c k'
      using f [of k'] Some that assms(1) by (auto simp: sees_info r info_def)
    moreover have "sees ctx rt' k = None" using f [of k] Some assms(1) by (auto simp: sees_info r info_def o_def)
    ultimately show ?thesis using False Some r by (simp add: sees_def)
  qed
qed

theorem remove_hides_row_witness:
  "sees 7 (snd (Remove 7 [1] (Node [] [([1], Node [1] [] (Some (5 :: nat)) [])] None []))) [1] = None"
  using remove_hides_row [of 7 "[1]" "Node [] [([1], Node [1] [] (Some (5 :: nat)) [])] None []"
      "fst (Remove 7 [1] (Node [] [([1], Node [1] [] (Some (5 :: nat)) [])] None []))"
      "snd (Remove 7 [1] (Node [] [([1], Node [1] [] (Some (5 :: nat)) [])] None []))"]
  by simp

text \<open>
  \<open>Walk\<close> with a callback that asks to go on visits every node that holds data and was not removed for the context
  exactly once, and nothing else.
\<close>

theorem walk_visits_rows:
  assumes "\<And>k d s. fn k d s = (True, True, None, s @ [(k, d)])"
  shows "\<exists>rt' visited. Walk ctx fn rt [] = (None, rt', visited) \<and>
    mset visited = mset (rows_of ctx (nodes rt))"
proof -
  have "foldl (\<lambda>s (k, d). s @ [(k, d)]) s rows = s @ rows" for s and rows :: "(bytes \<times> 'a) list"
    by (induction rows arbitrary: s) auto
  then obtain removed where "walk_queue ctx fn [([], rt)] [] = (None, removed, rows_of ctx (map snd (bfs [([], rt)])))"
    using walk_queue_all [of fn "\<lambda>_ _. True" "\<lambda>k d s. s @ [(k, d)]" ctx "[([], rt)]" "[]"] assms by auto
  moreover have "mset (rows_of ctx (map snd (bfs [([], rt)]))) = mset (rows_of ctx (nodes rt))"
    by (rule rows_of_mset) (use bfs_nodes [of "[([], rt)]"] in simp)
  ultimately show ?thesis by (auto simp: Walk_def)
qed

theorem walk_visits_rows_witness:
  "\<exists>rt' visited. Walk 0 (\<lambda>k d s. (True, True, None :: unit option, s @ [(k, d)])) (Node [] [([1], Node [1] [] (Some (5 :: nat)) [])] None []) [] =
      (None, rt', visited) \<and> mset visited = {# ([1], 5) #}"
  using walk_visits_rows [of "\<lambda>k d s. (True, True, None :: unit option, s @ [(k, d)])" 0 "Node [] [([1], Node [1] [] (Some (5 :: nat)) [])] None []"]
  by (auto simp: rows_of_def wasRemovedFor_def)

text \<open>
  A key that is a proper prefix of another key of the tree gets a node without a key: a walk reports its row under
  the nil key, and \<open>Length\<close> does not count a key whose node was made by an earlier split.
\<close>

theorem prefix_key_lost:
  "map_option (\<lambda>rt. snd (snd (Walk 0 (\<lambda>k d s. (True, True, None :: unit option, s @ [(k, d)])) rt [])))
     (tree_updates [([1, 2], \<lambda>_. Some (5, ())), ([1], \<lambda>_. Some (6, ()))] (Node [] [] None [])) =
     Some [([], 6 :: nat), ([1, 2], 5)] \<and>
   (do { (r1, _, a1) \<leftarrow> doUpdate (\<lambda>_. Some (1 :: nat, ())) [1, 2] [1, 2] (Node [] [] None []);
         (r2, _, a2) \<leftarrow> doUpdate (\<lambda>_. Some (2, ())) [1, 3] [1, 3] r1;
         (r3, _, a3) \<leftarrow> doUpdate (\<lambda>_. Some (3, ())) [1] [1] r2;
         Some [a1, a2, a3] }) = Some [True, True, False]"
  by code_simp

end
