(* ===== verification/Core.thy ===== *)
theory Core
  imports TreeProps "HOL-Library.Char_ord" "HOL-Library.List_Lexorder"
begin

text \<open>
  The package \<open>core\<close>: fields, field sources and the row transformations that queries are made of.

  An \<open>Iterate\<close> method is a function of the two callbacks and of the caller's state, which the callbacks
  transform; a transformation adds its own variables to the state of the source it wraps.  The callbacks
  return whether to go on, and an error.  The deadline of the context is a predicate \<open>timedOut\<close> on the
  caller's state, which includes the clock; it is constantly false without a deadline.  \<open>None\<close> is a panic
  or, in \<open>Flatten\<close> with a resolution that is not positive, an iteration that does not end.
\<close>

section \<open>Fields (core.go)\<close>

datatype error = ErrDeadlineExceeded | OtherError string

record 'c field =
  f_expr :: "'c expr"
  f_name :: string

definition HavingFieldName :: string where "HavingFieldName = ''_having''"

definition NewField :: "string \<Rightarrow> 'c expr \<Rightarrow> 'c field" where
  "NewField name e = \<lparr> f_expr = e, f_name = name \<rparr>"

definition PointsField :: "'c field" where
  "PointsField = NewField ''_points'' (Aggregate AggSum (Field ''_point''))"

definition field_String :: "('c, 'h) ext \<Rightarrow> 'c field \<Rightarrow> string" where
  "field_String X f = f_name f @ '' ('' @ String X (f_expr f) @ '')''"

definition field_Equals :: "('c, 'h) ext \<Rightarrow> 'c field \<Rightarrow> 'c field \<Rightarrow> bool" where
  "field_Equals X f g \<longleftrightarrow> field_String X f = field_String X g"

type_synonym 'c fields = "'c field list"

definition Names :: "'c fields \<Rightarrow> string list" where "Names fs = map f_name fs"

definition Exprs :: "'c fields \<Rightarrow> 'c expr list" where "Exprs fs = map f_expr fs"

fun fields_Equals :: "('c, 'h) ext \<Rightarrow> 'c fields \<Rightarrow> 'c fields \<Rightarrow> bool" where
  "fields_Equals X [] [] = True"
| "fields_Equals X (f # fs) (g # gs) = (field_Equals X f g \<and> fields_Equals X fs gs)"
| "fields_Equals X _ _ = False"

text \<open>
  Field sources.  The \<open>ExprSource\<close> of an \<open>ExprFieldSource\<close> is any implementation of the interface: a function
  of the known fields that may fail.  Implementations of \<open>FieldSource\<close> in other packages are functions as well.
\<close>

datatype 'c fieldsource =
    PassthroughFieldSource
  | StaticFieldSource "'c fields"
  | CombinedFieldSource "'c fieldsource list"
  | ExprFieldSource string "'c fields \<Rightarrow> error + 'c expr"
  | OtherFieldSource "'c fields \<Rightarrow> error + 'c fields"

fun add_fields :: "'c fields \<Rightarrow> string list \<Rightarrow> 'c fields \<Rightarrow> 'c fields \<times> string list" where
  "add_fields combined names [] = (combined, names)"
| "add_fields combined names (f # fs) =
     (if f_name f \<in> set names then add_fields combined names fs
      else add_fields (combined @ [f]) (f_name f # names) fs)"

fun fieldsource_Get :: "'c fieldsource \<Rightarrow> 'c fields \<Rightarrow> error + 'c fields"
and combine_Get :: "'c fieldsource list \<Rightarrow> 'c fields \<Rightarrow> 'c fields \<Rightarrow> string list \<Rightarrow> error + 'c fields" where
  "fieldsource_Get PassthroughFieldSource known = Inr known"
| "fieldsource_Get (StaticFieldSource fs) known = Inr fs"
| "fieldsource_Get (CombinedFieldSource ss) known = combine_Get ss known [] []"
| "fieldsource_Get (ExprFieldSource name e) known =
     (case e known of Inl err \<Rightarrow> Inl err | Inr e' \<Rightarrow> Inr [NewField name e'])"
| "fieldsource_Get (OtherFieldSource g) known = g known"
| "combine_Get [] known combined names = Inr combined"
| "combine_Get (s # ss) known combined names =
     (case fieldsource_Get s known of
        Inl err \<Rightarrow> Inl err
      | Inr fs \<Rightarrow> (case add_fields combined names fs of (c, n) \<Rightarrow> combine_Get ss known c n))"

section \<open>Sources\<close>

type_synonym vals = "bytes list"
type_synonym row = "bytes \<times> vals"

record 'c flatrow =
  fr_TS :: int
  fr_Key :: bytes
  fr_Values :: "float64 list"
  fr_fields :: "'c fields"

definition SetFields :: "'c flatrow \<Rightarrow> 'c fields \<Rightarrow> 'c flatrow" where
  "SetFields r fs = r\<lparr>fr_fields := fs\<rparr>"

type_synonym ('c, 's) onfields = "'c fields \<Rightarrow> 's \<Rightarrow> ('s \<times> error option) go"
type_synonym ('r, 's) onrow = "'r \<Rightarrow> 's \<Rightarrow> ('s \<times> bool \<times> error option) go"
type_synonym ('c, 'r, 'm, 's) iterate =
  "('c, 's) onfields \<Rightarrow> ('r, 's) onrow \<Rightarrow> 's \<Rightarrow> ('s \<times> 'm \<times> error option) go"

record 'c source_info =
  si_groupBy :: "(string \<times> 'c) list"
  si_resolution :: duration
  si_asOf :: gotime
  si_until :: gotime

text \<open>\<open>TimeoutGuard\<close>.\<close>

definition Proceed :: "('s \<Rightarrow> bool) \<Rightarrow> 's \<Rightarrow> bool \<times> error option" where
  "Proceed timedOut s = (if timedOut s then (False, Some ErrDeadlineExceeded) else (True, None))"

definition ProceedAfter :: "('s \<Rightarrow> bool) \<Rightarrow> 's \<Rightarrow> bool \<Rightarrow> error option \<Rightarrow> bool \<times> error option" where
  "ProceedAfter timedOut s origMore origErr =
     (if \<not> origMore \<or> origErr \<noteq> None then (origMore, origErr) else Proceed timedOut s)"

definition stop :: "bool \<times> error option" where "stop = (False, None)"

section \<open>Filters (filter.go)\<close>

text \<open>The callback that remembers the fields, with the fields added to the state.\<close>

definition keep_fields :: "('c, 's) onfields \<Rightarrow> ('c, 'c fields \<times> 's) onfields" where
  "keep_fields onFields inFields = (\<lambda>(_, s). do { (s', err) \<leftarrow> onFields inFields s; Some ((inFields, s'), err) })"

text \<open>
  \<open>include\<close> returns an error, nothing for a row that is left out (a nil key or row), or the row.
\<close>

definition filter_row :: "('s \<Rightarrow> bool) \<Rightarrow> ('r \<Rightarrow> 'c fields \<Rightarrow> error + 'r option) \<Rightarrow> ('r, 's) onrow \<Rightarrow> ('r, 'c fields \<times> 's) onrow" where
  "filter_row timedOut incl onRow r = (\<lambda>(fs, s).
     case incl r fs of
       Inl err \<Rightarrow> Some ((fs, s), False, Some err)
     | Inr (Some r') \<Rightarrow> do { (s', cont, err) \<leftarrow> onRow r' s; Some ((fs, s'), cont, err) }
     | Inr None \<Rightarrow> Some ((fs, s), Proceed timedOut s))"

definition filter_Iterate ::
  "('s \<Rightarrow> bool) \<Rightarrow> ('r \<Rightarrow> 'c fields \<Rightarrow> error + 'r option) \<Rightarrow> ('c, 'r, 'm, 'c fields \<times> 's) iterate \<Rightarrow> ('c, 'r, 'm, 's) iterate" where
  "filter_Iterate timedOut incl source onFields onRow s =
     do { ((_, s'), m, err) \<leftarrow> source (keep_fields onFields) (filter_row timedOut incl onRow) ([], s);
          Some (s', m, err) }"

text \<open>\<open>rowFilter.Iterate\<close> and \<open>flatRowFilter.Iterate\<close> are this function on rows and on flat rows.\<close>

definition rowFilter_Iterate ::
  "('s \<Rightarrow> bool) \<Rightarrow> (row \<Rightarrow> 'c fields \<Rightarrow> error + row option) \<Rightarrow> ('c, row, 'm, 'c fields \<times> 's) iterate \<Rightarrow> ('c, row, 'm, 's) iterate" where
  "rowFilter_Iterate = filter_Iterate"

definition flatRowFilter_Iterate ::
  "('s \<Rightarrow> bool) \<Rightarrow> ('c flatrow \<Rightarrow> 'c fields \<Rightarrow> error + 'c flatrow option) \<Rightarrow> ('c, 'c flatrow, 'm, 'c fields \<times> 's) iterate
   \<Rightarrow> ('c, 'c flatrow, 'm, 's) iterate" where
  "flatRowFilter_Iterate = filter_Iterate"

section \<open>Limit and offset (limit.go, offset.go)\<close>

text \<open>The callback \<open>onFields\<close> passed through to a source with a counter in its state.\<close>

definition pass_fields :: "('c, 's) onfields \<Rightarrow> ('c, 'x \<times> 's) onfields" where
  "pass_fields onFields inFields = (\<lambda>(x, s). do { (s', err) \<leftarrow> onFields inFields s; Some ((x, s'), err) })"

definition limit_row :: "int \<Rightarrow> ('r, 's) onrow \<Rightarrow> ('r, int \<times> 's) onrow" where
  "limit_row n onRow r = (\<lambda>(idx, s).
     let newIdx = wrap64 (idx + 1); oldIdx = wrap64 (newIdx - 1) in
     if oldIdx < n then do { (s', cont, err) \<leftarrow> onRow r s; Some ((newIdx, s'), cont, err) }
     else Some ((newIdx, s), stop))"

definition limit_Iterate :: "int \<Rightarrow> ('c, 'r, 'm, int \<times> 's) iterate \<Rightarrow> ('c, 'r, 'm, 's) iterate" where
  "limit_Iterate n source onFields onRow s =
     do { ((_, s'), m, err) \<leftarrow> source (pass_fields onFields) (limit_row n onRow) (0, s); Some (s', m, err) }"

definition offset_row :: "('s \<Rightarrow> bool) \<Rightarrow> int \<Rightarrow> ('r, 's) onrow \<Rightarrow> ('r, int \<times> 's) onrow" where
  "offset_row timedOut off onRow r = (\<lambda>(idx, s).
     let newIdx = wrap64 (idx + 1); oldIdx = wrap64 (newIdx - 1) in
     if off \<le> oldIdx then do { (s', cont, err) \<leftarrow> onRow r s; Some ((newIdx, s'), cont, err) }
     else Some ((newIdx, s), Proceed timedOut s))"

definition offset_Iterate :: "('s \<Rightarrow> bool) \<Rightarrow> int \<Rightarrow> ('c, 'r, 'm, int \<times> 's) iterate \<Rightarrow> ('c, 'r, 'm, 's) iterate" where
  "offset_Iterate timedOut off source onFields onRow s =
     do { ((_, s'), m, err) \<leftarrow> source (pass_fields onFields) (offset_row timedOut off onRow) (0, s); Some (s', m, err) }"

section \<open>Comparing and sorting (compare.go, sort.go)\<close>

definition cmp :: "bool \<Rightarrow> bool \<Rightarrow> int" where
  "cmp gt lt = (if gt then 1 else if lt then -1 else 0)"

text \<open>
  The order of \<open>float32\<close> is taken through its conversion to \<open>float64\<close>, which is exact; the conversion is a
  parameter.  A value of a type without a case compares equal to everything.
\<close>

fun compare :: "(32 word \<Rightarrow> float64) \<Rightarrow> goval option \<Rightarrow> goval option \<Rightarrow> int go" where
  "compare f32 None b = Some (if b = None then 0 else -1)"
| "compare f32 (Some a) None = Some 1"
| "compare f32 (Some (GBool a)) (Some b) = (case b of GBool b \<Rightarrow> Some (cmp (a \<and> \<not> b) (\<not> a \<and> b)) | _ \<Rightarrow> None)"
| "compare f32 (Some (GByte a)) (Some b) = (case b of GByte b \<Rightarrow> Some (cmp (b < a) (a < b)) | _ \<Rightarrow> None)"
| "compare f32 (Some (GUint16 a)) (Some b) = (case b of GUint16 b \<Rightarrow> Some (cmp (b < a) (a < b)) | _ \<Rightarrow> None)"
| "compare f32 (Some (GUint32 a)) (Some b) = (case b of GUint32 b \<Rightarrow> Some (cmp (b < a) (a < b)) | _ \<Rightarrow> None)"
| "compare f32 (Some (GUint64 a)) (Some b) = (case b of GUint64 b \<Rightarrow> Some (cmp (b < a) (a < b)) | _ \<Rightarrow> None)"
| "compare f32 (Some (GUint a)) (Some b) = (case b of GUint64 b \<Rightarrow> Some (cmp (b < a) (a < b)) | _ \<Rightarrow> None)"
| "compare f32 (Some (GInt8 a)) (Some b) = (case b of GInt8 b \<Rightarrow> Some (cmp (sint b < sint a) (sint a < sint b)) | _ \<Rightarrow> None)"
| "compare f32 (Some (GInt16 a)) (Some b) = (case b of GInt16 b \<Rightarrow> Some (cmp (sint b < sint a) (sint a < sint b)) | _ \<Rightarrow> None)"
| "compare f32 (Some (GInt32 a)) (Some b) = (case b of GInt32 b \<Rightarrow> Some (cmp (sint b < sint a) (sint a < sint b)) | _ \<Rightarrow> None)"
| "compare f32 (Some (GInt64 a)) (Some b) = (case b of GInt64 b \<Rightarrow> Some (cmp (sint b < sint a) (sint a < sint b)) | _ \<Rightarrow> None)"
| "compare f32 (Some (GInt a)) (Some b) = (case b of GInt b \<Rightarrow> Some (cmp (sint b < sint a) (sint a < sint b)) | _ \<Rightarrow> None)"
| "compare f32 (Some (GFloat32 a)) (Some b) = (case b of GFloat32 b \<Rightarrow> Some (cmp (flt (f32 b) (f32 a)) (flt (f32 a) (f32 b))) | _ \<Rightarrow> None)"
| "compare f32 (Some (GFloat64 a)) (Some b) = (case b of GFloat64 b \<Rightarrow> Some (cmp (flt b a) (flt a b)) | _ \<Rightarrow> None)"
| "compare f32 (Some (GString a)) (Some b) = (case b of GString b \<Rightarrow> Some (cmp (b < a) (a < b)) | _ \<Rightarrow> None)"
| "compare f32 (Some (GTime a)) (Some b) = (case b of GTime b \<Rightarrow> Some (cmp (b < a) (a < b)) | _ \<Rightarrow> None)"
| "compare f32 (Some _) (Some _) = Some 0"

record orderby =
  ob_field :: string
  ob_descending :: bool

definition NewOrderBy :: "string \<Rightarrow> bool \<Rightarrow> orderby" where
  "NewOrderBy field descending = \<lparr> ob_field = field, ob_descending = descending \<rparr>"

text \<open>\<open>FlatRow.Get\<close>: first the values, then the key.\<close>

fun row_value :: "'c fields \<Rightarrow> float64 list \<Rightarrow> string \<Rightarrow> float64 go option" where
  "row_value [] vs param = None"
| "row_value (f # fs) vs param =
     (if f_name f = param then Some (case vs of [] \<Rightarrow> None | v # _ \<Rightarrow> Some v)
      else row_value fs (drop 1 vs) param)"

definition flatrow_Get :: "bm_get \<Rightarrow> 'c flatrow \<Rightarrow> string \<Rightarrow> goval option go" where
  "flatrow_Get get r param =
     (case row_value (fr_fields r) (fr_Values r) param of
        Some v \<Rightarrow> map_option (\<lambda>x. Some (GFloat64 x)) v
      | None \<Rightarrow> Some (get (fr_Key r) param))"

fun Less :: "(32 word \<Rightarrow> float64) \<Rightarrow> bm_get \<Rightarrow> orderby list \<Rightarrow> 'c flatrow \<Rightarrow> 'c flatrow \<Rightarrow> bool go" where
  "Less f32 get [] a b = Some False"
| "Less f32 get (order # os) a b =
     (if ob_field order = ''_time'' then
        (let (ta, tb) = (if ob_descending order then (fr_TS b, fr_TS a) else (fr_TS a, fr_TS b)) in
         if ta < tb then Some True else Less f32 get os a b)
      else do {
        va \<leftarrow> flatrow_Get get a (ob_field order);
        vb \<leftarrow> flatrow_Get get b (ob_field order);
        result \<leftarrow> (if ob_descending order then compare f32 vb va else compare f32 va vb);
        if result < 0 then Some True else if result > 0 then Some False else Less f32 get os a b })"

text \<open>
  \<open>sorter.Iterate\<close>.  \<open>sortRows\<close> is \<open>sort.Sort\<close> with the method \<open>Less\<close> on the collected rows; it panics when a
  comparison does.
\<close>

fun emit_rows :: "('s \<Rightarrow> bool) \<Rightarrow> ('r, 's) onrow \<Rightarrow> 'r list \<Rightarrow> 's \<Rightarrow> ('s \<times> error option) go" where
  "emit_rows timedOut onRow [] s = Some (s, None)"
| "emit_rows timedOut onRow (r # rs) s =
     (if timedOut s then Some (s, Some ErrDeadlineExceeded)
      else do { (s', cont, err) \<leftarrow> onRow r s;
                if err \<noteq> None then Some (s', err)
                else if \<not> cont then Some (s', None)
                else emit_rows timedOut onRow rs s' })"

definition collect_row :: "('s \<Rightarrow> bool) \<Rightarrow> ('r, 'r list \<times> 's) onrow" where
  "collect_row timedOut r = (\<lambda>(rs, s). Some ((rs @ [r], s), Proceed timedOut s))"

definition sort_Iterate ::
  "('s \<Rightarrow> bool) \<Rightarrow> ('r list \<Rightarrow> 'r list go) \<Rightarrow> ('c, 'r, 'm, 'r list \<times> 's) iterate \<Rightarrow> ('c, 'r, 'm, 's) iterate" where
  "sort_Iterate timedOut sortRows source onFields onRow s =
     do { ((rows, s1), m, err) \<leftarrow> source (pass_fields onFields) (collect_row timedOut) ([], s);
          if err = Some ErrDeadlineExceeded then Some (s1, m, err)
          else do {
            rows' \<leftarrow> sortRows rows;
            (s2, rowErr) \<leftarrow> emit_rows timedOut onRow rows' s1;
            Some (s2, m, if rowErr \<noteq> None then rowErr else err) } }"

section \<open>Flatten and unflatten (flatten.go, unflatten.go)\<close>

definition flat_fields :: "'c fields \<Rightarrow> 'c fields" where
  "flat_fields fs = map (\<lambda>f. NewField (f_name f) (Field (f_name f))) fs"

text \<open>The time range of a row: the loop over the fields.\<close>

fun row_range :: "duration \<Rightarrow> 'c fields \<Rightarrow> vals \<Rightarrow> gotime \<Rightarrow> gotime \<Rightarrow> (gotime \<times> gotime) go" where
  "row_range res [] vals asOf until = Some (asOf, until)"
| "row_range res (f # fs) [] asOf until = None"
| "row_range res (f # fs) (v # vs) asOf until =
     do { let width = EncodedWidth (f_expr f);
          n \<leftarrow> NumPeriods v width;
          if n = 0 then row_range res fs vs asOf until
          else do {
            newUntil \<leftarrow> Until v;
            newAsOf \<leftarrow> AsOf v width res;
            row_range res fs vs (if IsZero asOf \<or> newAsOf < asOf then newAsOf else asOf)
              (if until < newUntil then newUntil else until) } }"

text \<open>The values of one flat row, and whether a value that is not a constant was found.\<close>

fun flat_values :: "('c, 'h) ext \<Rightarrow> duration \<Rightarrow> gotime \<Rightarrow> 'c fields \<Rightarrow> vals \<Rightarrow> (float64 list \<times> bool) go" where
  "flat_values X res ts [] vals = Some ([], False)"
| "flat_values X res ts (f # fs) [] = None"
| "flat_values X res ts (f # fs) (v # vs) =
     do { (val, found) \<leftarrow> ValueAtTime X v ts (f_expr f) res;
          (rest, any) \<leftarrow> flat_values X res ts fs vs;
          Some (val # rest, (found \<and> \<not> IsConstant (f_expr f)) \<or> any) }"

function flatten_loop ::
  "('c, 'h) ext \<Rightarrow> ('s \<Rightarrow> bool) \<Rightarrow> duration \<Rightarrow> 'c fields \<Rightarrow> ('c flatrow, 's) onrow \<Rightarrow> row \<Rightarrow> gotime \<Rightarrow> gotime \<Rightarrow> 's
   \<Rightarrow> ('s \<times> bool \<times> error option) go" where
  "flatten_loop X timedOut res fs onRow kv until ts s =
     (if until < ts then Some (s, Proceed timedOut s)
      else if res \<le> 0 then None
      else do {
        (values, any) \<leftarrow> flat_values X res ts fs (snd kv);
        (s', cont, err) \<leftarrow>
          (if any then onRow \<lparr> fr_TS = UnixNano ts, fr_Key = fst kv, fr_Values = values, fr_fields = fs \<rparr> s
           else Some (s, True, None));
        if any \<and> (\<not> cont \<or> err \<noteq> None) then Some (s', cont, err)
        else flatten_loop X timedOut res fs onRow kv until (ts + res) s' })"
  by pat_completeness auto
termination
  by (relation "measure (\<lambda>(_, _, res, _, _, _, until, ts, _). nat (until + 1 - ts))") auto

declare flatten_loop.simps [simp del]

definition flatten_row :: "('c, 'h) ext \<Rightarrow> ('s \<Rightarrow> bool) \<Rightarrow> duration \<Rightarrow> ('c flatrow, 's) onrow \<Rightarrow> (row, 'c fields \<times> 's) onrow" where
  "flatten_row X timedOut res onRow kv = (\<lambda>(fs, s).
     do { (asOf, until) \<leftarrow> row_range res fs (snd kv) zeroTime zeroTime;
          (s', cont, err) \<leftarrow> flatten_loop X timedOut res fs onRow kv until asOf s;
          Some ((fs, s'), cont, err) })"

definition flatten_fields :: "('c, 's) onfields \<Rightarrow> ('c, 'c fields \<times> 's) onfields" where
  "flatten_fields onFields inFields =
     (\<lambda>(_, s). do { (s', err) \<leftarrow> onFields (flat_fields inFields) s; Some ((inFields, s'), err) })"

definition flatten_Iterate ::
  "('c, 'h) ext \<Rightarrow> ('s \<Rightarrow> bool) \<Rightarrow> duration \<Rightarrow> ('c, row, 'm, 'c fields \<times> 's) iterate \<Rightarrow> ('c, 'c flatrow, 'm, 's) iterate" where
  "flatten_Iterate X timedOut res source onFields onRow s =
     do { ((_, s'), m, err) \<leftarrow> source (flatten_fields onFields) (flatten_row X timedOut res onRow) ([], s);
          Some (s', m, err) }"

text \<open>\<open>expr.Map\<close> of the values of a flat row: the last of several fields with one name wins.\<close>

definition row_params :: "'c fields \<Rightarrow> float64 list \<Rightarrow> params" where
  "row_params fs vs name =
     (case map_of (rev (zip (map f_name fs) vs)) name of Some v \<Rightarrow> Some (v, True) | None \<Rightarrow> Some (fzero, False))"

fun new_values :: "('c, 'h) ext \<Rightarrow> gotime \<Rightarrow> params \<Rightarrow> metadata \<Rightarrow> 'c fields \<Rightarrow> vals go" where
  "new_values X ts params md [] = Some []"
| "new_values X ts params md (f # fs) =
     do { v \<leftarrow> NewValue X (f_expr f) ts params md; vs \<leftarrow> new_values X ts params md fs; Some (v # vs) }"

definition unflatten_row ::
  "('c, 'h) ext \<Rightarrow> bm_get \<Rightarrow> (row, 's) onrow \<Rightarrow> ('c flatrow, ('c fields \<times> 'c fields) \<times> 's) onrow" where
  "unflatten_row X get onRow r = (\<lambda>((inFields, outFields), s).
     if length (fr_Values r) < length inFields then None
     else do {
       outRow \<leftarrow> new_values X (TimeFromInt (fr_TS r)) (row_params inFields (fr_Values r)) (Some (get (fr_Key r))) outFields;
       (s', cont, err) \<leftarrow> onRow (fr_Key r, outRow) s;
       Some (((inFields, outFields), s'), cont, err) })"

definition unflatten_fields ::
  "'c fieldsource \<Rightarrow> ('c, 's) onfields \<Rightarrow> ('c, ('c fields \<times> 'c fields) \<times> 's) onfields" where
  "unflatten_fields fsrc onFields inFields = (\<lambda>((_, outFields), s).
     case fieldsource_Get fsrc [] of
       Inl err \<Rightarrow> Some (((inFields, []), s), Some err)
     | Inr out \<Rightarrow> do { (s', err) \<leftarrow> onFields out s; Some (((inFields, out), s'), err) })"

definition unflatten_Iterate ::
  "('c, 'h) ext \<Rightarrow> bm_get \<Rightarrow> 'c fieldsource \<Rightarrow> ('c, 'c flatrow, 'm, ('c fields \<times> 'c fields) \<times> 's) iterate
   \<Rightarrow> ('c, row, 'm, 's) iterate" where
  "unflatten_Iterate X get fsrc source onFields onRow s =
     do { ((_, s'), m, err) \<leftarrow> source (unflatten_fields fsrc onFields) (unflatten_row X get onRow) (([], []), s);
          Some (s', m, err) }"

end
