(* ===== verification/Common.thy ===== *)
theory Common
  imports Core "HOL-Library.AList"
begin

text \<open>
  The package \<open>common\<close>: the offsets into the write-ahead logs of the sources.

  An offset (\<open>wal.Offset\<close>, a byte slice) belongs to the third-party package \<open>wal\<close>; its order, its
  timestamp and its size are the parameters of the record \<open>wal_ext\<close>.  A Go map is the association list of its entries
  in the order in which \<open>range\<close> visits them, which the language leaves open: no property depends on it.  A nil map
  is \<open>None\<close>.
\<close>

type_synonym offset = bytes
type_synonym offset_map = "(int \<times> offset) list"
type_synonym offsets = "offset_map option"

record wal_ext =
  OffsetSize :: nat
  After :: "offset \<Rightarrow> offset \<Rightarrow> bool"
  offset_TS :: "offset \<Rightarrow> gotime"
  NewOffsetForTS :: "gotime \<Rightarrow> offset"

text \<open>What the code relies on: \<open>After\<close> is a strict linear order in which the nil offset comes first.\<close>

definition wal_laws :: "wal_ext \<Rightarrow> bool" where
  "wal_laws wx \<longleftrightarrow> (\<forall>a. \<not> After wx a a) \<and> (\<forall>a b c. After wx a b \<longrightarrow> After wx b c \<longrightarrow> After wx a c) \<and>
     (\<forall>a b. a \<noteq> b \<longrightarrow> After wx a b \<or> After wx b a) \<and> (\<forall>a. \<not> After wx [] a)"

section \<open>Offsets by source\<close>

definition entries :: "offsets \<Rightarrow> offset_map" where
  "entries os = (case os of None \<Rightarrow> [] | Some m \<Rightarrow> m)"

text \<open>\<open>m[source]\<close>: the nil offset for a missing key.\<close>

definition offset_of :: "offset_map \<Rightarrow> int \<Rightarrow> offset" where
  "offset_of m source = (case map_of m source of None \<Rightarrow> [] | Some off \<Rightarrow> off)"

fun advance_all :: "wal_ext \<Rightarrow> offset_map \<Rightarrow> offset_map \<Rightarrow> offset_map" where
  "advance_all wx [] result = result"
| "advance_all wx ((source, newOffset) # os) result =
     (let oldOffset = offset_of result source in
      advance_all wx os (if After wx newOffset oldOffset then AList.update source newOffset result else result))"

fun Advance :: "wal_ext \<Rightarrow> offsets \<Rightarrow> offsets \<Rightarrow> offsets" where
  "Advance wx None new = new"
| "Advance wx (Some old) None = Some old"
| "Advance wx (Some old) (Some new) = Some (advance_all wx new old)"

definition LimitAge :: "wal_ext \<Rightarrow> offsets \<Rightarrow> offset \<Rightarrow> offset_map" where
  "LimitAge wx os limit = map (\<lambda>(source, off). (source, if After wx limit off then limit else off)) (entries os)"

definition LowestTS :: "wal_ext \<Rightarrow> offsets \<Rightarrow> gotime" where
  "LowestTS wx os =
     foldl (\<lambda>result (_, off). let ts = offset_TS wx off in if IsZero result \<or> ts < result then ts else result)
       zeroTime (entries os)"

definition HighestTS :: "wal_ext \<Rightarrow> offsets \<Rightarrow> gotime" where
  "HighestTS wx os =
     foldl (\<lambda>result (_, off). let ts = offset_TS wx off in if IsZero result \<or> result < ts then ts else result)
       zeroTime (entries os)"

definition NanosToMillis :: "int \<Rightarrow> int" where
  "NanosToMillis nanos = tdiv nanos 1000000"

definition TimeToMillis :: "gotime \<Rightarrow> int" where
  "TimeToMillis ts = NanosToMillis (UnixNano ts)"

section \<open>The join of offsets\<close>

lemma offset_of_update: "offset_of (AList.update k v m) k' = (if k' = k then v else offset_of m k')"
  by (simp add: offset_of_def update_conv')

definition later :: "wal_ext \<Rightarrow> offset \<Rightarrow> offset \<Rightarrow> offset" where
  "later wx a b = (if After wx b a then b else a)"

lemma later_nil: "wal_laws wx \<Longrightarrow> later wx a [] = a" "wal_laws wx \<Longrightarrow> later wx [] a = a"
  unfolding later_def wal_laws_def by metis+

lemma later_commute: "wal_laws wx \<Longrightarrow> later wx a b = later wx b a"
  unfolding later_def wal_laws_def by metis

lemma later_upper: "wal_laws wx \<Longrightarrow> \<not> After wx a (later wx a b)"
  by (cases "After wx b a") (auto simp: later_def wal_laws_def)

lemma later_one_of: "later wx a b \<in> {a, b}"
  by (simp add: later_def)

lemma offset_of_Cons: "offset_of ((k, v) # m) s = (if s = k then v else offset_of m s)"
  by (simp add: offset_of_def)

lemma offset_of_missing: "s \<notin> fst ` set m \<Longrightarrow> offset_of m s = []"
  by (simp add: offset_of_def) (metis map_of_eq_None_iff option.simps(4))

lemma advance_all_later:
  assumes "wal_laws wx" "distinct (map fst new)"
  shows "offset_of (advance_all wx new old) s = later wx (offset_of old s) (offset_of new s)"
  using assms(2)
proof (induction new arbitrary: old)
  case Nil
  then show ?case using assms(1) by (simp add: later_nil offset_of_missing)
next
  case (Cons e os)
  obtain k v where e: "e = (k, v)" by (cases e)
  have "offset_of os k = []" using Cons.prems e by (simp add: offset_of_missing)
  then show ?case using Cons e assms(1)
    by (auto simp: offset_of_update offset_of_Cons later_nil) (auto simp: later_def)
qed

lemma distinct_advance_all: "distinct (map fst old) \<Longrightarrow> distinct (map fst (advance_all wx new old))"
  by (induction wx new old rule: advance_all.induct) (auto simp: distinct_update)

lemma Advance_entries:
  assumes "wal_laws wx" "distinct (map fst (entries b))"
  shows "offset_of (entries (Advance wx a b)) s = later wx (offset_of (entries a) s) (offset_of (entries b) s)"
  using assms by (cases "(wx, a, b)" rule: Advance.cases)
    (auto simp: entries_def advance_all_later later_nil offset_of_missing [of _ "[]"])

text \<open>
  \<open>Advance\<close> is the least upper bound of two maps of offsets, source by source: the offset of every source is the
  later of the two, a source without an offset counting as the earliest, and neither the order in which the maps are
  visited nor the order of the arguments matters.
\<close>

theorem advance_is_join:
  assumes "wal_laws wx" "distinct (map fst (entries a))" "distinct (map fst (entries b))"
  shows "distinct (map fst (entries (Advance wx a b))) \<and>
    \<not> After wx (offset_of (entries a) s) (offset_of (entries (Advance wx a b)) s) \<and>
    \<not> After wx (offset_of (entries b) s) (offset_of (entries (Advance wx a b)) s) \<and>
    offset_of (entries (Advance wx a b)) s \<in> {offset_of (entries a) s, offset_of (entries b) s} \<and>
    offset_of (entries (Advance wx b a)) s = offset_of (entries (Advance wx a b)) s"
proof (intro conjI)
  show "distinct (map fst (entries (Advance wx a b)))"
    using assms by (cases "(wx, a, b)" rule: Advance.cases) (auto simp: entries_def distinct_advance_all)
  show "\<not> After wx (offset_of (entries b) s) (offset_of (entries (Advance wx a b)) s)"
    using assms later_upper later_commute by (simp add: Advance_entries) metis
qed (use assms in \<open>simp_all only: Advance_entries later_upper later_one_of later_commute not_False_eq_True\<close>)

text \<open>Offsets of eight bytes in big-endian order, the first of their bytes a timestamp.\<close>

definition sample_wal :: wal_ext where
  "sample_wal = \<lparr> OffsetSize = 8, After = (\<lambda>a b. b < a), offset_TS = (\<lambda>off. int (unbe off)),
     NewOffsetForTS = (\<lambda>ts. be 8 (nat ts)) \<rparr>"

lemma sample_wal_laws: "wal_laws sample_wal"
  by (auto simp: wal_laws_def sample_wal_def)

theorem advance_is_join_witness:
  "offset_of (entries (Advance sample_wal (Some [(0, [1]), (1, [5])]) (Some [(1, [3]), (2, [4])]))) 1 \<in> {[5], [3]}"
  using advance_is_join [OF sample_wal_laws, of "Some [(0, [1]), (1, [5])]" "Some [(1, [3]), (2, [4])]" 1]
  by (simp add: entries_def offset_of_def)

end
