(* ===== verification/RowStore.thy ===== *)
theory RowStore
  imports Common
begin

text \<open>
  The row store of a table (row_store.go): the file format, iteration over file and memstore, and flushing.

  A file is the list of its bytes; the compression of the third-party package \<open>snappy\<close> and the external sort of
  \<open>emsort\<close> are parameters of the record \<open>store_ext\<close>.  A reader is the bytes that can still be read together with
  whether it then reports the end of the file (or an error).  The buffer that is reused between rows
  (\<open>okayToReuseBuffer\<close>) is not visible here: the callbacks that get it do not keep the row.  The clock and the
  context number taken from it are arguments.
\<close>

type_synonym stream = "bytes \<times> bool"

record store_ext =
  sx_get :: bm_get
  sx_wal :: wal_ext
  sx_snappy :: "bytes \<Rightarrow> bytes"
  sx_unsnappy :: "bytes \<Rightarrow> stream"
  sx_emsort :: "bytes list \<Rightarrow> bytes list"

text \<open>What the code relies on: reading what was written, and sorting without losing a row.\<close>

definition store_laws :: "store_ext \<Rightarrow> bool" where
  "store_laws E \<longleftrightarrow> wal_laws (sx_wal E) \<and> (\<forall>b. sx_unsnappy E (sx_snappy E b) = (b, True)) \<and>
     (\<forall>rows. mset (sx_emsort E rows) = mset rows)"

section \<open>Reading\<close>

datatype readfail = EOF | ReadError

text \<open>\<open>io.ReadFull\<close>, also behind \<open>binary.Read\<close>.\<close>

definition read_full :: "nat \<Rightarrow> stream \<Rightarrow> readfail + bytes \<times> stream" where
  "read_full n st =
     (case st of (b, clean) \<Rightarrow>
        if n \<le> length b then Inr (take n b, (drop n b, clean))
        else if b = [] \<and> clean then Inl EOF else Inl ReadError)"

text \<open>\<open>make\<close> panics on a length beyond the address space of the runtime.\<close>

definition makeLimit :: int where "makeLimit = 2 ^ 48"

section \<open>Offsets\<close>

definition int64_bytes :: "int \<Rightarrow> bytes" where
  "int64_bytes i = (case WriteInt64 (replicate 8 0) i of Some (b, _) \<Rightarrow> b | None \<Rightarrow> [])"

definition writeOffsets :: "offset_map \<Rightarrow> bytes" where
  "writeOffsets offs = int64_bytes (int (length offs)) @ concat (map (\<lambda>(source, off). int64_bytes source @ off) offs)"

fun read_offsets :: "wal_ext \<Rightarrow> nat \<Rightarrow> bytes \<Rightarrow> offset_map \<Rightarrow> (offset_map \<times> bytes) go" where
  "read_offsets wx 0 header offs = Some (offs, header)"
| "read_offsets wx (Suc n) header offs =
     do { (source, header) \<leftarrow> ReadInt64 header;
          off \<leftarrow> slice_to (int (OffsetSize wx)) header;
          header \<leftarrow> slice_from (int (OffsetSize wx)) header;
          read_offsets wx n header (AList.update source off offs) }"

definition FileVersion_4 :: int where "FileVersion_4 = 4"
definition FileVersion_5 :: int where "FileVersion_5 = 5"
definition CurrentFileVersion :: int where "CurrentFileVersion = FileVersion_5"

definition readOffsets :: "wal_ext \<Rightarrow> int \<Rightarrow> bytes \<Rightarrow> (offset_map \<times> bytes) go" where
  "readOffsets wx fileVersion header =
     (if fileVersion < FileVersion_5 then
        do { off \<leftarrow> slice_to (int (OffsetSize wx)) header;
             rest \<leftarrow> slice_from (int (OffsetSize wx)) header;
             Some ([(0, off)], rest) }
      else
        do { (numOffsets, header) \<leftarrow> ReadInt64 header;
             read_offsets wx (nat numOffsets) header [] })"

text \<open>The offset file: files before version 5 hold a single offset.\<close>

definition read_offset_file :: "wal_ext \<Rightarrow> bytes \<Rightarrow> offsets \<Rightarrow> offsets go" where
  "read_offset_file wx data before =
     (if length data < OffsetSize wx then Some before
      else do { (offs, _) \<leftarrow> readOffsets wx (if OffsetSize wx < length data then FileVersion_5 else FileVersion_4) data;
                Some (Some offs) })"

section \<open>File names and the header\<close>

fun split_on :: "char \<Rightarrow> string \<Rightarrow> string list" where
  "split_on d [] = [[]]"
| "split_on d (c # cs) =
     (if c = d then [] # split_on d cs
      else case split_on d cs of p # ps \<Rightarrow> (c # p) # ps | [] \<Rightarrow> [[c]])"

fun join_with :: "string \<Rightarrow> string list \<Rightarrow> string" where
  "join_with d [] = []"
| "join_with d [x] = x"
| "join_with d (x # y # xs) = x @ d @ join_with d (y # xs)"

definition digit_val :: "char \<Rightarrow> int option" where
  "digit_val c = (let n = (of_char c :: int) in if 48 \<le> n \<and> n \<le> 57 then Some (n - 48) else None)"

fun digits_val :: "int \<Rightarrow> string \<Rightarrow> int option" where
  "digits_val acc [] = Some acc"
| "digits_val acc (c # cs) = do { d \<leftarrow> digit_val c; digits_val (acc * 10 + d) cs }"

text \<open>\<open>strconv.Atoi\<close>; \<open>None\<close> is its error.\<close>

definition Atoi :: "string \<Rightarrow> int option" where
  "Atoi s =
     (let (sign, ds) = (case s of
            c # cs \<Rightarrow> if c = CHR ''-'' then (- 1, cs) else if c = CHR ''+'' then (1, cs) else (1, s)
          | [] \<Rightarrow> (1, s))
      in if ds = [] then None
         else do { v \<leftarrow> digits_val 0 ds; if in64 (sign * v) then Some (sign * v) else None })"

text \<open>\<open>versionFor\<close> on the base name of the file; a version that is not a number panics.\<close>

definition versionFor :: "string \<Rightarrow> int go" where
  "versionFor base =
     (let parts = split_on (CHR ''_'') base in
      if length parts = 3 then Atoi (hd (split_on (CHR ''.'') (parts ! 2))) else Some 0)"

text \<open>\<open>%020d\<close> of a number that is not negative, and the name of a new file.\<close>

definition pad20 :: "int \<Rightarrow> string" where
  "pad20 i = (let s = itoa i in replicate (20 - length s) (CHR ''0'') @ s)"

definition fileStoreName :: "int \<Rightarrow> string" where
  "fileStoreName nanos = ''filestore_'' @ pad20 nanos @ ''_'' @ itoa CurrentFileVersion @ ''.dat''"

definition string_bytes :: "string \<Rightarrow> bytes" where "string_bytes s = map of_char s"
definition bytes_string :: "bytes \<Rightarrow> string" where "bytes_string b = map (\<lambda>x. char_of (unat x)) b"

definition fieldsDelim :: "int \<Rightarrow> string" where
  "fieldsDelim version = (if version = FileVersion_4 \<or> version = FileVersion_5 then ''|'' else [])"

text \<open>\<open>strings.Split\<close>; with an empty separator it gives the characters, taken as bytes here.\<close>

definition split_fields :: "string \<Rightarrow> string \<Rightarrow> string list" where
  "split_fields delim s = (case delim of d # _ \<Rightarrow> split_on d s | [] \<Rightarrow> map (\<lambda>c. [c]) s)"

definition headerOf :: "('c, 'h) ext \<Rightarrow> wal_ext \<Rightarrow> 'c fields \<Rightarrow> offset_map \<Rightarrow> bytes" where
  "headerOf X wx fs offs =
     (let fieldsBytes = string_bytes (join_with (fieldsDelim CurrentFileVersion) (map (field_String X) fs)) in
      be 4 (8 + length offs * (8 + OffsetSize wx) + length fieldsBytes) @ writeOffsets offs @ fieldsBytes)"

text \<open>
  The fields of a file: the fields of the store with the same printed form.  \<open>None\<close> is the empty \<open>core.Field\<close> of
  an unknown field, which has no expression.
\<close>

definition file_field :: "('c, 'h) ext \<Rightarrow> 'c fields \<Rightarrow> string \<Rightarrow> 'c field option" where
  "file_field X fs s = find (\<lambda>f. s = field_String X f) fs"

definition opt_field_String :: "('c, 'h) ext \<Rightarrow> 'c field option \<Rightarrow> string" where
  "opt_field_String X f = (case f of Some f' \<Rightarrow> field_String X f' | None \<Rightarrow> '' (<nil>)'')"

definition info :: "('c, 'h) ext \<Rightarrow> wal_ext \<Rightarrow> int \<Rightarrow> 'c fields \<Rightarrow> stream
   \<Rightarrow> (error + offset_map \<times> string \<times> 'c field option list \<times> stream) go" where
  "info X wx fileVersion fs r =
     (case read_full 4 r of
        Inl _ \<Rightarrow> Some (Inl (OtherError ''Unexpected error reading header length''))
      | Inr (len, r) \<Rightarrow>
          (case read_full (unbe len) r of
             Inl _ \<Rightarrow> Some (Inl (OtherError ''Unable to read fields''))
           | Inr (fieldsBytes, r) \<Rightarrow>
               do { (offs, fieldsBytes) \<leftarrow> readOffsets wx fileVersion fieldsBytes;
                    let fieldsString = bytes_string fieldsBytes;
                    let fieldStrings = split_fields (fieldsDelim fileVersion) fieldsString;
                    Some (Inr (offs, fieldsString, map (file_field X fs) fieldStrings, r)) }))"

definition readWALOffsets :: "wal_ext \<Rightarrow> int \<Rightarrow> stream \<Rightarrow> (error + offset_map) go" where
  "readWALOffsets wx fileVersion r =
     (case read_full 4 r of
        Inl _ \<Rightarrow> Some (Inl (OtherError ''Unexpected error reading header length''))
      | Inr (len, r) \<Rightarrow>
          (case read_full (unbe len) r of
             Inl _ \<Rightarrow> Some (Inl (OtherError ''Unable to read fields''))
           | Inr (fieldsBytes, r) \<Rightarrow> do { (offs, _) \<leftarrow> readOffsets wx fileVersion fieldsBytes; Some (Inr offs) }))"

section \<open>Mapping columns\<close>

fun index_where :: "('a \<Rightarrow> bool) \<Rightarrow> int \<Rightarrow> 'a list \<Rightarrow> int" where
  "index_where P i [] = - 1"
| "index_where P i (x # xs) = (if P x then i else index_where P (i + 1) xs)"

definition outIdxsFor :: "('c, 'h) ext \<Rightarrow> 'c fields \<Rightarrow> 'c field option list \<Rightarrow> int list" where
  "outIdxsFor X outFields inFields =
     map (\<lambda>inField. index_where (\<lambda>outField. opt_field_String X inField = field_String X outField) 0 outFields) inFields"

definition set_at :: "int \<Rightarrow> bytes \<Rightarrow> vals \<Rightarrow> vals go" where
  "set_at j seq out = (if nat j < length out then Some (out[nat j := seq]) else None)"

definition rowMapper :: "int list \<Rightarrow> vals \<Rightarrow> nat \<Rightarrow> bytes \<Rightarrow> (vals \<times> bool) go" where
  "rowMapper outIdxs out i seq =
     do { j \<leftarrow> nth_go outIdxs i;
          if 0 \<le> j then do { out \<leftarrow> set_at j seq out; Some (out, True) } else Some (out, False) }"

definition rowMerger :: "('c, 'h) ext \<Rightarrow> 'c fields \<Rightarrow> int list \<Rightarrow> duration \<Rightarrow> gotime \<Rightarrow> vals \<Rightarrow> nat \<Rightarrow> bytes \<Rightarrow> (vals \<times> bool) go" where
  "rowMerger X outFields outIdxs resolution truncateBefore out i seq =
     (if length outIdxs \<le> i then Some (out, False)
      else let j = outIdxs ! i in
        if 0 \<le> j then
          do { current \<leftarrow> nth_go out (nat j);
               f \<leftarrow> nth_go outFields (nat j);
               merged \<leftarrow> seq_Merge X current seq (f_expr f) resolution truncateBefore;
               out \<leftarrow> set_at j merged out;
               Some (out, True) }
        else Some (out, False))"

section \<open>Rows\<close>

text \<open>The bytes of a row, as \<open>doWrite\<close> writes them.  The conversions to 16 and 64 bits wrap around.\<close>

definition rowLength :: "bytes \<Rightarrow> vals \<Rightarrow> nat" where
  "rowLength key columns = 8 + 2 + length key + 2 + sum_list (map (\<lambda>seq. 8 + length seq) columns)"

definition encode_row :: "bytes \<Rightarrow> vals \<Rightarrow> bytes" where
  "encode_row key columns =
     be 8 (rowLength key columns) @ be 2 (length key) @ key @ be 2 (length columns) @
     concat (map (\<lambda>seq. be 8 (length seq)) columns) @ concat columns"

fun truncate_columns :: "duration \<Rightarrow> gotime \<Rightarrow> 'c fields \<Rightarrow> vals \<Rightarrow> vals go" where
  "truncate_columns res truncateBefore fs [] = Some []"
| "truncate_columns res truncateBefore [] (seq # columns) = None"
| "truncate_columns res truncateBefore (f # fs) (seq # columns) =
     do { (seq', _) \<leftarrow> Truncate seq (EncodedWidth (f_expr f)) res truncateBefore zeroTime;
          rest \<leftarrow> truncate_columns res truncateBefore fs columns;
          Some (seq' # rest) }"

fun high_water :: "vals \<Rightarrow> int \<Rightarrow> int go" where
  "high_water [] hwm = Some hwm"
| "high_water (seq # columns) hwm =
     do { ts \<leftarrow> UntilInt seq; high_water columns (if hwm < ts then ts else hwm) }"

text \<open>\<open>doWrite\<close>: the high water mark of the row and the bytes it writes.\<close>

definition doWrite :: "('c, 'h) ext \<Rightarrow> store_ext \<Rightarrow> duration \<Rightarrow> 'c fields \<Rightarrow> 'c option \<Rightarrow> gotime \<Rightarrow> bool \<Rightarrow> bytes \<Rightarrow> vals
   \<Rightarrow> bytes option \<Rightarrow> (int \<times> bytes) go" where
  "doWrite X E res fs filterExpr truncateBefore shouldSort key columns raw =
     (if \<not> shouldSort \<and> raw \<noteq> None then Some (0, the raw)
      else do {
        ok \<leftarrow> (case filterExpr of
                 None \<Rightarrow> Some True
               | Some c \<Rightarrow> (case ge_eval X c (sx_get E key) of Some (GBool b) \<Rightarrow> Some b | _ \<Rightarrow> None));
        if \<not> ok then Some (0, [])
        else do {
          columns \<leftarrow> truncate_columns res truncateBefore fs columns;
          if list_all (\<lambda>seq. seq = []) columns then Some (0, [])
          else do { hwm \<leftarrow> high_water columns 0; Some (hwm, encode_row key columns) } } })"

section \<open>Iterating\<close>

type_synonym 's onfilerow = "bytes \<Rightarrow> vals \<Rightarrow> bytes option \<Rightarrow> 's \<Rightarrow> ('s \<times> bool \<times> error option) go"

fun col_lengths :: "nat \<Rightarrow> bytes \<Rightarrow> (error + int list \<times> bytes) go" where
  "col_lengths 0 row = Some (Inr ([], row))"
| "col_lengths (Suc n) row =
     (if length row < 8 then Some (Inl (OtherError ''Not enough data left to decode column length''))
      else do { (colLength, row) \<leftarrow> ReadInt64 row;
                rest \<leftarrow> col_lengths n row;
                Some (case rest of Inl e \<Rightarrow> Inl e | Inr (ls, row) \<Rightarrow> Inr (colLength # ls, row)) })"

text \<open>The columns of a row of the file: a sequence read from the row is never nil, even when it is empty.\<close>

fun file_columns :: "int list \<Rightarrow> nat \<Rightarrow> int list \<Rightarrow> bytes \<Rightarrow> vals \<Rightarrow> bool \<Rightarrow> (error + vals \<times> bool) go" where
  "file_columns outIdxs i [] row columns included = Some (Inr (columns, included))"
| "file_columns outIdxs i (colLength # ls) row columns included =
     (if int (length row) < colLength then Some (Inl (OtherError ''Not enough data left to decode column''))
      else do { (seq, row) \<leftarrow> ReadSequence row colLength;
                (columns, mapped) \<leftarrow> rowMapper outIdxs columns i seq;
                file_columns outIdxs (Suc i) ls row columns (included \<or> mapped) })"

fun mem_columns :: "(vals \<Rightarrow> nat \<Rightarrow> bytes \<Rightarrow> (vals \<times> bool) go) \<Rightarrow> nat \<Rightarrow> vals \<Rightarrow> vals \<Rightarrow> bool \<Rightarrow> (vals \<times> bool) go" where
  "mem_columns memToOut i [] columns included = Some (columns, included)"
| "mem_columns memToOut i (msColumn # msColumns) columns included =
     do { (columns, merged) \<leftarrow> memToOut columns i msColumn;
          mem_columns memToOut (Suc i) msColumns columns (included \<or> merged) }"

text \<open>The key of a row and what follows it, and its columns.\<close>

definition row_key :: "bytes \<Rightarrow> (bytes \<times> bytes) go" where
  "row_key row = do { (keyLength, row) \<leftarrow> ReadInt16 row; ReadByteMap row keyLength }"

definition row_columns :: "int list \<Rightarrow> nat \<Rightarrow> bytes \<Rightarrow> (error + vals \<times> bool) go" where
  "row_columns outIdxs numOut row =
     do { (numColumns, row) \<leftarrow> ReadInt16 row;
          r \<leftarrow> col_lengths (nat numColumns) row;
          (case r of
             Inl e \<Rightarrow> Some (Inl e)
           | Inr (ls, row) \<Rightarrow> file_columns outIdxs 0 ls row (replicate numOut []) False) }"

text \<open>
  The loop over the rows of a file.  The result is the state of the caller, the root of the memstore's tree and
  \<open>None\<close> when the end of the file was reached, or the error (possibly none) with which \<open>iterate\<close> returns.
\<close>

function read_rows ::
  "(vals \<Rightarrow> nat \<Rightarrow> bytes \<Rightarrow> (vals \<times> bool) go) \<Rightarrow> int list \<Rightarrow> nat \<Rightarrow> bool \<Rightarrow> int \<Rightarrow> 's onfilerow \<Rightarrow> stream \<Rightarrow> vals node option \<Rightarrow> 's
   \<Rightarrow> ('s \<times> vals node option \<times> error option option) go" where
  "read_rows memToOut outIdxs numOut rawOkay ctx onRow r tree s =
     (case read_full 8 r of
        Inl EOF \<Rightarrow> Some (s, tree, None)
      | Inl ReadError \<Rightarrow> Some (s, tree, Some (Some (OtherError ''Unexpected error reading row length'')))
      | Inr (len, r1) \<Rightarrow>
          let n = unbe len in
          if n < 8 \<or> makeLimit < int n then None
          else (case read_full (n - 8) r1 of
             Inl _ \<Rightarrow> Some (s, tree, Some (Some (OtherError ''Unexpected error while reading row'')))
           | Inr (row, r2) \<Rightarrow>
               do { (key, rest) \<leftarrow> row_key row;
                    let (msColumns, tree1) = (case tree of
                          None \<Rightarrow> (None, None)
                        | Some rt \<Rightarrow> (case Remove ctx key rt of (d, rt') \<Rightarrow> (d, Some rt')));
                    if msColumns = None \<and> rawOkay then
                      do { (s1, cont, err) \<leftarrow> onRow key [] (Some (len @ row)) s;
                           if \<not> cont \<or> err \<noteq> None then Some (s1, tree1, Some err)
                           else read_rows memToOut outIdxs numOut rawOkay ctx onRow r2 tree1 s1 }
                    else
                      do { cols \<leftarrow> row_columns outIdxs numOut rest;
                           (case cols of
                              Inl e \<Rightarrow> Some (s, tree1, Some (Some e))
                            | Inr (columns, included) \<Rightarrow>
                                do { (columns, included) \<leftarrow>
                                       mem_columns memToOut 0 (case msColumns of None \<Rightarrow> [] | Some d \<Rightarrow> d) columns included;
                                     (s1, cont, err) \<leftarrow>
                                       (if included then onRow key columns None s else Some (s, False, None));
                                     if \<not> cont \<or> err \<noteq> None then Some (s1, tree1, Some err)
                                     else read_rows memToOut outIdxs numOut rawOkay ctx onRow r2 tree1 s1 }) } }))"
  by pat_completeness auto
termination
  by (relation "measure (\<lambda>(_, _, _, _, _, _, r, _, _). length (fst r))")
    (auto simp: read_full_def split: prod.splits if_splits)

declare read_rows.simps [simp del]

text \<open>The memstore.\<close>

record 'c memstore =
  ms_fields :: "'c fields"
  ms_tree :: "'c tree"
  ms_offsets :: offset_map
  ms_offsetChanged :: bool

definition memstore_copy :: "'c memstore \<Rightarrow> 'c memstore" where
  "memstore_copy ms = ms\<lparr>ms_tree := (ms_tree ms)\<lparr>t_root := Copy (t_root (ms_tree ms))\<rparr>\<rparr>"

definition opt_fields_Equals :: "('c, 'h) ext \<Rightarrow> 'c field option list \<Rightarrow> 'c fields \<Rightarrow> bool" where
  "opt_fields_Equals X fs gs \<longleftrightarrow> map (opt_field_String X) fs = map (field_String X) gs"

text \<open>The walk over what is left of the memstore; its error is dropped by the caller.\<close>

definition mem_walk_fn ::
  "(vals \<Rightarrow> nat \<Rightarrow> bytes \<Rightarrow> (vals \<times> bool) go) \<Rightarrow> nat \<Rightarrow> 's onfilerow \<Rightarrow> (vals, error, 's go) walkfn" where
  "mem_walk_fn memToOut numOut onRow key msColumns st =
     (case do { s \<leftarrow> st;
                (columns, _) \<leftarrow> mem_columns memToOut 0 msColumns (replicate numOut []) False;
                onRow key columns None s } of
        None \<Rightarrow> (False, False, None, None)
      | Some (s, cont, err) \<Rightarrow> (cont, False, err, Some s))"

datatype filestate = NotExist | OpenError | File bytes

definition with_root :: "'c memstore \<Rightarrow> vals node \<Rightarrow> 'c memstore" where
  "with_root ms rt = ms\<lparr>ms_tree := (ms_tree ms)\<lparr>t_root := rt\<rparr>\<rparr>"

text \<open>The part of \<open>iterate\<close> that reads the file, or the offset file if there is none.\<close>

definition iterate_file ::
  "('c, 'h) ext \<Rightarrow> store_ext \<Rightarrow> 'c fields \<Rightarrow> string \<Rightarrow> filestate \<Rightarrow> bytes option \<Rightarrow> 'c fields
   \<Rightarrow> (vals \<Rightarrow> nat \<Rightarrow> bytes \<Rightarrow> (vals \<times> bool) go) \<Rightarrow> bool \<Rightarrow> int \<Rightarrow> 's onfilerow \<Rightarrow> vals node option \<Rightarrow> 's
   \<Rightarrow> ('s \<times> vals node option \<times> offsets \<times> error option option) go" where
  "iterate_file X E fsFields name file offsetFile outFields memToOut rawOkay ctx onRow tree s =
     (case file of
        NotExist \<Rightarrow>
          do { offs \<leftarrow> (case offsetFile of None \<Rightarrow> Some None | Some data \<Rightarrow> read_offset_file (sx_wal E) data None);
               Some (s, tree, offs, None) }
      | OpenError \<Rightarrow> Some (s, tree, None, Some (Some (OtherError ''Unable to open file'')))
      | File data \<Rightarrow>
          do { fileVersion \<leftarrow> versionFor name;
               inf \<leftarrow> info X (sx_wal E) fileVersion fsFields (sx_unsnappy E data);
               (case inf of
                  Inl e \<Rightarrow> Some (s, tree, None, Some (Some e))
                | Inr (offs, _, fileFields, r) \<Rightarrow>
                    do { (s, tree, returned) \<leftarrow> read_rows memToOut (outIdxsFor X outFields fileFields) (length outFields)
                           (rawOkay \<and> opt_fields_Equals X fileFields outFields) ctx onRow r tree s;
                         Some (s, tree, Some offs, returned) }) })"

definition fs_iterate ::
  "('c, 'h) ext \<Rightarrow> store_ext \<Rightarrow> duration \<Rightarrow> gotime \<Rightarrow> int \<Rightarrow> 'c fields \<Rightarrow> string \<Rightarrow> filestate \<Rightarrow> bytes option \<Rightarrow> 'c fields
   \<Rightarrow> 'c memstore option \<Rightarrow> bool \<Rightarrow> 's onfilerow \<Rightarrow> 's \<Rightarrow> ('s \<times> 'c memstore option \<times> offsets \<times> error option) go" where
  "fs_iterate X E res truncateBefore ctx fsFields name file offsetFile outFields0 ms rawOkay onRow s =
     (let outFields = (if outFields0 = [] then fsFields else outFields0);
          memToOut = (case ms of
             None \<Rightarrow> (\<lambda>_ _ _. None)
           | Some m \<Rightarrow> rowMerger X outFields (outIdxsFor X outFields (map Some (ms_fields m))) res truncateBefore)
      in do {
        (s, tree, offs, returned) \<leftarrow> iterate_file X E fsFields name file offsetFile outFields memToOut rawOkay ctx onRow
            (map_option (\<lambda>m. t_root (ms_tree m)) ms) s;
        (case (ms, tree) of
           (Some m, Some rt) \<Rightarrow>
             (case returned of
                Some err \<Rightarrow> Some (s, Some (with_root m rt), offs, err)
              | None \<Rightarrow>
                  (case Walk ctx (mem_walk_fn memToOut (length outFields) onRow) rt (Some s) of (_, rt', st) \<Rightarrow>
                     do { s \<leftarrow> st;
                          Some (s, Some (with_root m rt'), Advance (sx_wal E) offs (Some (ms_offsets m)), None) }))
         | _ \<Rightarrow> Some (s, None, offs, (case returned of Some err \<Rightarrow> err | None \<Rightarrow> None))) })"

section \<open>Flushing\<close>

definition flush_write ::
  "('c, 'h) ext \<Rightarrow> store_ext \<Rightarrow> duration \<Rightarrow> 'c fields \<Rightarrow> 'c option \<Rightarrow> gotime \<Rightarrow> bool \<Rightarrow> (int \<times> int \<times> bytes list) onfilerow" where
  "flush_write X E res fs filterExpr truncateBefore shouldSort key columns raw = (\<lambda>(hwm, rowCount, out).
     do { (next, b) \<leftarrow> doWrite X E res fs filterExpr truncateBefore shouldSort key columns raw;
          Some ((if hwm < next then next else hwm, rowCount + 1, if b = [] then out else out @ [b]), True, None) })"

text \<open>
  \<open>flush\<close>: the high water mark, the number of rows and the new file, or the error of the iteration; a panic while
  iterating is recovered and becomes an error.
\<close>

definition fs_flush ::
  "('c, 'h) ext \<Rightarrow> store_ext \<Rightarrow> duration \<Rightarrow> gotime \<Rightarrow> int \<Rightarrow> 'c fields \<Rightarrow> string \<Rightarrow> filestate \<Rightarrow> bytes option \<Rightarrow> 'c fields \<Rightarrow> 'c option
   \<Rightarrow> offset_map \<Rightarrow> 'c memstore option \<Rightarrow> bool \<Rightarrow> bool \<Rightarrow> error + int \<times> int \<times> bytes" where
  "fs_flush X E res truncateBefore ctx fsFields name file offsetFile fs filterExpr offs ms shouldSort disallowRaw =
     (case fs_iterate X E res truncateBefore ctx fsFields name file offsetFile fs ms (\<not> disallowRaw)
             (flush_write X E res fs filterExpr truncateBefore shouldSort) (0, 0, []) of
        None \<Rightarrow> Inl (OtherError ''Recovered from panic on iterating for flush'')
      | Some (_, _, _, Some e) \<Rightarrow> Inl e
      | Some ((hwm, rowCount, out), _, _, None) \<Rightarrow>
          Inr (hwm, rowCount, sx_snappy E (headerOf X (sx_wal E) fs offs @ concat (if shouldSort then sx_emsort E out else out))))"

end
