(* ===== verification/RowStoreOps.thy ===== *)
theory RowStoreOps
  imports RowStore
begin

text \<open>
  The life of a row store (row_store.go): opening it, the events that its goroutine handles, and the removal
  of old files.  The select loop of \<open>processInserts\<close> handles one event at a time, so the store is a state and every
  event a function on it; what the events read from the clock, the scheduler of sorts and the file system is part of
  the event.
\<close>

section \<open>State\<close>

record 'c rowstore =
  rs_fields :: "'c fields"
  rs_mem :: "'c memstore"
  rs_fsFields :: "'c fields"
  rs_fileName :: string
  rs_file :: filestate
  rs_offsetFile :: "bytes option"
  rs_flushCount :: int
  rs_hwmDisk :: int
  rs_hwmMemory :: int

record insert_msg =
  in_key :: "bytes option"
  in_vals :: bytes
  in_dims :: "bytes option"
  in_offset :: offset
  in_source :: int

definition newMemStore :: "('c, 'h) ext \<Rightarrow> duration \<Rightarrow> 'c fields \<Rightarrow> offset_map \<Rightarrow> 'c memstore" where
  "newMemStore X res fs offs =
     \<lparr> ms_fields = fs, ms_tree = New X (Exprs fs) [] res 0 zeroTime zeroTime 0, ms_offsets = offs, ms_offsetChanged = False \<rparr>"

definition updateHighWaterMark :: "int \<Rightarrow> int \<Rightarrow> int" where
  "updateHighWaterMark ts mark = (if mark < ts then ts else mark)"

section \<open>Inserts\<close>

text \<open>A message without a key only records the offset.\<close>

definition rs_insert :: "('c, 'h) ext \<Rightarrow> store_ext \<Rightarrow> insert_msg \<Rightarrow> 'c rowstore \<Rightarrow> 'c rowstore go" where
  "rs_insert X E ins rs =
     (let ms = (rs_mem rs)\<lparr>ms_offsets := AList.update (in_source ins) (in_offset ins) (ms_offsets (rs_mem rs)),
                            ms_offsetChanged := True\<rparr>
      in case in_key ins of
           None \<Rightarrow> Some (rs\<lparr>rs_mem := ms\<rparr>)
         | Some key \<Rightarrow>
             do { (tree, _) \<leftarrow> tree_Update X (sx_get E) (ms_tree ms) key [] (Some (in_vals ins)) (map_option (sx_get E) (in_dims ins));
                  ts \<leftarrow> TimeInt (in_vals ins);
                  Some (rs\<lparr>rs_mem := ms\<lparr>ms_tree := tree\<rparr>, rs_hwmMemory := updateHighWaterMark ts (rs_hwmMemory rs)\<rparr>) })"

section \<open>Flushes\<close>

text \<open>What an attempt to flush reads from its surroundings.\<close>

record flush_env =
  fe_truncateBefore :: gotime
  fe_ctx :: int
  fe_nanos :: int
  fe_shouldSort :: bool

definition doProcessFlush ::
  "('c, 'h) ext \<Rightarrow> store_ext \<Rightarrow> duration \<Rightarrow> bool \<Rightarrow> flush_env \<Rightarrow> 'c rowstore \<Rightarrow> 'c rowstore \<times> bool" where
  "doProcessFlush X E res allowSort env rs =
     (let shouldSort = allowSort \<and> fe_shouldSort env;
          disallowRaw = (trem (rs_flushCount rs) 10 = 9);
          rs1 = rs\<lparr>rs_flushCount := rs_flushCount rs + 1\<rparr>
      in case fs_flush X E res (fe_truncateBefore env) (fe_ctx env) (rs_fsFields rs) (rs_fileName rs) (rs_file rs)
                (rs_offsetFile rs) (rs_fields rs) None (ms_offsets (rs_mem rs)) (Some (rs_mem rs)) shouldSort disallowRaw of
           Inl _ \<Rightarrow> (rs1, False)
         | Inr (hwm, _, out) \<Rightarrow>
             (rs1\<lparr>rs_fsFields := rs_fields rs, rs_fileName := fileStoreName (fe_nanos env), rs_file := File out,
                  rs_mem := newMemStore X res (rs_fields rs) (ms_offsets (rs_mem rs)),
                  rs_hwmDisk := updateHighWaterMark hwm (rs_hwmDisk rs)\<rparr>, True))"

text \<open>Three attempts at most; after the last failure the process panics.\<close>

fun processFlush ::
  "('c, 'h) ext \<Rightarrow> store_ext \<Rightarrow> duration \<Rightarrow> bool \<Rightarrow> flush_env list \<Rightarrow> 'c rowstore \<Rightarrow> 'c rowstore go" where
  "processFlush X E res allowSort [] rs = None"
| "processFlush X E res allowSort (env # envs) rs =
     (case doProcessFlush X E res allowSort env rs of
        (rs1, True) \<Rightarrow> Some rs1
      | (rs1, False) \<Rightarrow> processFlush X E res allowSort envs rs1)"

text \<open>The closure \<open>flush\<close>: whether there was anything to flush, and the new state.\<close>

definition flush ::
  "('c, 'h) ext \<Rightarrow> store_ext \<Rightarrow> duration \<Rightarrow> bool \<Rightarrow> flush_env \<times> flush_env \<times> flush_env \<Rightarrow> 'c rowstore \<Rightarrow> (bool \<times> 'c rowstore) go" where
  "flush X E res allowSort envs rs =
     (if tree_Length (ms_tree (rs_mem rs)) = 0 then
        Some (False,
          if ms_offsetChanged (rs_mem rs)
          then rs\<lparr>rs_offsetFile := Some (writeOffsets (ms_offsets (rs_mem rs))), rs_mem := (rs_mem rs)\<lparr>ms_offsetChanged := False\<rparr>\<rparr>
          else rs)
      else case envs of (e1, e2, e3) \<Rightarrow>
        do { rs \<leftarrow> processFlush X E res allowSort [e1, e2, e3] rs; Some (True, rs) })"

text \<open>The time to the next flush after one that took \<open>flushDuration\<close>.\<close>

definition nextFlushInterval :: "duration \<Rightarrow> duration \<Rightarrow> duration \<Rightarrow> duration" where
  "nextFlushInterval minFlushLatency maxFlushLatency flushDuration =
     (let flushInterval = wrap64 (flushDuration * 10) in
      if maxFlushLatency < flushInterval then maxFlushLatency
      else if flushInterval < minFlushLatency then minFlushLatency else flushInterval)"

section \<open>Events\<close>

datatype 'c rs_event =
    Inserted insert_msg
  | FlushDue bool "flush_env \<times> flush_env \<times> flush_env"
  | FieldsUpdated "'c fields" "flush_env \<times> flush_env \<times> flush_env"

fun rs_step :: "('c, 'h) ext \<Rightarrow> store_ext \<Rightarrow> duration \<Rightarrow> 'c rs_event \<Rightarrow> 'c rowstore \<Rightarrow> 'c rowstore go" where
  "rs_step X E res (Inserted ins) rs = rs_insert X E ins rs"
| "rs_step X E res (FlushDue allowSort envs) rs = map_option snd (flush X E res allowSort envs rs)"
| "rs_step X E res (FieldsUpdated fs envs) rs =
     (let offs = ms_offsets (rs_mem rs) in
      do { (flushed, rs) \<leftarrow> flush X E res False envs (rs\<lparr>rs_fields := fs\<rparr>);
           Some (if flushed then rs else rs\<lparr>rs_mem := newMemStore X res fs offs\<rparr>) })"

fun processInserts :: "('c, 'h) ext \<Rightarrow> store_ext \<Rightarrow> duration \<Rightarrow> 'c rs_event list \<Rightarrow> 'c rowstore \<Rightarrow> 'c rowstore go" where
  "processInserts X E res [] rs = Some rs"
| "processInserts X E res (ev # evs) rs = do { rs \<leftarrow> rs_step X E res ev rs; processInserts X E res evs rs }"

section \<open>Queries\<close>

text \<open>\<open>rowStore.iterate\<close>: the memstore is a copy, taken when the iteration starts.\<close>

definition rs_iterate ::
  "('c, 'h) ext \<Rightarrow> store_ext \<Rightarrow> duration \<Rightarrow> ('s \<Rightarrow> bool) \<Rightarrow> gotime \<Rightarrow> int \<Rightarrow> 'c fields \<Rightarrow> bool
   \<Rightarrow> (bytes \<Rightarrow> vals \<Rightarrow> 's \<Rightarrow> ('s \<times> bool \<times> error option) go) \<Rightarrow> 'c rowstore \<Rightarrow> 's \<Rightarrow> ('s \<times> offsets \<times> error option) go" where
  "rs_iterate X E res timedOut truncateBefore ctx outFields includeMemStore onValue rs s =
     do { (s, _, offs, err) \<leftarrow> fs_iterate X E res truncateBefore ctx (rs_fsFields rs) (rs_fileName rs) (rs_file rs) (rs_offsetFile rs)
            outFields (if includeMemStore then Some (memstore_copy (rs_mem rs)) else None) False
            (\<lambda>key columns _ s. do { (s, cont, err) \<leftarrow> onValue key columns s; Some (s, ProceedAfter timedOut s cont err) }) s;
          Some (s, offs, err) }"

section \<open>Opening and cleaning up\<close>

definition offsetFilename :: string where "offsetFilename = ''offset''"

text \<open>
  The search of \<open>openRowStore\<close>, newest file first: the name of the file to use (empty if there is none, and the name of a
  removed file if nothing follows it), the offsets, and the corrupted files that are removed on the way.
\<close>

fun find_store :: "store_ext \<Rightarrow> string \<Rightarrow> (string \<times> filestate) list \<Rightarrow> offset_map \<Rightarrow> (error + string \<times> offset_map \<times> string list) go" where
  "find_store E existing [] offs = Some (Inr (existing, offs, []))"
| "find_store E existing ((name, file) # files) offs =
     (if name = offsetFilename then
        do { offs \<leftarrow> (case file of File data \<Rightarrow> map_option entries (read_offset_file (sx_wal E) data (Some offs)) | _ \<Rightarrow> Some offs);
             find_store E [] files offs }
      else case file of
        File data \<Rightarrow>
          do { fileVersion \<leftarrow> versionFor name;
               r \<leftarrow> readWALOffsets (sx_wal E) fileVersion (sx_unsnappy E data);
               (case r of
                  Inl _ \<Rightarrow> do { rest \<leftarrow> find_store E name files offs;
                                Some (case rest of Inl e \<Rightarrow> Inl e | Inr (n, os, rm) \<Rightarrow> Inr (n, os, name # rm)) }
                | Inr new \<Rightarrow> Some (Inr (name, entries (Advance (sx_wal E) (Some new) (Some offs)), []))) }
      | _ \<Rightarrow> Some (Inl (OtherError ''Unable to open file'')))"

definition openRowStore :: "store_ext \<Rightarrow> (string \<times> filestate) list \<Rightarrow> (error + string \<times> offset_map \<times> string list) go" where
  "openRowStore E files = find_store E [] (rev files) []"

text \<open>
  One tick of \<open>removeOldFiles\<close>: the files that are removed, given the names in their order and the number of
  iterations in progress that is recorded under a name.
\<close>

fun old_files :: "(string \<Rightarrow> nat) \<Rightarrow> bool \<Rightarrow> string list \<Rightarrow> string list" where
  "old_files iterations foundLatest [] = []"
| "old_files iterations foundLatest (name # names) =
     (if name = offsetFilename then old_files iterations foundLatest names
      else if \<not> foundLatest then old_files iterations True names
      else if iterations name = 0 then name # old_files iterations True names
      else old_files iterations True names)"

definition removeOldFiles :: "(string \<Rightarrow> nat) \<Rightarrow> string list \<Rightarrow> string list" where
  "removeOldFiles iterations names = old_files iterations False (drop 2 (rev names))"

end
