(* ===== verification/Codec.thy ===== *)
theory Codec
  imports Encoding
begin

text \<open>
  The contract of an encoding that is read from the front of a buffer: what was written is read back, and what follows is left for
  the next reader.  Pairs and lists of such encodings have the contract too, and what is read back determines what was written.
\<close>

fun dec_list :: "(bytes \<Rightarrow> ('a \<times> bytes) go) \<Rightarrow> nat \<Rightarrow> bytes \<Rightarrow> ('a list \<times> bytes) go" where
  "dec_list dec 0 b = Some ([], b)"
| "dec_list dec (Suc n) b = do { (x, b) \<leftarrow> dec b; (xs, b) \<leftarrow> dec_list dec n b; Some (x # xs, b) }"

definition dec_pair :: "(bytes \<Rightarrow> ('a \<times> bytes) go) \<Rightarrow> (bytes \<Rightarrow> ('b \<times> bytes) go) \<Rightarrow> bytes \<Rightarrow> (('a \<times> 'b) \<times> bytes) go" where
  "dec_pair decA decB b = do { (x, b) \<leftarrow> decA b; (y, b) \<leftarrow> decB b; Some ((x, y), b) }"

locale prefix_codec =
  fixes enc :: "'a \<Rightarrow> bytes" and dec :: "bytes \<Rightarrow> ('a \<times> bytes) go" and ok :: "'a \<Rightarrow> bool"
  assumes dec_enc: "ok x \<Longrightarrow> dec (enc x @ r) = Some (x, r)"
begin

lemma dec_whole: "ok x \<Longrightarrow> dec (enc x) = Some (x, [])"
  using dec_enc [of x "[]"] by simp

lemma enc_unique:
  assumes "ok x" "ok y" "enc x @ r = enc y @ q" shows "x = y \<and> r = q"
  by (metis assms dec_enc option.inject prod.inject)

lemma dec_list_enc: "list_all ok xs \<Longrightarrow> dec_list dec (length xs) (concat (map enc xs) @ r) = Some (xs, r)"
  by (induction xs) (simp_all add: dec_enc)

lemma list_unique:
  assumes "list_all ok xs" "list_all ok ys" "length xs = length ys" "concat (map enc xs) = concat (map enc ys)"
  shows "xs = ys"
  by (metis assms dec_list_enc option.inject prod.inject)

end

locale codec_pair = fst: prefix_codec encA decA okA + snd: prefix_codec encB decB okB
  for encA :: "'a \<Rightarrow> bytes" and decA okA and encB :: "'b \<Rightarrow> bytes" and decB okB

sublocale codec_pair \<subseteq> pair: prefix_codec "\<lambda>(x, y). encA x @ encB y" "dec_pair decA decB" "\<lambda>(x, y). okA x \<and> okB y"
  by unfold_locales (auto simp: dec_pair_def fst.dec_enc snd.dec_enc)

text \<open>Bytes of a fixed number.\<close>

definition read_bytes :: "nat \<Rightarrow> bytes \<Rightarrow> (bytes \<times> bytes) go" where
  "read_bytes n b = do { x \<leftarrow> slice_to (int n) b; r \<leftarrow> slice_from (int n) b; Some (x, r) }"

interpretation fixed_bytes: prefix_codec "\<lambda>b. b" "read_bytes n" "\<lambda>b. length b = n" for n
  by unfold_locales (simp add: read_bytes_def slice_to_def slice_from_def)

end
