(* ===== verification/RowStoreLaws.thy ===== *)
theory RowStoreLaws
  imports RowStoreOps Codec
begin

text \<open>
  Laws of the file format: what is written is read back, number by number, column by column, row by row and
  with the header, and the loop over the rows of a well-formed file in closed form.
\<close>

section \<open>Numbers\<close>

lemma int64_bytes_be: "int64_bytes i = be 8 (unat (word_of_int i :: u64))"
  by (simp add: int64_bytes_def WriteInt64_def PutUint64_def slice_from_def width_defs)

lemma ReadInt64_be [codec_simps]: "n < 2 ^ 63 \<Longrightarrow> ReadInt64 (be 8 n @ r) = Some (int n, r)"
proof -
  assume n: "n < 2 ^ 63"
  have "unat (word_of_int (int n) :: u64) = n"
    using n by (simp add: unsigned_of_nat take_bit_nat_eq_self)
  then have b: "be 8 n = be 8 (unat (word_of_int (int n) :: u64))" by simp
  have "in64 (int n)" using n by (simp add: in64_def)
  then show ?thesis unfolding b
    using sint_word_of_int64 [of "int n"]
    by (simp only: ReadInt64_def Uint64_be) (simp add: slice_from_def width_defs)
qed

lemma ReadInt64_int64_bytes [codec_simps]: "in64 i \<Longrightarrow> ReadInt64 (int64_bytes i @ r) = Some (i, r)"
  by (simp add: int64_bytes_be ReadInt64_def slice_from_def width_defs sint_word_of_int64)

lemma ReadInt16_be [codec_simps]: "n < 2 ^ 16 \<Longrightarrow> ReadInt16 (be 2 n @ r) = Some (int n, r)"
  by (simp add: ReadInt16_def Uint16_def slice_from_def width_defs unbe_be)

lemma length_int64_bytes [simp]: "length (int64_bytes i) = 8"
  by (simp add: int64_bytes_be)

interpretation int64_codec: prefix_codec int64_bytes ReadInt64 in64
  by unfold_locales (rule ReadInt64_int64_bytes)

section \<open>Offsets\<close>

lemma update_snoc: "k \<notin> fst ` set m \<Longrightarrow> AList.update k v m = m @ [(k, v)]"
  by (induction m) auto

definition offsets_ok :: "wal_ext \<Rightarrow> offset_map \<Rightarrow> bool" where
  "offsets_ok wx offs \<longleftrightarrow> distinct (map fst offs) \<and> list_all (\<lambda>(s, off). in64 s \<and> length off = OffsetSize wx) offs \<and>
     int (length offs) < 2 ^ 63"

interpretation offset_entry: codec_pair int64_bytes ReadInt64 in64 "\<lambda>b. b" "read_bytes n" "\<lambda>b. length b = n" for n ..

text \<open>The loop collects the entries into a map.\<close>

lemma read_offsets_entries:
  "read_offsets wx n b acc = do { (es, r) \<leftarrow> dec_list (dec_pair ReadInt64 (read_bytes (OffsetSize wx))) n b;
     Some (foldl (\<lambda>m (s, off). AList.update s off m) acc es, r) }"
  by (induction wx n b acc rule: read_offsets.induct) (auto simp: dec_pair_def read_bytes_def split: bind_splits)

lemma update_entries: "distinct (map fst (acc @ es)) \<Longrightarrow> foldl (\<lambda>m (s, off). AList.update s off m) acc es = acc @ es"
  by (induction es arbitrary: acc) (auto simp: update_snoc)

lemma read_offsets_written:
  assumes "list_all (\<lambda>(s, off). in64 s \<and> length off = OffsetSize wx) offs" "distinct (map fst (acc @ offs))"
  shows "read_offsets wx (length offs) (concat (map (\<lambda>(s, off). int64_bytes s @ off) offs) @ rest) acc = Some (acc @ offs, rest)"
  by (simp add: read_offsets_entries offset_entry.pair.dec_list_enc [OF assms(1)] update_entries [OF assms(2)])

lemma readOffsets_written:
  assumes "offsets_ok wx offs"
  shows "readOffsets wx CurrentFileVersion (writeOffsets offs @ rest) = Some (offs, rest)"
  using assms read_offsets_written [of wx offs "[]" rest]
  by (simp add: readOffsets_def writeOffsets_def CurrentFileVersion_def FileVersion_5_def offsets_ok_def
      ReadInt64_int64_bytes in64_def)

lemma length_writeOffsets:
  assumes "offsets_ok wx offs"
  shows "length (writeOffsets offs) = 8 + length offs * (8 + OffsetSize wx)"
proof -
  have "list_all (\<lambda>(s, off). in64 s \<and> length off = OffsetSize wx) offs \<Longrightarrow>
      length (concat (map (\<lambda>(s, off). int64_bytes s @ off) offs)) = length offs * (8 + OffsetSize wx)"
    by (induction offs) (auto simp: algebra_simps)
  then show ?thesis using assms by (simp add: writeOffsets_def offsets_ok_def)
qed

section \<open>The header\<close>

lemma split_on_not_Nil: "split_on d s \<noteq> []"
  by (induction s) (auto split: list.split)

lemma split_on_single: "d \<notin> set s \<Longrightarrow> split_on d s = [s]"
  by (induction s) auto

lemma split_on_append: "d \<notin> set s \<Longrightarrow> split_on d (s @ d # t) = s # split_on d t"
  by (induction s) auto

lemma split_join:
  "ss \<noteq> [] \<Longrightarrow> \<forall>s \<in> set ss. d \<notin> set s \<Longrightarrow> split_on d (join_with [d] ss) = ss"
  by (induction "[d]" ss rule: join_with.induct) (auto simp: split_on_single split_on_append)

lemma bytes_string_bytes [simp]: "bytes_string (string_bytes s) = s"
proof -
  have "char_of (unat (of_char c :: byte)) = c" for c
  proof -
    have "unat (of_char c :: byte) = (of_char c :: nat)"
      by (simp add: of_char_def horner_sum_simps)
    then show ?thesis by simp
  qed
  then show ?thesis by (induction s) (auto simp: bytes_string_def string_bytes_def)
qed

definition fields_ok :: "('c, 'h) ext \<Rightarrow> 'c fields \<Rightarrow> bool" where
  "fields_ok X fs \<longleftrightarrow> fs \<noteq> [] \<and> distinct (map (field_String X) fs) \<and>
     list_all (\<lambda>f. CHR ''|'' \<notin> set (field_String X f)) fs \<and> int (length fs) < 2 ^ 16"

definition header_fits :: "('c, 'h) ext \<Rightarrow> wal_ext \<Rightarrow> 'c fields \<Rightarrow> offset_map \<Rightarrow> bool" where
  "header_fits X wx fs offs \<longleftrightarrow>
     int (8 + length offs * (8 + OffsetSize wx) + length (join_with ''|'' (map (field_String X) fs))) < 2 ^ 32"

lemma find_distinct:
  "distinct (map g xs) \<Longrightarrow> x \<in> set xs \<Longrightarrow> find (\<lambda>y. g x = g y) xs = Some x"
  by (induction xs) (auto, metis imageI)

lemma info_header:
  assumes "offsets_ok wx offs" "fields_ok X fs" "header_fits X wx fs offs"
  shows "\<exists>str. info X wx CurrentFileVersion fs (headerOf X wx fs offs @ rest, clean) = Some (Inr (offs, str, map Some fs, (rest, clean)))"
proof -
  let ?str = "join_with ''|'' (map (field_String X) fs)"
  let ?n = "8 + length offs * (8 + OffsetSize wx) + length ?str"
  have delim: "fieldsDelim CurrentFileVersion = ''|''"
    by (simp add: fieldsDelim_def CurrentFileVersion_def)
  have h: "headerOf X wx fs offs = be 4 ?n @ writeOffsets offs @ string_bytes ?str"
    by (simp add: headerOf_def delim string_bytes_def)
  have "?n < 2 ^ 32" using assms(3) unfolding header_fits_def by (metis of_nat_less_iff of_nat_numeral of_nat_power)
  then have n: "unbe (be 4 ?n) = ?n" by (simp add: unbe_be)
  have len: "length (writeOffsets offs @ string_bytes ?str) = ?n"
    by (simp add: length_writeOffsets [OF assms(1)] string_bytes_def)
  have r1: "read_full 4 (headerOf X wx fs offs @ rest, clean) =
      Inr (be 4 ?n, (writeOffsets offs @ string_bytes ?str) @ rest, clean)"
    by (simp add: h read_full_def)
  have r2: "read_full ?n ((writeOffsets offs @ string_bytes ?str) @ rest, clean) =
      Inr (writeOffsets offs @ string_bytes ?str, rest, clean)"
    using len by (simp add: read_full_def del: append_assoc)
  have "split_fields ''|'' ?str = map (field_String X) fs"
    using assms(2) by (simp add: split_fields_def fields_ok_def) (subst split_join; force simp: list_all_iff)
  moreover have "map (file_field X fs) (map (field_String X) fs) = map Some fs"
    using assms(2) find_distinct [of "field_String X" fs] by (auto simp: file_field_def fields_ok_def)
  ultimately show ?thesis
    unfolding info_def r1 by (simp add: n r2 readOffsets_written [OF assms(1)] delim del: map_map append_assoc)
qed

lemma index_where_distinct:
  assumes "distinct (map g xs)" "i < length xs"
  shows "index_where (\<lambda>y. g (xs ! i) = g y) k xs = k + int i"
  using assms
proof (induction xs arbitrary: i k)
  case (Cons x xs)
  show ?case
  proof (cases i)
    case (Suc j)
    have "g (xs ! j) \<in> set (map g xs)" using Cons.prems Suc by simp
    then have "g (xs ! j) \<noteq> g x" using Cons.prems by (metis distinct.simps(2) list.simps(9))
    then show ?thesis using Cons Suc by simp
  qed simp
qed simp

lemma outIdxs_same:
  assumes "distinct (map (field_String X) fs)"
  shows "outIdxsFor X fs (map Some fs) = map int [0..<length fs]"
  using index_where_distinct [OF assms, of _ 0]
  by (auto simp: outIdxsFor_def opt_field_String_def intro!: nth_equalityI)

section \<open>Rows\<close>

definition row_fits :: "nat \<Rightarrow> row \<Rightarrow> bool" where
  "row_fits n kv \<longleftrightarrow> int (length (fst kv)) < 2 ^ 16 \<and> length (snd kv) = n \<and> int (rowLength (fst kv) (snd kv)) \<le> makeLimit"

definition row_bytes :: "row \<Rightarrow> bytes" where "row_bytes kv = encode_row (fst kv) (snd kv)"

definition row_body :: "row \<Rightarrow> bytes" where
  "row_body kv = be 2 (length (fst kv)) @ fst kv @ be 2 (length (snd kv)) @
     concat (map (\<lambda>seq. be 8 (length seq)) (snd kv)) @ concat (snd kv)"

lemma row_bytes_split: "row_bytes kv = be 8 (rowLength (fst kv) (snd kv)) @ row_body kv"
  by (simp add: row_bytes_def row_body_def encode_row_def)

lemma length_row_body: "length (row_body kv) = rowLength (fst kv) (snd kv) - 8"
proof -
  have "length (concat (map (\<lambda>seq. be 8 (length seq)) cs)) + length (concat cs) = sum_list (map (\<lambda>seq. 8 + length seq) cs)" for cs
    by (induction cs) auto
  then show ?thesis by (simp add: row_body_def rowLength_def)
qed

lemma rowLength_ge: "8 \<le> rowLength key cs" "seq \<in> set cs \<Longrightarrow> length seq \<le> rowLength key cs"
proof -
  have "seq \<in> set cs \<Longrightarrow> length seq \<le> sum_list (map (\<lambda>seq. 8 + length seq) cs)"
    by (induction cs) auto
  then show "seq \<in> set cs \<Longrightarrow> length seq \<le> rowLength key cs" by (simp add: rowLength_def)
qed (simp add: rowLength_def)

lemma read_row:
  assumes "row_fits n kv"
  shows "read_full 8 (row_bytes kv @ rest, clean) = Inr (be 8 (rowLength (fst kv) (snd kv)), (row_body kv @ rest, clean))"
    "unbe (be 8 (rowLength (fst kv) (snd kv))) = rowLength (fst kv) (snd kv)"
    "read_full (rowLength (fst kv) (snd kv) - 8) (row_body kv @ rest, clean) = Inr (row_body kv, (rest, clean))"
  using assms length_row_body [of kv]
  by (simp_all add: row_bytes_split read_full_def unbe_be row_fits_def makeLimit_def)

lemma row_key_body:
  "row_fits n kv \<Longrightarrow> row_key (row_body kv) = Some (fst kv, be 2 (length (snd kv)) @
     concat (map (\<lambda>seq. be 8 (length seq)) (snd kv)) @ concat (snd kv))"
  by (simp add: row_key_def row_body_def row_fits_def ReadInt16_be ReadByteMap_def slice_to_def slice_from_def)

lemma col_lengths_written:
  "\<forall>seq \<in> set cs. length seq < 2 ^ 63 \<Longrightarrow>
   col_lengths (length cs) (concat (map (\<lambda>seq. be 8 (length seq)) cs) @ rest) = Some (Inr (map (\<lambda>seq. int (length seq)) cs, rest))"
  by (induction cs) (auto simp: ReadInt64_be)

lemma file_columns_written:
  assumes "length done' = i" "length (done' @ cs) = n"
  shows "file_columns (map int [0..<n]) i (map (\<lambda>seq. int (length seq)) cs) (concat cs) (done' @ replicate (length cs) []) inc =
    Some (Inr (done' @ cs, inc \<or> cs \<noteq> []))"
  using assms
proof (induction cs arbitrary: done' i inc)
  case (Cons seq cs)
  have "rowMapper (map int [0..<n]) (done' @ replicate (length (seq # cs)) []) i seq =
      Some ((done' @ [seq]) @ replicate (length cs) [], True)"
    using Cons.prems by (simp add: rowMapper_def nth_go_def set_at_def list_update_append)
  moreover have "ReadSequence (concat (seq # cs)) (int (length seq)) = Some (seq, concat cs)"
    by (simp add: ReadSequence_def Read_def slice_to_def slice_from_def)
  ultimately show ?case using Cons.IH [of "done' @ [seq]" "Suc i" True] Cons.prems by simp
qed simp

lemma row_col_lengths:
  assumes "row_fits n kv"
  shows "col_lengths n (concat (map (\<lambda>seq. be 8 (length seq)) (snd kv)) @ concat (snd kv)) =
      Some (Inr (map (\<lambda>seq. int (length seq)) (snd kv), concat (snd kv)))"
proof -
  have "length seq < 2 ^ 63" if "seq \<in> set (snd kv)" for seq
    using rowLength_ge(2) [OF that, of "fst kv"] assms(1) by (simp add: row_fits_def makeLimit_def)
  then show ?thesis
    using col_lengths_written [of "snd kv" "concat (snd kv)"] assms(1) by (simp add: row_fits_def)
qed

lemma row_columns_written:
  assumes "row_fits n kv" "n < 2 ^ 16" "0 < n"
  shows "row_columns (map int [0..<n]) n (be 2 (length (snd kv)) @
     concat (map (\<lambda>seq. be 8 (length seq)) (snd kv)) @ concat (snd kv)) = Some (Inr (snd kv, True))"
  using row_col_lengths [OF assms(1)] file_columns_written [of "[]" 0 "snd kv" n False] assms
  by (auto simp: row_columns_def ReadInt16_be row_fits_def)

section \<open>The loops in closed form\<close>

text \<open>The row of the memstore for a key, and the tree in which it is marked as removed.\<close>

definition mem_lookup :: "int \<Rightarrow> bytes \<Rightarrow> vals node option \<Rightarrow> vals option \<times> vals node option" where
  "mem_lookup ctx key tree = (case tree of None \<Rightarrow> (None, None) | Some rt \<Rightarrow> (case Remove ctx key rt of (d, rt') \<Rightarrow> (d, Some rt')))"

text \<open>What the loop over a well-formed file does with a callback \<open>f\<close> that always asks to go on.\<close>

type_synonym 's rowfun = "bytes \<Rightarrow> vals \<Rightarrow> bytes option \<Rightarrow> 's \<Rightarrow> 's go"

fun file_fold ::
  "(vals \<Rightarrow> nat \<Rightarrow> bytes \<Rightarrow> (vals \<times> bool) go) \<Rightarrow> bool \<Rightarrow> int \<Rightarrow> 's rowfun \<Rightarrow> row list \<Rightarrow> vals node option \<Rightarrow> 's \<Rightarrow> ('s \<times> vals node option) go" where
  "file_fold m raw ctx f [] tree s = Some (s, tree)"
| "file_fold m raw ctx f (kv # rows) tree s =
     (let (d, tree1) = mem_lookup ctx (fst kv) tree in
      if d = None \<and> raw then do { s \<leftarrow> f (fst kv) [] (Some (row_bytes kv)) s; file_fold m raw ctx f rows tree1 s }
      else do { (cols, _) \<leftarrow> mem_columns m 0 (case d of None \<Rightarrow> [] | Some x \<Rightarrow> x) (snd kv) True;
                s \<leftarrow> f (fst kv) cols None s;
                file_fold m raw ctx f rows tree1 s })"

lemma mem_columns_included: "mem_columns m i ds cs True = Some (cs', b) \<Longrightarrow> b"
  by (induction m i ds cs True rule: mem_columns.induct) (auto simp: bind_Some_iff)

lemma read_rows_row:
  assumes fits: "row_fits n kv" and n: "0 < n" "n < 2 ^ 16"
    and d: "mem_lookup ctx (fst kv) tree = (d, tree1)"
  shows "read_rows m (map int [0..<n]) n raw ctx onRow (row_bytes kv @ rest, True) tree s =
    (if d = None \<and> raw then
       do { (s1, cont, err) \<leftarrow> onRow (fst kv) [] (Some (row_bytes kv)) s;
            if \<not> cont \<or> err \<noteq> None then Some (s1, tree1, Some err)
            else read_rows m (map int [0..<n]) n raw ctx onRow (rest, True) tree1 s1 }
     else
       do { (columns, included) \<leftarrow> mem_columns m 0 (case d of None \<Rightarrow> [] | Some x \<Rightarrow> x) (snd kv) True;
            (s1, cont, err) \<leftarrow> (if included then onRow (fst kv) columns None s else Some (s, False, None));
            if \<not> cont \<or> err \<noteq> None then Some (s1, tree1, Some err)
            else read_rows m (map int [0..<n]) n raw ctx onRow (rest, True) tree1 s1 })"
proof -
  have d': "(case tree of None \<Rightarrow> (None, None) | Some rt \<Rightarrow> case Remove ctx (fst kv) rt of (d, rt') \<Rightarrow> (d, Some rt')) = (d, tree1)"
    using d by (simp add: mem_lookup_def)
  have lim: "\<not> (rowLength (fst kv) (snd kv) < 8 \<or> makeLimit < int (rowLength (fst kv) (snd kv)))"
    using fits rowLength_ge(1) [of "fst kv" "snd kv"] by (simp add: row_fits_def)
  show ?thesis
    by (subst read_rows.simps) (simp only: read_row [OF fits] Let_def lim row_key_body [OF fits] d' row_columns_written [OF fits n(2,1)]
        row_bytes_split [symmetric] sum.case prod.case if_False option.case option.distinct bind.bind_lunit)
qed

text \<open>A callback that always asks to go on.\<close>

definition go_on :: "'s rowfun \<Rightarrow> 's onfilerow" where
  "go_on f k c raw s = map_option (\<lambda>s. (s, True, None)) (f k c raw s)"

lemma go_on_simps [simp]:
  "f k c raw s = None \<Longrightarrow> go_on f k c raw s = None"
  "f k c raw s = Some s' \<Longrightarrow> go_on f k c raw s = Some (s', True, None)"
  by (simp_all add: go_on_def)

lemma read_rows_written:
  assumes "list_all (row_fits n) rows" and n: "0 < n" "n < 2 ^ 16"
  shows "read_rows m (map int [0..<n]) n raw ctx (go_on f) (concat (map row_bytes rows), True) tree s =
    map_option (\<lambda>(s, tree). (s, tree, None)) (file_fold m raw ctx f rows tree s)"
  using assms(1)
proof (induction rows arbitrary: tree s)
  case Nil
  then show ?case by (subst read_rows.simps) (simp add: read_full_def)
next
  case (Cons kv rows)
  then have fits: "row_fits n kv" by simp
  obtain d tree1 where d: "mem_lookup ctx (fst kv) tree = (d, tree1)" by fastforce
  note IH = Cons.IH [OF Cons.prems [simplified, THEN conjunct2]]
  show ?case
  proof (cases "d = None \<and> raw")
    case True
    then show ?thesis using IH
      by (cases "f (fst kv) [] (Some (row_bytes kv)) s") (simp_all add: read_rows_row [OF fits n d] d)
  next
    case False
    then have no: "(d = None \<and> raw) = False" by simp
    show ?thesis
    proof (cases "mem_columns m 0 (case d of None \<Rightarrow> [] | Some x \<Rightarrow> x) (snd kv) True")
      case None
      then show ?thesis by (simp add: read_rows_row [OF fits n d] d no)
    next
      case (Some p)
      then obtain cols where p: "p = (cols, True)" by (cases p) (auto dest: mem_columns_included)
      then show ?thesis using Some
        by (cases "f (fst kv) cols None s") (simp_all add: read_rows_row [OF fits n d] d no IH)
    qed
  qed
qed

section \<open>The walk in closed form\<close>

fun fold_go :: "('a \<Rightarrow> 's \<Rightarrow> 's go) \<Rightarrow> 'a list \<Rightarrow> 's \<Rightarrow> 's go" where
  "fold_go f [] s = Some s"
| "fold_go f (x # xs) s = do { s \<leftarrow> f x s; fold_go f xs s }"

lemma walk_queue_go:
  assumes "\<And>k d s. fn k d (Some s) = (case step (k, d) s of None \<Rightarrow> (False, False, None, None) | Some s' \<Rightarrow> (True, False, None, Some s'))"
  shows "snd (snd (walk_queue ctx fn q (Some s))) = fold_go step (rows_of ctx (map snd (bfs q))) s"
proof (induction q arbitrary: s rule: bfs.induct)
  case 1
  then show ?case by (simp add: rows_of_def)
next
  case (2 pn q)
  show ?case
  proof (cases "ndata (snd pn)")
    case None
    then show ?thesis using 2 by simp
  next
    case (Some d)
    then show ?thesis using 2 assms
      by (cases "step (nkey (snd pn), d) s") (auto split: prod.split, metis snd_conv)
  qed
qed

definition mem_rows :: "int \<Rightarrow> vals node \<Rightarrow> (bytes \<times> vals) list" where
  "mem_rows ctx rt = rows_of ctx (map snd (bfs [([], rt)]))"

definition mem_step :: "(vals \<Rightarrow> nat \<Rightarrow> bytes \<Rightarrow> (vals \<times> bool) go) \<Rightarrow> nat \<Rightarrow> 's rowfun \<Rightarrow> bytes \<times> vals \<Rightarrow> 's \<Rightarrow> 's go" where
  "mem_step m n f kd s = do { (cols, _) \<leftarrow> mem_columns m 0 (snd kd) (replicate n []) False; f (fst kd) cols None s }"

lemma Walk_go:
  "snd (snd (Walk ctx (mem_walk_fn m n (go_on f)) rt (Some s))) = fold_go (mem_step m n f) (mem_rows ctx rt) s"
proof -
  have "mem_walk_fn m n (go_on f) k d (Some s) =
      (case mem_step m n f (k, d) s of None \<Rightarrow> (False, False, None, None) | Some s' \<Rightarrow> (True, False, None, Some s'))" for k d s
    by (auto simp: mem_walk_fn_def go_on_def mem_step_def split: option.split bind_splits)
  from walk_queue_go [where fn = "mem_walk_fn m n (go_on f)" and step = "mem_step m n f", OF this, of ctx "[([], rt)]" s] show ?thesis
    by (cases "walk_queue ctx (mem_walk_fn m n (go_on f)) [([], rt)] (Some s)") (simp add: Walk_def mem_rows_def)
qed

end
