(* ===== verification/RowStoreProps.thy ===== *)
theory RowStoreProps
  imports RowStoreLaws
begin

text \<open>
  What the row store promises: files keep their rows, a flush does not change what a query sees, the
  names of files sort by time.
\<close>

section \<open>Names\<close>

lemma itoa_nat_digits: "set (itoa_nat n) \<subseteq> set ''0123456789''"
proof (induction n rule: itoa_nat.induct)
  case (1 n)
  have "\<forall>d \<in> set [0..<10]. itoa_digit d \<in> set ''0123456789''" by code_simp
  then show ?case using 1 by (subst itoa_nat.simps) (auto split: if_splits)
qed

lemma pad20_digits: "0 \<le> i \<Longrightarrow> set (pad20 i) \<subseteq> set ''0123456789''"
  using itoa_nat_digits [of "nat i"] by (auto simp: pad20_def itoa_def Let_def)

lemma versionFor_fileStoreName:
  assumes "0 \<le> nanos"
  shows "versionFor (fileStoreName nanos) = Some CurrentFileVersion"
proof -
  have v: "itoa CurrentFileVersion = ''5''" by code_simp
  have "CHR ''_'' \<notin> set (pad20 nanos)" using pad20_digits [OF assms] by auto
  then have "split_on (CHR ''_'') (fileStoreName nanos) = [''filestore'', pad20 nanos, ''5.dat'']"
    by (simp add: fileStoreName_def v split_on_append)
  moreover have "Atoi (hd (split_on (CHR ''.'') ''5.dat'')) = Some CurrentFileVersion" by code_simp
  ultimately show ?thesis by (simp add: versionFor_def del: split_on.simps)
qed

section \<open>Iterating over a well-formed store\<close>

definition stored :: "('c, 'h) ext \<Rightarrow> store_ext \<Rightarrow> 'c fields \<Rightarrow> string \<Rightarrow> filestate \<Rightarrow> bytes option \<Rightarrow> row list \<Rightarrow> bool" where
  "stored X E fs name file offsetFile rows \<longleftrightarrow> list_all (row_fits (length fs)) rows \<and>
     (file = NotExist \<and> offsetFile = None \<and> rows = [] \<or>
      (\<exists>offs. file = File (sx_snappy E (headerOf X (sx_wal E) fs offs @ concat (map row_bytes rows))) \<and>
         versionFor name = Some CurrentFileVersion \<and> offsets_ok (sx_wal E) offs \<and> header_fits X (sx_wal E) fs offs))"

text \<open>What a complete iteration does: the rows of the file, then the rows of the memstore that are left.\<close>

definition store_fold ::
  "(vals \<Rightarrow> nat \<Rightarrow> bytes \<Rightarrow> (vals \<times> bool) go) \<Rightarrow> bool \<Rightarrow> int \<Rightarrow> nat \<Rightarrow> 's rowfun \<Rightarrow> row list \<Rightarrow> vals node \<Rightarrow> 's \<Rightarrow> 's go" where
  "store_fold m raw ctx n f rows rt s =
     do { (s, tree) \<leftarrow> file_fold m raw ctx f rows (Some rt) s; fold_go (mem_step m n f) (mem_rows ctx (the tree)) s }"

lemma file_fold_tree: "file_fold m raw ctx f rows (Some rt) s = Some (s', tree) \<Longrightarrow> \<exists>rt'. tree = Some rt'"
proof (induction rows arbitrary: rt s)
  case (Cons kv rows)
  obtain d rt1 where d: "mem_lookup ctx (fst kv) (Some rt) = (d, Some rt1)"
    by (cases "Remove ctx (fst kv) rt") (simp add: mem_lookup_def)
  then show ?case using Cons by (auto simp: bind_Some_iff split: if_splits)
qed auto

lemma iterate_file_stored:
  assumes "store_laws E" "fields_ok X fs" "stored X E fs name file offsetFile rows"
  shows "\<exists>offs. iterate_file X E fs name file offsetFile fs m raw ctx (go_on f) tree s =
    map_option (\<lambda>(s, tree). (s, tree, offs, None)) (file_fold m raw ctx f rows tree s)"
proof -
  have n: "0 < length fs" "length fs < 2 ^ 16" and fits: "list_all (row_fits (length fs)) rows"
    using assms(2,3) by (auto simp: fields_ok_def stored_def)
  have same: "outIdxsFor X fs (map Some fs) = map int [0..<length fs]"
    using assms(2) by (simp add: outIdxs_same fields_ok_def)
  have eq: "opt_fields_Equals X (map Some fs) fs"
    by (simp add: opt_fields_Equals_def opt_field_String_def)
  consider "file = NotExist" "offsetFile = None" "rows = []"
    | offs where "file = File (sx_snappy E (headerOf X (sx_wal E) fs offs @ concat (map row_bytes rows)))"
      "versionFor name = Some CurrentFileVersion" "offsets_ok (sx_wal E) offs" "header_fits X (sx_wal E) fs offs"
    using assms(3) by (auto simp: stored_def)
  then show ?thesis
  proof cases
    case 1
    then show ?thesis by (simp add: iterate_file_def)
  next
    case (2 offs)
    obtain str where "info X (sx_wal E) CurrentFileVersion fs (headerOf X (sx_wal E) fs offs @ concat (map row_bytes rows), True) =
        Some (Inr (offs, str, map Some fs, (concat (map row_bytes rows), True)))"
      using info_header [OF 2(3) assms(2) 2(4)] by blast
    then have "iterate_file X E fs name file offsetFile fs m raw ctx (go_on f) tree s =
        map_option (\<lambda>(s, tree). (s, tree, Some offs, None)) (file_fold m raw ctx f rows tree s)"
      using assms(1) 2
      by (simp add: iterate_file_def store_laws_def same eq read_rows_written [OF fits n])
        (auto split: bind_splits option.split)
    then show ?thesis by blast
  qed
qed

lemma fs_iterate_stored:
  assumes "store_laws E" "fields_ok X fs" "stored X E fs name file offsetFile rows" "ms_fields ms = fs"
  shows "\<exists>g h. fs_iterate X E res truncateBefore ctx fs name file offsetFile fs (Some ms) raw (go_on f) s =
    map_option (\<lambda>s. (s, g, h, None)) (store_fold (rowMerger X fs (map int [0..<length fs]) res truncateBefore) raw ctx (length fs) f rows
      (t_root (ms_tree ms)) s)"
proof -
  let ?m = "rowMerger X fs (map int [0..<length fs]) res truncateBefore"
  let ?rt = "t_root (ms_tree ms)"
  have fs: "fs \<noteq> []" "outIdxsFor X fs (map Some (ms_fields ms)) = map int [0..<length fs]"
    using assms(2,4) by (simp_all add: outIdxs_same fields_ok_def)
  obtain offs where it: "iterate_file X E fs name file offsetFile fs ?m raw ctx (go_on f) (Some ?rt) s =
      map_option (\<lambda>(s, tree). (s, tree, offs, None)) (file_fold ?m raw ctx f rows (Some ?rt) s)"
    using iterate_file_stored [OF assms(1-3), where m = ?m and raw = raw and ctx = ctx and f = f and tree = "Some ?rt" and s = s] by blast
  show ?thesis
  proof (cases "file_fold ?m raw ctx f rows (Some ?rt) s")
    case None
    then show ?thesis by (simp add: fs_iterate_def Let_def fs it store_fold_def)
  next
    case (Some p)
    then obtain s1 rt1 where p: "p = (s1, Some rt1)" using file_fold_tree [of ?m raw ctx f rows ?rt s] by (cases p) auto
    obtain e rt2 st where w: "Walk ctx (mem_walk_fn ?m (length fs) (go_on f)) rt1 (Some s1) = (e, rt2, st)" by (metis prod_cases3)
    then have st: "st = fold_go (mem_step ?m (length fs) f) (mem_rows ctx rt1) s1" using Walk_go [of ctx ?m "length fs" f rt1 s1] by simp
    show ?thesis
      by (cases "fold_go (mem_step ?m (length fs) f) (mem_rows ctx rt1) s1")
        (auto simp: fs_iterate_def Let_def fs it Some p w st store_fold_def)
  qed
qed

section \<open>Reading and flushing take the same rows\<close>

definition collect :: "row list rowfun" where
  "collect k c raw s = Some (s @ [(k, c)])"

definition write_row ::
  "('c, 'h) ext \<Rightarrow> store_ext \<Rightarrow> duration \<Rightarrow> 'c fields \<Rightarrow> 'c option \<Rightarrow> gotime \<Rightarrow> bool \<Rightarrow> (int \<times> int \<times> bytes list) rowfun" where
  "write_row X E res fs filterExpr truncateBefore shouldSort k c raw = (\<lambda>(hwm, rowCount, out).
     do { (next, b) \<leftarrow> doWrite X E res fs filterExpr truncateBefore shouldSort k c raw;
          Some (if hwm < next then next else hwm, rowCount + 1, if b = [] then out else out @ [b]) })"

lemma flush_write_go_on: "flush_write X E res fs flt' tb shouldSort = go_on (write_row X E res fs flt' tb shouldSort)"
  by (intro ext) (auto simp: flush_write_def go_on_def write_row_def split: bind_splits prod.split)

text \<open>A row that a flush writes as it is: it fits the format and no part of it has expired.\<close>

definition writable :: "'c fields \<Rightarrow> duration \<Rightarrow> gotime \<Rightarrow> row \<Rightarrow> bool" where
  "writable fs res truncateBefore kv \<longleftrightarrow> row_fits (length fs) kv \<and>
     truncate_columns res truncateBefore fs (snd kv) = Some (snd kv) \<and>
     \<not> list_all (\<lambda>seq. seq = []) (snd kv) \<and> high_water (snd kv) 0 \<noteq> None"

lemma row_bytes_not_Nil [simp]: "row_bytes kv \<noteq> []"
  by (metis append_is_Nil_conv length_be list.size(3) row_bytes_split zero_neq_numeral)

lemma write_row_writable:
  assumes "writable fs res tb kv"
  shows "\<exists>h. write_row X E res fs None tb shouldSort (fst kv) (snd kv) None (hwm, c, out) = Some (h, c + 1, out @ [row_bytes kv])"
  using assms row_bytes_not_Nil [of kv] by (auto simp: write_row_def doWrite_def writable_def row_bytes_def)

lemma write_row_raw:
  "write_row X E res fs None tb False k [] (Some (row_bytes kv)) (hwm, c, out) = Some (max hwm 0, c + 1, out @ [row_bytes kv])"
  by (simp add: write_row_def doWrite_def max_def)

lemma file_fold_collect_mono: "file_fold m False ctx collect rows tree s = Some (R, tree') \<Longrightarrow> set s \<subseteq> set R"
  by (induction m False ctx "collect" rows tree s rule: file_fold.induct)
    (fastforce simp: collect_def bind_Some_iff split: prod.splits)+

lemma fold_collect_mono: "fold_go (mem_step m n collect) xs s = Some R \<Longrightarrow> set s \<subseteq> set R"
  by (induction xs arbitrary: s) (fastforce simp: collect_def mem_step_def bind_Some_iff)+

lemma file_fold_write:
  assumes "file_fold m False ctx collect rows tree s = Some (R, tree')" "\<forall>kv \<in> set R. writable fs res tb kv" "shouldSort \<longrightarrow> \<not> raw"
  shows "\<exists>hwm' c'. file_fold m raw ctx (write_row X E res fs None tb shouldSort) rows tree (hwm, c, map row_bytes s) =
    Some ((hwm', c', map row_bytes R), tree')"
  using assms(1)
proof (induction rows arbitrary: tree s hwm c)
  case (Cons kv rows)
  obtain d tree1 where d: "mem_lookup ctx (fst kv) tree = (d, tree1)" by fastforce
  obtain cols b where cols: "mem_columns m 0 (case d of None \<Rightarrow> [] | Some x \<Rightarrow> x) (snd kv) True = Some (cols, b)"
    and rest: "file_fold m False ctx collect rows tree1 (s @ [(fst kv, cols)]) = Some (R, tree')"
    using Cons.prems d by (auto simp: collect_def [of "fst kv"] bind_Some_iff)
  have w: "writable fs res tb (fst kv, cols)" using file_fold_collect_mono [OF rest] assms(2) by auto
  show ?case
  proof (cases "d = None \<and> raw")
    case True
    then have "(fst kv, cols) = kv" "shouldSort = False" using cols assms(3) by auto
    then show ?thesis using Cons.IH [OF rest, of "max hwm 0" "c + 1"] True d by (simp add: write_row_raw)
  next
    case False
    obtain h where "write_row X E res fs None tb shouldSort (fst kv) cols None (hwm, c, map row_bytes s) =
        Some (h, c + 1, map row_bytes s @ [row_bytes (fst kv, cols)])"
      using write_row_writable [OF w, of X E shouldSort hwm c "map row_bytes s"] by auto
    moreover have no: "(d = None \<and> raw) = False" using False by simp
    ultimately show ?thesis using Cons.IH [OF rest, of h "c + 1"] cols d by (simp add: no del: de_Morgan_conj)
  qed
qed simp

lemma fold_go_write:
  assumes "fold_go (mem_step m n collect) xs s = Some R" "\<forall>kv \<in> set R. writable fs res tb kv"
  shows "\<exists>hwm' c'. fold_go (mem_step m n (write_row X E res fs None tb shouldSort)) xs (hwm, c, map row_bytes s) = Some (hwm', c', map row_bytes R)"
  using assms(1)
proof (induction xs arbitrary: s hwm c)
  case (Cons kd xs)
  obtain cols b where cols: "mem_columns m 0 (snd kd) (replicate n []) False = Some (cols, b)"
    and rest: "fold_go (mem_step m n collect) xs (s @ [(fst kd, cols)]) = Some R"
    using Cons.prems by (auto simp: collect_def [of "fst kd"] mem_step_def [of m n collect kd] bind_Some_iff)
  have w: "writable fs res tb (fst kd, cols)" using fold_collect_mono [OF rest] assms(2) by auto
  obtain h where "write_row X E res fs None tb shouldSort (fst kd) cols None (hwm, c, map row_bytes s) =
      Some (h, c + 1, map row_bytes s @ [row_bytes (fst kd, cols)])"
    using write_row_writable [OF w, of X E shouldSort hwm c "map row_bytes s"] by auto
  then show ?case using Cons.IH [OF rest, of h "c + 1"] cols by (simp add: mem_step_def [of m n _ kd])
qed simp

lemma store_fold_write:
  assumes "store_fold m False ctx n collect rows rt [] = Some R" "\<forall>kv \<in> set R. writable fs res tb kv" "shouldSort \<longrightarrow> \<not> raw"
  shows "\<exists>hwm c. store_fold m raw ctx n (write_row X E res fs None tb shouldSort) rows rt (0, 0, []) = Some (hwm, c, map row_bytes R)"
proof -
  obtain s1 tree1 where f: "file_fold m False ctx collect rows (Some rt) [] = Some (s1, tree1)"
    and g: "fold_go (mem_step m n collect) (mem_rows ctx (the tree1)) s1 = Some R"
    using assms(1) by (auto simp: store_fold_def bind_Some_iff)
  have "\<forall>kv \<in> set s1. writable fs res tb kv" using fold_collect_mono [OF g] assms(2) by auto
  from file_fold_write [OF f this assms(3), of X E 0 0] obtain h1 c1 where
    "file_fold m raw ctx (write_row X E res fs None tb shouldSort) rows (Some rt) (0, 0, []) = Some ((h1, c1, map row_bytes s1), tree1)"
    by auto
  with fold_go_write [OF g assms(2), of X E shouldSort h1 c1] show ?thesis by (auto simp: store_fold_def)
qed

text \<open>A file alone, with an empty memstore, delivers its rows.\<close>

lemma store_fold_empty: "store_fold m False ctx n collect rows (Node [] [] None []) [] = Some rows"
proof -
  have "file_fold m False ctx collect rows (Some (Node [] [] None [])) s = Some (s @ rows, Some (Node [] [] None []))" for s
    by (induction rows arbitrary: s) (auto simp: mem_lookup_def Remove_def collect_def)
  then show ?thesis by (simp add: store_fold_def mem_rows_def children_def rows_of_def)
qed

section \<open>Properties\<close>

lemma mset_map_inv: "mset ys = mset (map f xs) \<Longrightarrow> \<exists>zs. ys = map f zs \<and> mset zs = mset xs"
proof (induction ys arbitrary: xs)
  case (Cons y ys)
  then have "y \<in> set (map f xs)" by (metis list.set_intros(1) set_mset_mset)
  then obtain as x bs where xs: "xs = as @ x # bs" and y: "y = f x" by (auto simp: in_set_conv_decomp)
  then have "mset ys = mset (map f (as @ bs))" using Cons.prems by simp
  then obtain zs where "ys = map f zs" "mset zs = mset (as @ bs)" using Cons.IH by blast
  then show ?case using xs y by (intro exI [of _ "x # zs"]) simp
qed simp

text \<open>The rows that a query over all fields sees, file and memstore.\<close>

definition rs_rows :: "('c, 'h) ext \<Rightarrow> store_ext \<Rightarrow> duration \<Rightarrow> gotime \<Rightarrow> int \<Rightarrow> 'c rowstore \<Rightarrow> row list option" where
  "rs_rows X E res truncateBefore ctx rs =
     (case rs_iterate X E res (\<lambda>_. False) truncateBefore ctx (rs_fields rs) True (\<lambda>k c s. Some (s @ [(k, c)], True, None)) rs [] of
        Some (rows, _, None) \<Rightarrow> Some rows
      | _ \<Rightarrow> None)"

text \<open>A store whose file, memstore and fields agree.\<close>

definition rs_ok :: "('c, 'h) ext \<Rightarrow> store_ext \<Rightarrow> 'c rowstore \<Rightarrow> row list \<Rightarrow> bool" where
  "rs_ok X E rs rows \<longleftrightarrow> fields_ok X (rs_fields rs) \<and> rs_fsFields rs = rs_fields rs \<and> ms_fields (rs_mem rs) = rs_fields rs \<and>
     stored X E (rs_fields rs) (rs_fileName rs) (rs_file rs) (rs_offsetFile rs) rows \<and>
     Copy (t_root (ms_tree (rs_mem rs))) = t_root (ms_tree (rs_mem rs)) \<and>
     offsets_ok (sx_wal E) (ms_offsets (rs_mem rs)) \<and> header_fits X (sx_wal E) (rs_fields rs) (ms_offsets (rs_mem rs))"

lemma rs_rows_fold:
  assumes "store_laws E" "rs_ok X E rs rows"
  shows "rs_rows X E res tb ctx rs = store_fold (rowMerger X (rs_fields rs) (map int [0..<length (rs_fields rs)]) res tb) False ctx
    (length (rs_fields rs)) collect rows (t_root (ms_tree (rs_mem rs))) []"
proof -
  have cb: "(\<lambda>key columns (_ :: bytes option) s. Some (s @ [(key, columns)], ProceedAfter (\<lambda>_. False) (s @ [(key, columns)]) True None))
      = go_on collect"
    by (intro ext) (simp add: go_on_def collect_def ProceedAfter_def Proceed_def)
  have ok: "fields_ok X (rs_fields rs)" "stored X E (rs_fields rs) (rs_fileName rs) (rs_file rs) (rs_offsetFile rs) rows"
    "ms_fields (memstore_copy (rs_mem rs)) = rs_fields rs" "rs_fsFields rs = rs_fields rs"
    "t_root (ms_tree (memstore_copy (rs_mem rs))) = t_root (ms_tree (rs_mem rs))"
    using assms(2) by (simp_all add: rs_ok_def memstore_copy_def)
  let ?fold = "store_fold (rowMerger X (rs_fields rs) (map int [0..<length (rs_fields rs)]) res tb) False ctx
    (length (rs_fields rs)) collect rows (t_root (ms_tree (rs_mem rs))) []"
  obtain g h where "fs_iterate X E res tb ctx (rs_fields rs) (rs_fileName rs) (rs_file rs) (rs_offsetFile rs) (rs_fields rs)
      (Some (memstore_copy (rs_mem rs))) False (go_on collect) [] = map_option (\<lambda>s. (s, g, h, None)) ?fold"
    using fs_iterate_stored [OF assms(1) ok(1-3), where res = res and truncateBefore = tb and ctx = ctx and raw = False and f = collect and s = "[]"]
    unfolding ok(5) by blast
  then show ?thesis
    by (cases ?fold) (simp_all add: rs_rows_def rs_iterate_def ok(4) cb)
qed

lemma doProcessFlush_state:
  assumes "fs_flush X E res (fe_truncateBefore env) (fe_ctx env) (rs_fsFields rs) (rs_fileName rs) (rs_file rs) (rs_offsetFile rs)
      (rs_fields rs) None (ms_offsets (rs_mem rs)) (Some (rs_mem rs)) (allowSort \<and> fe_shouldSort env) (trem (rs_flushCount rs) 10 = 9) =
    Inr (hwm, c, out)"
  shows "\<exists>rs'. doProcessFlush X E res allowSort env rs = (rs', True) \<and> rs_fields rs' = rs_fields rs \<and> rs_fsFields rs' = rs_fields rs \<and>
    rs_fileName rs' = fileStoreName (fe_nanos env) \<and> rs_file rs' = File out \<and>
    rs_mem rs' = newMemStore X res (rs_fields rs) (ms_offsets (rs_mem rs))"
  using assms by (simp add: doProcessFlush_def Let_def)

text \<open>A store with a new file and a new memstore shows the rows of the file.\<close>

lemma fresh_store_rows:
  assumes laws: "store_laws E" and "fields_ok X fs" "offsets_ok (sx_wal E) offs" "header_fits X (sx_wal E) fs offs"
    "list_all (row_fits (length fs)) R" "0 \<le> nanos"
    and rs': "rs_fields rs' = fs" "rs_fsFields rs' = fs" "rs_fileName rs' = fileStoreName nanos"
      "rs_file rs' = File (sx_snappy E (headerOf X (sx_wal E) fs offs @ concat (map row_bytes R)))"
      "rs_mem rs' = newMemStore X res fs offs"
  shows "rs_ok X E rs' R \<and> (\<forall>tb ctx. rs_rows X E res tb ctx rs' = Some R)"
proof -
  have ok: "rs_ok X E rs' R"
    using assms versionFor_fileStoreName [OF \<open>0 \<le> nanos\<close>]
    by (auto simp: rs_ok_def stored_def newMemStore_def New_def Copy_def)
  then show ?thesis
    using rs_rows_fold [OF laws ok] rs' by (simp add: newMemStore_def New_def store_fold_empty)
qed

text \<open>What a flush writes, given the rows that a query sees.\<close>

lemma fs_flush_stored:
  assumes laws: "store_laws E" and ok: "rs_ok X E rs rows"
    and before: "rs_rows X E res tb ctx rs = Some R"
    and writable: "\<forall>kv \<in> set R. writable (rs_fields rs) res tb kv"
    and sort: "shouldSort \<longrightarrow> disallowRaw"
  shows "\<exists>hwm c R'. fs_flush X E res tb ctx (rs_fsFields rs) (rs_fileName rs) (rs_file rs) (rs_offsetFile rs) (rs_fields rs) None offs
      (Some (rs_mem rs)) shouldSort disallowRaw =
    Inr (hwm, c, sx_snappy E (headerOf X (sx_wal E) (rs_fields rs) offs @ concat (map row_bytes R'))) \<and>
    mset R' = mset R \<and> (\<not> shouldSort \<longrightarrow> R' = R)"
proof -
  let ?fs = "rs_fields rs"
  let ?w = "write_row X E res ?fs None tb shouldSort"
  have fs: "fields_ok X ?fs" "stored X E ?fs (rs_fileName rs) (rs_file rs) (rs_offsetFile rs) rows"
    "ms_fields (rs_mem rs) = ?fs" "rs_fsFields rs = ?fs"
    using ok by (simp_all add: rs_ok_def)
  have q: "store_fold (rowMerger X ?fs (map int [0..<length ?fs]) res tb) False ctx (length ?fs) collect rows (t_root (ms_tree (rs_mem rs))) [] = Some R"
    using before rs_rows_fold [OF laws ok] by simp
  obtain hwm c where "store_fold (rowMerger X ?fs (map int [0..<length ?fs]) res tb) (\<not> disallowRaw) ctx (length ?fs) ?w rows
      (t_root (ms_tree (rs_mem rs))) (0, 0, []) = Some (hwm, c, map row_bytes R)"
    using store_fold_write [OF q writable, where shouldSort = shouldSort and raw = "\<not> disallowRaw" and X = X and E = E] sort by blast
  then have "fs_flush X E res tb ctx (rs_fsFields rs) (rs_fileName rs) (rs_file rs) (rs_offsetFile rs) ?fs None offs (Some (rs_mem rs))
      shouldSort disallowRaw = Inr (hwm, c, sx_snappy E (headerOf X (sx_wal E) ?fs offs @
        concat (if shouldSort then sx_emsort E (map row_bytes R) else map row_bytes R)))"
    using fs_iterate_stored [OF laws fs(1-3), where res = res and truncateBefore = tb and ctx = ctx and raw = "\<not> disallowRaw"
        and f = ?w and s = "(0, 0, [])"]
    by (auto simp: fs_flush_def flush_write_go_on fs(4))
  moreover obtain R' where "(if shouldSort then sx_emsort E (map row_bytes R) else map row_bytes R) = map row_bytes R'"
      "mset R' = mset R \<and> (\<not> shouldSort \<longrightarrow> R' = R)"
    using laws mset_map_inv [of "sx_emsort E (map row_bytes R)" row_bytes R]
    by (cases shouldSort) (auto simp: store_laws_def)
  ultimately show ?thesis by (intro exI [of _ hwm] exI [of _ c] exI [of _ R']) simp
qed

text \<open>A store for examples: one field, one row in the memstore, and a file with another row or none.\<close>

definition sample_store :: store_ext where
  "sample_store = \<lparr> sx_get = (\<lambda>_ _. None), sx_wal = sample_wal, sx_snappy = (\<lambda>b. b), sx_unsnappy = (\<lambda>b. (b, True)), sx_emsort = (\<lambda>rows. rows) \<rparr>"

definition sample_fields :: "bool fields" where
  "sample_fields = [NewField ''a'' sample_count]"

definition sample_seq :: bytes where
  "sample_seq = [0, 0, 0, 0, 0, 0, 11, 184, 1, 0, 0, 0, 0, 0, 0, 0, 7]"

definition sample_rs :: "string \<Rightarrow> filestate \<Rightarrow> bool rowstore" where
  "sample_rs name file =
     \<lparr> rs_fields = sample_fields,
       rs_mem = (newMemStore sample_ext 1000 sample_fields [])\<lparr>ms_tree :=
         (New sample_ext (Exprs sample_fields) [] 1000 0 zeroTime zeroTime 0)
           \<lparr>t_root := Node [] [([1], Node [1] [] (Some [sample_seq]) [])] None [], t_length := 1\<rparr>\<rparr>,
       rs_fsFields = sample_fields, rs_fileName = name, rs_file = file, rs_offsetFile = None,
       rs_flushCount = 0, rs_hwmDisk = 0, rs_hwmMemory = 0 \<rparr>"

definition sample_env :: "bool \<Rightarrow> flush_env" where
  "sample_env sorted_flush = \<lparr> fe_truncateBefore = 0, fe_ctx = 5, fe_nanos = 9, fe_shouldSort = sorted_flush \<rparr>"

lemma sample_store_laws: "store_laws sample_store"
  by (simp add: store_laws_def sample_store_def sample_wal_laws)

lemma sample_rs_ok: "rs_ok sample_ext sample_store (sample_rs [] NotExist) []"
proof -
  have "fields_ok sample_ext sample_fields" "header_fits sample_ext sample_wal sample_fields []" by code_simp+
  then show ?thesis
    by (simp add: rs_ok_def sample_rs_def stored_def newMemStore_def New_def Copy_def offsets_ok_def sample_store_def)
qed



text \<open>A store with one row in the file and another in the memstore.\<close>

definition sample_rs2 :: "bool rowstore" where
  "sample_rs2 = sample_rs (fileStoreName 1) (File (headerOf sample_ext sample_wal sample_fields [] @ row_bytes ([2], [sample_seq])))"

lemma sample_rs2_ok: "rs_ok sample_ext sample_store sample_rs2 [([2], [sample_seq])]"
proof -
  have "fields_ok sample_ext sample_fields" "header_fits sample_ext sample_wal sample_fields []"
    "list_all (row_fits (length sample_fields)) [([2], [sample_seq])]" by code_simp+
  then show ?thesis
    by (auto simp: rs_ok_def sample_rs2_def sample_rs_def stored_def newMemStore_def New_def Copy_def offsets_ok_def sample_store_def
        versionFor_fileStoreName)
qed

lemma sample_rs2_flush:
  "fs_flush sample_ext sample_store 1000 0 5 (rs_fsFields sample_rs2) (rs_fileName sample_rs2) (rs_file sample_rs2) (rs_offsetFile sample_rs2)
     (rs_fields sample_rs2) None (ms_offsets (rs_mem sample_rs2)) (Some (rs_mem sample_rs2)) True False =
   Inr (3000, 2, sx_snappy sample_store (headerOf sample_ext (sx_wal sample_store) sample_fields [] @ concat (map row_bytes [([1], [sample_seq])])))"
proof -
  let ?m = "rowMerger sample_ext sample_fields (map int [0..<length sample_fields]) 1000 0"
  have fs: "fields_ok sample_ext sample_fields" "ms_fields (rs_mem sample_rs2) = sample_fields" "rs_fsFields sample_rs2 = sample_fields"
    "rs_fields sample_rs2 = sample_fields" "ms_offsets (rs_mem sample_rs2) = []"
    "stored sample_ext sample_store sample_fields (rs_fileName sample_rs2) (rs_file sample_rs2) (rs_offsetFile sample_rs2) [([2], [sample_seq])]"
    using sample_rs2_ok by (simp_all add: rs_ok_def sample_rs2_def sample_rs_def newMemStore_def)
  have "store_fold ?m True 5 (length sample_fields) (write_row sample_ext sample_store 1000 sample_fields None 0 True) [([2], [sample_seq])]
      (t_root (ms_tree (rs_mem sample_rs2))) (0, 0, []) = Some (3000, 2, [row_bytes ([1], [sample_seq])])"
    by code_simp
  then show ?thesis
    using fs_iterate_stored [OF sample_store_laws fs(1,6,2), where res = 1000 and truncateBefore = 0 and ctx = 5 and raw = True
        and f = "write_row sample_ext sample_store 1000 sample_fields None 0 True" and s = "(0, 0, [])"]
    by (auto simp: fs_flush_def flush_write_go_on fs sample_store_def)
qed

text \<open>
  A sorted flush loses rows.  Rows that are only in the file are passed on as raw bytes without columns, and when
  the flush sorts, \<open>doWrite\<close> takes the missing columns for expired ones: of the two rows a query sees before the
  flush, one in the file and one in the memstore, it sees only the second one afterwards.
\<close>

theorem sorted_flush_drops_file_rows:
  "rs_rows sample_ext sample_store 1000 0 5 sample_rs2 = Some [([2], [sample_seq]), ([1], [sample_seq])] \<and>
   (\<exists>rs'. doProcessFlush sample_ext sample_store 1000 True (sample_env True) sample_rs2 = (rs', True) \<and>
      (\<forall>tb ctx. rs_rows sample_ext sample_store 1000 tb ctx rs' = Some [([1], [sample_seq])]))"
proof
  have "store_fold (rowMerger sample_ext (rs_fields sample_rs2) (map int [0..<length (rs_fields sample_rs2)]) 1000 0) False 5
      (length (rs_fields sample_rs2)) collect [([2], [sample_seq])] (t_root (ms_tree (rs_mem sample_rs2))) [] =
      Some [([2], [sample_seq]), ([1], [sample_seq])]" by code_simp
  then show "rs_rows sample_ext sample_store 1000 0 5 sample_rs2 = Some [([2], [sample_seq]), ([1], [sample_seq])]"
    by (simp add: rs_rows_fold [OF sample_store_laws sample_rs2_ok])
  have fl: "fs_flush sample_ext sample_store 1000 (fe_truncateBefore (sample_env True)) (fe_ctx (sample_env True)) (rs_fsFields sample_rs2)
      (rs_fileName sample_rs2) (rs_file sample_rs2) (rs_offsetFile sample_rs2) (rs_fields sample_rs2) None (ms_offsets (rs_mem sample_rs2))
      (Some (rs_mem sample_rs2)) (True \<and> fe_shouldSort (sample_env True)) (trem (rs_flushCount sample_rs2) 10 = 9) =
    Inr (3000, 2, sx_snappy sample_store (headerOf sample_ext (sx_wal sample_store) sample_fields [] @ concat (map row_bytes [([1], [sample_seq])])))"
    using sample_rs2_flush by (simp add: sample_env_def sample_rs2_def sample_rs_def trem_def tdiv_def)
  have "list_all (row_fits (length sample_fields)) [([1], [sample_seq])]" by code_simp
  moreover have "rs_fields sample_rs2 = sample_fields" "ms_offsets (rs_mem sample_rs2) = []"
    by (simp_all add: sample_rs2_def sample_rs_def newMemStore_def)
  ultimately show "\<exists>rs'. doProcessFlush sample_ext sample_store 1000 True (sample_env True) sample_rs2 = (rs', True) \<and>
      (\<forall>tb ctx. rs_rows sample_ext sample_store 1000 tb ctx rs' = Some [([1], [sample_seq])])"
    using doProcessFlush_state [OF fl] sample_rs2_ok
      fresh_store_rows [OF sample_store_laws, of sample_ext sample_fields "[]" "[([1], [sample_seq])]" 9 _ 1000]
    by (force simp: rs_ok_def sample_env_def)
qed

end
