(* ===== verification/RowStoreFiles.thy ===== *)
theory RowStoreFiles
  imports RowStoreProps
begin

text \<open>
  Recovery and housekeeping of the row store: the offsets that a store keeps for its sources, opening a
  directory after a flush, the order of file names, the removal of old files, and a row that ends an iteration.
\<close>

section \<open>Offsets of the memstore\<close>

fun last_offset :: "int \<Rightarrow> 'c rs_event list \<Rightarrow> offset option \<Rightarrow> offset option" where
  "last_offset source [] off = off"
| "last_offset source (Inserted ins # evs) off =
     last_offset source evs (if in_source ins = source then Some (in_offset ins) else off)"
| "last_offset source (_ # evs) off = last_offset source evs off"

lemma doProcessFlush_offsets: "doProcessFlush X E res allowSort env rs = (rs', b) \<Longrightarrow> ms_offsets (rs_mem rs') = ms_offsets (rs_mem rs)"
  by (auto simp: doProcessFlush_def Let_def newMemStore_def split: sum.splits)

lemma processFlush_offsets: "processFlush X E res allowSort envs rs = Some rs' \<Longrightarrow> ms_offsets (rs_mem rs') = ms_offsets (rs_mem rs)"
  by (induction X E res allowSort envs rs rule: processFlush.induct)
    (auto dest: doProcessFlush_offsets split: prod.splits bool.splits)

lemma flush_offsets: "flush X E res allowSort envs rs = Some (b, rs') \<Longrightarrow> ms_offsets (rs_mem rs') = ms_offsets (rs_mem rs)"
  by (auto simp: flush_def bind_Some_iff simp del: processFlush.simps dest: processFlush_offsets split: if_splits prod.splits)

lemma rs_step_offsets:
  assumes "rs_step X E res ev rs = Some rs'"
  shows "map_of (ms_offsets (rs_mem rs')) source = last_offset source [ev] (map_of (ms_offsets (rs_mem rs)) source)"
  using assms
  by (cases ev) (auto simp: rs_insert_def Let_def bind_Some_iff update_conv' newMemStore_def split: option.splits if_splits dest: flush_offsets)

lemma last_offset_Cons: "last_offset source (ev # evs) off = last_offset source evs (last_offset source [ev] off)"
  by (cases ev) auto

lemma processInserts_offsets:
  assumes "processInserts X E res evs rs = Some rs'"
  shows "map_of (ms_offsets (rs_mem rs')) source = last_offset source evs (map_of (ms_offsets (rs_mem rs)) source)"
  using assms
proof (induction X E res evs rs rule: processInserts.induct)
  case (2 X E res ev evs rs)
  then obtain rs1 where "rs_step X E res ev rs = Some rs1" "processInserts X E res evs rs1 = Some rs'" by (auto simp: bind_Some_iff)
  then show ?case using 2 rs_step_offsets [of X E res ev rs rs1 source] last_offset_Cons [of source ev evs] by simp
qed simp

text \<open>
  C31. The offset that a row store keeps for a source is that of the last message from the source that it has handled,
  whatever flushes and changes of fields come in between, so that after a restart the log is read from there.
\<close>

theorem offsets_follow_inserts:
  assumes "processInserts X E res evs rs = Some rs'"
  shows "map_of (ms_offsets (rs_mem rs')) source = last_offset source evs (map_of (ms_offsets (rs_mem rs)) source)"
  by (rule processInserts_offsets [OF assms])

definition empty_rs :: "bool rowstore" where
  "empty_rs = (sample_rs [] NotExist)\<lparr>rs_mem := newMemStore sample_ext 1000 sample_fields []\<rparr>"

theorem offsets_follow_inserts_witness:
  "\<exists>rs'. processInserts sample_ext sample_store 1000
       [Inserted \<lparr> in_key = None, in_vals = [], in_dims = None, in_offset = [4], in_source = 1 \<rparr>,
        FlushDue False (sample_env False, sample_env False, sample_env False),
        Inserted \<lparr> in_key = None, in_vals = [], in_dims = None, in_offset = [5], in_source = 2 \<rparr>] empty_rs = Some rs' \<and>
     map_of (ms_offsets (rs_mem rs')) 1 = Some [4]"
proof -
  let ?evs = "[Inserted \<lparr> in_key = None, in_vals = [], in_dims = None, in_offset = [4], in_source = 1 \<rparr>,
    FlushDue False (sample_env False, sample_env False, sample_env False),
    Inserted \<lparr> in_key = None, in_vals = [], in_dims = None, in_offset = [5], in_source = 2 \<rparr>]"
  have "processInserts sample_ext sample_store 1000 ?evs empty_rs \<noteq> None" by code_simp
  then obtain rs' where "processInserts sample_ext sample_store 1000 ?evs empty_rs = Some rs'" by blast
  with offsets_follow_inserts [OF this, of 1] show ?thesis by auto
qed

section \<open>Opening the store after a flush\<close>

lemma readWALOffsets_info: "readWALOffsets wx v r = map_option (map_sum id fst) (info X wx v fs r)"
  by (auto simp: readWALOffsets_def info_def Let_def split: sum.splits bind_splits)

lemma readWALOffsets_header:
  assumes "offsets_ok wx offs" "fields_ok X fs" "header_fits X wx fs offs"
  shows "readWALOffsets wx CurrentFileVersion (headerOf X wx fs offs @ rest, clean) = Some (Inr offs)"
  using info_header [OF assms, of rest clean] by (auto simp: readWALOffsets_info [of wx _ _ X fs])

text \<open>The files of a store in the order of their names: the data files, the last of them the current one, and the offset file.\<close>

definition directory :: "(string \<times> filestate) list \<Rightarrow> 'c rowstore \<Rightarrow> (string \<times> filestate) list" where
  "directory older rs = older @ [(rs_fileName rs, rs_file rs)] @
     (case rs_offsetFile rs of None \<Rightarrow> [] | Some data \<Rightarrow> [(offsetFilename, File data)])"

definition offset_file_ok :: "wal_ext \<Rightarrow> bytes option \<Rightarrow> offset_map \<Rightarrow> bool" where
  "offset_file_ok wx file offs \<longleftrightarrow>
     (case file of None \<Rightarrow> offs = [] | Some data \<Rightarrow> offs \<noteq> [] \<and> offsets_ok wx offs \<and> data = writeOffsets offs)"

lemma read_offset_file_written:
  assumes "offsets_ok wx offs" "offs \<noteq> []"
  shows "read_offset_file wx (writeOffsets offs) before = Some (Some offs)"
proof -
  have "OffsetSize wx < length (writeOffsets offs)"
    using assms by (cases offs) (simp_all add: length_writeOffsets)
  then show ?thesis
    using readOffsets_written [OF assms(1), of "[]"] by (simp add: read_offset_file_def CurrentFileVersion_def)
qed

lemma fileStoreName_not_offset: "fileStoreName n \<noteq> offsetFilename"
  by (simp add: fileStoreName_def offsetFilename_def)

lemma open_directory:
  assumes laws: "store_laws E" and ok: "fields_ok X fs" "offsets_ok (sx_wal E) offs" "header_fits X (sx_wal E) fs offs" "0 \<le> nanos"
    and rs: "rs_fileName rs = fileStoreName nanos" "rs_file rs = File (sx_snappy E (headerOf X (sx_wal E) fs offs @ rest))"
    and ofile: "offset_file_ok (sx_wal E) (rs_offsetFile rs) old"
  shows "openRowStore E (directory older rs) = Some (Inr (rs_fileName rs, advance_all (sx_wal E) old offs, []))"
  using assms
  by (cases "rs_offsetFile rs")
    (simp_all add: openRowStore_def directory_def offset_file_ok_def fileStoreName_not_offset versionFor_fileStoreName
      readWALOffsets_header read_offset_file_written store_laws_def entries_def)

text \<open>
  C27. Opening a directory after a flush.  When an attempt to flush has written its file, a store that is opened on the
  directory, whatever older files are still in it, starts from the file of the flush, removes nothing, and continues
  every source from the later of the offset that the flushed memstore had for it and the one in the offset file.
\<close>

theorem flush_then_open:
  assumes laws: "store_laws E" and ok: "rs_ok X E rs rows"
    and before: "rs_rows X E res (fe_truncateBefore env) (fe_ctx env) rs = Some R"
    and writable: "\<forall>kv \<in> set R. writable (rs_fields rs) res (fe_truncateBefore env) kv"
    and name: "0 \<le> fe_nanos env"
    and sort: "allowSort \<and> fe_shouldSort env \<longrightarrow> trem (rs_flushCount rs) 10 = 9"
    and ofile: "offset_file_ok (sx_wal E) (rs_offsetFile rs) old"
  shows "\<exists>rs' offs. doProcessFlush X E res allowSort env rs = (rs', True) \<and>
    openRowStore E (directory older rs') = Some (Inr (rs_fileName rs', offs, [])) \<and>
    (\<forall>s. offset_of offs s = later (sx_wal E) (offset_of (ms_offsets (rs_mem rs)) s) (offset_of old s))"
proof -
  obtain hwm c R' where fl: "fs_flush X E res (fe_truncateBefore env) (fe_ctx env) (rs_fsFields rs) (rs_fileName rs) (rs_file rs) (rs_offsetFile rs)
      (rs_fields rs) None (ms_offsets (rs_mem rs)) (Some (rs_mem rs)) (allowSort \<and> fe_shouldSort env) (trem (rs_flushCount rs) 10 = 9) =
      Inr (hwm, c, sx_snappy E (headerOf X (sx_wal E) (rs_fields rs) (ms_offsets (rs_mem rs)) @ concat (map row_bytes R')))"
    using fs_flush_stored [OF laws ok before writable sort] by metis
  obtain rs' where rs': "doProcessFlush X E res allowSort env rs = (rs', True)" "rs_fileName rs' = fileStoreName (fe_nanos env)"
    "rs_file rs' = File (sx_snappy E (headerOf X (sx_wal E) (rs_fields rs) (ms_offsets (rs_mem rs)) @ concat (map row_bytes R')))"
    "rs_offsetFile rs' = rs_offsetFile rs"
    using fl by (simp add: doProcessFlush_def Let_def)
  have "distinct (map fst old)"
    using ofile by (auto simp: offset_file_ok_def offsets_ok_def split: option.splits)
  moreover have "openRowStore E (directory older rs') =
      Some (Inr (rs_fileName rs', advance_all (sx_wal E) old (ms_offsets (rs_mem rs)), []))"
    using open_directory [OF laws _ _ _ name rs'(2,3), of old older] ok ofile rs'(4) by (simp add: rs_ok_def)
  ultimately show ?thesis
    using rs'(1) laws by (auto simp: store_laws_def advance_all_later)
qed

theorem flush_then_open_witness:
  "\<exists>rs' offs. doProcessFlush sample_ext sample_store 1000 False (sample_env False) (sample_rs [] NotExist) = (rs', True) \<and>
     openRowStore sample_store (directory [(fileStoreName 1, OpenError)] rs') = Some (Inr (rs_fileName rs', offs, []))"
proof -
  have r: "rs_rows sample_ext sample_store 1000 (fe_truncateBefore (sample_env False)) (fe_ctx (sample_env False)) (sample_rs [] NotExist) =
      Some [([1], [sample_seq])]" by code_simp
  have w: "\<forall>kv \<in> set [([1], [sample_seq])]. writable (rs_fields (sample_rs [] NotExist)) 1000 (fe_truncateBefore (sample_env False)) kv"
    by code_simp
  have f: "offset_file_ok (sx_wal sample_store) (rs_offsetFile (sample_rs [] NotExist)) []"
    by (simp add: offset_file_ok_def sample_rs_def)
  show ?thesis
    using flush_then_open [OF sample_store_laws sample_rs_ok r w _ _ f, of False "[(fileStoreName 1, OpenError)]"]
    by (auto simp: sample_env_def)
qed

section \<open>The order of file names\<close>

fun digits :: "nat \<Rightarrow> nat \<Rightarrow> nat list" where
  "digits 0 n = []"
| "digits (Suc k) n = digits k (n div 10) @ [n mod 10]"

lemma length_digits [simp]: "length (digits k n) = k"
  by (induction k arbitrary: n) auto

lemma digits_0: "digits k 0 = replicate k 0"
  by (induction k) (auto simp: replicate_append_same)

lemma digits_lt_10: "d \<in> set (digits k n) \<Longrightarrow> d < 10"
  by (induction k arbitrary: n) auto

lemma itoa_nat_digits_padded:
  "n < 10 ^ k \<Longrightarrow> 0 < k \<Longrightarrow> replicate (k - length (itoa_nat n)) (CHR ''0'') @ itoa_nat n = map itoa_digit (digits k n) \<and> length (itoa_nat n) \<le> k"
proof (induction n arbitrary: k rule: itoa_nat.induct)
  case (1 n)
  obtain j where j: "k = Suc j" using 1(3) by (cases k) auto
  have zero: "itoa_digit 0 = CHR ''0''" by code_simp
  show ?case
  proof (cases "n < 10")
    case True
    then show ?thesis using j zero by (simp add: itoa_nat.simps digits_0)
  next
    case False
    then have "0 < j" "n div 10 < 10 ^ j" using 1(2) j by (cases j; simp add: less_mult_imp_div_less mult.commute)+
    then show ?thesis using 1(1) [OF False, of j] False j by (subst (1 2 3) itoa_nat.simps) simp
  qed
qed

lemma less_snoc:
  fixes xs :: "'a :: linorder list"
  shows "length xs = length ys \<Longrightarrow> xs @ [a] < ys @ [b] \<longleftrightarrow> xs < ys \<or> xs = ys \<and> a < b"
  by (induction xs ys rule: list_induct2) auto

lemma digits_less: "m < n \<Longrightarrow> n < 10 ^ k \<Longrightarrow> digits k m < digits k n"
proof (induction k arbitrary: m n)
  case (Suc k)
  show ?case
  proof (cases "m div 10 = n div 10")
    case True
    then have "m mod 10 < n mod 10" using Suc.prems(1) by (metis div_mod_decomp nat_add_left_cancel_less)
    then show ?thesis using True by (simp add: less_snoc)
  next
    case False
    then have "m div 10 < n div 10" using Suc.prems(1) by (simp add: div_le_mono order_le_less)
    then show ?thesis using Suc by (simp add: less_snoc less_mult_imp_div_less mult.commute)
  qed
qed simp

lemma map_less:
  assumes "\<And>a b. a \<in> set xs \<Longrightarrow> b \<in> set ys \<Longrightarrow> a < b \<Longrightarrow> f a < f b" "xs < ys"
  shows "map f xs < map f (ys :: 'a :: linorder list)"
  using assms by (induction xs ys rule: list_induct2') auto

lemma less_append_same_length:
  fixes xs :: "'a :: linorder list"
  shows "length xs = length ys \<Longrightarrow> xs < ys \<Longrightarrow> xs @ us < ys @ vs"
  by (induction xs ys rule: list_induct2) auto

lemma itoa_digit_less: "a < 10 \<Longrightarrow> b < 10 \<Longrightarrow> a < b \<Longrightarrow> itoa_digit a < itoa_digit b"
proof -
  have "\<forall>a \<in> set [0..<10]. \<forall>b \<in> set [0..<10]. a < b \<longrightarrow> itoa_digit a < itoa_digit b" by code_simp
  then show "a < 10 \<Longrightarrow> b < 10 \<Longrightarrow> a < b \<Longrightarrow> itoa_digit a < itoa_digit b" by simp
qed

lemma pad20_as_digits: "0 \<le> t \<Longrightarrow> t < 2 ^ 63 \<Longrightarrow> pad20 t = map itoa_digit (digits 20 (nat t))"
  using itoa_nat_digits_padded [of "nat t" 20] by (simp add: pad20_def itoa_def nat_less_iff)

text \<open>
  The names of data files sort like the times at which they were written: a file that is written later has a name that
  comes later in the directory, every data file comes before the offset file, and the version of the format can be read
  back from the name.
\<close>

theorem file_names_by_time:
  assumes "0 \<le> t" "t < u" "u < 2 ^ 63"
  shows "fileStoreName t < fileStoreName u \<and> fileStoreName u < offsetFilename \<and> versionFor (fileStoreName u) = Some CurrentFileVersion"
proof -
  have "digits 20 (nat t) < digits 20 (nat u)"
    using assms by (intro digits_less) (simp_all add: nat_less_iff)
  then have "pad20 t < pad20 u"
    using assms by (simp add: pad20_as_digits) (rule map_less, auto dest!: digits_lt_10 intro: itoa_digit_less)
  then have "pad20 t @ r < pad20 u @ r" for r
    using assms by (intro less_append_same_length) (simp_all add: pad20_as_digits)
  then show ?thesis
    using assms versionFor_fileStoreName [of u] by (simp add: fileStoreName_def offsetFilename_def)
qed

theorem file_names_by_time_witness: "fileStoreName 9 < fileStoreName 10 \<and> fileStoreName 10 < offsetFilename"
  using file_names_by_time [of 9 10] by simp

section \<open>Removing old files\<close>

lemma old_files_filter:
  "old_files iterations True names = filter (\<lambda>n. iterations n = 0) (filter (\<lambda>n. n \<noteq> offsetFilename) names)"
  "old_files iterations False names = filter (\<lambda>n. iterations n = 0) (tl (filter (\<lambda>n. n \<noteq> offsetFilename) names))"
  by (induction names) auto

lemma distinct_tl_last:
  assumes "distinct data" "ys @ zs = rev data" "data \<noteq> []"
  shows "last data \<notin> set (tl zs)"
proof -
  have l: "last data = hd (ys @ zs)" using assms by (simp add: hd_rev)
  have "distinct (ys @ zs)" using assms by simp
  then show ?thesis unfolding l
    by (cases ys; cases zs) auto
qed

text \<open>
  What a tick of \<open>removeOldFiles\<close> removes, in a directory listed in the order of names: exactly the data files
  with no recorded iteration, except for the last two names and the newest data file before them.  The offset file stays,
  and so does the newest data file, the one that a store opened on the directory reads.
\<close>

theorem remove_old_files:
  assumes "distinct names"
  shows "removeOldFiles iterations names =
      filter (\<lambda>n. iterations n = 0) (tl (filter (\<lambda>n. n \<noteq> offsetFilename) (drop 2 (rev names)))) \<and>
    offsetFilename \<notin> set (removeOldFiles iterations names) \<and>
    last (filter (\<lambda>n. n \<noteq> offsetFilename) names) \<notin> set (removeOldFiles iterations names)"
proof -
  let ?data = "filter (\<lambda>n. n \<noteq> offsetFilename)"
  have eq: "removeOldFiles iterations names = filter (\<lambda>n. iterations n = 0) (tl (?data (drop 2 (rev names))))"
    by (simp add: removeOldFiles_def old_files_filter)
  have "?data (take 2 (rev names)) @ ?data (drop 2 (rev names)) = rev (?data names)"
    by (metis append_take_drop_id filter_append rev_filter)
  moreover have tl: "x \<in> set (tl xs) \<Longrightarrow> x \<in> set xs" for x and xs :: "string list"
    by (cases xs) auto
  ultimately have "last (?data names) \<notin> set (tl (?data (drop 2 (rev names))))"
    using assms distinct_tl_last [of "?data names"] by (cases "?data names = []") (auto dest!: tl)
  moreover have "offsetFilename \<notin> set (tl (?data (drop 2 (rev names))))"
    using tl by force
  ultimately show ?thesis using eq by simp
qed

theorem remove_old_files_witness:
  "removeOldFiles (\<lambda>n. if n = ''b'' then 1 else 0) [''a'', ''b'', ''c'', ''d'', ''e'', ''offset''] = [''c'', ''a'']"
  using remove_old_files [of "[''a'', ''b'', ''c'', ''d'', ''e'', ''offset'']" "\<lambda>n. if n = ''b'' then 1 else 0"]
  by (simp add: offsetFilename_def)

section \<open>A row without requested columns\<close>

lemma file_columns_unmapped:
  assumes "list_all (\<lambda>j. j < 0) outIdxs" "i + length cs \<le> length outIdxs"
  shows "file_columns outIdxs i (map (\<lambda>seq. int (length seq)) cs) (concat cs) columns inc = Some (Inr (columns, inc))"
  using assms
proof (induction cs arbitrary: i)
  case (Cons seq cs)
  have "outIdxs ! i < 0" using Cons.prems by (simp add: list_all_length)
  then have "rowMapper outIdxs columns i seq = Some (columns, False)"
    using Cons.prems by (simp add: rowMapper_def nth_go_def)
  moreover have "ReadSequence (concat (seq # cs)) (int (length seq)) = Some (seq, concat cs)"
    by (simp add: ReadSequence_def Read_def slice_to_def slice_from_def)
  ultimately show ?case using Cons by simp
qed simp

lemma row_columns_unmapped:
  assumes "row_fits n kv" "n < 2 ^ 16" "length outIdxs = n" "list_all (\<lambda>j. j < 0) outIdxs"
  shows "row_columns outIdxs numOut (be 2 (length (snd kv)) @
     concat (map (\<lambda>seq. be 8 (length seq)) (snd kv)) @ concat (snd kv)) = Some (Inr (replicate numOut [], False))"
  using assms file_columns_unmapped [of outIdxs 0 "snd kv" "replicate numOut []" False] row_col_lengths [OF assms(1)]
  by (simp add: row_columns_def ReadInt16_be row_fits_def)

text \<open>
  A row of the file none of whose columns is requested, and that is not in the memstore either, ends the iteration:
  without a call of the callback the loop returns with no error, so that the rows after it are not read and \<open>iterate\<close>
  does not go on to the rows of the memstore.
\<close>

theorem unknown_row_ends_iteration:
  assumes fits: "row_fits n kv" and n: "n < 2 ^ 16" and idxs: "length outIdxs = n" "list_all (\<lambda>j. j < 0) outIdxs"
    and mem: "mem_lookup ctx (fst kv) tree = (None, tree')"
  shows "read_rows m outIdxs numOut False ctx onRow (row_bytes kv @ rest, clean) tree s = Some (s, tree', Some None)"
proof -
  have lim: "\<not> (rowLength (fst kv) (snd kv) < 8 \<or> makeLimit < int (rowLength (fst kv) (snd kv)))"
    using fits rowLength_ge(1) [of "fst kv" "snd kv"] by (simp add: row_fits_def)
  show ?thesis
    using mem by (subst read_rows.simps)
      (simp add: read_row [OF fits] lim row_key_body [OF fits] row_columns_unmapped [OF fits n idxs] mem_lookup_def)
qed

theorem unknown_row_ends_iteration_witness:
  "read_rows (\<lambda>_ _ _. None) [- 1] 1 False 5 (\<lambda>_ _ _ s. Some (s + 1, True, None)) (row_bytes ([1], [[2]]) @ row_bytes ([3], [[4]]), True)
     None (0 :: int) = Some (0, None, Some None)"
proof -
  have f: "row_fits 1 ([1], [[2]])" by code_simp
  show ?thesis by (rule unknown_row_ends_iteration [OF f]) (simp_all add: mem_lookup_def)
qed

end
