(* ===== verification/Insert.thy ===== *)
theory Insert
  imports RowStoreFiles
begin

text \<open>
  The way of a point into a table (insert.go, the retention of table.go and the partitioning of cluster_follow.go):
  \<open>InsertRaw\<close> encodes the point for the write-ahead log of its stream, every table of the stream reads the log,
  decodes the point, decides whether it takes it, and sends messages to its row store.

  Byte maps, the hash of the partitioning and the clock belong to third-party packages; what the code calls of them is
  the record \<open>insert_ext\<close>.  The time of the clock is part of the state of a table.  Names of streams are taken as
  ASCII strings.
\<close>

section \<open>What the code uses of other packages\<close>

record insert_ext =
  ix_slice :: "bytes \<Rightarrow> string list \<Rightarrow> bytes"
  ix_fromSorted :: "string list \<Rightarrow> goval list \<Rightarrow> bytes"
  ix_values :: "bytes \<Rightarrow> (string \<times> goval option) list"
  ix_build :: "(string \<times> float64) list \<Rightarrow> bytes"
  ix_getBytes :: "bytes \<Rightarrow> string \<Rightarrow> bytes"
  ix_sum32 :: "bytes \<Rightarrow> 32 word"
  ix_advance :: "gotime \<Rightarrow> gotime \<Rightarrow> gotime"

definition toLower_char :: "char \<Rightarrow> char" where
  "toLower_char c = (let n = (of_char c :: nat) in if 65 \<le> n \<and> n \<le> 90 then char_of (n + 32) else c)"

definition ToLower :: "string \<Rightarrow> string" where "ToLower s = map toLower_char s"

definition isSpace :: "char \<Rightarrow> bool" where
  "isSpace c = (let n = (of_char c :: nat) in n = 32 \<or> 9 \<le> n \<and> n \<le> 13)"

definition TrimSpace :: "string \<Rightarrow> string" where
  "TrimSpace s = rev (dropWhile isSpace (rev (dropWhile isSpace s)))"

section \<open>Writing a point\<close>

record insert_opts =
  io_follow :: bool
  io_streams :: "string list"
  io_whitelist :: "string list"

text \<open>The stream and the entry that are written to its log.\<close>

definition InsertRaw :: "insert_ext \<Rightarrow> insert_opts \<Rightarrow> string \<Rightarrow> gotime \<Rightarrow> bytes \<Rightarrow> bytes \<Rightarrow> (error + string \<times> bytes) go" where
  "InsertRaw I opts strm0 ts dims0 vals =
     (if io_follow opts then Some (Inl (OtherError ''Declining to insert data directly to follower''))
      else let strm = TrimSpace (ToLower strm0) in
        if strm \<notin> set (io_streams opts) then Some (Inl (OtherError ''No wal found for stream''))
        else let dims = (if io_whitelist opts \<noteq> [] then ix_slice I dims0 (io_whitelist opts) else dims0) in
          do { tsd \<leftarrow> EncodeTime (replicate (nat Width64bits) 0) ts;
               (dimsLen, _) \<leftarrow> WriteInt32 (replicate (nat Width32bits) 0) (int (length dims));
               (valsLen, _) \<leftarrow> WriteInt32 (replicate (nat Width32bits) 0) (int (length vals));
               Some (Inr (strm, concat [tsd, dimsLen, dims, valsLen, vals])) })"

section \<open>Partitions\<close>

definition partitionFor :: "insert_ext \<Rightarrow> int \<Rightarrow> bytes \<Rightarrow> string list \<Rightarrow> int go" where
  "partitionFor I numPartitions dims partitionKeys =
     (let hashed = (if partitionKeys \<noteq> [] then concat (map (ix_getBytes I dims) partitionKeys) else dims) in
      if numPartitions = 0 then None else Some (trem (uint (ix_sum32 I hashed)) numPartitions))"

definition inPartition :: "insert_ext \<Rightarrow> int \<Rightarrow> bytes \<Rightarrow> string list \<Rightarrow> int \<Rightarrow> bool go" where
  "inPartition I numPartitions dims partitionKeys part =
     do { p \<leftarrow> partitionFor I numPartitions dims partitionKeys; Some (p = part) }"

section \<open>Taking a point\<close>

record 'c table =
  tb_Where :: "'c option"
  tb_GroupBy :: "(string \<times> 'c) list"
  tb_PartitionBy :: "string list"
  tb_RetentionPeriod :: duration
  tb_Backfill :: duration
  tb_now :: gotime
  tb_FilteredPoints :: int
  tb_InsertedPoints :: int

definition truncateBefore :: "'c table \<Rightarrow> gotime" where
  "truncateBefore t = tb_now t + wrap64 (- 1 * tb_RetentionPeriod t)"

definition backfillTo :: "'c table \<Rightarrow> gotime" where
  "backfillTo t = (if tb_Backfill t = 0 then zeroTime else tb_now t + wrap64 (- 1 * tb_Backfill t))"

text \<open>
  The values of a point: the values of the main row, and the further elements of arrays, which become rows of their
  own.  Reading the first element of an empty array panics.
\<close>

fun split_vals :: "(string \<times> goval option) list \<Rightarrow> ((string \<times> float64) list \<times> (string \<times> float64) list) go" where
  "split_vals [] = Some ([], [])"
| "split_vals ((key, value) # kvs) =
     do { (main, additional) \<leftarrow> (case value of
            Some (GFloat64 v) \<Rightarrow> Some ([(key, v)], [])
          | Some (GInt v) \<Rightarrow> Some ([(key, float_of_int (sint v))], [])
          | Some (GFloat64s vs) \<Rightarrow> (case vs of [] \<Rightarrow> None | v # vs \<Rightarrow> Some ([(key, v)], map (\<lambda>v. (key, v)) vs))
          | Some (GInts vs) \<Rightarrow> (case vs of [] \<Rightarrow> None
              | v # vs \<Rightarrow> Some ([(key, float_of_int (sint v))], map (\<lambda>v. (key, float_of_int (sint v))) vs))
          | _ \<Rightarrow> Some ([], []));
          (mains, additionals) \<leftarrow> split_vals kvs;
          Some (main @ mains, additional @ additionals) }"

definition insert_key :: "('c, 'h) ext \<Rightarrow> store_ext \<Rightarrow> insert_ext \<Rightarrow> 'c table \<Rightarrow> bytes \<Rightarrow> bytes" where
  "insert_key X E I t dims =
     (if tb_GroupBy t = [] then dims
      else let kvs = concat (map (\<lambda>(name, c). case ge_eval X c (sx_get E dims) of
                      Some v \<Rightarrow> [(name, v)] | None \<Rightarrow> []) (tb_GroupBy t))
           in ix_fromSorted I (map fst kvs) (map snd kvs))"

definition insert_row :: "gotime \<Rightarrow> bytes \<Rightarrow> bytes \<Rightarrow> offset \<Rightarrow> int \<Rightarrow> insert_ext \<Rightarrow> (string \<times> float64) list \<Rightarrow> insert_msg go" where
  "insert_row ts key dims off source I kvs =
     do { tsp \<leftarrow> NewTSParams ts (ix_build I kvs);
          Some \<lparr> in_key = Some key, in_vals = tsp, in_dims = Some dims, in_offset = off, in_source = source \<rparr> }"

fun insert_rows :: "((string \<times> float64) list \<Rightarrow> insert_msg go) \<Rightarrow> (string \<times> float64) list list \<Rightarrow> insert_msg list go" where
  "insert_rows f [] = Some []"
| "insert_rows f (kvs # kvss) = do { m \<leftarrow> f kvs; ms \<leftarrow> insert_rows f kvss; Some (m # ms) }"

text \<open>
  \<open>doInsert\<close>: the state of the table afterwards, and the messages and the result, unless it panics.  The memory
  cap, which may ask tables to flush, does not change what is inserted.
\<close>

definition doInsert ::
  "('c, 'h) ext \<Rightarrow> store_ext \<Rightarrow> insert_ext \<Rightarrow> gotime \<Rightarrow> bytes \<Rightarrow> bytes \<Rightarrow> offset \<Rightarrow> int \<Rightarrow> 'c table \<Rightarrow> 'c table \<times> (insert_msg list \<times> bool) go" where
  "doInsert X E I ts dims vals off source t =
     (case (case tb_Where t of
              None \<Rightarrow> Some True
            | Some c \<Rightarrow> (case ge_eval X c (sx_get E dims) of Some (GBool b) \<Rightarrow> Some b | _ \<Rightarrow> None)) of
        None \<Rightarrow> (t, None)
      | Some False \<Rightarrow> (t\<lparr>tb_FilteredPoints := wrap64 (tb_FilteredPoints t + 1)\<rparr>, Some ([], False))
      | Some True \<Rightarrow>
          let t1 = t\<lparr>tb_now := ix_advance I (tb_now t) ts\<rparr>;
              key = insert_key X E I t dims
          in case do { (main, additional) \<leftarrow> split_vals (ix_values I vals);
                       insert_rows (insert_row ts key dims off source I)
                         ((if main \<noteq> [] then [main] else []) @ map (\<lambda>kv. [kv]) additional) } of
               None \<Rightarrow> (t1, None)
             | Some msgs \<Rightarrow>
                 (t1\<lparr>tb_InsertedPoints := wrap64 (tb_InsertedPoints t1 + int (length msgs))\<rparr>, Some (msgs, True)))"

text \<open>The decoding of an entry, up to the dimensions and up to the values.\<close>

definition read_dims :: "bytes \<Rightarrow> (gotime \<times> bytes) go" where
  "read_dims data = do { (tsd, remain) \<leftarrow> Read data Width64bits; ts \<leftarrow> TimeFromBytes tsd; Some (ts, remain) }"

definition read_block :: "bytes \<Rightarrow> (bytes \<times> bytes) go" where
  "read_block remain = do { (len, remain) \<leftarrow> ReadInt32 remain; Read remain len }"

text \<open>\<open>insert\<close>: a panic is recovered and counts as not inserted.\<close>

definition t_insert ::
  "('c, 'h) ext \<Rightarrow> store_ext \<Rightarrow> insert_ext \<Rightarrow> bool \<Rightarrow> int \<Rightarrow> int \<Rightarrow> bytes \<Rightarrow> offset \<Rightarrow> int \<Rightarrow> 'c table \<Rightarrow> 'c table \<times> insert_msg list \<times> bool" where
  "t_insert X E I isFollower numPartitions part data off source t =
     (case do { (ts, remain) \<leftarrow> read_dims data;
                if ts < truncateBefore t then Some None
                else do { (dims, remain) \<leftarrow> read_block remain;
                          included \<leftarrow> (if isFollower then inPartition I numPartitions dims (tb_PartitionBy t) part else Some True);
                          if \<not> included then Some None
                          else do { (vals, _) \<leftarrow> read_block remain; Some (Some (ts, dims, vals)) } } } of
        None \<Rightarrow> (t, [], False)
      | Some None \<Rightarrow> (t, [], False)
      | Some (Some (ts, dims, vals)) \<Rightarrow>
          (case doInsert X E I ts dims vals off source t of
             (t', None) \<Rightarrow> (t', [], False)
           | (t', Some (msgs, inserted)) \<Rightarrow> (t', msgs, inserted)))"

definition skip :: "offset \<Rightarrow> int \<Rightarrow> insert_msg" where
  "skip off source = \<lparr> in_key = None, in_vals = [], in_dims = None, in_offset = off, in_source = source \<rparr>"

record walRead =
  wr_data :: "bytes option"
  wr_offset :: offset
  wr_source :: int

text \<open>What the loop of \<open>table.processInserts\<close> does with one entry: the messages it sends to the row store.\<close>

definition process_read ::
  "('c, 'h) ext \<Rightarrow> store_ext \<Rightarrow> insert_ext \<Rightarrow> bool \<Rightarrow> int \<Rightarrow> int \<Rightarrow> walRead \<Rightarrow> 'c table \<Rightarrow> 'c table \<times> insert_msg list" where
  "process_read X E I isFollower numPartitions part rd t =
     (case wr_data rd of
        None \<Rightarrow> (t, [])
      | Some data \<Rightarrow>
          (case t_insert X E I isFollower numPartitions part data (wr_offset rd) (wr_source rd) t of
             (t', msgs, inserted) \<Rightarrow> (t', if inserted then msgs else msgs @ [skip (wr_offset rd) (wr_source rd)])))"

fun table_processInserts ::
  "('c, 'h) ext \<Rightarrow> store_ext \<Rightarrow> insert_ext \<Rightarrow> bool \<Rightarrow> int \<Rightarrow> int \<Rightarrow> walRead list \<Rightarrow> 'c table \<Rightarrow> 'c table \<times> insert_msg list" where
  "table_processInserts X E I isFollower numPartitions part [] t = (t, [])"
| "table_processInserts X E I isFollower numPartitions part (rd # rds) t =
     (let (t1, msgs) = process_read X E I isFollower numPartitions part rd t;
          (t2, rest) = table_processInserts X E I isFollower numPartitions part rds t1
      in (t2, msgs @ rest))"

end
