(* ===== verification/InsertProps.thy ===== *)
theory InsertProps
  imports Insert Codec
begin

text \<open>
  Correctness of the insert path: what \<open>InsertRaw\<close> writes is what a table reads, the rows sent to the row store
  hold every supported value of the point once, and the offset of the entry reaches the row store.
\<close>

section \<open>Decoding what was written\<close>

lemma read_dims_written: "in64 ts \<Longrightarrow> read_dims (be 8 (unat (word_of_int ts :: u64)) @ rest) = Some (ts, rest)"
  using TimeFromBytes_be [of "word_of_int ts" "[]"] 
  by (simp add: read_dims_def Read_def slice_to_def slice_from_def width_defs sint_word_of_int64)

lemma read_block_written: "int (length b) < 2 ^ 32 \<Longrightarrow> read_block (be 4 (length b) @ b @ rest) = Some (b, rest)"
  by (simp add: read_block_def ReadInt32_def Uint32_def Read_def slice_to_def slice_from_def width_defs unbe_be)

text \<open>The parts of an entry, and an entry as a whole: the time, the dimensions and the values.\<close>

abbreviation time_bytes :: "gotime \<Rightarrow> bytes" where "time_bytes ts \<equiv> be 8 (unat (word_of_int ts :: u64))"

abbreviation block_bytes :: "bytes \<Rightarrow> bytes" where "block_bytes b \<equiv> be 4 (length b) @ b"

interpretation blocks: codec_pair block_bytes read_block "\<lambda>b. int (length b) < 2 ^ 32" block_bytes read_block "\<lambda>b. int (length b) < 2 ^ 32"
  by unfold_locales (simp_all add: read_block_written)

interpretation wal_entry: codec_pair time_bytes read_dims in64
  "\<lambda>(dims, vals). block_bytes dims @ block_bytes vals" "dec_pair read_block read_block" "\<lambda>(dims, vals). int (length dims) < 2 ^ 32 \<and> int (length vals) < 2 ^ 32"
  by unfold_locales (simp add: read_dims_written)

text \<open>An entry determines its point.\<close>

lemma entry_unique:
  assumes "in64 ts" "in64 ts'" "int (length dims) < 2 ^ 32" "int (length vals) < 2 ^ 32" "int (length dims') < 2 ^ 32" "int (length vals') < 2 ^ 32"
    "time_bytes ts @ block_bytes dims @ block_bytes vals = time_bytes ts' @ block_bytes dims' @ block_bytes vals'"
  shows "ts = ts' \<and> dims = dims' \<and> vals = vals'"
  using wal_entry.pair.enc_unique [of "(ts, dims, vals)" "(ts', dims', vals')" "[]" "[]"] assms by simp

lemma InsertRaw_data:
  assumes "\<not> io_follow opts" "TrimSpace (ToLower strm) \<in> set (io_streams opts)"
    and "dims' = (if io_whitelist opts \<noteq> [] then ix_slice I dims (io_whitelist opts) else dims)"
    and "in64 ts" "int (length dims') < 2 ^ 32" "int (length vals) < 2 ^ 32"
  shows "InsertRaw I opts strm ts dims vals = Some (Inr (TrimSpace (ToLower strm),
    be 8 (unat (word_of_int ts :: u64)) @ be 4 (length dims') @ dims' @ be 4 (length vals) @ vals))"
  using assms
  by (simp add: InsertRaw_def Let_def EncodeTime_def PutUint64_def WriteInt32_def PutUint32_def slice_from_def width_defs UnixNano_def
      flip: numeral_2_eq_2)

text \<open>
  C35. A point that \<open>InsertRaw\<close> accepts is read back unchanged by every table: an entry is written for the
  normalised name of the stream, and inserting it into a table skips it if the point is older than the retention period or
  belongs to another partition, and else inserts its time, its dimensions (restricted to the whitelist) and its values.
\<close>

theorem insert_raw_decoded:
  assumes "\<not> io_follow opts" "TrimSpace (ToLower strm) \<in> set (io_streams opts)"
    and "dims' = (if io_whitelist opts \<noteq> [] then ix_slice I dims (io_whitelist opts) else dims)"
    and "in64 ts" "int (length dims') < 2 ^ 32" "int (length vals) < 2 ^ 32"
  shows "\<exists>data. InsertRaw I opts strm ts dims vals = Some (Inr (TrimSpace (ToLower strm), data)) \<and>
    t_insert X E I isFollower numPartitions part data off source t =
      (if ts < truncateBefore t \<or> isFollower \<and> inPartition I numPartitions dims' (tb_PartitionBy t) part \<noteq> Some True then (t, [], False)
       else case doInsert X E I ts dims' vals off source t of
              (t', None) \<Rightarrow> (t', [], False)
            | (t', Some (msgs, inserted)) \<Rightarrow> (t', msgs, inserted))"
proof (intro exI conjI)
  show "InsertRaw I opts strm ts dims vals = Some (Inr (TrimSpace (ToLower strm),
      be 8 (unat (word_of_int ts :: u64)) @ be 4 (length dims') @ dims' @ be 4 (length vals) @ vals))"
    by (rule InsertRaw_data [OF assms])
  show "t_insert X E I isFollower numPartitions part
      (be 8 (unat (word_of_int ts :: u64)) @ be 4 (length dims') @ dims' @ be 4 (length vals) @ vals) off source t =
    (if ts < truncateBefore t \<or> isFollower \<and> inPartition I numPartitions dims' (tb_PartitionBy t) part \<noteq> Some True then (t, [], False)
     else case doInsert X E I ts dims' vals off source t of
            (t', None) \<Rightarrow> (t', [], False)
          | (t', Some (msgs, inserted)) \<Rightarrow> (t', msgs, inserted))"
    using wal_entry.fst.dec_enc [OF assms(4)] blocks.fst.dec_enc [OF assms(5)] blocks.fst.dec_whole [OF assms(6)]
    by (auto simp: t_insert_def split: bind_splits)
qed

section \<open>The rows of a point\<close>

fun value_floats :: "goval option \<Rightarrow> float64 list" where
  "value_floats (Some (GFloat64 v)) = [v]"
| "value_floats (Some (GInt v)) = [float_of_int (sint v)]"
| "value_floats (Some (GFloat64s vs)) = vs"
| "value_floats (Some (GInts vs)) = map (\<lambda>v. float_of_int (sint v)) vs"
| "value_floats _ = []"

definition point_values :: "(string \<times> goval option) list \<Rightarrow> (string \<times> float64) list" where
  "point_values kvs = concat (map (\<lambda>(k, v). map (Pair k) (value_floats v)) kvs)"

lemma split_vals_values:
  assumes "split_vals kvs = Some (main, additional)"
  shows "mset (main @ additional) = mset (point_values kvs) \<and> set (map fst main) \<subseteq> fst ` set kvs \<and>
    (distinct (map fst kvs) \<longrightarrow> distinct (map fst main))"
  using assms
proof (induction kvs arbitrary: main additional)
  case (Cons kv kvs)
  obtain k v where kv: "kv = (k, v)" by (cases kv)
  obtain m a ms as where s: "split_vals kvs = Some (ms, as)" "main = m @ ms" "additional = a @ as"
    and m: "mset (m @ a) = mset (map (Pair k) (value_floats v))" "m = [] \<or> (\<exists>x. m = [(k, x)])"
    using Cons.prems kv by (auto simp: bind_Some_iff comp_def multiset.map_comp split: option.splits goval.splits list.splits)
  moreover have "fst x \<in> fst ` set kvs" if "x \<in> set ms" for x
    using Cons.IH [OF s(1)] that by auto
  ultimately show ?case using Cons.IH [OF s(1)] kv
    by (auto simp: point_values_def ac_simps)
qed (simp add: point_values_def)

lemma insert_rows_map: "(\<And>kvs. f kvs = Some (g kvs)) \<Longrightarrow> insert_rows f kvss = Some (map g kvss)"
  by (induction kvss) auto

lemma insert_row_Some:
  "insert_row ts key dims off source I kvs = Some \<lparr> in_key = Some key,
     in_vals = be 8 (unat (word_of_int (UnixNano ts) :: u64)) @ ix_build I kvs, in_dims = Some dims, in_offset = off, in_source = source \<rparr>"
  by (simp add: insert_row_def NewTSParams_def EncodeTime_def PutUint64_def)

lemma concat_rows: "mset (concat ((if main \<noteq> [] then [main] else []) @ map (\<lambda>kv. [kv]) additional)) = mset (main @ additional)"
  by (induction additional) auto

lemma doInsert_rows:
  assumes "doInsert X E I ts dims vals off source t = (t', Some (msgs, True))" "distinct (map fst (ix_values I vals))"
  shows "\<exists>kvss. msgs = map (\<lambda>kvs. \<lparr> in_key = Some (insert_key X E I t dims),
        in_vals = be 8 (unat (word_of_int (UnixNano ts) :: u64)) @ ix_build I kvs, in_dims = Some dims,
        in_offset = off, in_source = source \<rparr>) kvss \<and>
      mset (concat kvss) = mset (point_values (ix_values I vals)) \<and>
      (\<forall>kvs \<in> set kvss. kvs \<noteq> [] \<and> distinct (map fst kvs)) \<and>
      tb_InsertedPoints t' = wrap64 (tb_InsertedPoints t + int (length kvss))"
proof -
  obtain main additional where sv: "split_vals (ix_values I vals) = Some (main, additional)"
    using assms(1) by (auto simp: doInsert_def Let_def split: option.splits bool.splits goval.splits bind_splits)
  let ?kvss = "(if main \<noteq> [] then [main] else []) @ map (\<lambda>kv. [kv]) additional"
  have "tb_InsertedPoints t' = wrap64 (tb_InsertedPoints t + int (length ?kvss)) \<and>
      insert_rows (insert_row ts (insert_key X E I t dims) dims off source I) ?kvss = Some msgs"
    using assms(1) sv insert_rows_map [where f = "insert_row ts (insert_key X E I t dims) dims off source I", OF insert_row_Some, of ?kvss]
    by (auto simp: doInsert_def Let_def split: option.splits bool.splits goval.splits)
  then show ?thesis
    using split_vals_values [OF sv] assms(2) concat_rows [of main additional]
    by (intro exI [of _ ?kvss]) (auto simp: insert_rows_map [OF insert_row_Some])
qed

text \<open>
  C7. The rows of an inserted point.  Every row goes to the key of the point with its time, dimensions and offset, the
  rows together hold each supported value of the point exactly once (numbers, and every element of an array), no row
  holds two values of one field, none is empty, and the counter of inserted points grows by the number of rows.
\<close>

theorem point_values_conserved:
  assumes "doInsert X E I ts dims vals off source t = (t', Some (msgs, True))" "distinct (map fst (ix_values I vals))"
  shows "\<exists>kvss. msgs = map (\<lambda>kvs. \<lparr> in_key = Some (insert_key X E I t dims),
        in_vals = be 8 (unat (word_of_int (UnixNano ts) :: u64)) @ ix_build I kvs, in_dims = Some dims,
        in_offset = off, in_source = source \<rparr>) kvss \<and>
      mset (concat kvss) = mset (point_values (ix_values I vals)) \<and>
      (\<forall>kvs \<in> set kvss. kvs \<noteq> [] \<and> distinct (map fst kvs)) \<and>
      tb_InsertedPoints t' = wrap64 (tb_InsertedPoints t + int (length kvss))"
  by (rule doInsert_rows [OF assms])

section \<open>Offsets\<close>

lemma doInsert_messages:
  assumes "doInsert X E I ts dims vals off source t = (t', Some (msgs, inserted))"
  shows "(\<forall>m \<in> set msgs. in_offset m = off \<and> in_source m = source) \<and> (\<not> inserted \<longrightarrow> msgs = [])"
  using assms
  by (auto simp: doInsert_def Let_def insert_rows_map [OF insert_row_Some] split: option.splits bool.splits goval.splits bind_splits if_splits)

lemma t_insert_messages:
  assumes "t_insert X E I isFollower n part data off source t = (t', msgs, inserted)"
  shows "(\<forall>m \<in> set msgs. in_offset m = off \<and> in_source m = source) \<and> (\<not> inserted \<longrightarrow> msgs = []) \<and>
    (inserted \<longrightarrow> (\<exists>ts dims vals. doInsert X E I ts dims vals off source t = (t', Some (msgs, True))))"
  using assms doInsert_messages by (fastforce simp: t_insert_def split: option.splits prod.splits)

lemma last_offset_append: "last_offset source (evs @ evs') off = last_offset source evs' (last_offset source evs off)"
  by (induction source evs off rule: last_offset.induct) auto

lemma last_offset_same:
  "msgs \<noteq> [] \<Longrightarrow> \<forall>m \<in> set msgs. in_offset m = off \<and> in_source m = source \<Longrightarrow> last_offset source (map Inserted msgs) o' = Some off"
proof (induction msgs arbitrary: o')
  case (Cons m msgs)
  then show ?case by (cases "msgs = []") auto
qed simp


section \<open>Examples\<close>

text \<open>A byte map whose values are the fields \<open>a\<close>, \<open>b\<close>, ... with small integers, one for each byte.\<close>

definition sample_insert :: insert_ext where
  "sample_insert = \<lparr> ix_slice = (\<lambda>b _. b), ix_fromSorted = (\<lambda>_ _. []),
     ix_values = (\<lambda>b. [(''a'', Some (GInts (map (\<lambda>x. word_of_int (uint x)) b)))]),
     ix_build = (\<lambda>kvs. concat (map (\<lambda>(_, v). be 8 (unat v)) kvs)),
     ix_getBytes = (\<lambda>b _. b), ix_sum32 = (\<lambda>b. of_nat (unbe b)), ix_advance = (\<lambda>now ts. if now < ts then ts else now) \<rparr>"

definition sample_table :: "bool table" where
  "sample_table = \<lparr> tb_Where = None, tb_GroupBy = [], tb_PartitionBy = [], tb_RetentionPeriod = 1000, tb_Backfill = 0,
     tb_now = 5000, tb_FilteredPoints = 0, tb_InsertedPoints = 0 \<rparr>"

definition sample_opts :: insert_opts where
  "sample_opts = \<lparr> io_follow = False, io_streams = [''s''], io_whitelist = [] \<rparr>"

theorem insert_raw_decoded_witness:
  "\<exists>data. InsertRaw sample_insert sample_opts '' S '' 4500 [1] [2, 3] = Some (Inr (''s'', data)) \<and>
     t_insert sample_ext sample_store sample_insert True 3 1 data [9] 0 sample_table =
       (case doInsert sample_ext sample_store sample_insert 4500 [1] [2, 3] [9] 0 sample_table of
          (t', None) \<Rightarrow> (t', [], False)
        | (t', Some (msgs, inserted)) \<Rightarrow> (t', msgs, inserted))"
proof -
  have n: "TrimSpace (ToLower '' S '') = ''s''" by code_simp
  have c: "\<not> (4500 < truncateBefore sample_table \<or> True \<and> inPartition sample_insert 3 [1] (tb_PartitionBy sample_table) 1 \<noteq> Some True)"
    by code_simp
  have o: "\<not> io_follow sample_opts" "TrimSpace (ToLower '' S '') \<in> set (io_streams sample_opts)"
    "[1] = (if io_whitelist sample_opts \<noteq> [] then ix_slice sample_insert [1] (io_whitelist sample_opts) else [1])"
    by (simp_all add: sample_opts_def n)
  have l: "in64 4500" "int (length [1 :: byte]) < 2 ^ 32" "int (length [2 :: byte, 3]) < 2 ^ 32" by (simp_all add: in64_def)
  show ?thesis
    using insert_raw_decoded [OF o l, of sample_ext sample_store True 3 1 "[9]" 0 sample_table]
    unfolding if_not_P [OF c] n .
qed

theorem point_values_conserved_witness:
  "\<exists>t' msgs kvss. doInsert sample_ext sample_store sample_insert 4500 [1] [2, 3] [9] 0 sample_table = (t', Some (msgs, True)) \<and>
     length msgs = length kvss \<and> mset (concat kvss) = {# (''a'', float_of_int 2), (''a'', float_of_int 3) #}"
proof -
  have ex: "\<exists>t' msgs. doInsert sample_ext sample_store sample_insert 4500 [1] [2, 3] [9] 0 sample_table = (t', Some (msgs, True))"
    by (simp add: doInsert_def sample_table_def sample_insert_def insert_rows_map [OF insert_row_Some] Let_def)
  then obtain t' msgs where d: "doInsert sample_ext sample_store sample_insert 4500 [1] [2, 3] [9] 0 sample_table = (t', Some (msgs, True))" by blast
  have "mset (point_values (ix_values sample_insert [2, 3])) = {# (''a'', float_of_int 2), (''a'', float_of_int 3) #}"
    by (simp add: point_values_def sample_insert_def add_mset_commute)
  then show ?thesis
    using point_values_conserved [OF d] d by (auto simp: sample_insert_def)
qed


end
