(* ===== verification/Table.thy ===== *)
theory Table
  imports InsertProps
begin

text \<open>
  Tables of a database (table.go) and their role as row sources of queries (query.go): creating and altering a
  table, coalescing iterations, and the turns of sorted flushes.

  A table is known by its name.  The parsed query of its definition is an argument; the parser works on the parse
  tree of a third-party package.
\<close>

section \<open>Fields\<close>

definition addPointsField :: "('c, 'h) ext \<Rightarrow> 'c fields \<Rightarrow> 'c fields" where
  "addPointsField X fs = (if \<exists>f \<in> set fs. field_Equals X f PointsField then fs else PointsField # fs)"

section \<open>Definitions of tables\<close>

record table_opts =
  to_Name :: string
  to_View :: bool
  to_MinFlushLatency :: duration
  to_MaxFlushLatency :: duration
  to_RetentionPeriod :: duration
  to_Backfill :: duration
  to_PartitionBy :: "string list"
  to_Virtual :: bool

text \<open>The part of a parsed query that defines a table.\<close>

record 'c table_query =
  tq_Fields :: "'c fieldsource"
  tq_From :: string
  tq_Resolution :: duration
  tq_Where :: "'c option"
  tq_GroupBy :: "(string \<times> 'c) list option"
  tq_GroupByAll :: bool

record 'c table_def =
  td_opts :: table_opts
  td_query :: "'c table_query"
  td_fields :: "'c fields"

definition getTable :: "(string \<times> 'c table_def) list \<Rightarrow> string \<Rightarrow> 'c table_def option" where
  "getTable tables name = map_of tables (ToLower name)"

text \<open>
  \<open>queryAndFields\<close>, with \<open>goexpr.Binary\<close> as argument.  The message about a missing table reads the name of the
  table that was not found, through a nil pointer.
\<close>

definition queryAndFields ::
  "('c, 'h) ext \<Rightarrow> ('c \<Rightarrow> 'c \<Rightarrow> error + 'c) \<Rightarrow> (string \<times> 'c table_def) list \<Rightarrow> table_opts \<Rightarrow> 'c table_query
   \<Rightarrow> (error + table_opts \<times> 'c table_query \<times> 'c fields) go" where
  "queryAndFields X conj2 tables opts q =
     (if \<not> to_View opts then
        Some (case fieldsource_Get (tq_Fields q) [] of
                Inl e \<Rightarrow> Inl e
              | Inr fs \<Rightarrow> Inr (opts, q, addPointsField X fs))
      else case getTable tables (tq_From q) of
        None \<Rightarrow> None
      | Some t \<Rightarrow>
          let q1 = q\<lparr>tq_From := tq_From (td_query t)\<rparr>;
              q2 = (if tq_GroupBy q1 = None
                    then q1\<lparr>tq_GroupBy := tq_GroupBy (td_query t), tq_GroupByAll := tq_GroupByAll (td_query t)\<rparr> else q1);
              q3 = (if tq_Resolution q2 = 0 then q2\<lparr>tq_Resolution := tq_Resolution (td_query t)\<rparr> else q2);
              opts1 = (if to_PartitionBy opts = [] then opts\<lparr>to_PartitionBy := to_PartitionBy (td_opts t)\<rparr> else opts);
              combined = (case tq_Where (td_query t) of
                  None \<Rightarrow> Inr (tq_Where q3)
                | Some w \<Rightarrow> (case tq_Where q3 of
                      None \<Rightarrow> Inr (Some w)
                    | Some v \<Rightarrow> (case conj2 v w of Inl e \<Rightarrow> Inl e | Inr c \<Rightarrow> Inr (Some c))))
          in Some (case combined of
               Inl e \<Rightarrow> Inl e
             | Inr w \<Rightarrow> (case fieldsource_Get (tq_Fields q3) (td_fields t) of
                   Inl e \<Rightarrow> Inl e
                 | Inr fs \<Rightarrow> Inr (opts1, q3\<lparr>tq_Where := w\<rparr>, addPointsField X fs))))"

record 'c database =
  db_tables :: "(string \<times> 'c table_def) list"
  db_ReadOnly :: bool
  db_Passthrough :: bool
  db_Follow :: bool

datatype started = NotStarted | FollowFrom offset_map | ReadWALFrom offset

definition validate_opts :: "table_opts \<Rightarrow> 'c table_query \<Rightarrow> error option" where
  "validate_opts opts q =
     (if to_Virtual opts then None
      else if to_RetentionPeriod opts \<le> 0 then Some (OtherError ''Please specify a positive RetentionPeriod'')
      else if to_RetentionPeriod opts < tq_Resolution q
        then Some (OtherError ''Please specify a RetentionPeriod greater than the resolution'')
      else None)"

definition default_opts :: "table_opts \<Rightarrow> table_opts" where
  "default_opts opts =
     (let opts1 = (if \<not> to_Virtual opts \<and> to_MaxFlushLatency opts \<le> 0 then opts\<lparr>to_MaxFlushLatency := 2 ^ 63 - 1\<rparr> else opts)
      in opts1\<lparr>to_Name := ToLower (to_Name opts1)\<rparr>)"

text \<open>The offsets at which a table starts: those of its row store, limited by its retention and its backfill depth.\<close>

definition start_offsets :: "wal_ext \<Rightarrow> gotime \<Rightarrow> table_opts \<Rightarrow> offset_map \<Rightarrow> offset_map" where
  "start_offsets wx now opts offs =
     (let retained = LimitAge wx (Some offs) (NewOffsetForTS wx (now + wrap64 (- 1 * to_RetentionPeriod opts)));
          backfill = (if to_Backfill opts = 0 then zeroTime else now + wrap64 (- 1 * to_Backfill opts))
      in LimitAge wx (Some retained) (NewOffsetForTS wx backfill))"

text \<open>
  \<open>CreateTable\<close>: the database afterwards and the error, or where the table starts to read.  Opening the row store
  on its directory may fail; the reader of the log is outside of the model.
\<close>

definition CreateTable ::
  "('c, 'h) ext \<Rightarrow> store_ext \<Rightarrow> ('c \<Rightarrow> 'c \<Rightarrow> error + 'c) \<Rightarrow> gotime \<Rightarrow> (string \<times> filestate) list \<Rightarrow> table_opts \<Rightarrow> 'c table_query
   \<Rightarrow> 'c database \<Rightarrow> ('c database \<times> (error + started)) go" where
  "CreateTable X E conj2 now files opts q db =
     do { r \<leftarrow> queryAndFields X conj2 (db_tables db) opts q;
          (case r of
             Inl e \<Rightarrow> Some (db, Inl e)
           | Inr (opts, q, fs) \<Rightarrow>
               let opts1 = (if db_ReadOnly db then opts\<lparr>to_Virtual := True\<rparr> else opts) in
               case validate_opts opts1 q of
                 Some e \<Rightarrow> Some (db, Inl e)
               | None \<Rightarrow>
                   let opts2 = default_opts opts1; name = to_Name opts2 in
                   if map_of (db_tables db) name \<noteq> None then Some (db, Inl (OtherError ''Table already exists''))
                   else let db1 = db\<lparr>db_tables := db_tables db @ [(name, \<lparr> td_opts = opts2, td_query = q, td_fields = fs \<rparr>)]\<rparr> in
                     if to_Virtual opts2 then Some (db1, Inr NotStarted)
                     else if tq_Resolution q \<le> 0
                       then Some (db1, Inl (OtherError ''Please specify a resolution for the table using PERIOD(...)''))
                     else if db_Passthrough db
                       then Some (db1, Inr (if db_Follow db then FollowFrom [] else NotStarted))
                     else do { opened \<leftarrow> openRowStore E files;
                               Some (db1, case opened of
                                 Inl e \<Rightarrow> Inl e
                               | Inr (_, offs, _) \<Rightarrow>
                                   (let offs' = start_offsets (sx_wal E) now opts2 offs in
                                    Inr (if db_Follow db then FollowFrom offs' else ReadWALFrom (offset_of offs' 0)))) }) }"

text \<open>\<open>applyFields\<close>: the new fields, and whether the row store is told.\<close>

definition applyFields :: "('c, 'h) ext \<Rightarrow> bool \<Rightarrow> 'c fields \<Rightarrow> 'c table_def \<Rightarrow> 'c table_def \<times> 'c fields option" where
  "applyFields X passthrough fs t =
     (if fields_Equals X fs (td_fields t) then (t, None)
      else (t\<lparr>td_fields := fs\<rparr>, if \<not> to_Virtual (td_opts t) \<and> \<not> passthrough then Some fs else None))"

definition applyWhere :: "'c option \<Rightarrow> 'c table_def \<Rightarrow> 'c table_def" where
  "applyWhere w t = t\<lparr>td_query := (td_query t)\<lparr>tq_Where := w\<rparr>\<rparr>"

definition Alter ::
  "('c, 'h) ext \<Rightarrow> ('c \<Rightarrow> 'c \<Rightarrow> error + 'c) \<Rightarrow> 'c database \<Rightarrow> table_opts \<Rightarrow> 'c table_query \<Rightarrow> 'c table_def
   \<Rightarrow> ('c table_def \<times> 'c fields option \<times> error option) go" where
  "Alter X conj2 db opts q t =
     do { r \<leftarrow> queryAndFields X conj2 (db_tables db) opts q;
          Some (case r of
                  Inl e \<Rightarrow> (t, None, Some e)
                | Inr (_, q, fs) \<Rightarrow> (case applyFields X (db_Passthrough db) fs (applyWhere (tq_Where q) t) of (t', upd) \<Rightarrow> (t', upd, None))) }"

section \<open>Turns of sorted flushes\<close>

record sort_turns =
  so_ordered :: "string list"
  so_next :: int
  so_isSorting :: bool

definition t_shouldSort :: "bool \<Rightarrow> string \<Rightarrow> sort_turns \<Rightarrow> (sort_turns \<times> bool) go" where
  "t_shouldSort memoryLimited name db =
     (if \<not> memoryLimited then Some (db, False)
      else let db1 = (if int (length (so_ordered db)) \<le> so_next db then db\<lparr>so_next := 0\<rparr> else db) in
        do { nextTableToSort \<leftarrow> nth_go (so_ordered db1) (nat (so_next db1));
             Some (db1, name = nextTableToSort \<and> \<not> so_isSorting db1) })"

definition stopSorting :: "sort_turns \<Rightarrow> sort_turns" where
  "stopSorting db = db\<lparr>so_isSorting := False, so_next := so_next db + 1\<rparr>"

section \<open>Iterations\<close>

type_synonym 's onvalue = "bytes \<Rightarrow> vals \<Rightarrow> 's \<Rightarrow> ('s \<times> bool \<times> error option) go"

record ('c, 's) iteration =
  it_outFields :: "'c fields option"
  it_includeMemStore :: bool
  it_deadline :: "gotime option"
  it_onValue :: "'s onvalue"

definition maxDeadline :: "('c, 's) iteration list \<Rightarrow> gotime" where
  "maxDeadline its = foldl (\<lambda>d it. case it_deadline it of Some t \<Rightarrow> if d < t then t else d | None \<Rightarrow> d) zeroTime its"

fun add_out_fields :: "('c, 'h) ext \<Rightarrow> 'c fields \<Rightarrow> 'c fields \<Rightarrow> 'c fields" where
  "add_out_fields X all [] = all"
| "add_out_fields X all (f # fs) =
     add_out_fields X (if \<exists>g \<in> set all. field_String X g = field_String X f then all else all @ [f]) fs"

definition out_fields :: "'c fields \<Rightarrow> ('c, 's) iteration \<Rightarrow> 'c fields" where
  "out_fields tableFields it = (case it_outFields it of None \<Rightarrow> tableFields | Some fs \<Rightarrow> fs)"

definition allOutFields :: "('c, 'h) ext \<Rightarrow> 'c fields \<Rightarrow> ('c, 's) iteration list \<Rightarrow> 'c fields" where
  "allOutFields X tableFields its = foldl (\<lambda>all it. add_out_fields X all (out_fields tableFields it)) [] its"

definition indexOfOutField :: "('c, 'h) ext \<Rightarrow> 'c fields \<Rightarrow> 'c field \<Rightarrow> int" where
  "indexOfOutField X outFields f = index_where (\<lambda>g. field_String X g = field_String X f) 0 outFields"

text \<open>\<open>fieldMappings\<close> is a map from positions; a position without entry reads as 0.\<close>

definition mapping_at :: "int list \<Rightarrow> nat \<Rightarrow> int" where
  "mapping_at fieldMappings i = (if i < length fieldMappings then fieldMappings ! i else 0)"

fun itVals :: "int list \<Rightarrow> nat \<Rightarrow> vals \<Rightarrow> vals \<Rightarrow> vals go" where
  "itVals fieldMappings i [] out = Some out"
| "itVals fieldMappings i (val # vals) out =
     (let itI = mapping_at fieldMappings i in
      do { out \<leftarrow> (if 0 \<le> itI then set_at itI val out else Some out);
           itVals fieldMappings (Suc i) vals out })"

text \<open>
  One row for all iterations that still want rows; the boolean of an iteration says whether it is among them.  Go
  visits them in an order that is not specified, here that of the list; it shows only when one of them fails.
\<close>

fun combinedOnValue ::
  "(int list \<times> nat \<times> 's onvalue) list \<Rightarrow> bool \<Rightarrow> bytes \<Rightarrow> vals \<Rightarrow> ('s \<times> bool) list \<Rightarrow> (('s \<times> bool) list \<times> bool \<times> error option) go" where
  "combinedOnValue [] more' key vals sts = Some (sts, more', None)"
| "combinedOnValue (it # its) more' key vals [] = Some ([], more', None)"
| "combinedOnValue ((mp, n, onValue) # its) more' key vals ((s, remaining) # sts) =
     (if \<not> remaining then
        do { (sts, m, err) \<leftarrow> combinedOnValue its more' key vals sts; Some ((s, False) # sts, m, err) }
      else
        do { vs \<leftarrow> itVals mp 0 vals (replicate n []);
             (s, itMore, err) \<leftarrow> onValue key vs s;
             if err \<noteq> None then Some ((s, True) # sts, False, err)
             else do { (sts, m, err) \<leftarrow> combinedOnValue its (more' \<or> itMore) key vals sts;
                       Some ((s, itMore) # sts, m, err) } })"

definition prepared :: "('c, 'h) ext \<Rightarrow> 'c fields \<Rightarrow> ('c, 's) iteration list \<Rightarrow> (int list \<times> nat \<times> 's onvalue) list" where
  "prepared X tableFields its =
     map (\<lambda>it. (map (indexOfOutField X (out_fields tableFields it)) (allOutFields X tableFields its),
                 length (out_fields tableFields it), it_onValue it)) its"

text \<open>All iterations get the offsets and the error of the common one.\<close>

definition doProcessIterations ::
  "('c, 'h) ext \<Rightarrow> store_ext \<Rightarrow> duration \<Rightarrow> (gotime \<Rightarrow> bool) \<Rightarrow> gotime \<Rightarrow> int \<Rightarrow> 'c fields \<Rightarrow> ('c, 's) iteration list \<Rightarrow> 'c rowstore \<Rightarrow> 's list
   \<Rightarrow> (('s \<times> bool) list \<times> offsets \<times> error option) go" where
  "doProcessIterations X E res passed tb ctx tableFields its rs ss =
     rs_iterate X E res (\<lambda>_. \<not> IsZero (maxDeadline its) \<and> passed (maxDeadline its)) tb ctx (allOutFields X tableFields its)
       (list_ex it_includeMemStore its) (\<lambda>key vals. combinedOnValue (prepared X tableFields its) False key vals) rs
       (map (\<lambda>s. (s, True)) ss)"

section \<open>Queryable tables\<close>

record 'c queryable =
  qa_fields :: "'c fields"
  qa_asOf :: gotime
  qa_until :: gotime
  qa_includeMemStore :: bool

definition getQueryable ::
  "(string \<times> 'c table_def) list \<Rightarrow> gotime \<Rightarrow> string \<Rightarrow> ('c fields \<Rightarrow> error + 'c fields option) \<Rightarrow> bool \<Rightarrow> error + 'c queryable" where
  "getQueryable tables now name outFields includeMemStore =
     (case getTable tables name of
        None \<Rightarrow> Inl (OtherError ''Table not found'')
      | Some t \<Rightarrow>
          if to_Virtual (td_opts t) then Inl (OtherError ''Table is virtual and cannot be queried'')
          else let res = tq_Resolution (td_query t);
                   until = RoundTimeUp now res;
                   asOf = RoundTimeUp (until + wrap64 (- 1 * to_RetentionPeriod (td_opts t))) res
               in case outFields (td_fields t) of
                    Inl e \<Rightarrow> Inl e
                  | Inr out \<Rightarrow> Inr \<lparr> qa_fields = (case out of None \<Rightarrow> td_fields t | Some fs \<Rightarrow> fs), qa_asOf = asOf, qa_until = until,
                                      qa_includeMemStore = includeMemStore \<rparr>)"

record query_stats =
  qs_NumPartitions :: int
  qs_NumSuccessfulPartitions :: int
  qs_LowestHighWaterMark :: int
  qs_HighestHighWaterMark :: int

text \<open>
  \<open>queryable.Iterate\<close> over the iteration of the table, an argument; \<open>memoryOkay\<close> tells for the rows after every
  thousandth whether the memory could be kept below its limit.
\<close>

definition queryable_Iterate ::
  "wal_ext \<Rightarrow> (int \<Rightarrow> bool) \<Rightarrow> ('c fields \<Rightarrow> bool \<Rightarrow> (int \<times> 's) onvalue \<Rightarrow> int \<times> 's \<Rightarrow> ((int \<times> 's) \<times> offsets \<times> error option) go)
   \<Rightarrow> 'c queryable \<Rightarrow> ('c, row, query_stats option, 's) iterate" where
  "queryable_Iterate wx memoryOkay t_iterate q onFields onRow s =
     do { (s, err) \<leftarrow> onFields (qa_fields q) s;
          if err \<noteq> None then Some (s, None, err)
          else if qa_fields q = [] then Some (s, None, Some (OtherError ''No fields found!''))
          else do {
            ((_, s), highWaterMarks, err) \<leftarrow> t_iterate (qa_fields q) (qa_includeMemStore q)
              (\<lambda>key vals (i, s).
                 if trem i 1000 = 0 \<and> \<not> memoryOkay i then Some ((i, s), False, Some (OtherError ''out of memory''))
                 else do { (s, cont, err) \<leftarrow> onRow (key, vals) s; Some ((i + 1, s), cont, err) })
              (1, s);
            Some (s, Some \<lparr> qs_NumPartitions = 1, qs_NumSuccessfulPartitions = (if err = None then 1 else 0),
                           qs_LowestHighWaterMark = TimeToMillis (LowestTS wx highWaterMarks),
                           qs_HighestHighWaterMark = TimeToMillis (HighestTS wx highWaterMarks) \<rparr>, err) } }"

end
