(* ===== verification/Group.thy ===== *)
theory Group
  imports Core
begin

text \<open>
  \<open>core/group.go\<close>: grouping of rows by expressions over their keys, with an optional crosstab.  The rows
  are merged into a \<open>bytetree\<close> under their sliced keys and then walked.

  Byte maps and the building of conditions belong to other packages; what the code calls of them is the
  record \<open>gext\<close>.  The names of the group-by expressions are distinct, as in a query, so that sorting by name
  gives one result.
\<close>

record 'c gext =
  g_get :: bm_get
  g_split :: "bytes \<Rightarrow> string list \<Rightarrow> bytes \<times> bytes"
  g_fromSorted :: "string list \<Rightarrow> goval list \<Rightarrow> bytes"
  g_eq :: "'c \<Rightarrow> string \<Rightarrow> error + 'c"
  g_toLower :: "string \<Rightarrow> string"
  g_clusterCrosstab :: 'c

record 'c groupopts =
  go_By :: "(string \<times> 'c) list"
  go_Crosstab :: "'c option"
  go_CrosstabIncludesTotal :: bool
  go_Fields :: "'c fieldsource option"
  go_Resolution :: duration
  go_AsOf :: gotime
  go_Until :: gotime
  go_StrideSlice :: duration

text \<open>The constructor \<open>Group\<close> sorts the group-by expressions by name.\<close>

definition Group :: "'c groupopts \<Rightarrow> 'c groupopts" where
  "Group g = g\<lparr>go_By := sort_key fst (go_By g)\<rparr>"

definition group_GetGroupBy :: "'c groupopts \<Rightarrow> (string \<times> 'c) list" where
  "group_GetGroupBy g = go_By g"

definition group_GetResolution :: "'c groupopts \<Rightarrow> 'c source_info \<Rightarrow> duration" where
  "group_GetResolution g src = (if go_Resolution g = 0 then si_resolution src else go_Resolution g)"

definition group_GetUntil :: "'c groupopts \<Rightarrow> 'c source_info \<Rightarrow> gotime" where
  "group_GetUntil g src = (if IsZero (go_Until g) then si_until src else go_Until g)"

definition group_GetAsOf :: "'c groupopts \<Rightarrow> 'c source_info \<Rightarrow> gotime" where
  "group_GetAsOf g src =
     (let asOf = (if IsZero (go_AsOf g) then si_asOf src else go_AsOf g);
          until = group_GetUntil g src;
          resolution = group_GetResolution g src
      in if Sub until asOf < resolution then until + wrap64 (- resolution) else asOf)"

text \<open>The three forms of \<open>sliceKey\<close> without group-by expressions, and the one with them.\<close>

definition sliceKey :: "('c, 'h) ext \<Rightarrow> 'c gext \<Rightarrow> 'c groupopts \<Rightarrow> bytes \<Rightarrow> bytes" where
  "sliceKey X G g key =
     (if go_By g = [] then
        (case go_Crosstab g of
           Some c \<Rightarrow> if ge_string X c = ge_string X (g_clusterCrosstab G)
                     then snd (g_split G key [''_crosstab'']) else []
         | None \<Rightarrow> key)
      else
        (let kvs = concat (map (\<lambda>(name, c). case ge_eval X c (g_get G key) of
                      Some v \<Rightarrow> [(name, v)] | None \<Rightarrow> []) (go_By g))
         in g_fromSorted G (map fst kvs) (map snd kvs)))"

definition updateTree ::
  "('c, 'h) ext \<Rightarrow> 'c gext \<Rightarrow> 'c groupopts \<Rightarrow> 'c source_info \<Rightarrow> 'c fields \<Rightarrow> 'c fields \<Rightarrow> 'c tree option \<Rightarrow> row
   \<Rightarrow> 'c tree go" where
  "updateTree X G g src inFields outFields bt kv =
     (let bt' = (case bt of
            None \<Rightarrow> New X (Exprs outFields) (Exprs inFields) (group_GetResolution g src) (si_resolution src)
                      (group_GetAsOf g src) (group_GetUntil g src) (go_StrideSlice g)
          | Some b \<Rightarrow> b)
      in map_option fst (tree_Update X (g_get G) bt' (sliceKey X G g (fst kv)) (snd kv) None (Some (g_get G (fst kv)))))"

text \<open>The variables of \<open>group.Iterate\<close>.\<close>

record 'c gstate =
  gs_inFields :: "'c fields"
  gs_outFields :: "'c fields"
  gs_ctabs :: "string list"
  gs_kvs :: "row list"
  gs_bt :: "'c tree option"

definition group_onFields :: "'c groupopts \<Rightarrow> ('c, 'c gstate \<times> 's) onfields" where
  "group_onFields g inFields = (\<lambda>(gs, s).
     case fieldsource_Get (case go_Fields g of None \<Rightarrow> PassthroughFieldSource | Some f \<Rightarrow> f) inFields of
       Inl err \<Rightarrow> Some ((gs\<lparr>gs_inFields := inFields, gs_outFields := []\<rparr>, s), Some err)
     | Inr out \<Rightarrow> Some ((gs\<lparr>gs_inFields := inFields, gs_outFields := out\<rparr>, s), None))"

definition group_onRow ::
  "('c, 'h) ext \<Rightarrow> 'c gext \<Rightarrow> 'c groupopts \<Rightarrow> 'c source_info \<Rightarrow> ('s \<Rightarrow> bool) \<Rightarrow> (row, 'c gstate \<times> 's) onrow" where
  "group_onRow X G g src timedOut kv = (\<lambda>(gs, s).
     do { gs' \<leftarrow> (case go_Crosstab g of
            Some c \<Rightarrow> (case ge_eval X c (g_get G (fst kv)) of
                Some (GString ctab) \<Rightarrow> Some (gs\<lparr>gs_ctabs := List.insert ctab (gs_ctabs gs), gs_kvs := gs_kvs gs @ [kv]\<rparr>)
              | _ \<Rightarrow> None)
          | None \<Rightarrow> do { bt \<leftarrow> updateTree X G g src (gs_inFields gs) (gs_outFields gs) (gs_bt gs) kv;
                         Some (gs\<lparr>gs_bt := Some bt\<rparr>) });
          Some ((gs', s), Proceed timedOut s) })"

text \<open>
  The fields of a crosstab: each output field once per value, under the condition that the crosstab
  expression has that value; \<open>Inl\<close> is the early return with an error.
\<close>

fun ctab_fields :: "'c gext \<Rightarrow> 'c \<Rightarrow> string \<Rightarrow> 'c fields \<Rightarrow> error + 'c fields" where
  "ctab_fields G c ctab [] = Inr []"
| "ctab_fields G c ctab (f # fs) =
     (if f_name f = HavingFieldName then ctab_fields G c ctab fs
      else case g_eq G c ctab of
        Inl err \<Rightarrow> Inl err
      | Inr cond' \<Rightarrow>
          (case ctab_fields G c ctab fs of
             Inl err \<Rightarrow> Inl err
           | Inr rest \<Rightarrow> Inr (NewField (g_toLower G ctab @ ''_'' @ f_name f) (IF (Some cond') (f_expr f)) # rest)))"

fun all_ctab_fields :: "'c gext \<Rightarrow> ('s \<Rightarrow> bool) \<Rightarrow> 's \<Rightarrow> 'c \<Rightarrow> string list \<Rightarrow> 'c fields \<Rightarrow> error + 'c fields" where
  "all_ctab_fields G timedOut s c [] orig = Inr []"
| "all_ctab_fields G timedOut s c (ctab # ctabs) orig =
     (if timedOut s then Inl ErrDeadlineExceeded
      else case ctab_fields G c ctab orig of
        Inl err \<Rightarrow> Inl err
      | Inr fs \<Rightarrow> (case all_ctab_fields G timedOut s c ctabs orig of Inl err \<Rightarrow> Inl err | Inr rest \<Rightarrow> Inr (fs @ rest)))"

text \<open>The having field is found only while looping over the values of the crosstab, and the last one is kept.\<close>

definition having_fields :: "string list \<Rightarrow> 'c fields \<Rightarrow> 'c fields" where
  "having_fields ctabs orig =
     (if ctabs = [] then []
      else case filter (\<lambda>f. f_name f = HavingFieldName) orig of [] \<Rightarrow> [] | fs \<Rightarrow> [last fs])"

definition crosstab_fields :: "'c gext \<Rightarrow> 'c groupopts \<Rightarrow> ('s \<Rightarrow> bool) \<Rightarrow> 's \<Rightarrow> 'c \<Rightarrow> string list \<Rightarrow> 'c fields \<Rightarrow> error + 'c fields" where
  "crosstab_fields G g timedOut s c ctabs orig =
     (case all_ctab_fields G timedOut s c (sort ctabs) orig of
        Inl err \<Rightarrow> Inl err
      | Inr fs \<Rightarrow> Inr (fs @
          (if go_CrosstabIncludesTotal g
           then map (\<lambda>f. NewField (''total_'' @ f_name f) (f_expr f)) (filter (\<lambda>f. f_name f \<noteq> HavingFieldName) orig)
           else []) @
          having_fields ctabs orig))"

fun update_kvs ::
  "('c, 'h) ext \<Rightarrow> 'c gext \<Rightarrow> 'c groupopts \<Rightarrow> 'c source_info \<Rightarrow> 'c fields \<Rightarrow> 'c fields \<Rightarrow> row list \<Rightarrow> 'c tree option \<Rightarrow> 'c tree option go" where
  "update_kvs X G g src inFields outFields [] bt = Some bt"
| "update_kvs X G g src inFields outFields (kv # kvs) bt =
     do { bt' \<leftarrow> updateTree X G g src inFields outFields bt kv; update_kvs X G g src inFields outFields kvs (Some bt') }"

text \<open>
  The final walk: \<open>onRow\<close> for every row of the tree.  The state of the walk is \<open>None\<close> once a callback has
  panicked.
\<close>

definition walk_fn :: "('s \<Rightarrow> bool) \<Rightarrow> (row, 's) onrow \<Rightarrow> (bytes list, error, 's go) walkfn" where
  "walk_fn timedOut onRow key data st =
     (case st of
        None \<Rightarrow> (False, True, None, None)
      | Some s \<Rightarrow>
          (case onRow (key, data) s of
             None \<Rightarrow> (False, True, None, None)
           | Some (s', cont, err) \<Rightarrow>
               if err = None \<and> timedOut s' then (False, True, Some ErrDeadlineExceeded, Some s')
               else (cont, True, err, Some s')))"

definition group_Iterate ::
  "('c, 'h) ext \<Rightarrow> 'c gext \<Rightarrow> 'c groupopts \<Rightarrow> 'c source_info \<Rightarrow> ('s \<Rightarrow> bool) \<Rightarrow> ('c, row, 'm, 'c gstate \<times> 's) iterate
   \<Rightarrow> ('c, row, 'm, 's) iterate" where
  "group_Iterate X G g src timedOut source onFields onRow s =
     do { ((gs, s1), m, err) \<leftarrow> source (group_onFields g) (group_onRow X G g src timedOut)
            (\<lparr> gs_inFields = [], gs_outFields = [], gs_ctabs = [], gs_kvs = [], gs_bt = None \<rparr>, s);
          if err = Some ErrDeadlineExceeded then Some (s1, m, err)
          else
            (case (case go_Crosstab g of
                     None \<Rightarrow> Inr (gs_outFields gs)
                   | Some c \<Rightarrow> crosstab_fields G g timedOut s1 c (gs_ctabs gs) (gs_outFields gs)) of
               Inl e \<Rightarrow> Some (s1, m, Some e)
             | Inr outFields \<Rightarrow>
                 if go_Crosstab g \<noteq> None \<and> gs_kvs gs \<noteq> [] \<and> timedOut s1 then Some (s1, m, Some ErrDeadlineExceeded)
                 else do {
                   bt \<leftarrow> (if go_Crosstab g = None then Some (gs_bt gs)
                          else update_kvs X G g src (gs_inFields gs) outFields (gs_kvs gs) (gs_bt gs));
                   (s2, fieldsErr) \<leftarrow> onFields outFields s1;
                   if fieldsErr \<noteq> None then Some (s2, m, fieldsErr)
                   else (case bt of
                       None \<Rightarrow> Some (s2, m, err)
                     | Some b \<Rightarrow>
                         (case Walk 0 (walk_fn timedOut onRow) (t_root b) (Some s2) of
                            (walkErr, _, st) \<Rightarrow> do { s3 \<leftarrow> st; Some (s3, m, if walkErr \<noteq> None then walkErr else err) })) }) }"

end
