(* ===== verification/CoreProps.thy ===== *)
theory CoreProps
  imports Group
begin

text \<open>
  The properties of package \<open>core\<close>.  A source that delivers a given list of rows is \<open>list_source\<close>; each
  transformation is shown to turn such a source into another, for every callback, so that the
  transformations compose as functions on lists of rows do.
\<close>

section \<open>Sources that deliver a list\<close>

fun feed :: "('r, 's) onrow \<Rightarrow> 'r list \<Rightarrow> 's \<Rightarrow> ('s \<times> bool \<times> error option) go" where
  "feed onRow [] s = Some (s, True, None)"
| "feed onRow (r # rs) s =
     do { (s', cont, err) \<leftarrow> onRow r s;
          if \<not> cont \<or> err \<noteq> None then Some (s', False, err) else feed onRow rs s' }"

definition list_source :: "'c fields \<Rightarrow> 'r list \<Rightarrow> 'm \<Rightarrow> error option \<Rightarrow> ('c, 'r, 'm, 's) iterate" where
  "list_source fs rows m err onFields onRow s =
     do { (s1, e) \<leftarrow> onFields fs s;
          if e \<noteq> None then Some (s1, m, e)
          else do { (s2, completed, e) \<leftarrow> feed onRow rows s1;
                    Some (s2, m, if completed then err else e) } }"

lemma feed_append:
  "feed onRow (rs @ qs) s = do { (s', completed, err) \<leftarrow> feed onRow rs s;
     if completed then feed onRow qs s' else Some (s', False, err) }"
  by (induction rs arbitrary: s) (auto simp: split: prod.split option.split bind_splits)

text \<open>The rows that a filter lets through, up to the first error.\<close>

fun incl_rows :: "('r \<Rightarrow> 'c fields \<Rightarrow> error + 'r option) \<Rightarrow> 'c fields \<Rightarrow> 'r list \<Rightarrow> 'r list \<times> error option" where
  "incl_rows incl fs [] = ([], None)"
| "incl_rows incl fs (r # rs) =
     (case incl r fs of
        Inl err \<Rightarrow> ([], Some err)
      | Inr None \<Rightarrow> incl_rows incl fs rs
      | Inr (Some r') \<Rightarrow> (case incl_rows incl fs rs of (rs', e) \<Rightarrow> (r' # rs', e)))"

lemma filter_row_app:
  "filter_row timedOut incl onRow r (fs, s) =
     (case incl r fs of
       Inl err \<Rightarrow> Some ((fs, s), False, Some err)
     | Inr (Some r') \<Rightarrow> do { (s', cont, err) \<leftarrow> onRow r' s; Some ((fs, s'), cont, err) }
     | Inr None \<Rightarrow> Some ((fs, s), Proceed timedOut s))"
  by (simp add: filter_row_def)

lemma limit_row_app:
  "in64 (i + 1) \<Longrightarrow> in64 i \<Longrightarrow> limit_row n onRow r (i, s) =
     (if i < n then do { (s', cont, err) \<leftarrow> onRow r s; Some ((i + 1, s'), cont, err) } else Some ((i + 1, s), False, None))"
  by (simp add: limit_row_def stop_def)

lemma offset_row_app:
  "in64 (i + 1) \<Longrightarrow> in64 i \<Longrightarrow> offset_row timedOut n onRow r (i, s) =
     (if n \<le> i then do { (s', cont, err) \<leftarrow> onRow r s; Some ((i + 1, s'), cont, err) } else Some ((i + 1, s), Proceed timedOut s))"
  by (simp add: offset_row_def)

lemma feed_filter:
  "feed (filter_row (\<lambda>_. False) incl onRow) rows (fs, s) =
     do { (s', completed, err) \<leftarrow> feed onRow (fst (incl_rows incl fs rows)) s;
          Some ((fs, s'), completed \<and> snd (incl_rows incl fs rows) = None,
                if completed then snd (incl_rows incl fs rows) else err) }"
proof (induction rows arbitrary: s)
  case (Cons r rows)
  show ?case
  proof (cases "incl r fs")
    case (Inl err)
    then show ?thesis by (simp add: filter_row_app)
  next
    case (Inr o')
    show ?thesis
    proof (cases o')
      case None
      then have e: "incl_rows incl fs (r # rows) = incl_rows incl fs rows" using Inr by simp
      show ?thesis unfolding e using Cons Inr None by (simp add: filter_row_app Proceed_def)
    next
      case (Some r')
      obtain rs' e where i: "incl_rows incl fs rows = (rs', e)" by (cases "incl_rows incl fs rows")
      then have i2: "incl_rows incl fs (r # rows) = (r' # rs', e)" using Inr Some by simp
      show ?thesis using Cons Inr Some unfolding i i2 fst_conv snd_conv
        by (cases "onRow r' s") (auto simp: filter_row_app split: prod.split)
    qed
  qed
qed simp

text \<open>The counters of limit and offset are dropped from the final state.\<close>

definition drop_counter :: "(('x \<times> 's) \<times> bool \<times> error option) go \<Rightarrow> ('s \<times> bool \<times> error option) go" where
  "drop_counter r = map_option (\<lambda>((_, s), c, e). (s, c, e)) r"

lemma feed_limit:
  assumes "0 \<le> i" "i + int (length rows) < 2 ^ 62"
  shows "drop_counter (feed (limit_row n onRow) rows (i, s)) =
     do { (s', completed, err) \<leftarrow> feed onRow (take (nat (n - i)) rows) s;
          Some (s', completed \<and> length rows \<le> nat (n - i), err) }"
  using assms
proof (induction rows arbitrary: i s)
  case (Cons r rows)
  then have w: "in64 (i + 1)" "in64 i" by (auto simp: in64_def)
  have IH: "drop_counter (feed (limit_row n onRow) rows (i + 1, s)) =
     do { (s', completed, err) \<leftarrow> feed onRow (take (nat (n - (i + 1))) rows) s;
          Some (s', completed \<and> length rows \<le> nat (n - (i + 1)), err) }" for s
    using Cons by simp
  show ?case
  proof (cases "i < n")
    case True
    then have "nat (n - i) = Suc (nat (n - (i + 1)))" by linarith
    then show ?thesis using True IH w
      by (cases "onRow r s") (auto simp: limit_row_app drop_counter_def split: prod.split)
  next
    case False
    then show ?thesis using w by (simp add: limit_row_app drop_counter_def)
  qed
qed (simp add: drop_counter_def)

lemma feed_offset:
  assumes "0 \<le> i" "i + int (length rows) < 2 ^ 62"
  shows "drop_counter (feed (offset_row (\<lambda>_. False) n onRow) rows (i, s)) = feed onRow (drop (nat (n - i)) rows) s"
  using assms
proof (induction rows arbitrary: i s)
  case (Cons r rows)
  then have w: "in64 (i + 1)" "in64 i" by (auto simp: in64_def)
  have IH: "drop_counter (feed (offset_row (\<lambda>_. False) n onRow) rows (i + 1, s)) = feed onRow (drop (nat (n - (i + 1))) rows) s" for s
    using Cons by simp
  show ?case
  proof (cases "n \<le> i")
    case True
    then show ?thesis using IH w
      by (cases "onRow r s") (auto simp: offset_row_app drop_counter_def split: prod.split)
  next
    case False
    then have "nat (n - i) = Suc (nat (n - (i + 1)))" by linarith
    then show ?thesis using False IH w by (simp add: offset_row_app Proceed_def)
  qed
qed (simp add: drop_counter_def)

lemma feed_collect: "feed (collect_row (\<lambda>_. False)) rows (acc, s) = Some ((acc @ rows, s), True, None)"
  by (induction rows arbitrary: acc) (auto simp: collect_row_def Proceed_def)

lemma emit_feed: "emit_rows (\<lambda>_. False) onRow rows s = map_option (\<lambda>(s', _, e). (s', e)) (feed onRow rows s)"
proof (induction rows arbitrary: s)
  case (Cons r rows)
  then show ?case by (cases "onRow r s") (auto split: prod.split)
qed simp

lemma feed_completed: "feed onRow xs s = Some (s', True, e) \<Longrightarrow> e = None"
  by (induction xs arbitrary: s) (auto simp: bind_Some_iff split: if_splits)

section \<open>Transformations of list sources\<close>

lemma filter_list_app:
  "filter_Iterate (\<lambda>_. False) incl (list_source fs rows m err) onFields onRow s =
    list_source fs (fst (incl_rows incl fs rows)) m (case snd (incl_rows incl fs rows) of None \<Rightarrow> err | Some e \<Rightarrow> Some e)
      onFields onRow s"
  unfolding filter_Iterate_def list_source_def keep_fields_def
  by (cases "onFields fs s") (auto simp: feed_filter split: prod.split option.split bind_splits)

lemma filter_list:
  "filter_Iterate (\<lambda>_. False) incl (list_source fs rows m err) =
    list_source fs (fst (incl_rows incl fs rows)) m (case snd (incl_rows incl fs rows) of None \<Rightarrow> err | Some e \<Rightarrow> Some e)"
  by (intro ext) (rule filter_list_app)

lemma pass_app: "list_source fs rows m err (pass_fields onFields) onRow (x, s) =
    do { (s1, e) \<leftarrow> onFields fs s;
         if e \<noteq> None then Some ((x, s1), m, e)
         else do { (s2, completed, e) \<leftarrow> feed onRow rows (x, s1); Some (s2, m, if completed then err else e) } }"
  by (cases "onFields fs s") (auto simp: list_source_def pass_fields_def)

lemma counted_list_app:
  assumes "\<And>s1. drop_counter (feed cOnRow rows (x, s1)) =
      do { (s', c, e) \<leftarrow> feed onRow rows' s1; Some (s', c \<and> full, e) }"
  shows "do { ((_, s'), m', e) \<leftarrow> list_source fs rows m err (pass_fields onFields) cOnRow (x, s); Some (s', m', e) } =
    list_source fs rows' m (if full then err else None) onFields onRow s"
proof (cases "onFields fs s")
  case None
  then show ?thesis by (simp add: pass_app) (simp add: list_source_def)
next
  case (Some p)
  obtain s1 e1 where p: "p = (s1, e1)" by (cases p)
  have "do { ((_, s'), m', e) \<leftarrow> list_source fs rows m err (pass_fields onFields) cOnRow (x, s); Some (s', m', e) } =
      (if e1 \<noteq> None then Some (s1, m, e1)
       else map_option (\<lambda>(s, c, e). (s, m, if c then err else e)) (drop_counter (feed cOnRow rows (x, s1))))"
    using Some p by (cases "feed cOnRow rows (x, s1)") (auto simp: pass_app drop_counter_def)
  then show ?thesis unfolding assms using Some p feed_completed [of onRow rows' s1]
    by (cases "feed onRow rows' s1") (auto simp: list_source_def)
qed

lemma limit_list:
  assumes "int (length rows) < 2 ^ 62"
  shows "limit_Iterate n (list_source fs rows m err) =
    list_source fs (take (nat n) rows) m (if length rows \<le> nat n then err else None)"
  unfolding limit_Iterate_def using assms feed_limit [of 0 rows n]
  by (intro ext counted_list_app) simp

lemma offset_list:
  assumes "int (length rows) < 2 ^ 62"
  shows "offset_Iterate (\<lambda>_. False) n (list_source fs rows m err) = list_source fs (drop (nat n) rows) m err"
proof (intro ext)
  fix onFields onRow s
  have "drop_counter (feed (offset_row (\<lambda>_. False) n onRow) rows (0, s1)) =
      do { (s', c, e) \<leftarrow> feed onRow (drop (nat n) rows) s1; Some (s', c \<and> True, e) }" for s1
    using feed_offset [of 0 rows n onRow s1] assms by (cases "feed onRow (drop (nat n) rows) s1") auto
  from counted_list_app [where full = True, OF this]
  show "offset_Iterate (\<lambda>_. False) n (list_source fs rows m err) onFields onRow s =
      list_source fs (drop (nat n) rows) m err onFields onRow s"
    by (simp add: offset_Iterate_def)
qed

lemma sort_list_app:
  assumes "sortRows rows = Some rows'" "sortRows [] = Some []"
  shows "sort_Iterate (\<lambda>_. False) sortRows (list_source fs rows m None) onFields onRow s =
    list_source fs rows' m None onFields onRow s"
proof (cases "onFields fs s")
  case None
  then show ?thesis by (simp add: sort_Iterate_def pass_app) (simp add: list_source_def)
next
  case (Some p)
  obtain s1 e1 where p: "p = (s1, e1)" by (cases p)
  show ?thesis
  proof (cases e1)
    case None
    then show ?thesis using Some p assms feed_completed [of onRow rows' s1]
      by (cases "feed onRow rows' s1") (auto simp: sort_Iterate_def pass_app list_source_def [of fs rows'] feed_collect emit_feed)
  next
    case e: (Some e)
    then show ?thesis using Some p assms by (simp add: sort_Iterate_def pass_app list_source_def [of fs rows'])
  qed
qed

lemma sort_list:
  "sortRows rows = Some rows' \<Longrightarrow> sortRows [] = Some [] \<Longrightarrow>
    sort_Iterate (\<lambda>_. False) sortRows (list_source fs rows m None) = list_source fs rows' m None"
  by (intro ext sort_list_app)

end
