(* ===== verification/Stage.thy ===== *)
theory Stage
  imports CoreProps
begin

text \<open>
  The interface of the row transformations of package \<open>core\<close>.  A source promises fields, a list of rows and an error at the end; a stage of
  a plan turns what its source promises into what it promises itself, whoever consumes it.  Stages after each other are a stage.
\<close>

type_synonym ('c, 'r) promise = "'c fields \<times> 'r list \<times> error option"

definition promised :: "'m \<Rightarrow> ('c, 'r) promise \<Rightarrow> ('c, 'r, 'm, 's) iterate" where
  "promised m = (\<lambda>(fs, rows, err). list_source fs rows m err)"

locale stage =
  fixes run :: "('c, 'r, 'm, 'z) iterate \<Rightarrow> ('c, 'q, 'm, 's) iterate"
    and out :: "('c, 'r) promise \<Rightarrow> ('c, 'q) promise" and ok :: "('c, 'r) promise \<Rightarrow> bool"
  assumes run_promised: "ok x \<Longrightarrow> run (promised m x) = promised m (out x)"
begin

text \<open>A consumer that fails on the fields gets no row.\<close>

lemma fields_error:
  assumes "ok x" "onFields (fst (out x)) s = Some (s', Some e)"
  shows "run (promised m x) onFields onRow s = Some (s', m, Some e)"
  unfolding run_promised [OF assms(1)] using assms(2) by (simp add: promised_def list_source_def split_beta)

text \<open>A consumer that never stops gets all rows.\<close>

lemma all_rows:
  assumes "ok x" "onFields (fst (out x)) s = Some (s', None)" "\<And>r s. onRow r s = Some (f r s, True, None)"
  shows "run (promised m x) onFields onRow s = Some (fold f (fst (snd (out x))) s', m, snd (snd (out x)))"
proof -
  have "feed onRow rows s = Some (fold f rows s, True, None)" for rows s
    by (induction rows arbitrary: s) (simp_all add: assms(3))
  then show ?thesis unfolding run_promised [OF assms(1)] using assms(2) by (simp add: promised_def list_source_def split_beta)
qed

end

locale stages = first: stage run1 out1 ok1 + second: stage run2 out2 ok2
  for run1 :: "('c, 'r, 'm, 'y) iterate \<Rightarrow> ('c, 'q, 'm, 'z) iterate" and out1 ok1
    and run2 :: "('c, 'q, 'm, 'z) iterate \<Rightarrow> ('c, 'p, 'm, 's) iterate" and out2 ok2

sublocale stages \<subseteq> both: stage "\<lambda>src. run2 (run1 src)" "\<lambda>x. out2 (out1 x)" "\<lambda>x. ok1 x \<and> ok2 (out1 x)"
  by unfold_locales (simp add: first.run_promised second.run_promised)

section \<open>The stages of package \<open>core\<close>\<close>

definition filter_out :: "('r \<Rightarrow> 'c fields \<Rightarrow> error + 'r option) \<Rightarrow> ('c, 'r) promise \<Rightarrow> ('c, 'r) promise" where
  "filter_out incl = (\<lambda>(fs, rows, err). (fs, fst (incl_rows incl fs rows), case snd (incl_rows incl fs rows) of None \<Rightarrow> err | Some e \<Rightarrow> Some e))"

definition sort_out :: "('r list \<Rightarrow> 'r list go) \<Rightarrow> ('c, 'r) promise \<Rightarrow> ('c, 'r) promise" where
  "sort_out sortRows = (\<lambda>(fs, rows, err). (fs, the (sortRows rows), None))"

definition sort_ok :: "('r list \<Rightarrow> 'r list go) \<Rightarrow> ('c, 'r) promise \<Rightarrow> bool" where
  "sort_ok sortRows = (\<lambda>(fs, rows, err). sortRows rows \<noteq> None \<and> sortRows [] = Some [] \<and> err = None)"

definition countable_rows :: "('c, 'r) promise \<Rightarrow> bool" where "countable_rows = (\<lambda>(fs, rows, err). int (length rows) < 2 ^ 62)"

definition offset_out :: "int \<Rightarrow> ('c, 'r) promise \<Rightarrow> ('c, 'r) promise" where
  "offset_out n = (\<lambda>(fs, rows, err). (fs, drop (nat n) rows, err))"

definition limit_out :: "int \<Rightarrow> ('c, 'r) promise \<Rightarrow> ('c, 'r) promise" where
  "limit_out n = (\<lambda>(fs, rows, err). (fs, take (nat n) rows, if length rows \<le> nat n then err else None))"

lemmas stage_defs = promised_def filter_out_def sort_out_def sort_ok_def countable_rows_def offset_out_def limit_out_def

interpretation filtering: stage "filter_Iterate (\<lambda>_. False) incl" "filter_out incl" "\<lambda>_. True" for incl
  by unfold_locales (simp add: stage_defs split_beta filter_list)

interpretation having: stage "flatRowFilter_Iterate (\<lambda>_. False) incl" "filter_out incl" "\<lambda>_. True" for incl
  by unfold_locales (simp add: flatRowFilter_Iterate_def filtering.run_promised)

interpretation sorting: stage "sort_Iterate (\<lambda>_. False) sortRows" "sort_out sortRows" "sort_ok sortRows" for sortRows
  by unfold_locales (auto simp: stage_defs sort_list)

interpretation skipping: stage "offset_Iterate (\<lambda>_. False) n" "offset_out n" countable_rows for n
  by unfold_locales (auto simp: stage_defs offset_list)

interpretation limiting: stage "limit_Iterate n" "limit_out n" countable_rows for n
  by unfold_locales (auto simp: stage_defs limit_list)

text \<open>The window of rows, the window of the sorted rows, and that of the sorted rows that a filter keeps.\<close>

interpretation window: stages "offset_Iterate (\<lambda>_. False) k" "offset_out k" countable_rows "limit_Iterate n" "limit_out n" countable_rows for k n ..

interpretation ordered: stages "sort_Iterate (\<lambda>_. False) sortRows" "sort_out sortRows" "sort_ok sortRows"
  "\<lambda>src. limit_Iterate n (offset_Iterate (\<lambda>_. False) k src)" "\<lambda>x. limit_out n (offset_out k x)" "\<lambda>x. countable_rows x \<and> countable_rows (offset_out k x)"
  for sortRows k n ..

interpretation query_tail: stages "flatRowFilter_Iterate (\<lambda>_. False) incl" "filter_out incl" "\<lambda>_. True"
  "\<lambda>src. limit_Iterate n (offset_Iterate (\<lambda>_. False) k (sort_Iterate (\<lambda>_. False) sortRows src))"
  "\<lambda>x. limit_out n (offset_out k (sort_out sortRows x))"
  "\<lambda>x. sort_ok sortRows x \<and> countable_rows (sort_out sortRows x) \<and> countable_rows (offset_out k (sort_out sortRows x))"
  for incl sortRows k n ..

end
