(* ===== verification/QueryProps.thy ===== *)
theory QueryProps
  imports Stage
begin

text \<open>
  Properties of the row transformations of package \<open>core\<close> and of the way a plan composes them.
\<close>

section \<open>Properties\<close>

text \<open>The rows that a filter without errors lets through.\<close>

definition kept :: "('r \<Rightarrow> 'c fields \<Rightarrow> error + 'r option) \<Rightarrow> 'c fields \<Rightarrow> 'r list \<Rightarrow> 'r list" where
  "kept incl fs rows = List.map_filter (\<lambda>r. case incl r fs of Inr x \<Rightarrow> x | Inl _ \<Rightarrow> None) rows"

lemma incl_rows_kept:
  "\<forall>r \<in> set rows. \<exists>x. incl r fs = Inr x \<Longrightarrow> incl_rows incl fs rows = (kept incl fs rows, None)"
  by (induction rows) (force simp: kept_def List.map_filter_simps split: option.splits)+

text \<open>
  C33. The tail of a local plan, HAVING, ORDER BY, OFFSET and LIMIT over the flat rows: for every consumer it behaves
  like a source that delivers the rows from the offset on, at most as many as the limit, of the sorted list of the rows
  that the HAVING filter keeps, and that completes without an error.
\<close>

theorem query_tail_window:
  assumes "\<forall>r \<in> set rows. \<exists>x. incl r fs = Inr x" "sortRows (kept incl fs rows) = Some rows'" "sortRows [] = Some []"
    "int (length rows') < 2 ^ 62"
  shows "limit_Iterate n (offset_Iterate (\<lambda>_. False) k (sort_Iterate (\<lambda>_. False) sortRows
      (flatRowFilter_Iterate (\<lambda>_. False) incl (list_source fs rows m None)))) =
    list_source fs (take (nat n) (drop (nat k) rows')) m None"
proof -
  have "filter_out incl (fs, rows, None) = (fs, kept incl fs rows, None)" using assms(1) by (simp add: filter_out_def incl_rows_kept)
  moreover have "int (length rows' - nat k) < 2 ^ 62" using assms(4) by linarith
  ultimately show ?thesis using query_tail.both.run_promised [of sortRows incl "(fs, rows, None)" k n m] assms(2-4)
    by (simp add: stage_defs)
qed

text \<open>Flat rows with the time stamps \<open>is\<close>, for examples.\<close>

definition sample_rows :: "int list \<Rightarrow> unit flatrow list" where
  "sample_rows is = map (\<lambda>i. \<lparr> fr_TS = i, fr_Key = [], fr_Values = [], fr_fields = [] \<rparr>) is"

theorem query_tail_window_witness:
  "limit_Iterate 2 (offset_Iterate (\<lambda>_. False) 1 (sort_Iterate (\<lambda>_. False) (\<lambda>rs. Some (sort_key fr_TS rs))
      (flatRowFilter_Iterate (\<lambda>_. False) (\<lambda>r _. Inr (if fr_TS r < 9 then Some r else None))
         (list_source ([] :: unit fields) (sample_rows [5, 9, 3, 1, 4]) () None)))) (\<lambda>_ s. Some (s, None))
      (\<lambda>r s. Some (s @ [fr_TS r], True, None)) [] = Some ([3, 4], (), None)"
  by (subst query_tail_window [where rows' = "sample_rows [1, 3, 4, 5]"])
    (simp_all add: kept_def sample_rows_def List.map_filter_simps list_source_def)

lemma flt_asym: "flt a b \<Longrightarrow> \<not> flt b a"
  by (auto simp: flt_def)

lemma compare_some_swap:
  "compare f32 (Some a) (Some b) = Some c \<Longrightarrow> compare f32 (Some b) (Some a) = Some d \<Longrightarrow> d = - c"
  by (cases a; cases b; simp) (auto simp: cmp_def flt_def)

lemma compare_some_trans:
  assumes "compare f32 (Some a) (Some b) = Some (- 1)" "compare f32 (Some b) (Some c) = Some (- 1)"
  shows "compare f32 (Some a) (Some c) = Some (- 1)"
proof -
  have cmp_neg: "cmp g l = - 1 \<longleftrightarrow> \<not> g \<and> l" for g l by (simp add: cmp_def)
  show ?thesis
    using assms by (cases a; cases b; simp add: cmp_neg; cases c; simp add: cmp_neg) (auto simp: flt_def)
qed

text \<open>
  \<open>compare\<close> is an order wherever it does not panic: exchanging the arguments changes the sign of the result, and
  \<open>before\<close> chains, for the values of every type, nil included.
\<close>

theorem compare_order:
  "(compare f32 a b = Some x \<longrightarrow> compare f32 b a = Some y \<longrightarrow> y = - x) \<and>
   (compare f32 a b = Some (- 1) \<longrightarrow> compare f32 b c = Some (- 1) \<longrightarrow> compare f32 a c = Some (- 1))"
  by (cases a; cases b; cases c; simp add: compare_some_trans) (auto dest: compare_some_swap compare_some_trans)

theorem compare_order_witness:
  "compare (\<lambda>_. 0) (Some (GString ''ab'')) (Some (GString ''b'')) = Some (- 1) \<and>
   compare (\<lambda>_. 0) (Some (GString ''b'')) (Some (GString ''c'')) = Some (- 1) \<and>
   compare (\<lambda>_. 0) (Some (GString ''ab'')) (Some (GString ''c'')) = Some (- 1) \<and>
   compare (\<lambda>_. 0) (Some (GString ''b'')) (Some (GString ''ab'')) = Some 1"
proof -
  have "compare (\<lambda>_. 0) (Some (GString ''ab'')) (Some (GString ''b'')) = Some (- 1)"
    "compare (\<lambda>_. 0) (Some (GString ''b'')) (Some (GString ''c'')) = Some (- 1)"
    "compare (\<lambda>_. 0) (Some (GString ''b'')) (Some (GString ''ab'')) = Some 1"
    by code_simp+
  then show ?thesis
    using compare_order [of "\<lambda>_. 0" "Some (GString ''ab'')" "Some (GString ''b'')" "- 1" 1 "Some (GString ''c'')"] by simp
qed

text \<open>
  \<open>Less\<close> is not asymmetric when \<open>_time\<close> is followed by another element: a later row with a smaller value is before
  the earlier row, and the earlier row is before it, so that the order of the sorted rows depends on the sort algorithm.
\<close>

theorem less_time_not_asymmetric:
  "\<exists>a b :: unit flatrow. Less (\<lambda>_. 0) (\<lambda>_ _. None) [NewOrderBy ''_time'' False, NewOrderBy ''x'' False] a b = Some True \<and>
    Less (\<lambda>_. 0) (\<lambda>_ _. None) [NewOrderBy ''_time'' False, NewOrderBy ''x'' False] b a = Some True"
proof -
  let ?row = "\<lambda>ts v. \<lparr> fr_TS = ts, fr_Key = [], fr_Values = [float_of_int v], fr_fields = [NewField ''x'' (Field ''x'')] \<rparr> :: unit flatrow"
  have "Less (\<lambda>_. 0) (\<lambda>_ _. None) [NewOrderBy ''_time'' False, NewOrderBy ''x'' False] (?row 1 5) (?row 2 4) = Some True \<and>
    Less (\<lambda>_. 0) (\<lambda>_ _. None) [NewOrderBy ''_time'' False, NewOrderBy ''x'' False] (?row 2 4) (?row 1 5) = Some True"
    by code_simp
  then show ?thesis by blast
qed

end
