(* ===== verification/FlattenProps.thy ===== *)
theory FlattenProps
  imports QueryProps
begin

text \<open>
  Flattening of rows into one flat row per period, against a reference that lists the periods, and the
  field sources.
\<close>

section \<open>Flatten\<close>

definition periods :: "duration \<Rightarrow> gotime \<Rightarrow> gotime \<Rightarrow> gotime list" where
  "periods res asOf until = map (\<lambda>i. asOf + int i * res) [0..<nat ((until - asOf) div res + 1)]"

text \<open>The flat row of one period: none if no field that is not constant has a value there.\<close>

definition flat_row :: "('c, 'h) ext \<Rightarrow> duration \<Rightarrow> 'c fields \<Rightarrow> row \<Rightarrow> gotime \<Rightarrow> 'c flatrow list" where
  "flat_row X res fs kv ts =
     (case flat_values X res ts fs (snd kv) of
        Some (values, True) \<Rightarrow> [\<lparr> fr_TS = UnixNano ts, fr_Key = fst kv, fr_Values = values, fr_fields = fs \<rparr>]
      | _ \<Rightarrow> [])"

definition flat_rows :: "('c, 'h) ext \<Rightarrow> duration \<Rightarrow> 'c fields \<Rightarrow> row \<Rightarrow> 'c flatrow list" where
  "flat_rows X res fs kv =
     (case row_range res fs (snd kv) zeroTime zeroTime of
        Some (asOf, until) \<Rightarrow> concat (map (flat_row X res fs kv) (periods res asOf until))
      | None \<Rightarrow> [])"

text \<open>The row can be read: no access to it panics.\<close>

definition flat_ok :: "('c, 'h) ext \<Rightarrow> duration \<Rightarrow> 'c fields \<Rightarrow> row \<Rightarrow> bool" where
  "flat_ok X res fs kv \<longleftrightarrow>
     (case row_range res fs (snd kv) zeroTime zeroTime of
        Some (asOf, until) \<Rightarrow> list_all (\<lambda>ts. flat_values X res ts fs (snd kv) \<noteq> None) (periods res asOf until)
      | None \<Rightarrow> False)"

lemma periods_done: "0 < res \<Longrightarrow> until < ts \<Longrightarrow> periods res ts until = []"
  by (simp add: periods_def pos_imp_zdiv_neg_iff [THEN iffD2] add1_zle_eq)

lemma periods_step:
  assumes "0 < res" "ts \<le> until"
  shows "periods res ts until = ts # periods res (ts + res) until"
proof -
  let ?n = "nat ((until - (ts + res)) div res + 1)"
  have "(until - ts) div res = (until - (ts + res)) div res + 1"
    using assms div_add_self2 [of res "until - (ts + res)"] by (simp add: algebra_simps)
  moreover have "0 \<le> (until - ts) div res" using assms by (simp add: pos_imp_zdiv_nonneg_iff)
  ultimately have "nat ((until - ts) div res + 1) = Suc ?n" by simp
  then show ?thesis
    by (simp add: periods_def upt_conv_Cons map_Suc_upt [symmetric] algebra_simps del: upt_Suc)
qed

text \<open>What a loop over callbacks returns, as \<open>feed\<close> reports it.\<close>

definition norm :: "('s \<times> bool \<times> error option) go \<Rightarrow> ('s \<times> bool \<times> error option) go" where
  "norm r = map_option (\<lambda>(s, cont, err). (s, cont \<and> err = None, err)) r"

lemma flatten_loop_feed:
  assumes "0 < res" "list_all (\<lambda>ts. flat_values X res ts fs (snd kv) \<noteq> None) (periods res ts until)"
  shows "norm (flatten_loop X (\<lambda>_. False) res fs onRow kv until ts s) =
    feed onRow (concat (map (flat_row X res fs kv) (periods res ts until))) s"
  using assms(2)
proof (induction "nat (until + 1 - ts)" arbitrary: ts s rule: less_induct)
  case less
  show ?case
  proof (cases "until < ts")
    case True
    then show ?thesis using assms(1)
      by (subst flatten_loop.simps) (simp add: periods_done norm_def Proceed_def)
  next
    case False
    then have p: "periods res ts until = ts # periods res (ts + res) until"
      using assms(1) by (simp add: periods_step)
    obtain xs any where fv: "flat_values X res ts fs (snd kv) = Some (xs, any)"
      using less.prems p by auto
    have IH: "norm (flatten_loop X (\<lambda>_. False) res fs onRow kv until (ts + res) s') =
        feed onRow (concat (map (flat_row X res fs kv) (periods res (ts + res) until))) s'" for s'
      using less.hyps [of "ts + res" s'] less.prems p False assms(1) by simp
    show ?thesis
    proof (cases any)
      case False
      then show ?thesis using \<open>\<not> until < ts\<close> assms(1) fv IH
        by (subst flatten_loop.simps) (simp add: p flat_row_def)
    next
      case True
      then show ?thesis using \<open>\<not> until < ts\<close> assms(1) fv
        by (subst flatten_loop.simps)
          (auto simp: p flat_row_def norm_def IH [unfolded norm_def] split: bind_splits prod.split)
    qed
  qed
qed

lemma flatten_row_feed:
  assumes "0 < res" "flat_ok X res fs kv"
  shows "norm (flatten_row X (\<lambda>_. False) res onRow kv (fs, s)) =
    map_option (\<lambda>(s', r). ((fs, s'), r)) (feed onRow (flat_rows X res fs kv) s)"
proof -
  obtain asOf until where r: "row_range res fs (snd kv) zeroTime zeroTime = Some (asOf, until)"
    and ok: "list_all (\<lambda>ts. flat_values X res ts fs (snd kv) \<noteq> None) (periods res asOf until)"
    using assms(2) by (auto simp: flat_ok_def split: option.splits)
  show ?thesis
    using flatten_loop_feed [OF assms(1) ok, of onRow s]
    by (cases "flatten_loop X (\<lambda>_. False) res fs onRow kv until asOf s")
      (auto simp: flatten_row_def flat_rows_def r norm_def dest: sym)
qed

lemma feed_flatten:
  assumes "0 < res" "list_all (flat_ok X res fs) rows"
  shows "feed (flatten_row X (\<lambda>_. False) res onRow) rows (fs, s) =
    map_option (\<lambda>(s', r). ((fs, s'), r)) (feed onRow (concat (map (flat_rows X res fs) rows)) s)"
  using assms(2)
proof (induction rows arbitrary: s)
  case (Cons kv rows)
  show ?case
    using flatten_row_feed [OF assms(1), of X fs kv onRow s] Cons
    by (auto simp: feed_append norm_def split: bind_splits option.splits if_splits prod.splits) (rule exI [of _ False], simp)
qed simp

lemma flatten_list:
  assumes "0 < res" "list_all (flat_ok X res fs) rows"
  shows "flatten_Iterate X (\<lambda>_. False) res (list_source fs rows m err) =
    list_source (flat_fields fs) (concat (map (flat_rows X res fs) rows)) m err"
proof (intro ext)
  fix onFields onRow s
  show "flatten_Iterate X (\<lambda>_. False) res (list_source fs rows m err) onFields onRow s =
    list_source (flat_fields fs) (concat (map (flat_rows X res fs) rows)) m err onFields onRow s"
    unfolding flatten_Iterate_def list_source_def flatten_fields_def
    by (cases "onFields (flat_fields fs) s") (auto simp: feed_flatten [OF assms] ex_bool_eq split: bind_splits option.split)
qed


definition flat_out :: "('c, 'h) ext \<Rightarrow> duration \<Rightarrow> ('c, row) promise \<Rightarrow> ('c, 'c flatrow) promise" where
  "flat_out X res = (\<lambda>(fs, rows, err). (flat_fields fs, concat (map (flat_rows X res fs) rows), err))"

interpretation flattening: stage "flatten_Iterate X (\<lambda>_. False) res" "flat_out X res" "\<lambda>(fs, rows, err). 0 < res \<and> list_all (flat_ok X res fs) rows" for X res
  by unfold_locales (auto simp: promised_def flat_out_def flatten_list)

text \<open>The rows of a table, flattened and then cut to the window of the query.\<close>

interpretation flat_window: stages "flatten_Iterate X (\<lambda>_. False) res" "flat_out X res" "\<lambda>(fs, rows, err). 0 < res \<and> list_all (flat_ok X res fs) rows"
  "\<lambda>src. limit_Iterate n (offset_Iterate (\<lambda>_. False) k src)" "\<lambda>x. limit_out n (offset_out k x)" "\<lambda>x. countable_rows x \<and> countable_rows (offset_out k x)"
  for X res k n ..


definition sample_count_row :: row where
  "sample_count_row = ([1], [[0, 0, 0, 0, 0, 0, 11, 184, 1, 0, 0, 0, 0, 0, 0, 0, 7, 0, 0, 0, 0, 0, 0, 0, 0, 0, 1, 0, 0, 0, 0, 0, 0, 0, 5]])"


section \<open>Field sources\<close>

definition named :: "string \<Rightarrow> 'c fields \<Rightarrow> 'c field option" where
  "named n fs = find (\<lambda>f. f_name f = n) fs"

lemma named_Cons: "named n (f # fs) = (if f_name f = n then Some f else named n fs)"
  by (simp add: named_def)

lemma named_append: "named n (fs @ gs) = (case named n fs of Some f \<Rightarrow> Some f | None \<Rightarrow> named n gs)"
  by (induction fs) (auto simp: named_Cons, simp add: named_def)

lemma named_None: "named n fs = None \<longleftrightarrow> n \<notin> set (Names fs)"
  by (auto simp: named_def find_None_iff Names_def)

text \<open>The loop keeps \<open>names\<close> as the set of the names of \<open>combined\<close>, which are distinct.\<close>

lemma add_fields_inv:
  assumes "add_fields combined names fs = (c, ns)" "set names = set (Names combined)" "distinct (Names combined)"
  shows "set ns = set (Names c) \<and> distinct (Names c) \<and> (\<forall>n. named n c = named n (combined @ fs))"
  using assms
proof (induction combined names fs rule: add_fields.induct)
  case (2 combined names f fs)
  show ?case
  proof (cases "f_name f \<in> set names")
    case True
    then have "named (f_name f) combined \<noteq> None" using "2.prems" by (simp add: named_None)
    then have "named n (combined @ f # fs) = named n (combined @ fs)" for n
      by (cases "n = f_name f") (auto simp: named_append named_Cons split: option.split)
    then show ?thesis using "2.IH"(1) "2.prems" True by simp
  next
    case False
    then show ?thesis using "2.IH"(2) "2.prems" by (auto simp: Names_def)
  qed
qed simp

lemma combine_Get_inv:
  assumes "combine_Get ss known combined names = Inr c" "set names = set (Names combined)" "distinct (Names combined)"
  shows "\<exists>gss. list_all2 (\<lambda>s gs. fieldsource_Get s known = Inr gs) ss gss \<and> distinct (Names c) \<and>
    (\<forall>n. named n c = named n (combined @ concat gss))"
  using assms
proof (induction ss arbitrary: combined names)
  case (Cons s ss)
  then obtain fs c' n' where fs: "fieldsource_Get s known = Inr fs" and a: "add_fields combined names fs = (c', n')"
    and g: "combine_Get ss known c' n' = Inr c"
    by (auto split: sum.splits prod.splits)
  note inv = add_fields_inv [OF a Cons.prems(2,3)]
  obtain gss where "list_all2 (\<lambda>s gs. fieldsource_Get s known = Inr gs) ss gss" "distinct (Names c)"
    "\<forall>n. named n c = named n (c' @ concat gss)"
    using Cons.IH [OF g] inv by blast
  then show ?case using fs inv by (intro exI [of _ "fs # gss"]) (simp add: named_append split: option.splits)
qed (auto intro: exI [of _ "[]"])

text \<open>
  A combination of field sources returns no name twice, and under every name the first field of that name that the
  sources give, in their order; it fails only if one of them does.
\<close>

theorem combined_fields_first:
  assumes "fieldsource_Get (CombinedFieldSource ss) known = Inr c"
  shows "\<exists>gss. list_all2 (\<lambda>s gs. fieldsource_Get s known = Inr gs) ss gss \<and> distinct (Names c) \<and>
    (\<forall>n. named n c = named n (concat gss))"
  using combine_Get_inv [of ss known "[]" "[]" c] assms by (simp add: Names_def)

theorem combined_fields_first_witness:
  "\<exists>c. fieldsource_Get (CombinedFieldSource [StaticFieldSource [NewField ''a'' (Field ''x'')], PassthroughFieldSource])
      [NewField ''b'' (Field ''y''), NewField ''a'' (Field ''z'')] = Inr (c :: unit fields) \<and> distinct (Names c)"
  using combined_fields_first [of "[StaticFieldSource [NewField ''a'' (Field ''x'')], PassthroughFieldSource]"
      "[NewField ''b'' (Field ''y''), NewField ''a'' (Field ''z'')] :: unit fields"
      "[NewField ''a'' (Field ''x''), NewField ''b'' (Field ''y'')]"]
  by (auto simp: NewField_def)

end
