(* ===== verification/TableProps.thy ===== *)
theory TableProps
  imports Table FlattenProps
begin

text \<open>
  Correctness of tables: coalesced iterations see what they would see alone, the offsets at which a new table starts,
  and a table that could not be created.
\<close>

section \<open>The columns of an iteration\<close>

lemma itVals_total:
  assumes "length mp = i + length vals" "list_all (\<lambda>j. j < int (length out)) mp"
  shows "\<exists>out'. itVals mp i vals out = Some out' \<and> length out' = length out"
  using assms
proof (induction vals arbitrary: i out)
  case (Cons v vals)
  have "mp ! i < int (length out)" using Cons.prems by (simp add: list_all_length)
  then obtain o1 where "(if 0 \<le> mapping_at mp i then set_at (mapping_at mp i) v out else Some out) = Some o1" "length o1 = length out"
    using Cons.prems by (cases "0 \<le> mp ! i") (auto simp: mapping_at_def set_at_def nat_less_iff)
  then show ?case using Cons.IH [of "Suc i" o1] Cons.prems by (simp add: Let_def)
qed simp

lemma itVals_unhit:
  assumes "itVals mp i vals out = Some out'" "length mp = i + length vals" "\<forall>k < length vals. mp ! (i + k) \<noteq> int j"
  shows "out' ! j = out ! j"
  using assms
proof (induction vals arbitrary: i out)
  case (Cons v vals)
  then have j: "mp ! i \<noteq> int j" and rest: "\<forall>k < length vals. mp ! (Suc i + k) \<noteq> int j" by force+
  obtain o1 where o1: "(if 0 \<le> mapping_at mp i then set_at (mapping_at mp i) v out else Some out) = Some o1" "itVals mp (Suc i) vals o1 = Some out'"
    using Cons.prems(1) by (auto simp: Let_def bind_Some_iff)
  then have "o1 ! j = out ! j" using j Cons.prems(2)
    by (auto simp: mapping_at_def set_at_def split: if_splits)
  then show ?case using Cons.IH [OF o1(2) _ rest] Cons.prems(2) by simp
qed simp

lemma itVals_hit:
  assumes "itVals mp i vals out = Some out'" "length mp = i + length vals" "k < length vals" "mp ! (i + k) = int j" "j < length out"
    and "\<forall>k'. k < k' \<and> k' < length vals \<longrightarrow> mp ! (i + k') \<noteq> int j"
  shows "out' ! j = vals ! k"
  using assms
proof (induction vals arbitrary: i out k)
  case (Cons v vals)
  obtain o1 where o1: "(if 0 \<le> mapping_at mp i then set_at (mapping_at mp i) v out else Some out) = Some o1" "itVals mp (Suc i) vals o1 = Some out'"
    using Cons.prems(1) by (auto simp: Let_def bind_Some_iff)
  have len: "length o1 = length out" using o1(1) by (auto simp: set_at_def split: if_splits)
  show ?case
  proof (cases k)
    case 0
    then have "o1 ! j = v" using o1(1) Cons.prems by (auto simp: mapping_at_def set_at_def)
    moreover have "\<forall>k' < length vals. mp ! (Suc i + k') \<noteq> int j" using Cons.prems(6) 0 by force
    ultimately show ?thesis using itVals_unhit [OF o1(2)] Cons.prems(2) 0 by simp
  next
    case (Suc k1)
    have "\<forall>k'. k1 < k' \<and> k' < length vals \<longrightarrow> mp ! (Suc i + k') \<noteq> int j"
      using Cons.prems(6) Suc by force
    then show ?thesis using Cons.IH [OF o1(2), of k1] Cons.prems Suc len by simp
  qed
qed simp

lemma index_where_bounds: "0 \<le> k \<Longrightarrow> index_where P k xs < k + int (length xs) \<and> (k \<le> index_where P k xs \<or> index_where P k xs = - 1)"
proof (induction xs arbitrary: k)
  case (Cons x xs)
  from Cons.IH [of "k + 1"] Cons.prems show ?case by auto
qed simp

lemma index_where_found:
  "x \<in> set xs \<Longrightarrow> P x \<Longrightarrow> 0 \<le> k \<Longrightarrow> \<exists>i < length xs. index_where P k xs = k + int i \<and> P (xs ! i)"
proof (induction xs arbitrary: k)
  case (Cons y xs)
  show ?case
  proof (cases "P y")
    case False
    then obtain i where "i < length xs" "index_where P (k + 1) xs = k + 1 + int i" "P (xs ! i)"
      using Cons.IH [of "k + 1"] Cons.prems by auto
    then show ?thesis using False by (intro exI [of _ "Suc i"]) simp
  qed (auto intro: exI [of _ 0])
qed simp

lemma index_where_hit: "index_where P k xs = k + int i \<Longrightarrow> 0 \<le> k \<Longrightarrow> i < length xs \<Longrightarrow> P (xs ! i)"
proof (induction xs arbitrary: k i)
  case (Cons y xs)
  show ?case
  proof (cases i)
    case 0
    then show ?thesis using Cons.prems index_where_bounds [of "k + 1" P xs] by (auto split: if_splits)
  next
    case (Suc j)
    then show ?thesis using Cons.IH [of "k + 1" j] Cons.prems by (auto split: if_splits)
  qed
qed simp

lemma index_where_cong: "(\<And>x. P x = Q x) \<Longrightarrow> index_where P k xs = index_where Q k xs"
  by (induction xs arbitrary: k) auto

text \<open>The columns that an iteration asks for, taken from a row with the columns of all iterations.\<close>

definition project :: "('c, 'h) ext \<Rightarrow> 'c fields \<Rightarrow> 'c fields \<Rightarrow> vals \<Rightarrow> vals" where
  "project X all outFields vals = map (\<lambda>f. vals ! nat (index_where (\<lambda>g. field_String X g = field_String X f) 0 all)) outFields"

lemma itVals_project:
  assumes "distinct (map (field_String X) all)" "distinct (map (field_String X) outFields)"
    and sub: "field_String X ` set outFields \<subseteq> field_String X ` set all" and len: "length vals = length all"
  shows "itVals (map (indexOfOutField X outFields) all) 0 vals (replicate (length outFields) []) = Some (project X all outFields vals)"
proof -
  let ?S = "field_String X" and ?mp = "map (indexOfOutField X outFields) all"
  have "list_all (\<lambda>j. j < int (length (replicate (length outFields) []))) ?mp"
    using index_where_bounds [of 0 _ outFields] by (auto simp: list_all_iff indexOfOutField_def)
  then obtain out where out: "itVals ?mp 0 vals (replicate (length outFields) []) = Some out" "length out = length outFields"
    using itVals_total [of ?mp 0 vals "replicate (length outFields) []"] len by auto
  have "out ! j = project X all outFields vals ! j" if j: "j < length outFields" for j
  proof -
    have "?S (outFields ! j) \<in> ?S ` set all" using sub j by auto
    then obtain g where g: "g \<in> set all" "?S g = ?S (outFields ! j)" by auto
    then obtain k where k: "k < length all" "index_where (\<lambda>g. ?S g = ?S (outFields ! j)) 0 all = int k" "?S (all ! k) = ?S (outFields ! j)"
      using index_where_found [of g all "\<lambda>g. ?S g = ?S (outFields ! j)" 0] by auto
    have at: "?mp ! k = int j"
      using index_where_distinct [OF assms(2) j, of 0] k(1,3) index_where_cong [of "\<lambda>y. ?S (outFields ! j) = ?S y" "\<lambda>g. ?S g = ?S (outFields ! j)"]
      by (auto simp: indexOfOutField_def eq_commute)
    have "?mp ! k' \<noteq> int j" if "k' < length all" "k' \<noteq> k" for k'
    proof
      assume "?mp ! k' = int j"
      then have "index_where (\<lambda>g. ?S g = ?S (all ! k')) 0 outFields = int j" using that by (simp add: indexOfOutField_def)
      then have "?S (outFields ! j) = ?S (all ! k')"
        using index_where_hit [of "\<lambda>g. ?S g = ?S (all ! k')" 0 outFields] j by simp
      then have "?S (all ! k) = ?S (all ! k')" using k by simp
      then show False using that k(1) assms(1) by (metis distinct_conv_nth length_map nth_map)
    qed
    then show ?thesis
      using itVals_hit [OF out(1), of k j] k at len j by (auto simp: project_def)
  qed
  then show ?thesis using out by (auto simp: project_def intro!: nth_equalityI)
qed

lemma add_out_fields_props:
  "distinct (map (field_String X) all) \<Longrightarrow>
   distinct (map (field_String X) (add_out_fields X all fs)) \<and>
   field_String X ` set (add_out_fields X all fs) = field_String X ` (set all \<union> set fs)"
proof (induction X all fs rule: add_out_fields.induct)
  case (2 X all f fs)
  let ?all = "if \<exists>g \<in> set all. field_String X g = field_String X f then all else all @ [f]"
  have "distinct (map (field_String X) ?all)" using 2(2) by force
  moreover have "field_String X ` set ?all = insert (field_String X f) (field_String X ` set all)"
    by (auto, metis imageI)
  ultimately show ?case using 2(1) by (simp add: image_Un)
qed simp

lemma allOutFields_props:
  "distinct (map (field_String X) (allOutFields X tf its))"
  "it \<in> set its \<Longrightarrow> field_String X ` set (out_fields tf it) \<subseteq> field_String X ` set (allOutFields X tf its)"
proof -
  have *: "distinct (map (field_String X) all) \<Longrightarrow>
    (let r = foldl (\<lambda>all it. add_out_fields X all (out_fields tf it)) all its in
     distinct (map (field_String X) r) \<and> field_String X ` set all \<subseteq> field_String X ` set r \<and>
     (\<forall>it \<in> set its. field_String X ` set (out_fields tf it) \<subseteq> field_String X ` set r))" for all
  proof (induction its arbitrary: all)
    case (Cons it its)
    then show ?case
      using add_out_fields_props [OF Cons.prems, of "out_fields tf it"] by (simp add: Let_def image_Un) blast
  qed simp
  show "distinct (map (field_String X) (allOutFields X tf its))"
    and "it \<in> set its \<Longrightarrow> field_String X ` set (out_fields tf it) \<subseteq> field_String X ` set (allOutFields X tf its)"
    using * [of "[]"] by (auto simp: allOutFields_def Let_def)
qed

section \<open>Coalesced iterations\<close>

definition never_fails :: "'s onvalue \<Rightarrow> bool" where
  "never_fails onValue \<longleftrightarrow> (\<forall>k v s. \<exists>s' m. onValue k v s = Some (s', m, None))"

text \<open>An iteration and whether it still wants rows, after one more row.\<close>

definition solo :: "'s onvalue \<Rightarrow> bytes \<Rightarrow> vals \<Rightarrow> 's \<times> bool \<Rightarrow> 's \<times> bool" where
  "solo onValue k v st = (case st of (s, remaining) \<Rightarrow>
     if remaining then (case onValue k v s of Some (s', m, _) \<Rightarrow> (s', m) | None \<Rightarrow> (s, False)) else (s, False))"

lemma solo_stopped [simp]: "solo onValue k v (s, False) = (s, False)"
  by (simp add: solo_def)

lemma feed_solo:
  assumes "never_fails onValue"
  shows "\<exists>m. feed (\<lambda>r. onValue (fst r) (p (snd r))) rows s =
    Some (fst (foldl (\<lambda>st r. solo onValue (fst r) (p (snd r)) st) (s, True) rows), m, None)"
proof (induction rows arbitrary: s)
  case (Cons r rows)
  have stopped: "foldl (\<lambda>st r. solo onValue (fst r) (p (snd r)) st) (s', False) rows = (s', False)" for s'
    by (induction rows) auto
  obtain s' m where "onValue (fst r) (p (snd r)) s = Some (s', m, None)"
    using assms unfolding never_fails_def by blast
  then show ?case using Cons.IH [of s'] stopped by (cases m) (auto simp: solo_def)
qed (simp add: ex_bool_eq)

definition step_of :: "(vals \<Rightarrow> vals) \<times> 's onvalue \<Rightarrow> row \<Rightarrow> 's \<times> bool \<Rightarrow> 's \<times> bool" where
  "step_of po r st = solo (snd po) (fst r) (fst po (snd r)) st"

lemma combined_row:
  assumes "list_all2 (\<lambda>(mp, n, onValue) (p, onValue'). onValue' = onValue \<and> never_fails onValue \<and>
      itVals mp 0 vals (replicate n []) = Some (p vals)) prep pos" "length sts = length prep"
  shows "combinedOnValue prep more' key vals sts =
    Some (map2 (\<lambda>po st. step_of po (key, vals) st) pos sts, more' \<or> list_ex snd (map2 (\<lambda>po st. step_of po (key, vals) st) pos sts), None)"
  using assms
proof (induction prep more' key vals sts arbitrary: pos rule: combinedOnValue.induct)
  case (3 mp n onValue its more' key vals s remaining sts)
  obtain p pos' where pos: "pos = (p, onValue) # pos'" "never_fails onValue" "itVals mp 0 vals (replicate n []) = Some (p vals)"
    and rest: "list_all2 (\<lambda>(mp, n, onValue) (p, onValue'). onValue' = onValue \<and> never_fails onValue \<and>
      itVals mp 0 vals (replicate n []) = Some (p vals)) its pos'"
    using 3(3) by (auto simp: list_all2_Cons1)
  obtain s' m where s': "onValue key (p vals) s = Some (s', m, None)" using pos(2) unfolding never_fails_def by blast
  show ?case
  proof (cases remaining)
    case True
    then show ?thesis using 3(2) [OF _ pos(3) s' _ _ _ rest] 3(4) pos s' by (simp add: step_of_def solo_def)
  next
    case False
    then show ?thesis using 3(1) [OF _ rest] 3(4) pos by (simp add: step_of_def)
  qed
qed auto

lemma all_stopped: "\<not> list_ex snd sts \<Longrightarrow> length pos = length sts \<Longrightarrow> map2 (\<lambda>po st. foldl (\<lambda>st r. step_of po r st) st rows) pos sts = sts"
proof (rule nth_equalityI)
  fix i assume "\<not> list_ex snd sts" "length pos = length sts" "i < length (map2 (\<lambda>po st. foldl (\<lambda>st r. step_of po r st) st rows) pos sts)"
  then obtain s where "sts ! i = (s, False)" "i < length sts" "length pos = length sts"
    by (cases "sts ! i") (auto simp: list_ex_length)
  moreover have "foldl (\<lambda>st r. step_of (pos ! i) r st) (s, False) rows = (s, False)"
    by (induction rows) (auto simp: step_of_def)
  ultimately show "map2 (\<lambda>po st. foldl (\<lambda>st r. step_of po r st) st rows) pos sts ! i = sts ! i" by simp
qed simp

lemma map2_comp: "length pos = length sts \<Longrightarrow> map2 f pos (map2 g pos sts) = map2 (\<lambda>po st. f po (g po st)) pos sts"
  by (rule nth_equalityI) auto

lemma combined_rows:
  assumes "\<forall>r \<in> set rows. list_all2 (\<lambda>(mp, n, onValue) (p, onValue'). onValue' = onValue \<and> never_fails onValue \<and>
      itVals mp 0 (snd r) (replicate n []) = Some (p (snd r))) prep pos" "length sts = length prep" "length pos = length prep"
  shows "\<exists>m. feed (\<lambda>r. combinedOnValue prep False (fst r) (snd r)) rows sts =
    Some (map2 (\<lambda>po st. foldl (\<lambda>st r. step_of po r st) st rows) pos sts, m, None)"
  using assms
proof (induction rows arbitrary: sts)
  case Nil
  then show ?case by (auto simp: ex_bool_eq intro!: nth_equalityI)
next
  case (Cons r rows)
  let ?sts = "map2 (\<lambda>po st. step_of po r st) pos sts"
  have row: "combinedOnValue prep False (fst r) (snd r) sts = Some (?sts, list_ex snd ?sts, None)"
    using combined_row [of "snd r" prep pos sts False "fst r"] Cons.prems by simp
  have comp: "map2 (\<lambda>po st. foldl (\<lambda>st r. step_of po r st) st rows) pos ?sts = map2 (\<lambda>po st. foldl (\<lambda>st r. step_of po r st) st (r # rows)) pos sts"
    using Cons.prems by (simp add: map2_comp)
  show ?case
  proof (cases "list_ex snd ?sts")
    case True
    then show ?thesis using Cons.IH [of ?sts] Cons.prems row comp by simp
  next
    case False
    then have "map2 (\<lambda>po st. foldl (\<lambda>st r. step_of po r st) st (r # rows)) pos sts = ?sts"
      using all_stopped [OF False, of pos rows] comp Cons.prems by simp
    then show ?thesis using row False by (simp add: ex_bool_eq del: foldl.simps)
  qed
qed


text \<open>Two iterations that collect the columns they asked for, the first of them only once.\<close>

definition sample_fields2 :: "bool fields" where
  "sample_fields2 = [NewField ''a'' sample_count, NewField ''b'' sample_count]"

definition sample_its :: "(bool, vals list) iteration list" where
  "sample_its =
     [\<lparr> it_outFields = Some [NewField ''b'' sample_count], it_includeMemStore = False, it_deadline = None, it_onValue = (\<lambda>k v s. Some (s @ [v], False, None)) \<rparr>,
      \<lparr> it_outFields = None, it_includeMemStore = True, it_deadline = Some 5, it_onValue = (\<lambda>k v s. Some (s @ [v], True, None)) \<rparr>]"


section \<open>Tables of a database\<close>

lemma toLower_char_idem [simp]: "toLower_char (toLower_char c) = toLower_char c"
proof -
  have "toLower_char (char_of (n + 32)) = char_of (n + 32)" if "65 \<le> n" "n \<le> 90" for n :: nat
    using that by (simp add: toLower_char_def Let_def)
  then show ?thesis by (simp add: toLower_char_def [of c] Let_def)
qed

lemma ToLower_idem [simp]: "ToLower (ToLower s) = ToLower s"
  by (simp add: ToLower_def)

text \<open>Tables are registered once, under their names in lower case.\<close>

definition tables_ok :: "'c database \<Rightarrow> bool" where
  "tables_ok db \<longleftrightarrow> distinct (map fst (db_tables db)) \<and>
     list_all (\<lambda>(name, t). name = to_Name (td_opts t) \<and> ToLower name = name) (db_tables db)"

lemma queryAndFields_props:
  assumes "queryAndFields X conj2 tables opts q = Some (Inr (opts', q', fs))"
  shows "to_Name opts' = to_Name opts \<and> (\<exists>f \<in> set fs. field_Equals X f PointsField)"
proof -
  have "\<exists>f \<in> set (addPointsField X gs). field_Equals X f PointsField" for gs
    by (auto simp: addPointsField_def field_Equals_def)
  then show ?thesis using assms
    by (auto simp: queryAndFields_def Let_def split: if_splits sum.splits option.splits)
qed

lemma CreateTable_cases:
  assumes "CreateTable X E conj2 now files opts q db = Some (db', r)"
  shows "db' = db \<and> (\<exists>e. r = Inl e) \<or>
    (\<exists>t. db' = db\<lparr>db_tables := db_tables db @ [(ToLower (to_Name opts), t)]\<rparr> \<and> map_of (db_tables db) (ToLower (to_Name opts)) = None \<and>
       to_Name (td_opts t) = ToLower (to_Name opts) \<and> (\<exists>f \<in> set (td_fields t). field_Equals X f PointsField))"
proof -
  obtain qf where qf: "queryAndFields X conj2 (db_tables db) opts q = Some qf"
    using assms by (auto simp: CreateTable_def bind_Some_iff)
  show ?thesis
  proof (cases qf)
    case (Inl e)
    then show ?thesis using assms qf by (auto simp: CreateTable_def)
  next
    case (Inr p)
    obtain opts' q' fs where p: "p = (opts', q', fs)" by (cases p)
    let ?o = "default_opts (if db_ReadOnly db then opts'\<lparr>to_Virtual := True\<rparr> else opts')"
    have name: "to_Name ?o = ToLower (to_Name opts)" and pts: "\<exists>f \<in> set fs. field_Equals X f PointsField"
      using queryAndFields_props [of X conj2 "db_tables db" opts q opts' q' fs] qf Inr p by (auto simp: default_opts_def Let_def)
    have "db' = db \<and> (\<exists>e. r = Inl e) \<or> map_of (db_tables db) (to_Name ?o) = None \<and>
        db' = db\<lparr>db_tables := db_tables db @ [(to_Name ?o, \<lparr> td_opts = ?o, td_query = q', td_fields = fs \<rparr>)]\<rparr>"
      using assms unfolding CreateTable_def qf Inr p
      by (auto simp: Let_def split: option.splits if_splits bind_splits)
    then show ?thesis using name pts by fastforce
  qed
qed

text \<open>
  Creating tables keeps the registry consistent: names are registered once and in lower case, tables that were there
  stay as they are, and a table that was created is found under its name in any case and counts its points.
\<close>

theorem create_table_registers:
  assumes "tables_ok db" "CreateTable X E conj2 now files opts q db = Some (db', r)"
  shows "tables_ok db' \<and>
    (\<forall>n t. getTable (db_tables db) n = Some t \<longrightarrow> getTable (db_tables db') n = Some t) \<and>
    (\<forall>s. r = Inr s \<longrightarrow> (\<exists>t. getTable (db_tables db') (to_Name opts) = Some t \<and> (\<exists>f \<in> set (td_fields t). field_Equals X f PointsField)))"
  using CreateTable_cases [OF assms(2)]
proof (elim disjE exE conjE)
  fix t assume t: "db' = db\<lparr>db_tables := db_tables db @ [(ToLower (to_Name opts), t)]\<rparr>" "map_of (db_tables db) (ToLower (to_Name opts)) = None"
    "to_Name (td_opts t) = ToLower (to_Name opts)" "\<exists>f \<in> set (td_fields t). field_Equals X f PointsField"
  have "ToLower (to_Name opts) \<notin> fst ` set (db_tables db)" using t(2) by (simp add: map_of_eq_None_iff)
  then have "tables_ok db'" using assms(1) t(1,3) by (auto simp: tables_ok_def)
  moreover have "getTable (db_tables db') (to_Name opts) = Some t" using t(1,2) by (simp add: getTable_def map_add_def)
  moreover have "getTable (db_tables db') n = Some u" if "getTable (db_tables db) n = Some u" for n u
    using that t(1) by (simp add: getTable_def map_add_def)
  ultimately show ?thesis using t(4) by blast
qed (use assms in simp)

definition sample_db :: "bool database" where
  "sample_db = \<lparr> db_tables = [], db_ReadOnly = False, db_Passthrough = False, db_Follow = False \<rparr>"

definition sample_topts :: table_opts where
  "sample_topts = \<lparr> to_Name = ''T'', to_View = False, to_MinFlushLatency = 0, to_MaxFlushLatency = 0, to_RetentionPeriod = 1000,
     to_Backfill = 0, to_PartitionBy = [], to_Virtual = False \<rparr>"

definition sample_tq :: "duration \<Rightarrow> bool table_query" where
  "sample_tq res = \<lparr> tq_Fields = StaticFieldSource sample_fields, tq_From = ''s'', tq_Resolution = res, tq_Where = None,
     tq_GroupBy = None, tq_GroupByAll = True \<rparr>"

theorem create_table_registers_witness:
  "\<exists>db' s t. CreateTable sample_ext sample_store (\<lambda>_ _. Inl (OtherError [])) 5000 [] sample_topts (sample_tq 100) sample_db = Some (db', Inr s) \<and>
     getTable (db_tables db') ''t'' = Some t"
proof -
  have ok: "tables_ok sample_db" by (simp add: tables_ok_def sample_db_def)
  have "\<exists>db' s. CreateTable sample_ext sample_store (\<lambda>_ _. Inl (OtherError [])) 5000 [] sample_topts (sample_tq 100) sample_db = Some (db', Inr s)"
    by (simp add: CreateTable_def queryAndFields_def sample_topts_def sample_tq_def sample_db_def validate_opts_def default_opts_def
        openRowStore_def Let_def)
  then obtain db' s where c: "CreateTable sample_ext sample_store (\<lambda>_ _. Inl (OtherError [])) 5000 [] sample_topts (sample_tq 100) sample_db =
    Some (db', Inr s)" by blast
  have "ToLower (to_Name sample_topts) = ToLower ''t''" by code_simp
  then show ?thesis using create_table_registers [OF ok c] c by (auto simp: getTable_def)
qed

text \<open>
  A table whose definition lacks a resolution is refused, but stays registered: creating it again with a resolution
  fails because the table already exists.
\<close>

theorem refused_table_stays_registered:
  "\<exists>db'. CreateTable sample_ext sample_store (\<lambda>_ _. Inl (OtherError [])) 5000 [] sample_topts (sample_tq 0) sample_db =
       Some (db', Inl (OtherError ''Please specify a resolution for the table using PERIOD(...)'')) \<and>
     CreateTable sample_ext sample_store (\<lambda>_ _. Inl (OtherError [])) 5000 [] sample_topts (sample_tq 100) db' =
       Some (db', Inl (OtherError ''Table already exists''))"
  by (simp add: CreateTable_def queryAndFields_def sample_topts_def sample_tq_def sample_db_def validate_opts_def default_opts_def Let_def)

end
