(* ===== verification/Cluster.thy ===== *)
theory Cluster
  imports TableProps
begin

text \<open>
  Clusters (cluster_follow.go and cluster_query.go): a leader reads its logs and sends every entry to the followers
  whose tables want it, followers pass what they get to their tables, and a query is sent to one follower of every
  partition and the results are put together.

  Go's maps are association lists here, visited in their order; the order in which followers are served is not
  specified in the code.  The goroutines that map entries to partitions in parallel are put back into the order of
  offsets by \<open>reducePartitionRequests\<close>, so an entry is handled by one function.
\<close>

section \<open>Followers and what they ask for\<close>

type_synonym followerID = "int \<times> int"

record partition_table =
  pt_Name :: string
  pt_Offsets :: offset_map

record partition_keys =
  pk_Keys :: "string list"
  pk_Tables :: "partition_table list"

record follow =
  fw_Stream :: string
  fw_EarliestOffset :: offset
  fw_Partitions :: "(string \<times> partition_keys) list"
  fw_FollowerID :: followerID

definition sortedPartitionKeys :: "string list \<Rightarrow> string \<times> string list" where
  "sortedPartitionKeys keys = (if keys = [] then ([], keys) else (join_with ''|'' (sort keys), sort keys))"

record 'c tableSpec =
  ts_where :: "'c option"
  ts_whereString :: string
  ts_followersByPartition :: "(int \<times> (followerID \<times> offset) list) list"

record 'c partitionSpec =
  ps_keys :: "string list"
  ps_tables :: "(string \<times> 'c tableSpec) list"

type_synonym 'c partitions = "(string \<times> 'c partitionSpec) list"

definition lookup_or :: "'v \<Rightarrow> ('k \<times> 'v) list \<Rightarrow> 'k \<Rightarrow> 'v" where
  "lookup_or d m k = (case map_of m k of None \<Rightarrow> d | Some v \<Rightarrow> v)"

section \<open>A follower joins\<close>

definition join_spec :: "wal_ext \<Rightarrow> int \<Rightarrow> follow \<Rightarrow> partition_table \<Rightarrow> 'c tableSpec \<Rightarrow> 'c tableSpec" where
  "join_spec wx dbID f t ts =
     (let p = fst (fw_FollowerID f);
          specs = lookup_or [] (ts_followersByPartition ts) p;
          own = offset_of (pt_Offsets t) dbID;
          off = (if After wx (fw_EarliestOffset f) own then fw_EarliestOffset f else own)
      in ts\<lparr>ts_followersByPartition := AList.update p (AList.update (fw_FollowerID f) off specs) (ts_followersByPartition ts)\<rparr>)"

fun join_tables ::
  "('c, 'h) ext \<Rightarrow> wal_ext \<Rightarrow> int \<Rightarrow> (string \<Rightarrow> 'c option option) \<Rightarrow> follow \<Rightarrow> partition_table list \<Rightarrow> (string \<times> 'c tableSpec) list
   \<Rightarrow> (string \<times> 'c tableSpec) list" where
  "join_tables X wx dbID whereOf f [] tables = tables"
| "join_tables X wx dbID whereOf f (t # ts) tables =
     join_tables X wx dbID whereOf f ts
       (case map_of tables (pt_Name t) of
          Some table \<Rightarrow> AList.update (pt_Name t) (join_spec wx dbID f t table) tables
        | None \<Rightarrow>
            (case whereOf (pt_Name t) of
               None \<Rightarrow> tables
             | Some w \<Rightarrow>
                 AList.update (pt_Name t)
                   (join_spec wx dbID f t
                     \<lparr> ts_where = w, ts_whereString = (case w of None \<Rightarrow> [] | Some c \<Rightarrow> ToLower (ge_string X c)), ts_followersByPartition = [] \<rparr>)
                   tables))"

fun join_partitions ::
  "('c, 'h) ext \<Rightarrow> wal_ext \<Rightarrow> int \<Rightarrow> (string \<Rightarrow> 'c option option) \<Rightarrow> follow \<Rightarrow> partition_keys list \<Rightarrow> 'c partitions \<Rightarrow> 'c partitions" where
  "join_partitions X wx dbID whereOf f [] ps = ps"
| "join_partitions X wx dbID whereOf f (part # parts) ps =
     (let (keys, sortedKeys) = sortedPartitionKeys (pk_Keys part);
          spec = lookup_or \<lparr> ps_keys = sortedKeys, ps_tables = [] \<rparr> ps keys
      in join_partitions X wx dbID whereOf f parts
           (AList.update keys (spec\<lparr>ps_tables := join_tables X wx dbID whereOf f (pk_Tables part) (ps_tables spec)\<rparr>) ps))"

definition onFollowerJoined ::
  "('c, 'h) ext \<Rightarrow> wal_ext \<Rightarrow> int \<Rightarrow> (string \<Rightarrow> 'c option option) \<Rightarrow> follow \<Rightarrow> (string \<times> 'c partitions) list \<Rightarrow> (string \<times> 'c partitions) list" where
  "onFollowerJoined X wx dbID whereOf f streams =
     AList.update (fw_Stream f) (join_partitions X wx dbID whereOf f (map snd (fw_Partitions f)) (lookup_or [] streams (fw_Stream f))) streams"

text \<open>The offset from which the log of a stream is read again after followers joined.\<close>

definition spec_offsets :: "'c partitions \<Rightarrow> offset list" where
  "spec_offsets ps = concat (map (\<lambda>(_, p). concat (map (\<lambda>(_, t). concat (map (\<lambda>(_, specs). map snd specs) (ts_followersByPartition t)))
     (ps_tables p))) ps)"

definition earliestOffset :: "wal_ext \<Rightarrow> 'c partitions \<Rightarrow> offset" where
  "earliestOffset wx ps =
     (case spec_offsets ps of
        [] \<Rightarrow> []
      | off # offs \<Rightarrow> foldl (\<lambda>e off. if After wx e off then off else e) off offs)"

section \<open>An entry is sent to followers\<close>

record partitionResult =
  pr_pid :: int
  pr_wherePassed :: "(string \<times> bool) list"

text \<open>The conditions of the tables of one partitioning; results are cached under the printed condition.\<close>

fun map_tables ::
  "('c, 'h) ext \<Rightarrow> goparams \<Rightarrow> int \<Rightarrow> (string \<times> 'c tableSpec) list \<Rightarrow> (string \<times> bool) list \<Rightarrow> ((string \<times> bool) list \<times> (string \<times> bool) list) go" where
  "map_tables X dims pid [] whereResults = Some ([], whereResults)"
| "map_tables X dims pid ((name, table) # tables) whereResults =
     (if lookup_or [] (ts_followersByPartition table) pid = [] then map_tables X dims pid tables whereResults
      else do { (passed, cached) \<leftarrow> (case map_of whereResults (ts_whereString table) of
                    Some b \<Rightarrow> Some (b, whereResults)
                  | None \<Rightarrow>
                      do { b \<leftarrow> (case ts_where table of
                               None \<Rightarrow> Some True
                             | Some c \<Rightarrow> (case ge_eval X c dims of Some (GBool b) \<Rightarrow> Some b | _ \<Rightarrow> None));
                           Some (b, (ts_whereString table, b) # whereResults) });
                (rest, cached) \<leftarrow> map_tables X dims pid tables cached;
                Some ((name, passed) # rest, cached) })"

fun map_partitions ::
  "('c, 'h) ext \<Rightarrow> store_ext \<Rightarrow> insert_ext \<Rightarrow> int \<Rightarrow> bytes \<Rightarrow> 'c partitions \<Rightarrow> (string \<times> bool) list \<Rightarrow> (string \<times> partitionResult) list go" where
  "map_partitions X E I n dims [] whereResults = Some []"
| "map_partitions X E I n dims ((keys, p) # ps) whereResults =
     do { pid \<leftarrow> partitionFor I n dims (ps_keys p);
          (passed, whereResults) \<leftarrow> map_tables X (sx_get E dims) pid (ps_tables p) whereResults;
          rest \<leftarrow> map_partitions X E I n dims ps whereResults;
          Some ((keys, \<lparr> pr_pid = pid, pr_wherePassed = passed \<rparr>) # rest) }"

text \<open>\<open>mapPartitionRequest\<close>; when it panics the entry is dropped.\<close>

definition mapPartitionRequest ::
  "('c, 'h) ext \<Rightarrow> store_ext \<Rightarrow> insert_ext \<Rightarrow> int \<Rightarrow> 'c partitions \<Rightarrow> bytes \<Rightarrow> (string \<times> partitionResult) list option" where
  "mapPartitionRequest X E I n ps data =
     do { (_, remain) \<leftarrow> Read data Width64bits;
          (dims, _) \<leftarrow> read_block remain;
          map_partitions X E I n dims ps [] }"

text \<open>
  The followers of a table that want the entry, and the table with their offsets advanced; then the same for all
  tables and partitionings of the stream.
\<close>

definition route_table :: "wal_ext \<Rightarrow> offset \<Rightarrow> partitionResult \<Rightarrow> string \<times> 'c tableSpec \<Rightarrow> followerID list \<times> (string \<times> 'c tableSpec)" where
  "route_table wx off pr nt =
     (let (name, table) = nt; specs = lookup_or [] (ts_followersByPartition table) (pr_pid pr) in
      if specs = [] then ([], nt)
      else (if lookup_or False (pr_wherePassed pr) name then map fst (filter (\<lambda>(_, o'). After wx off o') specs) else [],
            (name, table\<lparr>ts_followersByPartition := AList.update (pr_pid pr)
               (map (\<lambda>(fid, o'). (fid, if After wx off o' then off else o')) specs) (ts_followersByPartition table)\<rparr>)))"

definition route_partition :: "wal_ext \<Rightarrow> offset \<Rightarrow> partitionResult \<Rightarrow> 'c partitionSpec \<Rightarrow> followerID list \<times> 'c partitionSpec" where
  "route_partition wx off pr p =
     (let routed = map (route_table wx off pr) (ps_tables p) in
      (concat (map fst routed), p\<lparr>ps_tables := map snd routed\<rparr>))"

text \<open>A partitioning without a result is a nil pointer, whose use panics.\<close>

fun route_partitions ::
  "wal_ext \<Rightarrow> offset \<Rightarrow> (string \<times> partitionResult) list \<Rightarrow> 'c partitions \<Rightarrow> (followerID list \<times> 'c partitions) go" where
  "route_partitions wx off result [] = Some ([], [])"
| "route_partitions wx off result ((keys, p) # ps) =
     do { pr \<leftarrow> map_of result keys;
          let (included, p') = route_partition wx off pr p;
          (rest, ps') \<leftarrow> route_partitions wx off result ps;
          Some (included @ rest, (keys, p') # ps') }"

text \<open>An entry of the log: the followers it is submitted to, failed ones left out, and the new state.\<close>

definition route_entry ::
  "('c, 'h) ext \<Rightarrow> store_ext \<Rightarrow> insert_ext \<Rightarrow> int \<Rightarrow> (followerID \<Rightarrow> bool) \<Rightarrow> bytes \<Rightarrow> offset \<Rightarrow> 'c partitions \<Rightarrow> (followerID list \<times> 'c partitions) go" where
  "route_entry X E I n failed data off ps =
     (case mapPartitionRequest X E I n ps data of
        None \<Rightarrow> Some ([], ps)
      | Some result \<Rightarrow>
          do { (included, ps') \<leftarrow> route_partitions (sx_wal E) off result ps;
               Some (filter (\<lambda>fid. \<not> failed fid) included, ps') })"

section \<open>Following leaders\<close>

text \<open>The earliest offset for every source, given the offsets of the tables.\<close>

definition earliest_step :: "wal_ext \<Rightarrow> offset_map \<Rightarrow> int \<times> offset \<Rightarrow> offset_map" where
  "earliest_step wx earliest so =
     (let e = offset_of earliest (fst so) in
      if e = [] \<or> After wx e (snd so) then AList.update (fst so) (snd so) earliest else earliest)"

definition earliestOffsetsBySource :: "wal_ext \<Rightarrow> int list \<Rightarrow> offsets list \<Rightarrow> offset_map" where
  "earliestOffsetsBySource wx sources offs =
     foldl (earliest_step wx) (foldl (\<lambda>m s. AList.update s [] m) [] sources) (concat (map entries offs))"

definition makeFollows ::
  "wal_ext \<Rightarrow> string \<Rightarrow> duration \<Rightarrow> gotime \<Rightarrow> followerID \<Rightarrow> (string \<times> partition_keys) list \<Rightarrow> int list \<Rightarrow> offsets list \<Rightarrow> (int \<times> follow) list" where
  "makeFollows wx strm maxFollowAge now fid parts sources offs =
     (let earliest = earliestOffsetsBySource wx sources offs;
          limited = (if 0 < maxFollowAge then LimitAge wx (Some earliest) (NewOffsetForTS wx (now + wrap64 (- 1 * maxFollowAge))) else earliest)
      in map (\<lambda>(source, off). (source, \<lparr> fw_Stream = strm, fw_EarliestOffset = off, fw_Partitions = parts, fw_FollowerID = fid \<rparr>)) limited)"

text \<open>
  The callback for an entry from a leader, when it is neither canceled nor stopped: for every table the read that it
  is given, if any, and its new offsets.
\<close>

definition deliver :: "wal_ext \<Rightarrow> bytes option \<Rightarrow> offset \<Rightarrow> int \<Rightarrow> offsets \<Rightarrow> walRead option \<times> offsets" where
  "deliver wx data newOffset source prior =
     (let offs = entries prior in
      if After wx newOffset (offset_of offs source)
      then (Some \<lparr> wr_data = data, wr_offset = newOffset, wr_source = source \<rparr>, Some (AList.update source newOffset offs))
      else (None, Some offs))"

text \<open>The reads of one table over a list of entries.\<close>

fun deliver_all :: "wal_ext \<Rightarrow> (bytes option \<times> offset \<times> int) list \<Rightarrow> offsets \<Rightarrow> walRead list \<times> offsets" where
  "deliver_all wx [] prior = ([], prior)"
| "deliver_all wx ((data, off, source) # es) prior =
     (let (rd, prior1) = deliver wx data off source prior;
          (rds, prior2) = deliver_all wx es prior1
      in (case rd of None \<Rightarrow> rds | Some r \<Rightarrow> r # rds, prior2))"

text \<open>\<open>follower.read\<close>: entries over 2 MB are discarded, and nothing is sent after a failure.\<close>

fun follower_read :: "('e \<Rightarrow> bytes) \<Rightarrow> ('e \<Rightarrow> 's \<Rightarrow> 's \<times> error option) \<Rightarrow> 'e list \<Rightarrow> bool \<Rightarrow> 's \<Rightarrow> bool \<times> 's" where
  "follower_read data cb [] failed s = (failed, s)"
| "follower_read data cb (e # es) failed s =
     (if failed \<or> 2000000 < int (length (data e)) then follower_read data cb es failed s
      else case cb e s of (s', err) \<Rightarrow> follower_read data cb es (err \<noteq> None) s')"

end
