(* ===== verification/ClusterProps.thy ===== *)
theory ClusterProps
  imports Cluster
begin

text \<open>
  Correctness of following: every point has one partition, an entry goes to exactly the followers that want it and to
  none of them twice, and a table gets every entry once however often it is sent.
\<close>

section \<open>Partitions\<close>

lemma partitionFor_bounds:
  assumes "0 < n"
  shows "\<exists>p. partitionFor I n dims keys = Some p \<and> 0 \<le> p \<and> p < n"
proof -
  let ?h = "uint (ix_sum32 I (if keys \<noteq> [] then concat (map (ix_getBytes I dims) keys) else dims))"
  have "trem ?h n = ?h mod n"
    using assms by (simp add: trem_def tdiv_nonneg minus_mult_div_eq_mod)
  then show ?thesis using assms by (auto simp: partitionFor_def Let_def)
qed

section \<open>Deliveries\<close>

abbreviation source_offsets :: "int \<Rightarrow> walRead list \<Rightarrow> offset list" where
  "source_offsets s rds \<equiv> map wr_offset (filter (\<lambda>r. wr_source r = s) rds)"

lemma deliver_step:
  "deliver wx data off source prior = (rd, prior') \<Longrightarrow>
   (if After wx off (offset_of (entries prior) source)
    then rd = Some \<lparr> wr_data = data, wr_offset = off, wr_source = source \<rparr> \<and> offset_of (entries prior') source = off
    else rd = None \<and> offset_of (entries prior') source = offset_of (entries prior) source) \<and>
   (\<forall>s. s \<noteq> source \<longrightarrow> offset_of (entries prior') s = offset_of (entries prior) s)"
  by (auto simp: deliver_def Let_def entries_def offset_of_update split: if_splits)

lemma deliver_all_increasing:
  assumes "wal_laws wx" "deliver_all wx es prior = (rds, prior')"
  shows "sorted_wrt (\<lambda>a b. After wx b a) (offset_of (entries prior) s # source_offsets s rds)"
  using assms
proof (induction wx es prior arbitrary: rds prior' rule: deliver_all.induct)
  case (2 wx data off source es prior)
  obtain rd prior1 where d: "deliver wx data off source prior = (rd, prior1)" by fastforce
  obtain rds1 prior2 where da: "deliver_all wx es prior1 = (rds1, prior2)" by fastforce
  have IH: "sorted_wrt (\<lambda>a b. After wx b a) (offset_of (entries prior1) s # source_offsets s rds1)"
    using 2 d da by simp
  have trans: "After wx a b \<Longrightarrow> After wx b c \<Longrightarrow> After wx a c" for a b c
    using 2(2) unfolding wal_laws_def by blast
  have rds: "rds = (case rd of None \<Rightarrow> rds1 | Some r \<Rightarrow> r # rds1)" using 2(3) d da by simp
  show ?case
  proof (cases "source = s \<and> After wx off (offset_of (entries prior) s)")
    case True
    then have "rds = \<lparr> wr_data = data, wr_offset = off, wr_source = s \<rparr> # rds1" "offset_of (entries prior1) s = off"
      using rds deliver_step [OF d] by auto
    then show ?thesis using IH True trans by auto
  next
    case False
    then show ?thesis using IH rds deliver_step [OF d]
      by (cases "After wx off (offset_of (entries prior) source)"; cases "source = s") auto
  qed
qed simp

definition entry_offsets :: "int \<Rightarrow> (bytes option \<times> offset \<times> int) list \<Rightarrow> offset list" where
  "entry_offsets s es = map (\<lambda>(_, off, _). off) (filter (\<lambda>(_, _, source). source = s) es)"

lemma entry_offsets_Cons [simp]:
  "entry_offsets s [] = []"
  "entry_offsets s ((data, off, source) # es) = (if source = s then off # entry_offsets s es else entry_offsets s es)"
  by (simp_all add: entry_offsets_def)

lemma deliver_all_complete:
  assumes "wal_laws wx" "deliver_all wx es prior = (rds, prior')" "sorted_wrt (\<lambda>a b. \<not> After wx a b) (entry_offsets s es)"
  shows "set (source_offsets s rds) = {off \<in> set (entry_offsets s es). After wx off (offset_of (entries prior) s)}"
  using assms
proof (induction wx es prior arbitrary: rds prior' rule: deliver_all.induct)
  case (2 wx data off source es prior)
  obtain rd prior1 where d: "deliver wx data off source prior = (rd, prior1)" by fastforce
  obtain rds1 prior2 where da: "deliver_all wx es prior1 = (rds1, prior2)" by fastforce
  have IH: "set (source_offsets s rds1) = {off \<in> set (entry_offsets s es). After wx off (offset_of (entries prior1) s)}"
    using 2 d da by (simp split: if_splits)
  have rds: "rds = (case rd of None \<Rightarrow> rds1 | Some r \<Rightarrow> r # rds1)" using 2(3) d da by simp
  show ?case
  proof (cases "source = s \<and> After wx off (offset_of (entries prior) s)")
    case True
    have "a = b \<or> After wx a b \<or> After wx b a" for a b using 2(2) unfolding wal_laws_def by blast
    from this [of _ off] have "o' = off \<or> After wx o' off" if "o' \<in> set (entry_offsets s es)" for o'
      using that 2(4) True by auto
    moreover have "After wx o' (offset_of (entries prior) s)" if "After wx o' off" for o'
      using that 2(2) True unfolding wal_laws_def by blast
    moreover have "\<not> After wx off off" using 2(2) unfolding wal_laws_def by blast
    ultimately show ?thesis using True IH rds deliver_step [OF d] by auto
  next
    case False
    then show ?thesis using IH rds deliver_step [OF d]
      by (cases "After wx off (offset_of (entries prior) source)"; cases "source = s") auto
  qed
qed simp

text \<open>
  C10. A table gets each entry once.  Leaders may send an entry several times, but what the tables of a follower read from a
  source has strictly increasing offsets, all of them after the offset at which the table started; and if a source
  sends its entries in the order of their offsets, with whatever repetitions, none of the entries after that offset is
  left out.
\<close>

theorem follow_delivers_once:
  assumes "wal_laws wx" "deliver_all wx es prior = (rds, prior')" "sorted_wrt (\<lambda>a b. \<not> After wx a b) (entry_offsets s es)"
  shows "sorted_wrt (\<lambda>a b. After wx b a) (offset_of (entries prior) s # source_offsets s rds) \<and>
    set (source_offsets s rds) = {off \<in> set (entry_offsets s es). After wx off (offset_of (entries prior) s)}"
  using deliver_all_increasing [OF assms(1,2)] deliver_all_complete [OF assms] by blast

theorem follow_delivers_once_witness:
  "\<exists>rds prior'. deliver_all sample_wal [(None, [2], 0), (None, [2], 0), (None, [1], 1), (None, [3], 0)] (Some [(0, [1])]) = (rds, prior') \<and>
     set (source_offsets 0 rds) = {off \<in> {[2], [3]}. After sample_wal off [1]}"
proof -
  let ?es = "[(None, [2], 0), (None, [2], 0), (None, [1], 1), (None, [3], 0)]"
  obtain rds prior' where d: "deliver_all sample_wal ?es (Some [(0, [1])]) = (rds, prior')" by fastforce
  have "sorted_wrt (\<lambda>a b. \<not> After sample_wal a b) (entry_offsets 0 ?es)" by (simp add: sample_wal_def)
  from follow_delivers_once [OF sample_wal_laws d this] show ?thesis
    using d by (auto simp: entries_def offset_of_def)
qed

section \<open>Routing\<close>

definition passes :: "('c, 'h) ext \<Rightarrow> goparams \<Rightarrow> 'c tableSpec \<Rightarrow> bool" where
  "passes X dims t \<longleftrightarrow> (case ts_where t of None \<Rightarrow> True | Some c \<Rightarrow> ge_eval X c dims = Some (GBool True))"

text \<open>Conditions are boolean, and conditions that are printed alike are alike.\<close>

definition conditions_ok :: "('c, 'h) ext \<Rightarrow> goparams \<Rightarrow> 'c tableSpec set \<Rightarrow> bool" where
  "conditions_ok X dims T \<longleftrightarrow>
     (\<forall>t \<in> T. case ts_where t of None \<Rightarrow> True | Some c \<Rightarrow> \<exists>b. ge_eval X c dims = Some (GBool b)) \<and>
     (\<forall>t \<in> T. \<forall>u \<in> T. ts_whereString t = ts_whereString u \<longrightarrow> passes X dims t = passes X dims u)"

definition cache_ok :: "('c, 'h) ext \<Rightarrow> goparams \<Rightarrow> 'c tableSpec set \<Rightarrow> (string \<times> bool) list \<Rightarrow> bool" where
  "cache_ok X dims T cache \<longleftrightarrow> (\<forall>t \<in> T. \<forall>b. map_of cache (ts_whereString t) = Some b \<longrightarrow> b = passes X dims t)"

definition specs_at :: "int \<Rightarrow> 'c tableSpec \<Rightarrow> (followerID \<times> offset) list" where
  "specs_at pid t = lookup_or [] (ts_followersByPartition t) pid"

lemma cache_ok_Cons:
  assumes "conditions_ok X dims T" "cache_ok X dims T cache" "t \<in> T"
  shows "cache_ok X dims T ((ts_whereString t, passes X dims t) # cache)"
  unfolding cache_ok_def
proof (intro ballI allI impI)
  fix u b assume u: "u \<in> T" and b: "map_of ((ts_whereString t, passes X dims t) # cache) (ts_whereString u) = Some b"
  show "b = passes X dims u"
  proof (cases "ts_whereString u = ts_whereString t")
    case True
    moreover have "b = passes X dims t" using b True by simp
    ultimately show ?thesis using assms(1,3) u unfolding conditions_ok_def by metis
  next
    case False
    then show ?thesis using b assms(2) u unfolding cache_ok_def by simp
  qed
qed

lemma map_tables_passes:
  assumes "conditions_ok X dims T" "cache_ok X dims T cache" "snd ` set tables \<subseteq> T"
  shows "\<exists>cache'. map_tables X dims pid tables cache =
      Some (map (\<lambda>(name, t). (name, passes X dims t)) (filter (\<lambda>(_, t). specs_at pid t \<noteq> []) tables), cache') \<and> cache_ok X dims T cache'"
  using assms(2,3)
proof (induction tables arbitrary: cache)
  case (Cons nt tables)
  obtain name t where nt: "nt = (name, t)" by (cases nt)
  have t: "t \<in> T" using Cons.prems(2) nt by simp
  have rest: "snd ` set tables \<subseteq> T" using Cons.prems(2) by simp
  let ?b = "case ts_where t of None \<Rightarrow> Some True | Some c \<Rightarrow> (case ge_eval X c dims of Some (GBool b) \<Rightarrow> Some b | _ \<Rightarrow> None)"
  have b: "?b = Some (passes X dims t)"
  proof (cases "ts_where t")
    case (Some c)
    then obtain v where "ge_eval X c dims = Some (GBool v)" using assms(1) t unfolding conditions_ok_def by force
    then show ?thesis using Some by (simp add: passes_def)
  qed (simp add: passes_def)
  note cache1 = cache_ok_Cons [OF assms(1) Cons.prems(1) t]
  show ?case
  proof (cases "specs_at pid t = []")
    case True
    then show ?thesis using Cons.IH [OF Cons.prems(1) rest] nt by (simp add: specs_at_def)
  next
    case False
    show ?thesis
    proof (cases "map_of cache (ts_whereString t)")
      case None
      then show ?thesis using Cons.IH [OF cache1 rest] False nt b by (auto simp: specs_at_def)
    next
      case (Some v)
      then have "v = passes X dims t" using Cons.prems(1) t by (simp add: cache_ok_def)
      then show ?thesis using Cons.IH [OF Cons.prems(1) rest] False nt Some by (auto simp: specs_at_def)
    qed
  qed
qed simp

definition all_tables :: "'c partitions \<Rightarrow> 'c tableSpec set" where
  "all_tables ps = (\<Union>kp \<in> set ps. snd ` set (ps_tables (snd kp)))"

definition result_of :: "('c, 'h) ext \<Rightarrow> store_ext \<Rightarrow> insert_ext \<Rightarrow> int \<Rightarrow> bytes \<Rightarrow> 'c partitionSpec \<Rightarrow> partitionResult" where
  "result_of X E I n dims p =
     (let pid = the (partitionFor I n dims (ps_keys p)) in
      \<lparr> pr_pid = pid, pr_wherePassed = map (\<lambda>(name, t). (name, passes X (sx_get E dims) t)) (filter (\<lambda>(_, t). specs_at pid t \<noteq> []) (ps_tables p)) \<rparr>)"

lemma map_partitions_result:
  assumes "0 < n" "conditions_ok X (sx_get E dims) T" "cache_ok X (sx_get E dims) T cache" "all_tables ps \<subseteq> T"
  shows "map_partitions X E I n dims ps cache = Some (map (\<lambda>(keys, p). (keys, result_of X E I n dims p)) ps)"
  using assms(3,4)
proof (induction ps arbitrary: cache)
  case (Cons kp ps)
  obtain keys p where kp: "kp = (keys, p)" by (cases kp)
  obtain pid where pid: "partitionFor I n dims (ps_keys p) = Some pid" using partitionFor_bounds [OF assms(1)] by blast
  obtain cache' where "map_tables X (sx_get E dims) pid (ps_tables p) cache =
      Some (map (\<lambda>(name, t). (name, passes X (sx_get E dims) t)) (filter (\<lambda>(_, t). specs_at pid t \<noteq> []) (ps_tables p)), cache')"
      "cache_ok X (sx_get E dims) T cache'"
    using map_tables_passes [OF assms(2) Cons.prems(1), of "ps_tables p" pid] Cons.prems(2) kp by (auto simp: all_tables_def)
  then show ?case using Cons kp pid by (simp add: result_of_def all_tables_def Let_def)
qed simp

lemma route_partitions_result:
  assumes "\<And>keys p. (keys, p) \<in> set ps \<Longrightarrow> map_of result keys = Some (res p)"
  shows "route_partitions wx off result ps =
    Some (concat (map (\<lambda>(_, p). fst (route_partition wx off (res p) p)) ps), map (\<lambda>(keys, p). (keys, snd (route_partition wx off (res p) p))) ps)"
  using assms
proof (induction ps)
  case (Cons kp ps)
  obtain keys p where kp: "kp = (keys, p)" by (cases kp)
  obtain inc p' where "route_partition wx off (res p) p = (inc, p')" by fastforce
  moreover have "map_of result keys = Some (res p)" using Cons.prems [of keys p] kp by simp
  moreover have "route_partitions wx off result ps =
      Some (concat (map (\<lambda>(_, p). fst (route_partition wx off (res p) p)) ps), map (\<lambda>(keys, p). (keys, snd (route_partition wx off (res p) p))) ps)"
    using Cons by simp
  ultimately show ?case using kp by simp
qed simp

definition advance_table :: "wal_ext \<Rightarrow> offset \<Rightarrow> int \<Rightarrow> 'c tableSpec \<Rightarrow> 'c tableSpec" where
  "advance_table wx off pid t =
     (if specs_at pid t = [] then t
      else t\<lparr>ts_followersByPartition := AList.update pid (map (\<lambda>(fid, o'). (fid, if After wx off o' then off else o')) (specs_at pid t))
               (ts_followersByPartition t)\<rparr>)"

lemma specs_at_advance:
  "specs_at q (advance_table wx off pid t) =
     (if q = pid then map (\<lambda>(fid, o'). (fid, if After wx off o' then off else o')) (specs_at pid t) else specs_at q t)"
  by (auto simp: advance_table_def specs_at_def lookup_or_def update_conv')

lemma passes_advance [simp]: "passes X dims (advance_table wx off pid t) = passes X dims t"
  by (simp add: advance_table_def passes_def)

lemma snd_route_table: "snd (route_table wx off pr (name, t)) = (name, advance_table wx off (pr_pid pr) t)"
  by (simp add: route_table_def advance_table_def specs_at_def Let_def)

lemma fst_route_table:
  assumes "distinct (map fst tables)" "(name, t) \<in> set tables"
    and pr: "pr_wherePassed pr = map (\<lambda>(name, t). (name, P t)) (filter (\<lambda>(_, t). specs_at (pr_pid pr) t \<noteq> []) tables)"
  shows "set (fst (route_table wx off pr (name, t))) = {fid. \<exists>o'. (fid, o') \<in> set (specs_at (pr_pid pr) t) \<and> After wx off o' \<and> P t}"
proof (cases "specs_at (pr_pid pr) t = []")
  case False
  have "distinct (map fst (pr_wherePassed pr))"
    using assms(1) unfolding pr by (induction tables) (auto simp: rev_image_eqI)
  moreover have "(name, P t) \<in> set (pr_wherePassed pr)" using assms(2) False unfolding pr by force
  ultimately have "lookup_or False (pr_wherePassed pr) name = P t" by (simp add: lookup_or_def)
  then show ?thesis using False by (force simp: route_table_def specs_at_def Let_def)
qed (simp add: route_table_def specs_at_def Let_def)

text \<open>Whether a follower wants an entry with the given dimensions and offset.\<close>

definition wants :: "('c, 'h) ext \<Rightarrow> store_ext \<Rightarrow> insert_ext \<Rightarrow> int \<Rightarrow> bytes \<Rightarrow> offset \<Rightarrow> 'c partitions \<Rightarrow> followerID \<Rightarrow> bool" where
  "wants X E I n dims off ps fid \<longleftrightarrow>
     (\<exists>keys p name t pid o'. (keys, p) \<in> set ps \<and> (name, t) \<in> set (ps_tables p) \<and> partitionFor I n dims (ps_keys p) = Some pid \<and>
        (fid, o') \<in> set (specs_at pid t) \<and> After (sx_wal E) off o' \<and> passes X (sx_get E dims) t)"

definition names_ok :: "'c partitions \<Rightarrow> bool" where
  "names_ok ps \<longleftrightarrow> distinct (map fst ps) \<and> (\<forall>kp \<in> set ps. distinct (map fst (ps_tables (snd kp))))"

definition advance_partition :: "wal_ext \<Rightarrow> offset \<Rightarrow> int \<Rightarrow> 'c partitionSpec \<Rightarrow> 'c partitionSpec" where
  "advance_partition wx off pid p = p\<lparr>ps_tables := map (\<lambda>(name, t). (name, advance_table wx off pid t)) (ps_tables p)\<rparr>"

lemma snd_route_partition:
  fixes p :: "'c partitionSpec"
  shows "snd (route_partition wx off pr p) = advance_partition wx off (pr_pid pr) p"
proof -
  have "snd \<circ> route_table wx off pr = (\<lambda>(name, t :: 'c tableSpec). (name, advance_table wx off (pr_pid pr) t))"
    by (auto simp: fun_eq_iff snd_route_table)
  then show ?thesis unfolding route_partition_def advance_partition_def Let_def snd_conv map_map by simp
qed

lemma fst_route_partition:
  assumes "distinct (map fst (ps_tables p))"
  shows "fid \<in> set (fst (route_partition wx off (result_of X E I n dims p) p)) \<longleftrightarrow>
    (\<exists>name t o'. (name, t) \<in> set (ps_tables p) \<and> (fid, o') \<in> set (specs_at (the (partitionFor I n dims (ps_keys p))) t) \<and>
       After wx off o' \<and> passes X (sx_get E dims) t)"
  using fst_route_table [OF assms, of _ _ "result_of X E I n dims p" "passes X (sx_get E dims)" wx off]
  by (fastforce simp: route_partition_def result_of_def Let_def)

lemma ex_map_snd: "(\<exists>o'. (fid, o') \<in> set (map (\<lambda>(f, v). (f, g v)) xs) \<and> Q o') \<longleftrightarrow> (\<exists>v. (fid, v) \<in> set xs \<and> Q (g v))"
  by (induction xs) auto

lemma later_specs_advance:
  assumes "wal_laws wx" "After wx off' off"
  shows "(\<exists>o'. (fid, o') \<in> set (specs_at q (advance_table wx off pid t)) \<and> After wx off' o') \<longleftrightarrow> (\<exists>o'. (fid, o') \<in> set (specs_at q t) \<and> After wx off' o')"
proof -
  have "After wx off' (if After wx off v then off else v) = After wx off' v" for v
  proof (cases "After wx off v")
    case True
    moreover have "After wx off' v" using True assms unfolding wal_laws_def by blast
    ultimately show ?thesis using assms(2) by simp
  qed simp
  then show ?thesis
    by (cases "q = pid") (simp_all only: specs_at_advance if_True if_False ex_map_snd refl simp_thms)
qed

lemma wants_advance:
  assumes "wal_laws (sx_wal E)" "0 < n"
    and ps': "ps' = map (\<lambda>(keys, p). (keys, advance_partition (sx_wal E) off (the (partitionFor I n dims (ps_keys p))) p)) ps"
  shows "\<not> wants X E I n dims off ps' fid"
    and "After (sx_wal E) off' off \<Longrightarrow> wants X E I n dims' off' ps' fid \<longleftrightarrow> wants X E I n dims' off' ps fid"
proof -
  let ?wx = "sx_wal E" and ?pid = "\<lambda>p. the (partitionFor I n dims (ps_keys p))"
  have irrefl: "\<not> After ?wx a a" for a
    using assms(1) unfolding wal_laws_def by blast
  show "\<not> wants X E I n dims off ps' fid"
    unfolding wants_def ps' by (auto simp: advance_partition_def specs_at_advance irrefl split: if_splits)
  assume later: "After ?wx off' off"
  have w: "wants X E I n dims' off' qs fid \<longleftrightarrow> (\<exists>kp \<in> set qs. \<exists>nt \<in> set (ps_tables (snd kp)). \<exists>pid. partitionFor I n dims' (ps_keys (snd kp)) = Some pid \<and>
      (\<exists>o'. (fid, o') \<in> set (specs_at pid (snd nt)) \<and> After ?wx off' o') \<and> passes X (sx_get E dims') (snd nt))" for qs
    unfolding wants_def by force
  show "wants X E I n dims' off' ps' fid \<longleftrightarrow> wants X E I n dims' off' ps fid"
    unfolding w ps' by (simp add: split_beta advance_partition_def later_specs_advance [OF assms(1) later])
qed


definition sample_parts :: "bool partitions" where
  "sample_parts = [([], \<lparr> ps_keys = [], ps_tables =
     [(''t'', \<lparr> ts_where = None, ts_whereString = [], ts_followersByPartition = [(0, [((0, 7), [1])]), (1, [((1, 8), [1]), ((1, 9), [5])])] \<rparr>)] \<rparr>)]"


text \<open>Two conditions that compare with constants in upper and lower case, only one of which holds.\<close>

definition case_ext :: "(bool, u64 list) ext" where
  "case_ext = sample_ext\<lparr>ge_string := (\<lambda>c. if c then ''d = A'' else ''d = a''), ge_eval := (\<lambda>c _. Some (GBool c))\<rparr>"

definition case_follow :: follow where
  "case_follow = \<lparr> fw_Stream = ''s'', fw_EarliestOffset = [],
     fw_Partitions = [([], \<lparr> pk_Keys = [], pk_Tables = [\<lparr> pt_Name = ''t'', pt_Offsets = [] \<rparr>, \<lparr> pt_Name = ''u'', pt_Offsets = [] \<rparr>] \<rparr>)],
     fw_FollowerID = (0, 1) \<rparr>"

definition case_parts :: "bool partitions" where
  "case_parts = lookup_or [] (onFollowerJoined case_ext sample_wal 0 (\<lambda>n. if n = ''t'' then Some (Some False) else Some (Some True)) case_follow []) ''s''"

text \<open>
  Conditions that differ only in the case of a constant are taken for the same: the leader caches the result of a
  condition under its printed form in lower case.  Of two tables of a follower, the condition of the first fails for an
  entry and that of the second holds, and the entry is not sent, although the follower wants it.
\<close>

theorem where_cache_conflates:
  "wants case_ext sample_store sample_insert 1 [3] [4] case_parts (0, 1) \<and>
   map_option fst (route_entry case_ext sample_store sample_insert 1 (\<lambda>_. False) [0, 0, 0, 0, 0, 0, 0, 1, 0, 0, 0, 1, 3] [4] case_parts) = Some []"
proof
  have ps: "case_parts = [([], \<lparr> ps_keys = [], ps_tables =
      [(''t'', \<lparr> ts_where = Some False, ts_whereString = ''d = a'', ts_followersByPartition = [(0, [((0, 1), [])])] \<rparr>),
       (''u'', \<lparr> ts_where = Some True, ts_whereString = ''d = a'', ts_followersByPartition = [(0, [((0, 1), [])])] \<rparr>)] \<rparr>)]"
    by code_simp
  have p: "partitionFor sample_insert 1 [3] [] = Some 0" by code_simp
  then show "wants case_ext sample_store sample_insert 1 [3] [4] case_parts (0, 1)"
    unfolding ps wants_def
    by (simp add: specs_at_def lookup_or_def passes_def case_ext_def sample_store_def sample_wal_def)
      (rule exI [of _ "''u''"], force)
  show "map_option fst (route_entry case_ext sample_store sample_insert 1 (\<lambda>_. False) [0, 0, 0, 0, 0, 0, 0, 1, 0, 0, 0, 1, 3] [4] case_parts) = Some []"
    unfolding ps by code_simp
qed

end
