(* ===== verification/Following.thy ===== *)
theory Following
  imports ClusterProps
begin

text \<open>
  The two ends of following as processes (cluster_follow.go, table.go): on a follower, tables subscribe to their stream and
  \<open>followLeaders\<close> requests them from the leaders; on a leader, \<open>processFollowers\<close> takes the requests in and starts to read the
  logs again.  Channels are lists of events in the order in which they are received.
\<close>

section \<open>Tables subscribe\<close>

record tableWithOffsets =
  to_Name :: string
  to_PartitionBy :: "string list"
  to_os :: offsets

text \<open>The channels of subscribers by stream, and the stream for which following is started, if it is not yet.\<close>

definition startFollowing ::
  "string \<Rightarrow> tableWithOffsets \<Rightarrow> (string \<times> tableWithOffsets list) list \<Rightarrow> (string \<times> tableWithOffsets list) list \<times> string option" where
  "startFollowing strm sub chans =
     (AList.update strm (lookup_or [] chans strm @ [sub]) chans, if map_of chans strm = None then Some strm else None)"

section \<open>A follower asks leaders\<close>

datatype follow_event = FollowStop | FollowTimer | Subscriber tableWithOffsets

text \<open>
  The tables that are followed, and the partitionings with their keys and the indices of their tables.  The offsets of a table in
  a request are the map that is advanced by its reads, unless it was nil.
\<close>

record followed =
  fd_tables :: "tableWithOffsets list"
  fd_partitions :: "(string \<times> string list \<times> nat list) list"

definition no_tables :: followed where "no_tables = \<lparr> fd_tables = [], fd_partitions = [] \<rparr>"

definition subscribe :: "tableWithOffsets \<Rightarrow> followed \<Rightarrow> followed" where
  "subscribe sub fd =
     (let (ks, keys) = sortedPartitionKeys (to_PartitionBy sub);
          (pkeys, is) = (case map_of (fd_partitions fd) ks of None \<Rightarrow> (keys, []) | Some p \<Rightarrow> p)
      in \<lparr> fd_tables = fd_tables fd @ [sub],
           fd_partitions = AList.update ks (pkeys, is @ [length (fd_tables fd)]) (fd_partitions fd) \<rparr>)"

text \<open>The states for which \<open>doFollowLeaders\<close> is started, one after the other.\<close>

fun follow_turns :: "follow_event list \<Rightarrow> followed \<Rightarrow> followed list" where
  "follow_turns (Subscriber sub # es) fd = fd # follow_turns es (fd\<lparr>fd_tables := fd_tables fd @ [sub]\<rparr>)"
| "follow_turns (FollowTimer # es) fd = follow_turns es fd"
| "follow_turns _ fd = [fd]"

fun followLeaders :: "follow_event list \<Rightarrow> followed \<Rightarrow> followed list" where
  "followLeaders (Subscriber sub # es) fd = followLeaders es (subscribe sub fd)"
| "followLeaders (FollowTimer # es) fd = follow_turns es fd"
| "followLeaders _ fd = []"

text \<open>The partitionings of a request, with the current offsets of the tables, and the requests.\<close>

definition requested_table :: "followed \<Rightarrow> offsets list \<Rightarrow> nat \<Rightarrow> partition_table" where
  "requested_table fd offs i =
     \<lparr> pt_Name = to_Name (fd_tables fd ! i), pt_Offsets = (if to_os (fd_tables fd ! i) = None then [] else entries (offs ! i)) \<rparr>"

definition requested :: "followed \<Rightarrow> offsets list \<Rightarrow> (string \<times> partition_keys) list" where
  "requested fd offs = map (\<lambda>(ks, keys, is). (ks, \<lparr> pk_Keys = keys, pk_Tables = map (requested_table fd offs) is \<rparr>)) (fd_partitions fd)"

definition doFollowLeaders :: "wal_ext \<Rightarrow> string \<Rightarrow> duration \<Rightarrow> gotime \<Rightarrow> followerID \<Rightarrow> followed \<Rightarrow> offsets list \<Rightarrow> int list \<Rightarrow> (int \<times> follow) list" where
  "doFollowLeaders wx strm maxFollowAge now fid fd offs sources = makeFollows wx strm maxFollowAge now fid (requested fd offs) sources offs"

section \<open>A leader takes followers in\<close>

text \<open>A reader of a log: where it starts, and whether it runs.\<close>

record wal_reader =
  wr_start :: offset
  wr_running :: bool

record 'c leader =
  ld_followers :: "(followerID \<times> follow) list"
  ld_streams :: "(string \<times> 'c partitions) list"
  ld_readers :: "(string \<times> wal_reader) list"

text \<open>The logs of the leader by stream; \<open>NewReader\<close> may fail.\<close>

definition followWAL :: "(string \<Rightarrow> (offset \<Rightarrow> error option) option) \<Rightarrow> string \<Rightarrow> offset \<Rightarrow> error + wal_reader" where
  "followWAL wals strm off =
     (case wals strm of
        None \<Rightarrow> Inl (OtherError ''stream not found'')
      | Some newReader \<Rightarrow> (case newReader off of Some err \<Rightarrow> Inl (OtherError ''unable to open wal reader'') | None \<Rightarrow> Inr \<lparr> wr_start = off, wr_running = True \<rparr>))"

definition stop_reader :: "wal_reader \<Rightarrow> wal_reader" where "stop_reader r = r\<lparr>wr_running := False\<rparr>"

fun start_readers ::
  "(string \<Rightarrow> (offset \<Rightarrow> error option) option) \<Rightarrow> (string \<times> offset) list \<Rightarrow> (string \<times> 'c partitions) list \<Rightarrow> (string \<times> wal_reader) list \<Rightarrow> (string \<times> wal_reader) list" where
  "start_readers wals earliest [] readers = readers"
| "start_readers wals earliest ((strm, _) # streams) readers =
     start_readers wals earliest streams
       (case followWAL wals strm (lookup_or [] earliest strm) of Inl _ \<Rightarrow> readers | Inr r \<Rightarrow> AList.update strm r readers)"

text \<open>The turn of \<open>processFollowers\<close> for followers that join: the first and those that wait behind it.\<close>

definition join_one :: "('c, 'h) ext \<Rightarrow> wal_ext \<Rightarrow> int \<Rightarrow> (string \<Rightarrow> 'c option option) \<Rightarrow> 'c leader \<Rightarrow> follow \<Rightarrow> 'c leader" where
  "join_one X wx dbID whereOf ld f =
     ld\<lparr>ld_followers := AList.update (fw_FollowerID f) f (ld_followers ld), ld_streams := onFollowerJoined X wx dbID whereOf f (ld_streams ld)\<rparr>"

definition join_turn ::
  "('c, 'h) ext \<Rightarrow> wal_ext \<Rightarrow> int \<Rightarrow> (string \<Rightarrow> 'c option option) \<Rightarrow> (string \<Rightarrow> (offset \<Rightarrow> error option) option) \<Rightarrow> follow list \<Rightarrow> 'c leader \<Rightarrow> 'c leader" where
  "join_turn X wx dbID whereOf wals joined ld =
     (let ld = foldl (join_one X wx dbID whereOf) ld joined;
          newlyJoinedStreams = remdups (map fw_Stream joined);
          earliest = map (\<lambda>strm. (strm, earliestOffset wx (lookup_or [] (ld_streams ld) strm))) newlyJoinedStreams
      in ld\<lparr>ld_readers := start_readers wals earliest (ld_streams ld) (map (\<lambda>(strm, r). (strm, stop_reader r)) (ld_readers ld))\<rparr>)"

text \<open>
  The queue of a follower: the entries not read yet, whether it is closed, and whether sending has failed.  Sending on a closed channel
  and closing it again panic.  The counters that \<open>markFailed\<close> changes are in \<open>Metrics\<close>.
\<close>

record 'e follower =
  fo_entries :: "'e list"
  fo_closed :: bool
  fo_hasFailed :: bool

definition markFailed :: "'e follower \<Rightarrow> 'e follower" where "markFailed f = f\<lparr>fo_hasFailed := True\<rparr>"

definition submit :: "'e \<Rightarrow> 'e follower \<Rightarrow> 'e follower go" where
  "submit entry f =
     (if fo_hasFailed f then (if fo_closed f then None else Some (f\<lparr>fo_closed := True\<rparr>))
      else if fo_closed f then None
      else Some (f\<lparr>fo_entries := fo_entries f @ [entry]\<rparr>))"

text \<open>An entry for an included follower: \<open>fails\<close> if sending fails between the test and \<open>submit\<close>.\<close>

definition submit_included :: "bool \<Rightarrow> 'e \<Rightarrow> 'e follower \<Rightarrow> 'e follower go" where
  "submit_included fails entry f = (if fo_hasFailed f then Some f else submit entry (if fails then markFailed f else f))"

text \<open>The turn for an entry that comes out of the pipeline.\<close>

definition entry_turn ::
  "('c, 'h) ext \<Rightarrow> store_ext \<Rightarrow> insert_ext \<Rightarrow> int \<Rightarrow> (followerID \<Rightarrow> bool) \<Rightarrow> string \<Rightarrow> bytes \<Rightarrow> offset \<Rightarrow> 'c leader \<Rightarrow> (followerID list \<times> 'c leader) go" where
  "entry_turn X E I n failed strm data off ld =
     do { (included, ps) \<leftarrow> route_entry X E I n failed data off (lookup_or [] (ld_streams ld) strm);
          Some (included, ld\<lparr>ld_streams := AList.update strm ps (ld_streams ld)\<rparr>) }"

section \<open>Queues are closed once\<close>

text \<open>The queue of a follower is closed only after a failure, and then nothing is sent any more, so that \<open>submit\<close> never panics.\<close>

lemma submit_included_ok:
  assumes "fo_closed f \<longrightarrow> fo_hasFailed f"
  shows "\<exists>f'. submit_included fails entry f = Some f' \<and> (fo_closed f' \<longrightarrow> fo_hasFailed f') \<and>
    fo_entries f' = fo_entries f @ (if fo_hasFailed f \<or> fails then [] else [entry])"
  using assms by (cases fails) (auto simp: submit_included_def submit_def markFailed_def)

section \<open>Logs are read from early enough\<close>

lemma wal_linear:
  assumes "wal_laws wx"
  shows wal_irrefl: "\<not> After wx a a" and wal_trans: "After wx a b \<Longrightarrow> After wx b c \<Longrightarrow> After wx a c"
    and wal_total: "a = b \<or> After wx a b \<or> After wx b a" and wal_nil: "\<not> After wx [] a"
  using assms unfolding wal_laws_def by blast+

lemma wal_le_trans: "wal_laws wx \<Longrightarrow> \<not> After wx a b \<Longrightarrow> \<not> After wx b c \<Longrightarrow> \<not> After wx a c"
  by (metis wal_total wal_trans)

lemma foldl_earliest:
  assumes wx: "wal_laws wx" and "o' \<in> set (off # offs)"
  shows "\<not> After wx (foldl (\<lambda>e off. if After wx e off then off else e) off offs) o'"
  using assms(2)
proof (induction offs arbitrary: off o')
  case (Cons x offs)
  let ?m = "if After wx off x then x else off"
  have le: "\<not> After wx ?m off" "\<not> After wx ?m x" using wal_irrefl [OF wx] wal_trans [OF wx] by (auto split: if_splits)
  note IH = Cons.IH [of _ ?m, simplified]
  have "o' = off \<or> o' = x \<or> o' \<in> set offs" using Cons.prems by auto
  then show ?case using wal_le_trans [OF wx Cons.IH [of ?m ?m]] le Cons.IH [of o' ?m] by auto
qed (simp add: wal_irrefl [OF wx])

lemma earliestOffset_least: "wal_laws wx \<Longrightarrow> o' \<in> set (spec_offsets ps) \<Longrightarrow> \<not> After wx (earliestOffset wx ps) o'"
  using foldl_earliest by (cases "spec_offsets ps") (force simp: earliestOffset_def)+

lemma specs_at_offsets:
  assumes "(ks, p) \<in> set ps" "(name, t) \<in> set (ps_tables p)" "(fid, o') \<in> set (specs_at pid t)"
  shows "o' \<in> set (spec_offsets ps)"
proof -
  obtain specs where specs: "(pid, specs) \<in> set (ts_followersByPartition t)" "(fid, o') \<in> set specs"
    using assms(3) by (cases "map_of (ts_followersByPartition t) pid") (auto simp: specs_at_def lookup_or_def dest: map_of_SomeD)
  have "o' \<in> snd ` set specs" using specs(2) by force
  then show ?thesis unfolding spec_offsets_def using assms(1,2) specs(1) by (auto intro!: bexI [rotated])
qed

lemma start_readers_other: "strm \<notin> fst ` set streams \<Longrightarrow> map_of (start_readers wals earliest streams readers) strm = map_of readers strm"
  by (induction streams arbitrary: readers) (auto simp: update_conv' split: sum.splits)

lemma start_readers_started:
  assumes "strm \<in> fst ` set streams" "followWAL wals strm (lookup_or [] earliest strm) = Inr r" "distinct (map fst streams)"
  shows "map_of (start_readers wals earliest streams readers) strm = Some r"
  using assms
proof (induction streams arbitrary: readers)
  case (Cons sp streams)
  obtain s p where sp: "sp = (s, p)" by (cases sp)
  show ?case
  proof (cases "s = strm")
    case True
    then have "strm \<notin> fst ` set streams" using Cons.prems(3) sp by auto
    then show ?thesis using Cons.prems(2) True sp by (simp add: start_readers_other update_conv')
  next
    case False
    then show ?thesis using Cons sp by auto
  qed
qed simp

lemma in_update: "distinct (map fst xs) \<Longrightarrow> (k', v') \<in> set (AList.update k v xs) \<longleftrightarrow> (if k' = k then v' = v else (k', v') \<in> set xs)"
  by (metis distinct_update map_of_eq_Some_iff option.inject update_conv' fun_upd_apply)

lemma join_one_streams [simp]: "ld_streams (join_one X wx dbID whereOf ld f) = onFollowerJoined X wx dbID whereOf f (ld_streams ld)"
  by (simp add: join_one_def)

lemma join_streams_distinct:
  "distinct (map fst (ld_streams ld)) \<Longrightarrow> distinct (map fst (ld_streams (foldl (join_one X wx dbID whereOf) ld joined)))"
  by (induction joined arbitrary: ld) (auto simp: onFollowerJoined_def distinct_update)

lemma join_turn_streams [simp]: "ld_streams (join_turn X wx dbID whereOf wals joined ld) = ld_streams (foldl (join_one X wx dbID whereOf) ld joined)"
  by (simp add: join_turn_def Let_def)

text \<open>After followers have joined, the log of every stream is read from an offset before every entry that some follower still wants.\<close>

lemma joined_logs_read:
  assumes wx: "wal_laws (sx_wal E)" and d: "distinct (map fst (ld_streams ld))"
    and ld': "ld' = join_turn X (sx_wal E) dbID whereOf wals joined ld" "(strm, ps) \<in> set (ld_streams ld')"
    and wal: "wals strm = Some newReader" "\<forall>off. newReader off = None"
  shows "\<exists>start. map_of (ld_readers ld') strm = Some \<lparr> wr_start = start, wr_running = True \<rparr> \<and>
    (\<forall>fid dims off. wants X E I n dims off ps fid \<longrightarrow> After (sx_wal E) off start)"
proof -
  let ?ld = "foldl (join_one X (sx_wal E) dbID whereOf) ld joined" and ?wx = "sx_wal E"
  let ?earliest = "map (\<lambda>strm. (strm, earliestOffset ?wx (lookup_or [] (ld_streams ?ld) strm))) (remdups (map fw_Stream joined))"
  define start where "start = lookup_or [] ?earliest strm"
  have ps: "(strm, ps) \<in> set (ld_streams ?ld)" using ld' by simp
  have dl: "distinct (map fst (ld_streams ?ld))" by (rule join_streams_distinct [OF d])
  then have "lookup_or [] (ld_streams ?ld) strm = ps" using ps by (simp add: lookup_or_def)
  then have start: "start = earliestOffset ?wx ps \<or> start = []"
    by (simp add: start_def lookup_or_def map_of_map_restrict restrict_map_def)
  have "followWAL wals strm start = Inr \<lparr> wr_start = start, wr_running = True \<rparr>" using wal by (simp add: followWAL_def)
  then have "map_of (ld_readers ld') strm = Some \<lparr> wr_start = start, wr_running = True \<rparr>"
    unfolding ld'(1) join_turn_def Let_def start_def using ps dl by (simp add: start_readers_started rev_image_eqI)
  moreover have "After ?wx off start" if w: "wants X E I n dims off ps fid" for fid dims off
  proof -
    obtain o' where o': "o' \<in> set (spec_offsets ps)" "After ?wx off o'"
      using w specs_at_offsets unfolding wants_def by metis
    have "\<not> After ?wx start o'" using start earliestOffset_least [OF wx o'(1)] wal_nil [OF wx] by auto
    then show ?thesis using o'(2) wal_total [OF wx, of start o'] wal_trans [OF wx] by metis
  qed
  ultimately show ?thesis by blast
qed

text \<open>Routing an entry makes no follower want more than before.\<close>

lemma advance_wants_less:
  assumes "wal_laws wx" "(fid, o') \<in> set (specs_at pid (advance_table wx off q t))" "After wx off' o'"
  shows "\<exists>o''. (fid, o'') \<in> set (specs_at pid t) \<and> After wx off' o''"
  using assms(2,3) wal_trans [OF assms(1), of off' off] by (auto simp: specs_at_advance split: if_splits)

definition part_wants :: "('c, 'h) ext \<Rightarrow> store_ext \<Rightarrow> insert_ext \<Rightarrow> int \<Rightarrow> bytes \<Rightarrow> offset \<Rightarrow> 'c partitionSpec \<Rightarrow> followerID \<Rightarrow> bool" where
  "part_wants X E I n dims off p fid \<longleftrightarrow> (\<exists>name t pid o'. (name, t) \<in> set (ps_tables p) \<and> partitionFor I n dims (ps_keys p) = Some pid \<and>
     (fid, o') \<in> set (specs_at pid t) \<and> After (sx_wal E) off o' \<and> passes X (sx_get E dims) t)"

lemma wants_parts: "wants X E I n dims off ps fid \<longleftrightarrow> (\<exists>p \<in> snd ` set ps. part_wants X E I n dims off p fid)"
  unfolding wants_def part_wants_def by force

lemma route_partition_wants:
  assumes wx: "wal_laws (sx_wal E)" and w: "part_wants X E I n dims off' (snd (route_partition (sx_wal E) off pr p)) fid"
  shows "part_wants X E I n dims off' p fid"
proof -
  let ?adv = "advance_table (sx_wal E) off (pr_pid pr)"
  obtain name t pid o' where t: "(name, t) \<in> set (ps_tables p)" "partitionFor I n dims (ps_keys p) = Some pid"
    "(fid, o') \<in> set (specs_at pid (?adv t))" "After (sx_wal E) off' o'" "passes X (sx_get E dims) (?adv t)"
    using w unfolding part_wants_def snd_route_partition advance_partition_def by auto
  from advance_wants_less [OF wx t(3,4)] t show ?thesis unfolding part_wants_def by auto
qed

lemma route_partitions_wants:
  assumes wx: "wal_laws (sx_wal E)" and "route_partitions (sx_wal E) off result ps = Some (included, ps')" "wants X E I n dims off' ps' fid"
  shows "wants X E I n dims off' ps fid"
  using assms(2,3)
proof (induction ps arbitrary: included ps')
  case (Cons kp ps)
  obtain ks p where kp: "kp = (ks, p)" by (cases kp)
  obtain pr rest ps1 where r: "route_partitions (sx_wal E) off result ps = Some (rest, ps1)"
    "ps' = (ks, snd (route_partition (sx_wal E) off pr p)) # ps1"
    using Cons.prems(1) kp by (auto simp: bind_eq_Some_conv split_beta Let_def)
  consider "part_wants X E I n dims off' (snd (route_partition (sx_wal E) off pr p)) fid" | "wants X E I n dims off' ps1 fid"
    using Cons.prems(2) unfolding r(2) wants_parts by auto
  then show ?case
  proof cases
    case 1
    from route_partition_wants [OF wx 1] show ?thesis by (simp add: wants_parts kp)
  next
    case 2
    from Cons.IH [OF r(1) 2] show ?thesis by (simp add: wants_parts)
  qed
qed simp

lemma route_entry_wants:
  assumes "wal_laws (sx_wal E)" "route_entry X E I n failed data off ps = Some (included, ps')" "wants X E I n dims off' ps' fid"
  shows "wants X E I n dims off' ps fid"
  using assms route_partitions_wants [OF assms(1) _ assms(3)] by (auto simp: route_entry_def bind_eq_Some_conv split: option.splits)

section \<open>The runs of a leader\<close>

text \<open>Followers join, with the tables that are known then, and entries come from the logs that are being read.\<close>

inductive leader_run ::
  "('c, 'h) ext \<Rightarrow> store_ext \<Rightarrow> insert_ext \<Rightarrow> int \<Rightarrow> int \<Rightarrow> (string \<Rightarrow> (offset \<Rightarrow> error option) option) \<Rightarrow> 'c leader \<Rightarrow> bool"
  for X E I n dbID wals where
  start: "leader_run X E I n dbID wals \<lparr> ld_followers = [], ld_streams = [], ld_readers = [] \<rparr>"
| join: "leader_run X E I n dbID wals ld \<Longrightarrow> leader_run X E I n dbID wals (join_turn X (sx_wal E) dbID whereOf wals joined ld)"
| entry: "leader_run X E I n dbID wals ld \<Longrightarrow> map_of (ld_readers ld) strm = Some r \<Longrightarrow> wr_running r \<Longrightarrow>
    entry_turn X E I n failed strm data off ld = Some (included, ld') \<Longrightarrow> leader_run X E I n dbID wals ld'"

text \<open>Streams are distinct, running readers have a stream, and the log of every stream is read from early enough.\<close>

definition reads_enough :: "('c, 'h) ext \<Rightarrow> store_ext \<Rightarrow> insert_ext \<Rightarrow> int \<Rightarrow> 'c leader \<Rightarrow> string \<Rightarrow> 'c partitions \<Rightarrow> bool" where
  "reads_enough X E I n ld strm ps \<longleftrightarrow> (\<exists>start. map_of (ld_readers ld) strm = Some \<lparr> wr_start = start, wr_running = True \<rparr> \<and>
     (\<forall>fid dims off. wants X E I n dims off ps fid \<longrightarrow> After (sx_wal E) off start))"

definition readable :: "(string \<Rightarrow> (offset \<Rightarrow> error option) option) \<Rightarrow> string \<Rightarrow> bool" where
  "readable wals strm \<longleftrightarrow> (\<exists>newReader. wals strm = Some newReader \<and> (\<forall>off. newReader off = None))"

definition leader_inv :: "('c, 'h) ext \<Rightarrow> store_ext \<Rightarrow> insert_ext \<Rightarrow> int \<Rightarrow> (string \<Rightarrow> (offset \<Rightarrow> error option) option) \<Rightarrow> 'c leader \<Rightarrow> bool" where
  "leader_inv X E I n wals ld \<longleftrightarrow> distinct (map fst (ld_streams ld)) \<and>
     (\<forall>strm r. map_of (ld_readers ld) strm = Some r \<and> wr_running r \<longrightarrow> strm \<in> fst ` set (ld_streams ld)) \<and>
     (\<forall>(strm, ps) \<in> set (ld_streams ld). readable wals strm \<longrightarrow> reads_enough X E I n ld strm ps)"

lemma stopped_readers: "map_of (map (\<lambda>(strm, r). (strm, stop_reader r)) readers) strm = map_option stop_reader (map_of readers strm)"
  by (induction readers) auto

lemma join_turn_inv:
  assumes wx: "wal_laws (sx_wal E)" and inv: "leader_inv X E I n wals ld"
  shows "leader_inv X E I n wals (join_turn X (sx_wal E) dbID whereOf wals joined ld)" (is "leader_inv _ _ _ _ _ ?ld'")
proof -
  have d: "distinct (map fst (ld_streams ld))" using inv by (simp add: leader_inv_def)
  have "strm \<in> fst ` set (ld_streams ?ld')" if r: "map_of (ld_readers ?ld') strm = Some r" "wr_running r" for strm r
  proof (rule ccontr)
    assume "strm \<notin> fst ` set (ld_streams ?ld')"
    then have "map_of (ld_readers ?ld') strm = map_option stop_reader (map_of (ld_readers (foldl (join_one X (sx_wal E) dbID whereOf) ld joined)) strm)"
      by (simp add: join_turn_def Let_def start_readers_other stopped_readers)
    then show False using r by (cases "map_of (ld_readers (foldl (join_one X (sx_wal E) dbID whereOf) ld joined)) strm") (auto simp: stop_reader_def)
  qed
  moreover have "distinct (map fst (ld_streams ?ld'))" using join_streams_distinct [OF d] by simp
  ultimately show ?thesis
    using joined_logs_read [OF wx d refl] unfolding leader_inv_def reads_enough_def readable_def by fast
qed

lemma entry_turn_inv:
  assumes wx: "wal_laws (sx_wal E)" and inv: "leader_inv X E I n wals ld"
    and r: "map_of (ld_readers ld) strm = Some r" "wr_running r" and e: "entry_turn X E I n failed strm data off ld = Some (included, ld')"
  shows "leader_inv X E I n wals ld'"
proof -
  obtain ps where "(strm, ps) \<in> set (ld_streams ld)" using inv r unfolding leader_inv_def by force
  moreover have d: "distinct (map fst (ld_streams ld))" using inv by (simp add: leader_inv_def)
  ultimately have ps: "(strm, ps) \<in> set (ld_streams ld)" "lookup_or [] (ld_streams ld) strm = ps" by (auto simp: lookup_or_def)
  then obtain ps' where ps': "route_entry X E I n failed data off ps = Some (included, ps')" "ld' = ld\<lparr>ld_streams := AList.update strm ps' (ld_streams ld)\<rparr>"
    using e by (auto simp: entry_turn_def bind_eq_Some_conv)
  have enough: "readable wals s \<Longrightarrow> reads_enough X E I n ld s q" if "(s, q) \<in> set (ld_streams ld)" for s q
    using inv that by (auto simp: leader_inv_def)
  have "reads_enough X E I n ld' s q" if sq: "(s, q) \<in> set (ld_streams ld')" "readable wals s" for s q
  proof (cases "s = strm")
    case True
    then have "q = ps'" using sq(1) in_update [OF d] ps'(2) by simp
    moreover obtain start where "map_of (ld_readers ld) strm = Some \<lparr> wr_start = start, wr_running = True \<rparr>"
      "\<forall>fid dims off. wants X E I n dims off ps fid \<longrightarrow> After (sx_wal E) off start"
      using enough [OF ps(1)] True sq(2) unfolding reads_enough_def by blast
    ultimately show ?thesis using route_entry_wants [OF wx ps'(1)] ps'(2) True unfolding reads_enough_def by fastforce
  next
    case False
    then show ?thesis using sq in_update [OF d] ps'(2) enough by (simp add: reads_enough_def)
  qed
  moreover have "distinct (map fst (ld_streams ld'))" using d ps'(2) by (simp add: distinct_update)
  moreover have "fst ` set (ld_streams ld) \<subseteq> fst ` set (ld_streams ld')" using ps'(2) by (auto simp: dom_update)
  ultimately show ?thesis using inv ps'(2) unfolding leader_inv_def by auto
qed

lemma leader_run_inv: "leader_run X E I n dbID wals ld \<Longrightarrow> wal_laws (sx_wal E) \<Longrightarrow> leader_inv X E I n wals ld"
  by (induction rule: leader_run.induct) (simp add: leader_inv_def, blast intro: join_turn_inv, blast intro: entry_turn_inv)

text \<open>
  C11. No follower misses entries.  However followers join a leader and entries are sent, the log of every stream that can be read is being
  read, from an offset before every entry that some follower still wants.
\<close>

theorem leader_misses_nothing:
  assumes "wal_laws (sx_wal E)" "leader_run X E I n dbID wals ld" "(strm, ps) \<in> set (ld_streams ld)"
    "wals strm = Some newReader" "\<forall>off. newReader off = None"
  shows "\<exists>start. map_of (ld_readers ld) strm = Some \<lparr> wr_start = start, wr_running = True \<rparr> \<and>
    (\<forall>fid dims off. wants X E I n dims off ps fid \<longrightarrow> After (sx_wal E) off start)"
  using leader_run_inv [OF assms(2,1)] assms(3-5) unfolding leader_inv_def reads_enough_def readable_def by fast

section \<open>Requests name every table that subscribed in time\<close>

text \<open>The subscribers before the timer fires.\<close>

fun in_time :: "follow_event list \<Rightarrow> tableWithOffsets list" where
  "in_time (Subscriber sub # es) = sub # in_time es"
| "in_time _ = []"

abbreviation keys_of :: "tableWithOffsets \<Rightarrow> string" where
  "keys_of sub \<equiv> fst (sortedPartitionKeys (to_PartitionBy sub))"

text \<open>The partitionings hold the index of every table once, under the key of the table, and their keys give that key again.\<close>

definition followed_ok :: "followed \<Rightarrow> bool" where
  "followed_ok fd \<longleftrightarrow> distinct (map fst (fd_partitions fd)) \<and>
     (\<forall>(ks, keys, is) \<in> set (fd_partitions fd). fst (sortedPartitionKeys keys) = ks \<and> distinct is \<and>
        set is = {i. i < length (fd_tables fd) \<and> keys_of (fd_tables fd ! i) = ks}) \<and>
     (\<forall>sub \<in> set (fd_tables fd). keys_of sub \<in> fst ` set (fd_partitions fd))"

lemma followed_okD:
  assumes "followed_ok fd" "(ks, keys, is) \<in> set (fd_partitions fd)"
  shows "fst (sortedPartitionKeys keys) = ks" "distinct is" "set is = {i. i < length (fd_tables fd) \<and> keys_of (fd_tables fd ! i) = ks}"
  using assms unfolding followed_ok_def by blast+

lemma sortedPartitionKeys_idem: "fst (sortedPartitionKeys (snd (sortedPartitionKeys ks))) = fst (sortedPartitionKeys ks)"
  by (cases "ks = []") (auto simp: sortedPartitionKeys_def sort_key_id_if_sorted)

lemma indices_snoc:
  "{i. i < length (xs @ [x]) \<and> P ((xs @ [x]) ! i)} = (if P x then insert (length xs) {i. i < length xs \<and> P (xs ! i)} else {i. i < length xs \<and> P (xs ! i)})"
  by (auto simp: nth_append less_Suc_eq)

lemma subscribe_ok:
  assumes "followed_ok fd" shows "followed_ok (subscribe sub fd)" and "fd_tables (subscribe sub fd) = fd_tables fd @ [sub]"
proof -
  obtain ks keys where k: "sortedPartitionKeys (to_PartitionBy sub) = (ks, keys)" by fastforce
  have ks: "fst (sortedPartitionKeys keys) = ks" using sortedPartitionKeys_idem [of "to_PartitionBy sub"] k by simp
  obtain pkeys "is" where p: "(case map_of (fd_partitions fd) ks of None \<Rightarrow> (keys, []) | Some p \<Rightarrow> p) = (pkeys, is)" by fastforce
  let ?n = "length (fd_tables fd)"
  have fd: "subscribe sub fd = \<lparr> fd_tables = fd_tables fd @ [sub], fd_partitions = AList.update ks (pkeys, is @ [?n]) (fd_partitions fd) \<rparr>"
    by (simp add: subscribe_def k p)
  then show "fd_tables (subscribe sub fd) = fd_tables fd @ [sub]" by simp
  have d: "distinct (map fst (fd_partitions fd))" using assms by (simp add: followed_ok_def)
  have old: "fst (sortedPartitionKeys pkeys) = ks \<and> distinct is \<and> set is = {i. i < ?n \<and> keys_of (fd_tables fd ! i) = ks}"
  proof (cases "map_of (fd_partitions fd) ks")
    case None
    then have "keys_of (fd_tables fd ! i) \<noteq> ks" if "i < ?n" for i
      using that assms by (auto simp: followed_ok_def map_of_eq_None_iff)
    then show ?thesis using p None ks by auto
  next
    case (Some q)
    then have "(ks, pkeys, is) \<in> set (fd_partitions fd)" using p by (auto dest: map_of_SomeD)
    from followed_okD [OF assms this] show ?thesis by simp
  qed
  show "followed_ok (subscribe sub fd)"
    unfolding followed_ok_def fd followed.simps
  proof (intro conjI ballI; (clarify)?)
    show "distinct (map fst (AList.update ks (pkeys, is @ [?n]) (fd_partitions fd)))" using d by (rule distinct_update)
  next
    fix ks' keys' is' assume "(ks', keys', is') \<in> set (AList.update ks (pkeys, is @ [?n]) (fd_partitions fd))"
    then consider "ks' = ks" "keys' = pkeys" "is' = is @ [?n]" | "ks' \<noteq> ks" "(ks', keys', is') \<in> set (fd_partitions fd)"
      using in_update [OF d] by (auto split: if_splits)
    then show "fst (sortedPartitionKeys keys') = ks' \<and> distinct is' \<and>
        set is' = {i. i < length (fd_tables fd @ [sub]) \<and> keys_of ((fd_tables fd @ [sub]) ! i) = ks'}"
    proof cases
      case 1
      then show ?thesis using old k unfolding indices_snoc [of _ _ "\<lambda>s. keys_of s = ks'"] by simp
    next
      case 2
      then have "fst (sortedPartitionKeys keys') = ks' \<and> distinct is' \<and> set is' = {i. i < ?n \<and> keys_of (fd_tables fd ! i) = ks'}"
        using followed_okD [OF assms] by simp
      then show ?thesis using 2(1) k unfolding indices_snoc [of _ _ "\<lambda>s. keys_of s = ks'"] by simp
    qed
  next
    fix s assume "s \<in> set (fd_tables fd @ [sub])"
    then show "keys_of s \<in> fst ` set (AList.update ks (pkeys, is @ [?n]) (fd_partitions fd))"
      using assms k by (auto simp: followed_ok_def dom_update)
  qed
qed

lemma follow_turns_partitions: "fd' \<in> set (follow_turns es fd) \<Longrightarrow> fd_partitions fd' = fd_partitions fd"
  by (induction es fd rule: follow_turns.induct) auto

lemma follow_turns_first: "\<exists>turns. follow_turns es fd = fd # turns"
  by (induction es fd rule: follow_turns.induct) auto

lemma followLeaders_first:
  assumes "followLeaders es fd0 = fd # turns" "followed_ok fd0"
  shows "followed_ok fd \<and> fd_tables fd = fd_tables fd0 @ in_time es"
  using assms
proof (induction es fd0 rule: followLeaders.induct)
  case (2 es fd0)
  then show ?case using follow_turns_first [of es fd0] by auto
qed (auto simp: subscribe_ok)

section \<open>What is requested is served\<close>

text \<open>The offset from which a table of a follower is served.\<close>

definition served :: "follow \<Rightarrow> 'c partitions \<Rightarrow> string \<Rightarrow> string \<Rightarrow> offset \<Rightarrow> bool" where
  "served f ps ks name off \<longleftrightarrow> (\<exists>p t. map_of ps ks = Some p \<and> map_of (ps_tables p) name = Some t \<and>
     map_of (specs_at (fst (fw_FollowerID f)) t) (fw_FollowerID f) = Some off)"

abbreviation joined_at :: "wal_ext \<Rightarrow> int \<Rightarrow> follow \<Rightarrow> partition_table \<Rightarrow> offset" where
  "joined_at wx dbID f t \<equiv> later wx (offset_of (pt_Offsets t) dbID) (fw_EarliestOffset f)"

lemma join_spec_served: "map_of (specs_at (fst (fw_FollowerID f)) (join_spec wx dbID f t ts)) (fw_FollowerID f) = Some (joined_at wx dbID f t)"
  by (simp add: join_spec_def specs_at_def lookup_or_def update_conv' later_def Let_def)

lemma join_tables_other: "name \<notin> pt_Name ` set ts \<Longrightarrow> map_of (join_tables X wx dbID whereOf f ts tables) name = map_of tables name"
  by (induction ts arbitrary: tables) (auto simp: update_conv' split: option.splits)

lemma join_tables_served:
  assumes "t \<in> set ts" "distinct (map pt_Name ts)" "whereOf (pt_Name t) \<noteq> None"
  shows "\<exists>tb. map_of (join_tables X wx dbID whereOf f ts tables) (pt_Name t) = Some tb \<and>
    map_of (specs_at (fst (fw_FollowerID f)) tb) (fw_FollowerID f) = Some (joined_at wx dbID f t)"
  using assms
proof (induction ts arbitrary: tables)
  case (Cons u ts)
  show ?case
  proof (cases "t = u")
    case True
    then have "pt_Name t \<notin> pt_Name ` set ts" using Cons.prems(2) by auto
    then show ?thesis using True Cons.prems(3) by (auto simp: join_tables_other update_conv' join_spec_served split: option.splits)
  next
    case False
    then show ?thesis using Cons by auto
  qed
qed simp

abbreviation part_key :: "partition_keys \<Rightarrow> string" where "part_key part \<equiv> fst (sortedPartitionKeys (pk_Keys part))"

lemma join_partitions_other: "ks \<notin> part_key ` set parts \<Longrightarrow> map_of (join_partitions X wx dbID whereOf f parts ps) ks = map_of ps ks"
  by (induction parts arbitrary: ps) (auto simp: update_conv' split_beta Let_def)

lemma join_partitions_served:
  assumes "part \<in> set parts" "distinct (map part_key parts)" "t \<in> set (pk_Tables part)" "distinct (map pt_Name (pk_Tables part))"
    "whereOf (pt_Name t) \<noteq> None"
  shows "served f (join_partitions X wx dbID whereOf f parts ps) (part_key part) (pt_Name t) (joined_at wx dbID f t)"
  using assms(1,2)
proof (induction parts arbitrary: ps)
  case (Cons q parts)
  show ?case
  proof (cases "part = q")
    case True
    then have "part_key part \<notin> part_key ` set parts" using Cons.prems(2) by auto
    then show ?thesis using True join_tables_served [where whereOf = whereOf and t = t, OF assms(3-5)]
      by (auto simp: served_def join_partitions_other update_conv' split_beta Let_def)
  next
    case False
    then show ?thesis using Cons by (auto simp: split_beta Let_def)
  qed
qed simp

text \<open>The request starts no later than any table that has an offset for the source.\<close>

lemma earliest_fold:
  assumes wx: "wal_laws wx" and nn: "\<forall>(s, off) \<in> set os. off \<noteq> []" and b: "b \<noteq> []" "\<not> After wx (offset_of e s) b" "offset_of e s \<noteq> []"
  shows "\<not> After wx (offset_of (foldl (earliest_step wx) e os) s) b"
  using nn b
proof (induction os arbitrary: e)
  case (Cons so os)
  obtain s' off where so: "so = (s', off)" by (cases so)
  let ?e = "earliest_step wx e so"
  have "\<not> After wx (offset_of ?e s) b \<and> offset_of ?e s \<noteq> []"
  proof (cases "s' = s \<and> After wx (offset_of e s) off")
    case True
    then have "offset_of ?e s = off" by (simp add: earliest_step_def so offset_of_update)
    then show ?thesis using True Cons.prems so wal_trans [OF wx, of "offset_of e s" off b] by auto
  next
    case False
    then have "offset_of ?e s = offset_of e s" using Cons.prems(4) by (auto simp: earliest_step_def so offset_of_update Let_def)
    then show ?thesis using Cons.prems by simp
  qed
  then show ?case using Cons so by simp
qed simp

lemma earliest_least:
  assumes wx: "wal_laws wx" and nn: "\<forall>(s, off) \<in> set os. off \<noteq> []" and "(s, b) \<in> set os"
  shows "\<not> After wx (offset_of (foldl (earliest_step wx) e os) s) b"
  using nn assms(3)
proof (induction os arbitrary: e)
  case (Cons so os)
  show ?case
  proof (cases "so = (s, b)")
    case True
    then have "b \<noteq> []" using Cons.prems(1) by auto
    moreover have "\<not> After wx (offset_of (earliest_step wx e so) s) b" "offset_of (earliest_step wx e so) s \<noteq> []"
      using True \<open>b \<noteq> []\<close> by (auto simp: earliest_step_def Let_def offset_of_update wal_irrefl [OF wx])
    ultimately show ?thesis using earliest_fold [OF wx] Cons.prems(1) by simp
  next
    case False
    then show ?thesis using Cons by auto
  qed
qed simp

lemma earliest_distinct: "distinct (map fst (earliestOffsetsBySource wx sources offs))"
proof -
  have "distinct (map fst e) \<Longrightarrow> distinct (map fst (foldl (earliest_step wx) e os))" for e os
    by (induction os arbitrary: e) (auto simp: earliest_step_def Let_def distinct_update)
  moreover have "distinct (map fst e) \<Longrightarrow> distinct (map fst (foldl (\<lambda>m s. AList.update s [] m) e sources))" for e :: offset_map
    by (induction sources arbitrary: e) (auto simp: distinct_update)
  ultimately show ?thesis by (simp add: earliestOffsetsBySource_def)
qed

lemma doFollowLeaders_request:
  assumes "(src, f) \<in> set (doFollowLeaders wx strm age now fid fd offs sources)" "age \<le> 0"
  shows "fw_Stream f = strm" "fw_Partitions f = requested fd offs" "fw_FollowerID f = fid"
    "fw_EarliestOffset f = offset_of (earliestOffsetsBySource wx sources offs) src"
  using assms earliest_distinct [of wx sources offs] by (auto simp: doFollowLeaders_def makeFollows_def offset_of_def)

lemma requested_part:
  assumes ok: "followed_ok fd" and names: "distinct (map to_Name (fd_tables fd))" and i: "i < length (fd_tables fd)"
  shows "\<exists>part. part \<in> set (map snd (requested fd offs)) \<and> part_key part = keys_of (fd_tables fd ! i) \<and>
      requested_table fd offs i \<in> set (pk_Tables part) \<and> distinct (map pt_Name (pk_Tables part))"
    and "distinct (map part_key (map snd (requested fd offs)))"
proof -
  have "keys_of (fd_tables fd ! i) \<in> fst ` set (fd_partitions fd)" using ok i unfolding followed_ok_def by simp
  then obtain keys "is" where p: "(keys_of (fd_tables fd ! i), keys, is) \<in> set (fd_partitions fd)" by force
  have idx: "fst (sortedPartitionKeys keys) = keys_of (fd_tables fd ! i)" "distinct is" "i \<in> set is" "\<forall>j \<in> set is. j < length (fd_tables fd)"
    using followed_okD [OF ok p] i by simp_all
  have "inj_on (\<lambda>j. to_Name (fd_tables fd ! j)) (set is)" using idx(4) names by (auto simp: inj_on_def distinct_conv_nth)
  then have "distinct (map pt_Name (map (requested_table fd offs) is))" using idx(2) by (simp add: distinct_map comp_def requested_table_def)
  then show "\<exists>part. part \<in> set (map snd (requested fd offs)) \<and> part_key part = keys_of (fd_tables fd ! i) \<and>
      requested_table fd offs i \<in> set (pk_Tables part) \<and> distinct (map pt_Name (pk_Tables part))"
    using p idx(1,3) by (intro exI [of _ "\<lparr> pk_Keys = keys, pk_Tables = map (requested_table fd offs) is \<rparr>"]) (force simp: requested_def)
  have "map part_key (map snd (requested fd offs)) = map fst (fd_partitions fd)"
    using followed_okD(1) [OF ok] by (auto simp: requested_def)
  then show "distinct (map part_key (map snd (requested fd offs)))" using ok by (simp add: followed_ok_def)
qed


lemma follow_turns_tables: "fd' \<in> set (follow_turns es fd) \<Longrightarrow> \<exists>late. fd_tables fd' = fd_tables fd @ late"
  by (induction es fd rule: follow_turns.induct) auto

lemma followLeaders_turns:
  assumes "fd' \<in> set (followLeaders es fd0)" "followed_ok fd0"
  shows "\<exists>fd late. followed_ok fd \<and> fd_tables fd = fd_tables fd0 @ in_time es \<and> fd_partitions fd' = fd_partitions fd \<and> fd_tables fd' = fd_tables fd @ late"
  using assms
proof (induction es fd0 rule: followLeaders.induct)
  case (2 es fd0)
  then show ?case using follow_turns_tables [of fd' es fd0] follow_turns_partitions [of fd' es fd0] by auto
qed (auto simp: subscribe_ok)

text \<open>
  C40. A table that subscribes after following has started is never asked for: in no turn do the requests name a table other than those
  that subscribed before the timer fired.  The timer ends the waiting even if no table has subscribed yet, and then no table at all is followed.
\<close>

theorem late_tables_never_requested:
  assumes "fd' \<in> set (followLeaders es no_tables)" "(ks, part) \<in> set (requested fd' offs)" "t \<in> set (pk_Tables part)"
  shows "pt_Name t \<in> to_Name ` set (in_time es)"
proof -
  have "followed_ok no_tables" by (simp add: followed_ok_def no_tables_def)
  from followLeaders_turns [OF assms(1) this]
  obtain fd late where fd: "followed_ok fd" "fd_tables fd = in_time es" "fd_partitions fd' = fd_partitions fd" "fd_tables fd' = fd_tables fd @ late"
    by (auto simp: no_tables_def)
  obtain keys "is" i where i: "(ks, keys, is) \<in> set (fd_partitions fd)" "i \<in> set is" "t = requested_table fd' offs i"
    using assms(2,3) fd(3) by (auto simp: requested_def)
  have "i < length (in_time es)" using followed_okD(3) [OF fd(1) i(1)] i(2) fd(2) by simp
  then show ?thesis using i(3) fd(2,4) by (simp add: requested_table_def nth_append)
qed

section \<open>Witnesses\<close>

text \<open>Two tables subscribe in time, one of which has read its leader up to the offset 2, and a third table is late.\<close>

definition sample_sub :: "string \<Rightarrow> offsets \<Rightarrow> tableWithOffsets" where
  "sample_sub name os = \<lparr> to_Name = name, to_PartitionBy = [], to_os = os \<rparr>"

definition sample_events :: "follow_event list" where
  "sample_events = [Subscriber (sample_sub ''t'' (Some [(0, [2])])), Subscriber (sample_sub ''u'' None), FollowTimer, Subscriber (sample_sub ''v'' None)]"

definition sample_followed :: followed where
  "sample_followed = \<lparr> fd_tables = [sample_sub ''t'' (Some [(0, [2])]), sample_sub ''u'' None], fd_partitions = [([], [], [0, 1])] \<rparr>"

definition sample_request :: follow where
  "sample_request = \<lparr> fw_Stream = ''s'', fw_EarliestOffset = [2], fw_Partitions = requested sample_followed [Some [(0, [2])], None], fw_FollowerID = (0, 1) \<rparr>"

definition sample_leader :: "bool leader" where "sample_leader = \<lparr> ld_followers = [], ld_streams = [], ld_readers = [] \<rparr>"

lemma sample_first:
  "followLeaders sample_events no_tables = [sample_followed, sample_followed\<lparr>fd_tables := fd_tables sample_followed @ [sample_sub ''v'' None]\<rparr>]"
  by (simp add: sample_events_def no_tables_def subscribe_def sample_sub_def sortedPartitionKeys_def sample_followed_def)

lemma sample_in_time: "in_time sample_events = fd_tables sample_followed"
  by (simp add: sample_events_def sample_followed_def)

theorem leader_misses_nothing_witness:
  "\<exists>start. map_of (ld_readers (join_turn sample_ext (sx_wal sample_store) 0 (\<lambda>_. Some None) (\<lambda>_. Some (\<lambda>_. None)) [sample_request] sample_leader)) ''s'' =
     Some \<lparr> wr_start = start, wr_running = True \<rparr> \<and> After (sx_wal sample_store) [4] start"
proof -
  let ?ld = "join_turn sample_ext (sx_wal sample_store) 0 (\<lambda>_. Some None) (\<lambda>_. Some (\<lambda>_. None)) [sample_request] sample_leader"
  let ?t = "\<lparr> ts_where = None, ts_whereString = [], ts_followersByPartition = [(0, [((0, 1), [2])])] \<rparr> :: bool tableSpec"
  let ?ps = "[([], \<lparr> ps_keys = [], ps_tables = [(''t'', ?t), (''u'', ?t)] \<rparr>)]"
  have ps: "(''s'', ?ps) \<in> set (ld_streams ?ld)"
    by (simp add: sample_leader_def sample_request_def requested_def requested_table_def sample_followed_def sample_sub_def onFollowerJoined_def
      lookup_or_def sortedPartitionKeys_def join_spec_def offset_of_def entries_def sample_store_def sample_wal_def)
  have run: "leader_run sample_ext sample_store sample_insert 1 0 (\<lambda>_. Some (\<lambda>_. None)) ?ld"
    unfolding sample_leader_def by (intro leader_run.intros)
  have wx: "wal_laws (sx_wal sample_store)" by (simp add: sample_store_def sample_wal_laws)
  have p: "partitionFor sample_insert 1 [3] [] = Some 0" by code_simp
  then have "wants sample_ext sample_store sample_insert 1 [3] [4] ?ps (0, 1)"
    by (simp add: wants_def specs_at_def lookup_or_def passes_def sample_store_def sample_wal_def)
      (intro exI [of _ "''t''"] exI [of _ ?t], simp)
  then show ?thesis
    using leader_misses_nothing [where newReader = "\<lambda>_. None" and I = sample_insert and n = 1, OF wx run ps refl] by blast
qed


theorem late_tables_never_requested_witness:
  "''u'' \<in> to_Name ` set (in_time sample_events) \<and>
   (\<exists>fd \<in> set (followLeaders sample_events no_tables). ''v'' \<in> to_Name ` set (fd_tables fd))"
proof
  have fd: "sample_followed \<in> set (followLeaders sample_events no_tables)" by (simp add: sample_first)
  show "''u'' \<in> to_Name ` set (in_time sample_events)"
    using late_tables_never_requested [where part = "\<lparr> pk_Keys = [], pk_Tables = map (requested_table sample_followed [None, None]) [0, 1] \<rparr>"
        and t = "requested_table sample_followed [None, None] 1" and offs = "[None, None]", OF fd]
    by (simp add: requested_def sample_followed_def requested_table_def sample_sub_def)
  show "\<exists>fd \<in> set (followLeaders sample_events no_tables). ''v'' \<in> to_Name ` set (fd_tables fd)"
    by (simp add: sample_first sample_sub_def)
qed

end
