(* ===== verification/ClusterQuery.thy ===== *)
theory ClusterQuery
  imports ClusterProps
begin

text \<open>
  Queries of a cluster (\<open>queryCluster\<close>): one follower of every partition runs the query, and the leader handles
  what they send, in the order in which it arrives, until every partition has finished or the time is over.
\<close>

section \<open>Rows of a partition\<close>

text \<open>
  \<open>partitionRowMapper\<close>.  The row is overwritten from the scratch row, position by position; a row that is longer
  than the canonical fields panics.
\<close>

definition mapped_idxs :: "('c, 'h) ext \<Rightarrow> 'c fields \<Rightarrow> 'c fields \<Rightarrow> int list" where
  "mapped_idxs X canonicalFields partitionFields =
     map (\<lambda>canonicalField. index_where (field_Equals X canonicalField) 0 partitionFields) canonicalFields"

definition partitionRowMapper :: "('c, 'h) ext \<Rightarrow> 'c fields \<Rightarrow> 'c fields \<Rightarrow> vals \<Rightarrow> vals go" where
  "partitionRowMapper X canonicalFields partitionFields vals =
     (if fields_Equals X canonicalFields partitionFields then Some vals
      else let scratch = map (\<lambda>i. if i < 0 \<or> int (length vals) \<le> i then [] else vals ! nat i) (mapped_idxs X canonicalFields partitionFields)
           in if length scratch < length vals then None else Some (take (length vals) scratch))"

section \<open>What partitions send\<close>

record 'c remoteResult =
  rr_partition :: int
  rr_fields :: "'c fields option"
  rr_key :: "bytes option"
  rr_vals :: vals
  rr_flatRow :: "'c flatrow option"
  rr_highWaterMark :: int
  rr_err :: "error option"

text \<open>
  The goroutine of a partition: it asks for handlers until one of them ends without an error that is marked as
  retriable.  A handler is what it sends and its error, with whether that is retriable, and its high water mark.
\<close>

definition ErrMissingQueryHandler :: error where
  "ErrMissingQueryHandler = OtherError ''Missing query handler for partition''"

definition final_result :: "int \<Rightarrow> int \<Rightarrow> error option \<Rightarrow> 'c remoteResult" where
  "final_result part hwm err =
     \<lparr> rr_partition = part, rr_fields = None, rr_key = None, rr_vals = [], rr_flatRow = None, rr_highWaterMark = hwm, rr_err = err \<rparr>"

fun query_partition :: "int \<Rightarrow> ('c remoteResult list \<times> (error \<times> bool) option \<times> int) list \<Rightarrow> 'c remoteResult list" where
  "query_partition part [] = [final_result part 0 (Some ErrMissingQueryHandler)]"
| "query_partition part ((sent, err, hwm) # handlers) =
     (case err of
        Some (_, True) \<Rightarrow> sent @ query_partition part handlers
      | _ \<Rightarrow> sent @ [final_result part hwm (map_option fst err)])"

section \<open>The loop of the leader\<close>

record ('c, 's) cstate =
  c_canonicalFields :: "'c fields option"
  c_fieldsByPartition :: "(int \<times> 'c fields) list"
  c_mappers :: "(int \<times> 'c fields) list"
  c_stopped :: bool
  c_finalErr :: "error option"
  c_missingPartitions :: "int list"
  c_NumSuccessfulPartitions :: int
  c_LowestHighWaterMark :: int
  c_HighestHighWaterMark :: int
  c_pendingPartitions :: int
  c_resultsByPartition :: "int list"
  c_caller :: 's

definition cluster_init :: "nat \<Rightarrow> 's \<Rightarrow> ('c, 's) cstate" where
  "cluster_init numPartitions s =
     \<lparr> c_canonicalFields = None, c_fieldsByPartition = [], c_mappers = [], c_stopped = False, c_finalErr = None, c_missingPartitions = [],
       c_NumSuccessfulPartitions = 0, c_LowestHighWaterMark = 0, c_HighestHighWaterMark = 0,
       c_pendingPartitions = int numPartitions, c_resultsByPartition = map int [0..<numPartitions], c_caller = s \<rparr>"

text \<open>The closures \<open>fail\<close> and \<open>finish\<close>; the error is only replaced, never set for the first time.\<close>

definition fail :: "int \<Rightarrow> error option \<Rightarrow> ('c, 's) cstate \<Rightarrow> ('c, 's) cstate" where
  "fail part err st =
     st\<lparr>c_finalErr := (if c_finalErr st \<noteq> None then err else c_finalErr st),
        c_missingPartitions := List.insert part (c_missingPartitions st)\<rparr>"

definition finish :: "'c remoteResult \<Rightarrow> ('c, 's) cstate \<Rightarrow> ('c, 's) cstate" where
  "finish r st =
     (if rr_err r = None then
        st\<lparr>c_NumSuccessfulPartitions := c_NumSuccessfulPartitions st + 1,
           c_LowestHighWaterMark := (if c_LowestHighWaterMark st = 0 \<or> rr_highWaterMark r < c_LowestHighWaterMark st
             then rr_highWaterMark r else c_LowestHighWaterMark st),
           c_HighestHighWaterMark := (if c_HighestHighWaterMark st < rr_highWaterMark r
             then rr_highWaterMark r else c_HighestHighWaterMark st)\<rparr>
      else st)"

text \<open>Fields of a partition; those of the first partition are the canonical ones.\<close>

definition on_partition_fields :: "('c, 's) onfields \<Rightarrow> int \<Rightarrow> 'c fields \<Rightarrow> ('c, 's) cstate \<Rightarrow> ('c, 's) cstate go" where
  "on_partition_fields onFields part fs st =
     do { st \<leftarrow> (if c_canonicalFields st = None then
                 do { (s, err) \<leftarrow> onFields fs (c_caller st);
                      let st = st\<lparr>c_caller := s\<rparr>;
                      let st = (if err \<noteq> None then fail part err st else st);
                      Some (st\<lparr>c_canonicalFields := Some fs\<rparr>) }
               else Some st);
          Some (st\<lparr>c_fieldsByPartition := AList.update part fs (c_fieldsByPartition st), c_mappers := AList.update part fs (c_mappers st)\<rparr>) }"

text \<open>A row; calling the mapper of a partition that has sent no fields panics.\<close>

definition on_partition_row :: "('c, 'h) ext \<Rightarrow> (row, 's) onrow \<Rightarrow> int \<Rightarrow> bytes \<Rightarrow> vals \<Rightarrow> ('c, 's) cstate \<Rightarrow> ('c, 's) cstate go" where
  "on_partition_row X onRow part key vals st =
     (if c_stopped st \<or> c_finalErr st \<noteq> None then Some st
      else do { fs \<leftarrow> map_of (c_mappers st) part;
                canonical \<leftarrow> c_canonicalFields st;
                vals \<leftarrow> partitionRowMapper X canonical fs vals;
                (s, cont, err) \<leftarrow> onRow (key, vals) (c_caller st);
                let st = st\<lparr>c_caller := s\<rparr>;
                Some (if err = None \<and> \<not> cont then (fail part err st)\<lparr>c_stopped := True\<rparr> else st) })"

text \<open>A flat row; the second component is the error with which the query returns at once.\<close>

definition on_partition_flat_row :: "('c flatrow, 's) onrow \<Rightarrow> int \<Rightarrow> 'c flatrow \<Rightarrow> ('c, 's) cstate \<Rightarrow> (('c, 's) cstate \<times> error option) go" where
  "on_partition_flat_row onFlatRow part fr st =
     (if c_stopped st \<or> c_finalErr st \<noteq> None then Some (st, None)
      else do { let fs = lookup_or [] (c_fieldsByPartition st) part;
                (s, cont, err) \<leftarrow> onFlatRow (SetFields fr fs) (c_caller st);
                let st = st\<lparr>c_caller := s\<rparr>;
                Some (if err \<noteq> None then (fail part err st, err)
                      else if \<not> cont then (st\<lparr>c_stopped := True\<rparr>, None) else (st, None)) })"

definition on_partition_final :: "'c remoteResult \<Rightarrow> ('c, 's) cstate \<Rightarrow> ('c, 's) cstate" where
  "on_partition_final r st =
     (let st = st\<lparr>c_pendingPartitions := c_pendingPartitions st - 1\<rparr>;
          st = (if rr_err r \<noteq> None then fail (rr_partition r) (rr_err r) st else st);
          st = finish r st
      in st\<lparr>c_resultsByPartition := removeAll (rr_partition r) (c_resultsByPartition st)\<rparr>)"

definition on_result ::
  "('c, 'h) ext \<Rightarrow> ('c, 's) onfields \<Rightarrow> (row, 's) onrow \<Rightarrow> ('c flatrow, 's) onrow \<Rightarrow> 'c remoteResult \<Rightarrow> ('c, 's) cstate
   \<Rightarrow> (('c, 's) cstate \<times> error option) go" where
  "on_result X onFields onRow onFlatRow r st =
     (case rr_fields r of
        Some fs \<Rightarrow> do { st \<leftarrow> on_partition_fields onFields (rr_partition r) fs st; Some (st, None) }
      | None \<Rightarrow>
          (case rr_key r of
             Some key \<Rightarrow> do { st \<leftarrow> on_partition_row X onRow (rr_partition r) key (rr_vals r) st; Some (st, None) }
           | None \<Rightarrow>
               (case rr_flatRow r of
                  Some fr \<Rightarrow> on_partition_flat_row onFlatRow (rr_partition r) fr st
                | None \<Rightarrow> Some (on_partition_final r st, None))))"

text \<open>
  The loop: the results in the order in which they arrive, up to the time at which the query times out.  The result
  is the state and the error that is returned.
\<close>

fun cluster_loop ::
  "('c, 'h) ext \<Rightarrow> ('c, 's) onfields \<Rightarrow> (row, 's) onrow \<Rightarrow> ('c flatrow, 's) onrow \<Rightarrow> 'c remoteResult list \<Rightarrow> ('c, 's) cstate
   \<Rightarrow> (('c, 's) cstate \<times> error option) go" where
  "cluster_loop X onFields onRow onFlatRow results st =
     (if c_pendingPartitions st \<le> 0 then Some (st, c_finalErr st)
      else case results of
        [] \<Rightarrow> (let st = foldl (\<lambda>st part. fail part (Some ErrDeadlineExceeded) st) st (c_resultsByPartition st) in Some (st, c_finalErr st))
      | r # rs \<Rightarrow>
          do { (st, err) \<leftarrow> on_result X onFields onRow onFlatRow r st;
               if err \<noteq> None then Some (st, err) else cluster_loop X onFields onRow onFlatRow rs st })"

declare cluster_loop.simps [simp del]

record cluster_stats =
  cs_NumPartitions :: int
  cs_NumSuccessfulPartitions :: int
  cs_MissingPartitions :: "int list"
  cs_LowestHighWaterMark :: int
  cs_HighestHighWaterMark :: int

definition finalStats :: "nat \<Rightarrow> ('c, 's) cstate \<Rightarrow> cluster_stats" where
  "finalStats numPartitions st =
     \<lparr> cs_NumPartitions = int numPartitions, cs_NumSuccessfulPartitions = c_NumSuccessfulPartitions st,
       cs_MissingPartitions = sort (c_missingPartitions st), cs_LowestHighWaterMark = c_LowestHighWaterMark st,
       cs_HighestHighWaterMark = c_HighestHighWaterMark st \<rparr>"

definition queryCluster ::
  "('c, 'h) ext \<Rightarrow> nat \<Rightarrow> ('c, 's) onfields \<Rightarrow> (row, 's) onrow \<Rightarrow> ('c flatrow, 's) onrow \<Rightarrow> 'c remoteResult list \<Rightarrow> 's
   \<Rightarrow> ('s \<times> cluster_stats \<times> error option) go" where
  "queryCluster X numPartitions onFields onRow onFlatRow results s =
     do { (st, err) \<leftarrow> cluster_loop X onFields onRow onFlatRow results (cluster_init numPartitions s);
          Some (c_caller st, finalStats numPartitions st, err) }"

end
