(* ===== verification/ClusterQueryProps.thy ===== *)
theory ClusterQueryProps
  imports ClusterQuery
begin

text \<open>
  Correctness of cluster queries: rows are brought into the order of the canonical fields, a query that is not stopped
  delivers every row and reports the partitions that failed, and the errors of partitions do not reach the caller.
\<close>

section \<open>Mapping rows\<close>

lemma fields_Equals_iff: "fields_Equals X fs gs \<longleftrightarrow> map (field_String X) fs = map (field_String X) gs"
  by (induction X fs gs rule: fields_Equals.induct) (auto simp: field_Equals_def)

lemma field_String_inj:
  "distinct (map (field_String X) fs) \<Longrightarrow> i < length fs \<Longrightarrow> j < length fs \<Longrightarrow>
   field_String X (fs ! i) = field_String X (fs ! j) \<Longrightarrow> i = j"
  by (simp add: distinct_conv_nth) metis

text \<open>
  A row of a partition in the order of the canonical fields: if the partition has as many fields as the canonical
  ones, every canonical field that the partition has gets the column of that field, and every other one an empty column.
\<close>

theorem partition_row_mapped:
  assumes "distinct (map (field_String X) partitionFields)" "length vals = length partitionFields"
    "length canonicalFields = length partitionFields" "o' < length canonicalFields"
  shows "\<exists>out. partitionRowMapper X canonicalFields partitionFields vals = Some out \<and> length out = length vals \<and>
    (\<forall>i < length partitionFields. field_Equals X (canonicalFields ! o') (partitionFields ! i) \<longrightarrow> out ! o' = vals ! i) \<and>
    ((\<forall>f \<in> set partitionFields. \<not> field_Equals X (canonicalFields ! o') f) \<longrightarrow> out ! o' = [])"
proof (cases "fields_Equals X canonicalFields partitionFields")
  case True
  then have "map (field_String X) canonicalFields = map (field_String X) partitionFields" by (simp add: fields_Equals_iff)
  from arg_cong [OF this, of "\<lambda>xs. xs ! o'"] have same: "field_String X (canonicalFields ! o') = field_String X (partitionFields ! o')"
    using assms(3,4) by simp
  have "i = o'" if "i < length partitionFields" "field_Equals X (canonicalFields ! o') (partitionFields ! i)" for i
    using field_String_inj [OF assms(1), of i o'] that same assms(3,4) by (simp add: field_Equals_def)
  moreover have "field_Equals X (canonicalFields ! o') (partitionFields ! o')" using same by (simp add: field_Equals_def)
  ultimately show ?thesis
    using True assms(2-4) by (auto simp: partitionRowMapper_def)
next
  case False
  let ?ix = "index_where (field_Equals X (canonicalFields ! o')) 0 partitionFields"
  let ?out = "map (\<lambda>i. if i < 0 \<or> int (length vals) \<le> i then [] else vals ! nat i) (mapped_idxs X canonicalFields partitionFields)"
  have out: "partitionRowMapper X canonicalFields partitionFields vals = Some ?out"
    using False assms(2,3) by (simp add: partitionRowMapper_def Let_def mapped_idxs_def)
  have at: "?out ! o' = (if ?ix < 0 \<or> int (length vals) \<le> ?ix then [] else vals ! nat ?ix)"
    using assms(4) by (simp add: mapped_idxs_def)
  have "?out ! o' = vals ! i" if i: "i < length partitionFields" "field_Equals X (canonicalFields ! o') (partitionFields ! i)" for i
  proof -
    obtain j where j: "j < length partitionFields" "?ix = int j" "field_Equals X (canonicalFields ! o') (partitionFields ! j)"
      using index_where_found [of "partitionFields ! i" partitionFields "field_Equals X (canonicalFields ! o')" 0] i by auto
    then have "i = j" using field_String_inj [OF assms(1), of i j] i by (simp add: field_Equals_def)
    then show ?thesis using j at assms(2) by simp
  qed
  moreover have "?out ! o' = []" if "\<forall>f \<in> set partitionFields. \<not> field_Equals X (canonicalFields ! o') f"
    using that at index_where_bounds [of 0 "field_Equals X (canonicalFields ! o')" partitionFields]
      index_where_hit [of "field_Equals X (canonicalFields ! o')" 0 partitionFields "nat ?ix"] assms(2)
    by (auto simp: nat_less_iff)
  ultimately show ?thesis using out assms(2,3) by (auto simp: mapped_idxs_def)
qed

theorem partition_row_mapped_witness:
  "\<exists>out. partitionRowMapper sample_ext [NewField ''b'' sample_count, NewField ''a'' sample_count]
     [NewField ''a'' sample_count, NewField ''b'' sample_count] [[1], [2]] = Some out \<and> out ! 0 = [2]"
proof -
  let ?p = "[NewField ''a'' sample_count, NewField ''b'' sample_count]" and ?c = "[NewField ''b'' sample_count, NewField ''a'' sample_count]"
  have d: "distinct (map (field_String sample_ext) ?p)" by code_simp
  have "field_Equals sample_ext (?c ! 0) (?p ! 1)" by (simp add: field_Equals_def)
  then show ?thesis using partition_row_mapped [OF d, of "[[1], [2]]" ?c 0] by auto
qed

section \<open>Errors\<close>

lemma fail_finalErr: "c_finalErr st = None \<Longrightarrow> c_finalErr (fail part err st) = None"
  by (simp add: fail_def)

lemma timeout_finalErr: "c_finalErr st = None \<Longrightarrow> c_finalErr (foldl (\<lambda>st part. fail part e st) st parts) = None"
  by (induction parts arbitrary: st) (auto simp: fail_finalErr)

lemma on_result_finalErr:
  assumes "on_result X onFields onRow onFlatRow r st = Some (st', err)" "c_finalErr st = None" "rr_flatRow r = None"
  shows "c_finalErr st' = None \<and> err = None"
  using assms
  by (auto simp: on_result_def on_partition_fields_def on_partition_row_def on_partition_final_def finish_def Let_def fail_def bind_Some_iff
      split: option.splits if_splits)

text \<open>
  No error of a partition reaches the caller of an unflat query: whatever the partitions send, whether they fail, are
  missing or do not finish in time, the query returns without an error.
\<close>

theorem cluster_errors_lost:
  assumes "cluster_loop X onFields onRow onFlatRow results st = Some (st', err)" "c_finalErr st = None"
    "\<forall>r \<in> set results. rr_flatRow r = None"
  shows "err = None"
proof -
  show ?thesis
    using assms
  proof (induction results arbitrary: st)
    case Nil
    then show ?case using timeout_finalErr [of st] by (subst (asm) cluster_loop.simps) (auto simp: Let_def split: if_splits)
  next
    case (Cons r rs)
    show ?case
    proof (cases "c_pendingPartitions st \<le> 0")
      case True
      then show ?thesis using Cons.prems by (subst (asm) cluster_loop.simps) simp
    next
      case False
      then obtain st1 e1 where r: "on_result X onFields onRow onFlatRow r st = Some (st1, e1)"
        using Cons.prems(1) by (subst (asm) cluster_loop.simps) (auto simp: bind_Some_iff)
      then have "c_finalErr st1 = None \<and> e1 = None" using on_result_finalErr Cons.prems by fastforce
      then show ?thesis using Cons.IH [of st1] Cons.prems False r by (subst (asm) (2) cluster_loop.simps) simp
    qed
  qed
qed

theorem cluster_errors_lost_witness:
  "\<exists>st'. cluster_loop sample_ext (\<lambda>_ s. Some (s, None)) (\<lambda>_ s. Some (s, True, None)) (\<lambda>_ s. Some (s, True, None))
     [final_result 0 5 (Some ErrMissingQueryHandler)] (cluster_init 1 ()) = Some (st', None)"
proof -
  let ?loop = "cluster_loop sample_ext (\<lambda>_ s. Some (s, None)) (\<lambda>_ s. Some (s, True, None)) (\<lambda>_ s. Some (s, True, None))
     [final_result 0 5 (Some ErrMissingQueryHandler)] (cluster_init 1 ())"
  have "\<exists>st' err. ?loop = Some (st', err)"
    by (subst cluster_loop.simps, subst cluster_loop.simps)
      (simp add: on_result_def final_result_def cluster_init_def on_partition_final_def finish_def fail_def Let_def)
  then obtain st' err where l: "?loop = Some (st', err)" by blast
  have "err = None"
    by (rule cluster_errors_lost [OF l]) (simp_all add: cluster_init_def final_result_def)
  then show ?thesis using l by blast
qed

section \<open>Complete results\<close>

definition is_final :: "'c remoteResult \<Rightarrow> bool" where
  "is_final r \<longleftrightarrow> rr_fields r = None \<and> rr_key r = None \<and> rr_flatRow r = None"

definition finals :: "'c remoteResult list \<Rightarrow> 'c remoteResult list" where "finals rs = filter is_final rs"

definition sent_rows :: "'c remoteResult list \<Rightarrow> row list" where
  "sent_rows rs = map (\<lambda>r. (the (rr_key r), rr_vals r)) (filter (\<lambda>r. rr_fields r = None \<and> rr_key r \<noteq> None) rs)"

text \<open>Every partition sends its fields, always the same, before its rows, and no flat rows.\<close>

fun well_sent :: "'c fields \<Rightarrow> int set \<Rightarrow> 'c remoteResult list \<Rightarrow> bool" where
  "well_sent fs known [] = True"
| "well_sent fs known (r # rs) =
     (rr_flatRow r = None \<and>
      (case rr_fields r of
         Some gs \<Rightarrow> gs = fs \<and> well_sent fs (insert (rr_partition r) known) rs
       | None \<Rightarrow> (rr_key r \<noteq> None \<longrightarrow> rr_partition r \<in> known) \<and> well_sent fs known rs))"

text \<open>A caller that collects the rows.\<close>

definition accept_fields :: "('c, row list) onfields" where "accept_fields fs s = Some (s, None)"
definition collect_row :: "(row, row list) onrow" where "collect_row kv s = Some (s @ [kv], True, None)"

definition low_mark :: "int \<Rightarrow> int \<Rightarrow> int" where "low_mark l h = (if l = 0 \<or> h < l then h else l)"

definition loop_ok :: "'c fields \<Rightarrow> ('c, row list) cstate \<Rightarrow> bool" where
  "loop_ok fs st \<longleftrightarrow> \<not> c_stopped st \<and> c_finalErr st = None \<and> distinct (c_missingPartitions st) \<and>
     (c_mappers st \<noteq> [] \<longrightarrow> c_canonicalFields st = Some fs) \<and> c_canonicalFields st \<in> {None, Some fs} \<and>
     snd ` set (c_mappers st) \<subseteq> {fs}"

lemma update_range: "(a, b) \<in> set (AList.update p v m) \<Longrightarrow> b = v \<or> b \<in> snd ` set m"
  by (induction m) (auto split: if_splits simp: rev_image_eqI)

lemma on_result_ok:
  assumes "loop_ok fs st" "well_sent fs (fst ` set (c_mappers st)) (r # rs)"
  shows "\<exists>st'. on_result X accept_fields collect_row onFlatRow r st = Some (st', None) \<and> loop_ok fs st' \<and>
    well_sent fs (fst ` set (c_mappers st')) rs \<and> c_caller st' = c_caller st @ sent_rows [r] \<and>
    c_pendingPartitions st' = c_pendingPartitions st - int (length (finals [r])) \<and>
    set (c_missingPartitions st') = set (c_missingPartitions st) \<union> rr_partition ` {f \<in> set (finals [r]). rr_err f \<noteq> None} \<and>
    c_NumSuccessfulPartitions st' = c_NumSuccessfulPartitions st + int (length (filter (\<lambda>f. rr_err f = None) (finals [r]))) \<and>
    c_LowestHighWaterMark st' = foldl low_mark (c_LowestHighWaterMark st) (map rr_highWaterMark (filter (\<lambda>f. rr_err f = None) (finals [r]))) \<and>
    c_HighestHighWaterMark st' = foldl max (c_HighestHighWaterMark st) (map rr_highWaterMark (filter (\<lambda>f. rr_err f = None) (finals [r])))"
proof (cases "rr_fields r")
  case (Some gs)
  then have "gs = fs" "well_sent fs (insert (rr_partition r) (fst ` set (c_mappers st))) rs" using assms(2) by auto
  moreover have "fst ` set (AList.update p v m) = insert p (fst ` set m)" for p :: int and v :: "'a fields" and m
    using dom_update [of p v m] by (simp add: dom_map_of_conv_image_fst)
  moreover have "b = fs" if "(a, b) \<in> set (AList.update (rr_partition r) fs (c_mappers st))" for a b
    using update_range [OF that] assms(1) unfolding loop_ok_def by blast
  ultimately show ?thesis using Some assms(1)
    by (auto simp: on_result_def on_partition_fields_def accept_fields_def loop_ok_def sent_rows_def finals_def is_final_def Let_def)
next
  case None
  note fields = None
  show ?thesis
  proof (cases "rr_key r")
    case (Some key)
    then have "rr_partition r \<in> fst ` set (c_mappers st)" using assms(2) fields by simp
    then obtain gs where gs: "map_of (c_mappers st) (rr_partition r) = Some gs" by (metis domD dom_map_of_conv_image_fst)
    then have "gs = fs" "c_canonicalFields st = Some fs"
      using assms(1) map_of_SomeD [OF gs] by (force simp: loop_ok_def)+
    then show ?thesis using Some fields gs assms
      by (auto simp: on_result_def on_partition_row_def collect_row_def loop_ok_def sent_rows_def finals_def is_final_def Let_def
          partitionRowMapper_def fields_Equals_iff)
  next
    case None
    then show ?thesis using fields assms
      by (auto simp: on_result_def on_partition_final_def loop_ok_def sent_rows_def finals_def is_final_def Let_def fail_def finish_def
          low_mark_def max_def)
  qed
qed

lemma sent_rows_Cons: "sent_rows (r # rs) = sent_rows [r] @ sent_rows rs" and finals_Cons: "finals (r # rs) = finals [r] @ finals rs"
  by (simp_all add: sent_rows_def finals_def)

lemma cluster_loop_ok:
  assumes "loop_ok fs st" "well_sent fs (fst ` set (c_mappers st)) rs" "c_pendingPartitions st = int (length (finals rs))"
    "rs \<noteq> [] \<longrightarrow> is_final (last rs)"
  shows "\<exists>st'. cluster_loop X accept_fields collect_row onFlatRow rs st = Some (st', None) \<and>
    distinct (c_missingPartitions st') \<and> c_caller st' = c_caller st @ sent_rows rs \<and>
    set (c_missingPartitions st') = set (c_missingPartitions st) \<union> rr_partition ` {f \<in> set (finals rs). rr_err f \<noteq> None} \<and>
    c_NumSuccessfulPartitions st' = c_NumSuccessfulPartitions st + int (length (filter (\<lambda>f. rr_err f = None) (finals rs))) \<and>
    c_LowestHighWaterMark st' = foldl low_mark (c_LowestHighWaterMark st) (map rr_highWaterMark (filter (\<lambda>f. rr_err f = None) (finals rs))) \<and>
    c_HighestHighWaterMark st' = foldl max (c_HighestHighWaterMark st) (map rr_highWaterMark (filter (\<lambda>f. rr_err f = None) (finals rs)))"
  using assms
proof (induction rs arbitrary: st)
  case Nil
  then show ?case by (subst cluster_loop.simps) (auto simp: finals_def sent_rows_def loop_ok_def)
next
  case (Cons r rs)
  have "last (r # rs) \<in> set (finals (r # rs))"
    using Cons.prems(4) last_in_set [of "r # rs"] unfolding finals_def by (auto split: if_splits)
  then have pos: "0 < c_pendingPartitions st" using Cons.prems(3) by (auto intro: Nat.gr0I)
  obtain st1 where r: "on_result X accept_fields collect_row onFlatRow r st = Some (st1, None)" "loop_ok fs st1"
    "well_sent fs (fst ` set (c_mappers st1)) rs" "c_caller st1 = c_caller st @ sent_rows [r]"
    "c_pendingPartitions st1 = c_pendingPartitions st - int (length (finals [r]))"
    "set (c_missingPartitions st1) = set (c_missingPartitions st) \<union> rr_partition ` {f \<in> set (finals [r]). rr_err f \<noteq> None}"
    "c_NumSuccessfulPartitions st1 = c_NumSuccessfulPartitions st + int (length (filter (\<lambda>f. rr_err f = None) (finals [r])))"
    "c_LowestHighWaterMark st1 = foldl low_mark (c_LowestHighWaterMark st) (map rr_highWaterMark (filter (\<lambda>f. rr_err f = None) (finals [r])))"
    "c_HighestHighWaterMark st1 = foldl max (c_HighestHighWaterMark st) (map rr_highWaterMark (filter (\<lambda>f. rr_err f = None) (finals [r])))"
    using on_result_ok [OF Cons.prems(1,2), of X onFlatRow] by blast
  have pend: "c_pendingPartitions st1 = int (length (finals rs))"
    using r(5) Cons.prems(3) by (simp add: finals_Cons [of r rs])
  have last: "rs \<noteq> [] \<longrightarrow> is_final (last rs)" using Cons.prems(4) by auto
  have step: "cluster_loop X accept_fields collect_row onFlatRow (r # rs) st = cluster_loop X accept_fields collect_row onFlatRow rs st1"
    using pos r(1) by (subst cluster_loop.simps) simp
  show ?case
    using Cons.IH [OF r(2,3) pend last] unfolding step finals_Cons [of r rs] sent_rows_Cons [of r rs] r(4,6-9)
    by (auto simp: image_Un conj_disj_distribR Collect_disj_eq)
qed

lemma foldl_low_mark: "0 < l \<Longrightarrow> \<forall>h \<in> set hs. 0 < h \<Longrightarrow> foldl low_mark l hs = Min (set (l # hs))"
proof (induction hs arbitrary: l)
  case (Cons h hs)
  have "low_mark l h = min l h" using Cons.prems by (auto simp: low_mark_def)
  then show ?case using Cons by (simp add: Min_insert2 insert_commute min.assoc) (cases "hs = []"; simp add: min.assoc)
qed simp

lemma foldl_max: "foldl max l hs = Max (set (l # hs))"
proof (induction hs arbitrary: l)
  case (Cons h hs)
  then show ?case by (cases "hs = []") (simp_all add: max.assoc)
qed simp


definition sample_results :: "bool remoteResult list" where
  "sample_results =
     [(final_result 0 0 None)\<lparr>rr_fields := Some sample_fields\<rparr>, (final_result 0 0 None)\<lparr>rr_key := Some [1], rr_vals := [[7]]\<rparr>,
      final_result 1 0 (Some ErrMissingQueryHandler), final_result 0 30 None]"


end
