(* ===== verification/Duration.thy ===== *)
theory Duration
  imports Core
begin

text \<open>
  Durations in SQL (sql/duration.go): \<open>ParseDuration\<close>, which reads sums of decimal numbers with units up to weeks, and
  \<open>durationToString\<close>, which prints them and leaves the part below a day to \<open>time.Duration.String\<close>.  The loop of the
  parser is a partial function, so that it is a theorem that it ends.
\<close>

section \<open>Units\<close>

text \<open>The keys are the UTF-8 bytes; the third and the fourth are the micro sign and the Greek letter mu.\<close>

definition day :: int where "day = 24 * 3600000000000"
definition week :: int where "week = 7 * day"

definition unitMap :: "(string \<times> int) list" where
  "unitMap =
     [(''ns'', 1), (''us'', 1000), ([CHR 0xC2, CHR 0xB5, CHR ''s''], 1000), ([CHR 0xCE, CHR 0xBC, CHR ''s''], 1000),
      (''ms'', 1000000), (''s'', 1000000000), (''m'', 60000000000), (''h'', 3600000000000), (''d'', day), (''w'', week)]"

definition MaxInt64 :: int where "MaxInt64 = 2 ^ 63 - 1"

section \<open>Parsing\<close>

definition is_digit :: "char \<Rightarrow> bool" where
  "is_digit c \<longleftrightarrow> 48 \<le> (of_char c :: int) \<and> (of_char c :: int) \<le> 57"

definition errLeadingInt :: error where "errLeadingInt = OtherError ''time: bad [0-9]*''"

text \<open>The loops of \<open>leadingInt\<close> and \<open>leadingFraction\<close>, from the state of their variables.\<close>

fun leadingInt_from :: "int \<Rightarrow> string \<Rightarrow> error + int \<times> string" where
  "leadingInt_from x [] = Inr (x, [])"
| "leadingInt_from x (c # s) =
     (if \<not> is_digit c then Inr (x, c # s)
      else if tdiv MaxInt64 10 < x then Inl errLeadingInt
      else let x = wrap64 (x * 10 + of_char c - 48) in if x < 0 then Inl errLeadingInt else leadingInt_from x s)"

definition leadingInt :: "string \<Rightarrow> error + int \<times> string" where "leadingInt s = leadingInt_from 0 s"

fun leadingFraction_from :: "int \<Rightarrow> float64 \<Rightarrow> bool \<Rightarrow> string \<Rightarrow> int \<times> float64 \<times> string" where
  "leadingFraction_from x scale overflow [] = (x, scale, [])"
| "leadingFraction_from x scale overflow (c # s) =
     (if \<not> is_digit c then (x, scale, c # s)
      else if overflow then leadingFraction_from x scale overflow s
      else if tdiv MaxInt64 10 < x then leadingFraction_from x scale True s
      else let y = wrap64 (x * 10 + of_char c - 48)
           in if y < 0 then leadingFraction_from x scale True s
              else leadingFraction_from y (fmul scale (float_of_int 10)) overflow s)"

definition leadingFraction :: "string \<Rightarrow> int \<times> float64 \<times> string" where
  "leadingFraction s = leadingFraction_from 0 (float_of_int 1) False s"

definition invalid_duration :: "string \<Rightarrow> error" where
  "invalid_duration orig = OtherError (''time: invalid duration '' @ orig)"

definition unit_char :: "char \<Rightarrow> bool" where "unit_char c \<longleftrightarrow> \<not> (c = CHR ''.'' \<or> is_digit c)"

text \<open>One pass of the loop: the value of a number with its unit, and the rest of the string.\<close>

definition parse_number :: "string \<Rightarrow> string \<Rightarrow> error + int \<times> int \<times> float64 \<times> string" where
  "parse_number orig s =
     (if s = [] \<or> unit_char (hd s) then Inl (invalid_duration orig)
      else case leadingInt s of
        Inl _ \<Rightarrow> Inl (invalid_duration orig)
      | Inr (v, s1) \<Rightarrow>
          (let pre = (length s \<noteq> length s1);
               (f, scale, s2, post) =
                 (if s1 \<noteq> [] \<and> hd s1 = CHR ''.''
                  then let (f, scale, s2) = leadingFraction (tl s1) in (f, scale, s2, length (tl s1) \<noteq> length s2)
                  else (0, float_of_int 1, s1, False))
           in if \<not> pre \<and> \<not> post then Inl (invalid_duration orig) else Inr (v, f, scale, s2)))"

definition parse_item :: "string \<Rightarrow> string \<Rightarrow> error + int \<times> string" where
  "parse_item orig s =
     (case parse_number orig s of
        Inl err \<Rightarrow> Inl err
      | Inr (v, f, scale, s) \<Rightarrow>
          (let u = takeWhile unit_char s; s = dropWhile unit_char s in
           if u = [] then Inl (OtherError (''time: missing unit in duration '' @ orig))
           else case map_of unitMap u of
             None \<Rightarrow> Inl (OtherError (''time: unknown unit '' @ u @ '' in duration '' @ orig))
           | Some unit \<Rightarrow>
               if tdiv MaxInt64 unit < v then Inl (invalid_duration orig)
               else let v = wrap64 (v * unit);
                        v = (if 0 < f then wrap64 (v + int64_of_float (fmul (float_of_int f) (fdiv (float_of_int unit) scale))) else v)
                    in if v < 0 then Inl (invalid_duration orig) else Inr (v, s)))"

partial_function (option) parse_loop :: "string \<Rightarrow> string \<Rightarrow> int \<Rightarrow> (error + int) option" where
  "parse_loop orig s d =
     (if s = [] then Some (Inr d)
      else case parse_item orig s of
        Inl err \<Rightarrow> Some (Inl err)
      | Inr (v, s) \<Rightarrow> (if wrap64 (d + v) < 0 then Some (Inl (invalid_duration orig)) else parse_loop orig s (wrap64 (d + v))))"

definition ParseDuration :: "string \<Rightarrow> (error + int) option" where
  "ParseDuration orig =
     (let neg = (orig \<noteq> [] \<and> hd orig = CHR ''-'');
          s = (if orig \<noteq> [] \<and> hd orig \<in> {CHR ''-'', CHR ''+''} then tl orig else orig)
      in if s = ''0'' then Some (Inr 0)
         else if s = [] then Some (Inl (invalid_duration orig))
         else map_option (map_sum id (\<lambda>d. if neg then wrap64 (- d) else d)) (parse_loop orig s 0))"

section \<open>Printing\<close>

text \<open>\<open>time.Duration.String\<close>: \<open>fmtFrac\<close> prints digits after the point without trailing zeros.\<close>

fun fmtFrac_from :: "nat \<Rightarrow> int \<Rightarrow> string \<Rightarrow> string \<times> int" where
  "fmtFrac_from 0 v acc = (acc, v)"
| "fmtFrac_from (Suc n) v acc =
     fmtFrac_from n (v div 10) (if acc \<noteq> [] \<or> v mod 10 \<noteq> 0 then itoa_digit (nat (v mod 10)) # acc else acc)"

definition fmtFrac :: "int \<Rightarrow> nat \<Rightarrow> string \<times> int" where
  "fmtFrac v prec = (let (ds, v) = fmtFrac_from prec v [] in (if ds = [] then [] else CHR ''.'' # ds, v))"

definition Duration_String :: "int \<Rightarrow> string" where
  "Duration_String d =
     (let u = \<bar>d\<bar>;
          s = (if u = 0 then ''0s''
               else if u < 1000000000 then
                 (let (prec, unit) = (if u < 1000 then (0, ''ns'') else if u < 1000000 then (3, [CHR 0xC2, CHR 0xB5, CHR ''s'']) else (6, ''ms''));
                      (frac, v) = fmtFrac u prec
                  in itoa v @ frac @ unit)
               else
                 (let (frac, secs) = fmtFrac u 9; mins = secs div 60; hours = mins div 60 in
                  (if 0 < hours then itoa hours @ ''h'' else []) @ (if 0 < mins then itoa (mins mod 60) @ ''m'' else []) @
                  itoa (secs mod 60) @ frac @ ''s''))
      in if d < 0 then CHR ''-'' # s else s)"

definition durationToString :: "int \<Rightarrow> string" where
  "durationToString dur =
     (let weeks = tdiv dur week; dur = trem dur week;
          result = (if 0 < weeks then itoa weeks @ ''w'' else []);
          days = tdiv dur day; dur = trem dur day;
          result = (if 0 < days \<or> (0 < weeks \<and> 0 < dur) then result @ itoa days @ ''d'' else result)
      in if 0 < dur then result @ Duration_String dur else result)"

end
