(* ===== verification/DurationProps.thy ===== *)
theory DurationProps
  imports Duration
begin

text \<open>
  Correctness of durations: the parser ends on every string, and reads back what \<open>durationToString\<close> prints for every
  positive duration, although it computes fractions in floating point.
\<close>

section \<open>Exact products and quotients\<close>

lemma fmul_exact:
  assumes "isFinite a" "isFinite b" "isFinite c" "fval c = fval a * fval b" "fval c \<noteq> 0"
  shows "fmul a b = c"
proof -
  let ?s = "sval a * sval b" and ?e = "ex (mag a) + ex (mag b) - 1074"
  have nz: "mag a \<noteq> 0" "mag b \<noteq> 0" "mag c \<noteq> 0" using assms(4,5) by (auto simp flip: fval_zero_iff)
  have m: "0 < mant (mag a)" "0 < mant (mag b)"
    using nz mant_ex_canon(6) [of "mag a"] mant_ex_canon(6) [of "mag b"] mag_bounds [of a] mag_bounds [of b] by auto
  have e: "?e - 1074 = (ex (mag a) - 1074) + (ex (mag b) - 1074)" by simp
  have "real_of_int ?s * 2 powi (?e - 1074) = fval c"
    unfolding e powi_add2 assms(4) by (simp add: fval_def mult_ac)
  moreover have "\<bar>?s\<bar> = mant (mag a) * mant (mag b)" "(?s < 0) = (neg a \<noteq> neg b)" "?s \<noteq> 0"
    using m by (auto simp: sval_def abs_mult mult_less_0_iff)
  ultimately have "mk_float (neg a \<noteq> neg b) (round_mag (mant (mag a) * mant (mag b)) 1 ?e) = c"
    using round_to_float [OF assms(3) nz(3), of ?s ?e] by simp
  then show ?thesis using nz assms(1,2) by (simp add: fmul_def finite_not_special Let_def)
qed

lemma fdiv_exact:
  assumes "isFinite a" "isFinite b" "isFinite c" "fval a = fval c * fval b" "0 < fval c" "0 < fval b"
  shows "fdiv a b = c"
proof -
  have pos: "0 < fval a" using assms(4-6) by simp
  then have nz: "mag a \<noteq> 0" "mag b \<noteq> 0" "mag c \<noteq> 0" using assms(5,6) by (auto simp flip: fval_zero_iff)
  have neg: "\<not> neg a" "\<not> neg b" "\<not> neg c"
    using fval_neg [OF assms(1) nz(1)] fval_neg [OF assms(2) nz(2)] fval_neg [OF assms(3) nz(3)] pos assms(5,6) by auto
  have m: "0 < mant (mag a)" "0 < mant (mag b)" "0 < mag c"
    using nz mant_ex_canon(6) [of "mag a"] mant_ex_canon(6) [of "mag b"] mag_bounds [of a] mag_bounds [of b] mag_bounds [of c] by auto
  have v: "fval w = real_of_int (mant (mag w)) * 2 powi ex (mag w) / 2 powi 1074" if "\<not> neg w" for w
    using that by (simp add: fval_def sval_def power_int_diff)
  have "real_of_int (mant (mag a)) / real_of_int (mant (mag b)) * 2 powi (ex (mag a) - ex (mag b) + 1074) = real_of_int (mant (mag c)) * 2 powi ex (mag c)"
    using assms(4) m neg by (simp add: v power_int_add power_int_diff field_simps)
  then have "round_mag (mant (mag a)) (mant (mag b)) (ex (mag a) - ex (mag b) + 1074) = mag c"
    using round_mag_exact [OF m] assms(3) by (simp add: isFinite_def)
  then show ?thesis
    using nz neg assms(1,2) mk_float_neg_mag [of c] by (simp add: fdiv_def finite_not_special Let_def)
qed

lemma fmul_of_int: "i * j \<noteq> 0 \<Longrightarrow> \<bar>i\<bar> \<le> 2 ^ 53 \<Longrightarrow> \<bar>j\<bar> \<le> 2 ^ 53 \<Longrightarrow> \<bar>i * j\<bar> \<le> 2 ^ 53 \<Longrightarrow>
    fmul (float_of_int i) (float_of_int j) = float_of_int (i * j)"
  by (intro fmul_exact) (auto simp: float_of_int_exact simp flip: of_int_mult)

lemma fdiv_of_int_exact: "0 < i \<Longrightarrow> 0 < j \<Longrightarrow> i * j \<le> 2 ^ 53 \<Longrightarrow> i \<le> 2 ^ 53 \<Longrightarrow> j \<le> 2 ^ 53 \<Longrightarrow>
    fdiv (float_of_int (i * j)) (float_of_int j) = float_of_int i"
  by (intro fdiv_exact) (auto simp: float_of_int_exact)

section \<open>The parser ends\<close>

lemma leadingInt_from_suffix: "leadingInt_from x s = Inr (v, r) \<Longrightarrow> length r \<le> length s"
  by (induction x s rule: leadingInt_from.induct) (auto simp: Let_def split: if_splits)

lemma leadingFraction_from_suffix: "leadingFraction_from x sc ov s = (v, sc', r) \<Longrightarrow> length r \<le> length s"
  by (induction x sc ov s rule: leadingFraction_from.induct) (fastforce simp: Let_def split: if_splits)+

lemma parse_number_suffix: "parse_number orig s = Inr (v, f, scale, r) \<Longrightarrow> length r \<le> length s"
  by (auto simp: parse_number_def leadingInt_def leadingFraction_def Let_def split: sum.splits if_splits prod.splits
      dest!: leadingInt_from_suffix leadingFraction_from_suffix)

lemma dropWhile_shorter: "takeWhile P s \<noteq> [] \<Longrightarrow> length (dropWhile P s) < length s"
  by (metis add.commute length_append length_greater_0_conv less_add_same_cancel1 takeWhile_dropWhile_id)

lemma parse_item_shorter: "parse_item orig s = Inr (v, r) \<Longrightarrow> length r < length s"
  by (fastforce simp: parse_item_def Let_def split: sum.splits if_splits option.splits
      dest: parse_number_suffix dropWhile_shorter)

text \<open>
  The loop of the parser ends on every string: \<open>ParseDuration\<close> returns a duration or an error, and the duration
  fits into 64 bits.
\<close>

theorem parse_duration_returns: "\<exists>r. ParseDuration s = Some r \<and> (\<forall>d. r = Inr d \<longrightarrow> in64 d)"
proof -
  have loop: "\<exists>r. parse_loop orig s d = Some r \<and> (\<forall>v. r = Inr v \<longrightarrow> in64 v)" if "in64 d" for orig s d
    using that
  proof (induction "length s" arbitrary: s d rule: less_induct)
    case less
    show ?case
    proof (cases "parse_item orig s")
      case (Inr p)
      obtain v r where p: "p = (v, r)" by (cases p)
      then have "length r < length s" using Inr parse_item_shorter by simp
      from less.hyps [OF this, of "wrap64 (d + v)"] show ?thesis using Inr p less.prems by (subst parse_loop.simps) auto
    qed (use less.prems in \<open>subst parse_loop.simps, simp\<close>)
  qed
  have "\<exists>r. (if t = ''0'' then Some (Inr 0) else if t = [] then Some (Inl e)
      else map_option (map_sum id (\<lambda>d. if n then wrap64 (- d) else d)) (parse_loop s t 0)) = Some r \<and> (\<forall>d. r = Inr d \<longrightarrow> in64 d)" for n t e
  proof -
    have z: "in64 0" by (simp add: in64_def)
    then obtain r where "parse_loop s t 0 = Some r" "\<forall>v. r = Inr v \<longrightarrow> in64 v" using loop [of 0 s t] by blast
    then show ?thesis using z by (cases r) auto
  qed
  then show ?thesis unfolding ParseDuration_def Let_def .
qed

theorem parse_duration_returns_witness: "\<exists>d. ParseDuration ''1.5ms'' = Some (Inr d) \<and> in64 d"
proof -
  have p: "parse_item ''1.5ms'' ''1.5ms'' = Inr (1500000, [])" by code_simp
  have "parse_loop ''1.5ms'' ''1.5ms'' 0 = Some (Inr 1500000)"
    by (subst parse_loop.simps, subst parse_loop.simps) (simp add: p wrap64_def)
  then have "ParseDuration ''1.5ms'' = Some (Inr 1500000)" by (simp add: ParseDuration_def)
  then show ?thesis using parse_duration_returns [of "''1.5ms''"] by auto
qed

section \<open>Reading back numbers\<close>

lemma is_digit_itoa [simp]: "d < 10 \<Longrightarrow> is_digit (itoa_digit d)" "d < 10 \<Longrightarrow> (of_char (itoa_digit d) :: int) = 48 + int d"
proof -
  assume "d < 10"
  then have "(of_char (itoa_digit d) :: int) = 48 + int d"
    unfolding itoa_digit_def by (simp add: of_char_of [where 'a = int] flip: of_nat_of_char [where 'a = int])
  then show "(of_char (itoa_digit d) :: int) = 48 + int d" "is_digit (itoa_digit d)" using \<open>d < 10\<close> by (simp_all add: is_digit_def)
qed

lemma tdiv_MaxInt64: "0 < b \<Longrightarrow> tdiv MaxInt64 b = MaxInt64 div b"
  by (simp add: tdiv_nonneg MaxInt64_def)

lemma MaxInt64_div: "\<not> MaxInt64 div 10 < 0"
  by (simp add: MaxInt64_def)

lemma wrap64_nonneg: "0 \<le> x \<Longrightarrow> x \<le> MaxInt64 \<Longrightarrow> wrap64 x = x"
  by (simp add: MaxInt64_def in64_def)

lemma leadingInt_from_itoa: "int n \<le> MaxInt64 \<Longrightarrow> leadingInt_from 0 (itoa_nat n @ rest) = leadingInt_from (int n) rest"
proof (induction n arbitrary: rest rule: itoa_nat.induct)
  case (1 n)
  show ?case
  proof (cases "n < 10")
    case True
    then show ?thesis using wrap64_nonneg [of "int n"] 1 by (subst itoa_nat.simps) (simp add: tdiv_MaxInt64 MaxInt64_div)
  next
    case False
    have "int (n div 10) \<le> MaxInt64 div 10" using 1(2) by (simp add: zdiv_int zdiv_mono1)
    moreover have "int (n div 10) * 10 + int (n mod 10) = int n" using div_mult_mod_eq [of n 10] by linarith
    ultimately show ?thesis
      using 1 False wrap64_nonneg [of "int n"] by (subst itoa_nat.simps) (simp add: tdiv_MaxInt64)
  qed
qed

lemma leadingInt_from_end: "rest = [] \<or> \<not> is_digit (hd rest) \<Longrightarrow> leadingInt_from x rest = Inr (x, rest)"
  by (cases rest) auto

section \<open>Reading back fractions\<close>

definition dval :: "nat list \<Rightarrow> int" where "dval ds = foldl (\<lambda>a d. a * 10 + int d) 0 ds"

lemma foldl_dval: "foldl (\<lambda>a d. a * 10 + int d) x ds = x * 10 ^ length ds + dval ds"
proof (induction ds arbitrary: x)
  case (Cons d ds)
  have "foldl (\<lambda>a d. a * 10 + int d) x (d # ds) = (x * 10 + int d) * 10 ^ length ds + dval ds" using Cons by simp
  moreover have "dval (d # ds) = int d * 10 ^ length ds + dval ds" using Cons [of "int d"] by (simp add: dval_def)
  ultimately show ?case by (simp add: algebra_simps)
qed (simp add: dval_def)

lemma dval_Cons: "dval (d # ds) = int d * 10 ^ length ds + dval ds"
  using foldl_dval [of "int d" ds] by (simp add: dval_def)

lemma dval_snoc: "dval (ds @ [d]) = dval ds * 10 + int d"
  by (simp add: dval_def)

lemma fmtFrac_from_prepends:
  assumes "0 \<le> v" "acc \<noteq> []"
  shows "\<exists>ds. fmtFrac_from n v acc = (map itoa_digit ds @ acc, v div 10 ^ n) \<and> length ds = n \<and> (\<forall>d \<in> set ds. d < 10) \<and> dval ds = v mod 10 ^ n"
  using assms
proof (induction n arbitrary: v acc)
  case (Suc n)
  obtain ds where ds: "fmtFrac_from n (v div 10) (itoa_digit (nat (v mod 10)) # acc) = (map itoa_digit ds @ itoa_digit (nat (v mod 10)) # acc, v div 10 div 10 ^ n)"
    "length ds = n" "\<forall>d \<in> set ds. d < 10" "dval ds = (v div 10) mod 10 ^ n"
    using Suc.IH [of "v div 10" "itoa_digit (nat (v mod 10)) # acc"] Suc.prems by (auto simp: pos_imp_zdiv_nonneg_iff)
  have "v mod 10 ^ Suc n = (v div 10) mod 10 ^ n * 10 + v mod 10" by (simp add: zmod_zmult2_eq)
  then have "dval (ds @ [nat (v mod 10)]) = v mod 10 ^ Suc n" using ds(4) by (simp add: dval_snoc)
  then show ?case using ds Suc.prems
    by (intro exI [of _ "ds @ [nat (v mod 10)]"]) (auto simp: zdiv_zmult2_eq nat_less_iff)
qed (simp add: dval_def)

lemma fmtFrac_from_digits:
  assumes "0 \<le> v"
  shows "\<exists>ds. fmtFrac_from n v [] = (map itoa_digit ds, v div 10 ^ n) \<and> length ds \<le> n \<and> (\<forall>d \<in> set ds. d < 10) \<and>
    dval ds * 10 ^ (n - length ds) = v mod 10 ^ n \<and> (ds = [] \<longleftrightarrow> v mod 10 ^ n = 0)"
  using assms
proof (induction n arbitrary: v)
  case (Suc n)
  have split: "v mod 10 ^ Suc n = (v div 10) mod 10 ^ n * 10 + v mod 10" by (simp add: zmod_zmult2_eq)
  have d: "v div 10 ^ Suc n = v div 10 div 10 ^ n" by (simp add: zdiv_zmult2_eq)
  show ?case
  proof (cases "v mod 10 = 0")
    case True
    obtain ds where ds: "fmtFrac_from n (v div 10) [] = (map itoa_digit ds, v div 10 div 10 ^ n)" "length ds \<le> n" "\<forall>d \<in> set ds. d < 10"
      "dval ds * 10 ^ (n - length ds) = (v div 10) mod 10 ^ n" "ds = [] \<longleftrightarrow> (v div 10) mod 10 ^ n = 0"
      using Suc.IH [of "v div 10"] Suc.prems by (auto simp: pos_imp_zdiv_nonneg_iff)
    moreover have "(10 :: int) ^ (Suc n - length ds) = 10 ^ (n - length ds) * 10" using ds(2) by (simp add: Suc_diff_le)
    ultimately show ?thesis using True split d by (intro exI [of _ ds]) auto
  next
    case False
    obtain ds where ds: "fmtFrac_from n (v div 10) [itoa_digit (nat (v mod 10))] = (map itoa_digit ds @ [itoa_digit (nat (v mod 10))], v div 10 div 10 ^ n)"
      "length ds = n" "\<forall>d \<in> set ds. d < 10" "dval ds = (v div 10) mod 10 ^ n"
      using fmtFrac_from_prepends [of "v div 10" "[itoa_digit (nat (v mod 10))]" n] Suc.prems by (auto simp: pos_imp_zdiv_nonneg_iff)
    have "0 < v mod 10" using False pos_mod_sign [of 10 v] by linarith
    moreover have "0 \<le> (v div 10) mod 10 ^ n" by (rule pos_mod_sign) simp
    ultimately have "v mod 10 ^ Suc n \<noteq> 0" unfolding split by linarith
    then show ?thesis using False ds split d
      by (intro exI [of _ "ds @ [nat (v mod 10)]"]) (auto simp: dval_snoc nat_less_iff)
  qed
qed (simp add: dval_def)

lemma leadingFraction_from_digits:
  assumes "\<forall>d \<in> set ds. d < 10" "j + length ds \<le> 15" "0 \<le> x" "x < 10 ^ j"
  shows "leadingFraction_from x (float_of_int (10 ^ j)) False (map itoa_digit ds @ rest) =
    leadingFraction_from (x * 10 ^ length ds + dval ds) (float_of_int (10 ^ (j + length ds))) False rest"
  using assms
proof (induction ds arbitrary: x j)
  case (Cons d ds)
  have "(10 :: int) ^ Suc j \<le> 10 ^ 15" "(10 :: int) ^ j \<le> 10 ^ 14" using Cons.prems(2) by (intro power_increasing; simp)+
  then have b: "(10 :: int) ^ j * 10 \<le> 2 ^ 53" "(10 :: int) ^ j \<le> 10 ^ 14" by simp_all
  have y: "0 \<le> x * 10 + int d" "x * 10 + int d < 10 ^ Suc j" using Cons.prems by auto
  have "x * 10 + int d \<le> MaxInt64" using y(2) b by (simp add: MaxInt64_def)
  then have w: "wrap64 (x * 10 + int d) = x * 10 + int d" using y(1) wrap64_nonneg by blast
  have "\<not> tdiv MaxInt64 10 < x" using Cons.prems(4) b(2) by (simp add: tdiv_MaxInt64) (simp add: MaxInt64_def)
  moreover have "fmul (float_of_int (10 ^ j)) (float_of_int 10) = float_of_int (10 ^ Suc j)"
    using b fmul_of_int [of "10 ^ j" 10] by (simp add: mult.commute)
  ultimately have "leadingFraction_from x (float_of_int (10 ^ j)) False (map itoa_digit (d # ds) @ rest) =
      leadingFraction_from (x * 10 + int d) (float_of_int (10 ^ Suc j)) False (map itoa_digit ds @ rest)"
    using Cons.prems(1) w y(1) by simp
  then show ?case using Cons.IH [of "Suc j" "x * 10 + int d"] Cons.prems y by (simp add: dval_Cons algebra_simps)
qed (simp add: dval_def)

lemma leadingFraction_from_end: "rest = [] \<or> \<not> is_digit (hd rest) \<Longrightarrow> leadingFraction_from x sc ov rest = (x, sc, rest)"
  by (cases rest) auto

section \<open>Reading back numbers with units\<close>

definition unit_str :: "string \<Rightarrow> bool" where "unit_str u \<longleftrightarrow> u \<noteq> [] \<and> (\<forall>c \<in> set u. unit_char c)"

text \<open>The rest of a printed duration is empty or starts with the next number.\<close>

definition number_next :: "string \<Rightarrow> bool" where "number_next r \<longleftrightarrow> r = [] \<or> \<not> unit_char (hd r)"

lemma unit_str_hd: "unit_str u \<Longrightarrow> \<not> is_digit (hd (u @ r))" "unit_str u \<Longrightarrow> hd (u @ r) \<noteq> CHR ''.''"
  by (cases u; auto simp: unit_str_def unit_char_def)+

lemma unit_str_split: "unit_str u \<Longrightarrow> number_next r \<Longrightarrow> takeWhile unit_char (u @ r) = u \<and> dropWhile unit_char (u @ r) = r"
  by (cases r) (auto simp: unit_str_def number_next_def takeWhile_append2 dropWhile_append2)

lemma itoa_nat_hd: "\<exists>d < 10. \<exists>s. itoa_nat n = itoa_digit d # s"
proof (induction n rule: itoa_nat.induct)
  case (1 n)
  then show ?case by (cases "n < 10") (auto simp: itoa_nat.simps [of n])
qed

lemma itoa_nat_number: "itoa_nat n @ r \<noteq> []" "\<not> unit_char (hd (itoa_nat n @ r))" "number_next (itoa_nat n @ r)"
  using itoa_nat_hd [of n] by (auto simp: unit_char_def number_next_def)

lemma parse_number_itoa:
  assumes "int n \<le> MaxInt64" "unit_str u"
  shows "parse_number orig (itoa_nat n @ u @ r) = Inr (int n, 0, float_of_int 1, u @ r)"
proof -
  have "leadingInt (itoa_nat n @ u @ r) = Inr (int n, u @ r)"
    using leadingInt_from_itoa [OF assms(1)] leadingInt_from_end unit_str_hd [OF assms(2)] by (simp add: leadingInt_def)
  then show ?thesis
    using itoa_nat_number(1,2) [of n "u @ r"] itoa_nat_number(1) [of n "[]"] unit_str_hd(2) [OF assms(2)] by (simp add: parse_number_def Let_def)
qed

lemma parse_number_fraction:
  assumes "int n \<le> MaxInt64" "unit_str u" "\<forall>d \<in> set ds. d < 10" "length ds \<le> 15"
  shows "parse_number orig (itoa_nat n @ CHR ''.'' # map itoa_digit ds @ u @ r) = Inr (int n, dval ds, float_of_int (10 ^ length ds), u @ r)"
proof -
  let ?f = "map itoa_digit ds @ u @ r"
  have dot: "\<not> is_digit (CHR ''.'')" by (simp add: is_digit_def)
  have "leadingInt (itoa_nat n @ CHR ''.'' # ?f) = Inr (int n, CHR ''.'' # ?f)"
    using leadingInt_from_itoa [OF assms(1), of "CHR ''.'' # ?f"] dot by (simp add: leadingInt_def)
  moreover have "leadingFraction ?f = (dval ds, float_of_int (10 ^ length ds), u @ r)"
    using leadingFraction_from_digits [OF assms(3), of 0 0 "u @ r"] leadingFraction_from_end unit_str_hd [OF assms(2)] assms(4)
    by (simp add: leadingFraction_def)
  ultimately show ?thesis
    using itoa_nat_number(1,2) [of n "CHR ''.'' # ?f"] itoa_nat_number(1) [of n "[]"] by (simp add: parse_number_def Let_def)
qed

lemma parse_item_itoa:
  assumes "map_of unitMap u = Some U" "unit_str u" "0 < U" "int n * U \<le> MaxInt64" "number_next r"
  shows "parse_item orig (itoa_nat n @ u @ r) = Inr (int n * U, r)"
proof -
  have "int n \<le> int n * U" using assms(3) by (simp add: mult_le_cancel_left1)
  then have "int n \<le> MaxInt64" using assms(4) by simp
  moreover have "int n \<le> MaxInt64 div U" using zdiv_mono1 [OF assms(4,3)] assms(3) by simp
  moreover have "\<not> int n * U < 0" using assms(3) by (simp add: not_less)
  ultimately show ?thesis
    using assms parse_number_itoa [of n u orig r] unit_str_split [OF assms(2,5)] wrap64_nonneg [of "int n * U"]
    by (simp add: parse_item_def Let_def tdiv_MaxInt64 unit_str_def)
qed

lemma fraction_in_units:
  assumes "k \<le> p" "p \<le> 9" "0 < f" "f * 10 ^ (p - k) < 10 ^ p"
  shows "int64_of_float (fmul (float_of_int f) (fdiv (float_of_int (10 ^ p)) (float_of_int (10 ^ k)))) = f * 10 ^ (p - k)"
proof -
  let ?q = "(10 :: int) ^ (p - k)"
  have pow: "?q * 10 ^ k = 10 ^ p" using assms(1) by (simp flip: power_add)
  have le: "(10 :: int) ^ i \<le> 10 ^ 9" if "i \<le> 9" for i using that by (intro power_increasing) auto
  have "p - k \<le> 9" using assms(2) by linarith
  then have b: "?q \<le> 2 ^ 53" "(10 :: int) ^ k \<le> 2 ^ 53" "(10 :: int) ^ p \<le> 2 ^ 53"
    using le [of "p - k"] le [of k] le [of p] assms(1,2) by auto
  have "f \<le> f * ?q" using assms(3) by (simp add: mult_le_cancel_left1)
  then have f: "f \<le> 2 ^ 53" "f * ?q \<le> 2 ^ 53" "0 \<le> f * ?q" using assms(3,4) b(3) by linarith+
  have "fdiv (float_of_int (10 ^ p)) (float_of_int (10 ^ k)) = float_of_int ?q"
    using fdiv_of_int_exact [of ?q "10 ^ k"] b pow by simp
  moreover have "fmul (float_of_int f) (float_of_int ?q) = float_of_int (f * ?q)"
    using fmul_of_int [of f ?q] assms(3) f b(1) by simp
  moreover have "int64_of_float (float_of_int (f * ?q)) = f * ?q"
    using float_of_int_exact [of "f * ?q"] f(2,3) by (intro int64_of_float_fval) (auto simp: in64_def)
  ultimately show ?thesis by simp
qed

lemma parse_item_fraction:
  assumes "map_of unitMap u = Some (10 ^ p)" "p \<le> 9" "unit_str u" "0 \<le> v" "v \<le> MaxInt64" "number_next r"
  shows "parse_item orig (itoa (snd (fmtFrac v p)) @ fst (fmtFrac v p) @ u @ r) = Inr (v, r)"
proof -
  obtain ds where ds: "fmtFrac_from p v [] = (map itoa_digit ds, v div 10 ^ p)" "length ds \<le> p" "\<forall>d \<in> set ds. d < 10"
    "dval ds * 10 ^ (p - length ds) = v mod 10 ^ p" "ds = [] \<longleftrightarrow> v mod 10 ^ p = 0"
    using fmtFrac_from_digits [OF assms(4), of p] by (elim exE conjE) (rule that)
  let ?n = "nat (v div 10 ^ p)"
  have "0 \<le> v div 10 ^ p" using zdiv_mono1 [OF assms(4), of "10 ^ p"] by simp
  then have n: "int ?n = v div 10 ^ p" "itoa (v div 10 ^ p) = itoa_nat ?n" by (simp_all add: itoa_def)
  have v: "int ?n * 10 ^ p + v mod 10 ^ p = v" unfolding n(1) by (rule div_mult_mod_eq)
  have m: "0 \<le> v mod 10 ^ p" "v mod 10 ^ p < 10 ^ p" by simp_all
  then have nU: "int ?n * 10 ^ p \<le> MaxInt64" using v assms(5) by linarith
  show ?thesis
  proof (cases "ds = []")
    case True
    then show ?thesis using ds n v parse_item_itoa [OF assms(1,3) _ nU assms(6), of orig] by (simp add: fmtFrac_def)
  next
    case False
    have fpos: "0 < dval ds" using False ds(4,5) m(1) by (metis mult_eq_0_iff mult_pos_pos not_less order_le_less zero_less_mult_pos2 zero_less_numeral zero_less_power)
    have nle: "int ?n \<le> MaxInt64 div 10 ^ p" using zdiv_mono1 [OF nU, of "10 ^ p"] by simp
    have "int ?n \<le> int ?n * 10 ^ p" by (simp add: mult_le_cancel_left1)
    then have n64: "int ?n \<le> MaxInt64" using nU by linarith
    have num: "parse_number orig (itoa_nat ?n @ CHR ''.'' # map itoa_digit ds @ u @ r) = Inr (int ?n, dval ds, float_of_int (10 ^ length ds), u @ r)"
      using ds(2,3) assms(2) by (intro parse_number_fraction [OF n64 assms(3)]) auto
    have frac: "int64_of_float (fmul (float_of_int (dval ds)) (fdiv (float_of_int (10 ^ p)) (float_of_int (10 ^ length ds)))) = v mod 10 ^ p"
      using fraction_in_units [OF ds(2) assms(2) fpos] ds(4) m(2) by simp
    have "wrap64 (int ?n * 10 ^ p) = int ?n * 10 ^ p" using wrap64_nonneg [OF _ nU] by simp
    then show ?thesis
      using False ds(1) n num frac fpos nle assms v wrap64_nonneg [of v] unit_str_split [OF assms(3,6)]
      by (simp add: fmtFrac_def parse_item_def Let_def tdiv_MaxInt64 unit_str_def)
  qed
qed

section \<open>Reading back durations\<close>

lemma parse_loop_step:
  "parse_item orig s = Inr (v, r) \<Longrightarrow> 0 \<le> acc \<Longrightarrow> 0 \<le> v \<Longrightarrow> acc + v \<le> MaxInt64 \<Longrightarrow> parse_loop orig s acc = parse_loop orig r (acc + v)"
  using wrap64_nonneg [of "acc + v"]
  by (subst parse_loop.simps) (auto simp: parse_item_def parse_number_def)

lemma parse_loop_itoa:
  assumes "map_of unitMap u = Some U" "unit_str u" "0 < U" "0 \<le> n" "0 \<le> acc" "acc + n * U \<le> MaxInt64" "number_next r"
  shows "parse_loop orig (itoa n @ u @ r) acc = parse_loop orig r (acc + n * U)"
proof -
  have "0 \<le> n * U" using assms(3,4) by simp
  then show ?thesis
    using parse_item_itoa [OF assms(1,2,3) _ assms(7), of "nat n" orig] assms(4-6) by (intro parse_loop_step) (auto simp: itoa_def)
qed

lemma number_next_itoa: "0 \<le> n \<Longrightarrow> number_next (itoa n @ r)"
  using itoa_nat_number(3) [of "nat n" r] by (simp add: itoa_def)

lemma fmtFrac_from_shift: "fmtFrac_from n (v + k * 10 ^ n) acc = (fst (fmtFrac_from n v acc), snd (fmtFrac_from n v acc) + k)"
proof (induction n arbitrary: v acc)
  case (Suc n)
  have e: "v + k * 10 ^ Suc n = v + k * 10 ^ n * 10" by simp
  have "(v + k * 10 ^ Suc n) div 10 = v div 10 + k * 10 ^ n" "(v + k * 10 ^ Suc n) mod 10 = v mod 10"
    unfolding e by simp_all
  then show ?case using Suc.IH by simp
qed simp

lemma fmtFrac_shift: "fmtFrac (v + k * 10 ^ n) n = (fst (fmtFrac v n), snd (fmtFrac v n) + k)"
  by (simp add: fmtFrac_def fmtFrac_from_shift case_prod_beta)

lemma fmtFrac_snd: "0 \<le> v \<Longrightarrow> snd (fmtFrac v n) = v div 10 ^ n"
  using fmtFrac_from_digits [of v n] by (auto simp: fmtFrac_def)

lemma units [simp]:
  "map_of unitMap ''w'' = Some week" "map_of unitMap ''d'' = Some day" "map_of unitMap ''h'' = Some 3600000000000"
  "map_of unitMap ''m'' = Some 60000000000" "map_of unitMap ''s'' = Some 1000000000" "map_of unitMap ''ms'' = Some 1000000"
  "map_of unitMap [CHR 0xC2, CHR 0xB5, CHR ''s''] = Some 1000" "map_of unitMap ''ns'' = Some 1"
  "unit_str ''w''" "unit_str ''d''" "unit_str ''h''" "unit_str ''m''" "unit_str ''s''" "unit_str ''ms''" "unit_str ''ns''"
  "unit_str [CHR 0xC2, CHR 0xB5, CHR ''s'']"
  by (simp_all add: unitMap_def unit_str_def unit_char_def is_digit_def)

lemma parse_loop_fraction:
  assumes "map_of unitMap u = Some (10 ^ p)" "p \<le> 9" "unit_str u" "0 \<le> v" "0 \<le> acc" "acc + v \<le> MaxInt64"
  shows "parse_loop orig (itoa (snd (fmtFrac v p)) @ fst (fmtFrac v p) @ u) acc = Some (Inr (acc + v))"
proof -
  have "parse_item orig (itoa (snd (fmtFrac v p)) @ fst (fmtFrac v p) @ u) = Inr (v, [])"
    using parse_item_fraction [OF assms(1-4), of "[]" orig] assms(4-6) by (simp add: number_next_def)
  then have "parse_loop orig (itoa (snd (fmtFrac v p)) @ fst (fmtFrac v p) @ u) acc = parse_loop orig [] (acc + v)"
    using assms(4-6) by (intro parse_loop_step)
  then show ?thesis by (simp add: parse_loop.simps [of orig "[]"])
qed

lemma parse_loop_seconds:
  assumes "1000000000 \<le> u" "0 \<le> acc" "acc + u \<le> MaxInt64"
  shows "parse_loop orig (Duration_String u) acc = Some (Inr (acc + u))"
proof -
  define v where "v = u mod 60000000000"
  define mins where "mins = u div 60000000000"
  let ?frac = "fst (fmtFrac v 9)"
  have u: "u = v + (mins * 60) * 10 ^ 9" by (simp add: v_def mins_def mult.commute)
  have v: "0 \<le> v" "v < 60000000000" by (simp_all add: v_def)
  have mins: "0 \<le> mins" using assms(1) by (simp add: mins_def pos_imp_zdiv_nonneg_iff)
  have secs: "snd (fmtFrac v 9) = v div 10 ^ 9" "v div 10 ^ 9 < 60" "0 \<le> v div 10 ^ 9"
    using v fmtFrac_snd [OF v(1)] by (auto simp: pos_imp_zdiv_nonneg_iff)
  have d: "(v div 10 ^ 9 + mins * 60) div 60 = mins" "(v div 10 ^ 9 + mins * 60) mod 60 = v div 10 ^ 9"
    using secs(2,3) by simp_all
  have str: "Duration_String u =
      (if 0 < mins div 60 then itoa (mins div 60) @ ''h'' else []) @ (if 0 < mins then itoa (mins mod 60) @ ''m'' else []) @
      itoa (v div 10 ^ 9) @ ?frac @ ''s''"
    using assms(1) fmtFrac_shift [of v "mins * 60" 9] d unfolding u by (simp add: Duration_String_def secs(1) Let_def)
  let ?S = "itoa (v div 10 ^ 9) @ ?frac @ ''s''"
  have S: "parse_loop orig ?S a = Some (Inr (a + v))" if "0 \<le> a" "a + v \<le> MaxInt64" for a
    using parse_loop_fraction [of "''s''" 9 v a orig] that v(1) secs(1) by simp
  let ?M = "(if 0 < mins then itoa (mins mod 60) @ ''m'' @ ?S else ?S)"
  have M: "parse_loop orig ?M a = Some (Inr (a + (mins mod 60) * 60000000000 + v))"
    if "0 \<le> a" "a + (mins mod 60) * 60000000000 + v \<le> MaxInt64" for a
    using parse_loop_itoa [of "''m''" 60000000000 "mins mod 60" a ?S orig] number_next_itoa [OF secs(3)] S that v(1) mins
    by auto
  have nn: "number_next ?M" using number_next_itoa mins secs(3) by simp
  have tot: "acc + mins div 60 * 3600000000000 + mins mod 60 * 60000000000 + v = acc + u"
    using div_mult_mod_eq [of mins 60] div_mult_mod_eq [of u 60000000000] unfolding v_def mins_def by linarith
  have hrs: "0 \<le> mins div 60" using mins by (simp add: pos_imp_zdiv_nonneg_iff)
  have "parse_loop orig (Duration_String u) acc = parse_loop orig ?M (acc + mins div 60 * 3600000000000)"
    using parse_loop_itoa [of "''h''" 3600000000000 "mins div 60" acc ?M orig] nn hrs tot assms(2,3) v(1) unfolding str by auto
  then show ?thesis using M [of "acc + mins div 60 * 3600000000000"] tot hrs assms(2,3) by simp
qed

lemma parse_loop_Duration_String:
  assumes "0 < u" "0 \<le> acc" "acc + u \<le> MaxInt64"
  shows "parse_loop orig (Duration_String u) acc = Some (Inr (acc + u))"
proof (cases "u < 1000000000")
  case True
  then show ?thesis
    using assms parse_loop_fraction [of "''ns''" 0 u acc orig] parse_loop_fraction [of "''ms''" 6 u acc orig]
      parse_loop_fraction [of "[CHR 0xC2, CHR 0xB5, CHR ''s'']" 3 u acc orig]
    by (auto simp: Duration_String_def Let_def case_prod_beta)
next
  case False
  then show ?thesis using parse_loop_seconds assms by simp
qed

lemma Duration_String_next: "0 < u \<Longrightarrow> number_next (Duration_String u)"
  using number_next_itoa fmtFrac_snd [of u]
  by (auto simp: Duration_String_def Let_def case_prod_beta pos_imp_zdiv_nonneg_iff)

lemma ParseDuration_loop:
  assumes "parse_loop s s 0 = Some (Inr d)" "d \<noteq> 0" shows "ParseDuration s = Some (Inr d)"
proof -
  have s: "s \<noteq> []" using assms by (auto simp: parse_loop.simps)
  have item: "parse_item s s \<noteq> Inl e" for e using assms(1) s by (subst (asm) parse_loop.simps) auto
  have "parse_item s ''0'' = Inl (OtherError (''time: missing unit in duration '' @ s))"
    by (simp add: parse_item_def parse_number_def leadingInt_def is_digit_def unit_char_def Let_def wrap64_def MaxInt64_def tdiv_def)
  then have "s \<noteq> ''0''" using item by metis
  moreover have "parse_item s s = Inl (invalid_duration s)" if "unit_char (hd s)" using that by (simp add: parse_item_def parse_number_def)
  then have "\<not> unit_char (hd s)" using item by blast
  moreover have "unit_char (CHR ''-'')" "unit_char (CHR ''+'')" by (simp_all add: unit_char_def is_digit_def)
  ultimately have "hd s \<noteq> CHR ''-''" "hd s \<noteq> CHR ''+''" "s \<noteq> ''0''" by auto
  then show ?thesis using assms(1) s by (simp add: ParseDuration_def Let_def)
qed

lemma parse_durationToString:
  assumes "0 < d" "d < 2 ^ 63"
  shows "ParseDuration (durationToString d) = Some (Inr d)"
proof -
  define weeks r days u where "weeks = d div week" and "r = d mod week" and "days = r div day" and "u = r mod day"
  note defs = weeks_def r_def days_def u_def
  have pos: "0 \<le> weeks" "0 \<le> r" "0 \<le> days" "0 \<le> u" "0 < day" "0 < week"
    using assms(1) by (simp_all add: defs week_def day_def pos_imp_zdiv_nonneg_iff)
  have sum: "d = weeks * week + r" "r = days * day + u" "d = weeks * week + days * day + u" by (simp_all add: defs)
  have tr: "tdiv d week = weeks" "trem d week = r" "tdiv r day = days" "trem r day = u"
    using assms(1) pos by (simp_all add: tdiv_nonneg trem_def defs minus_mult_div_eq_mod)
  let ?s = "durationToString d"
  let ?U = "if 0 < u then Duration_String u else []"
  let ?D = "if 0 < days \<or> (0 < weeks \<and> 0 < u) then itoa days @ ''d'' @ ?U else ?U"
  have str: "?s = (if 0 < weeks then itoa weeks @ ''w'' @ ?D else ?D)"
    by (simp add: durationToString_def tr Let_def)
  have le: "weeks * week + days * day + u \<le> MaxInt64" using assms(2) sum(3) by (simp add: MaxInt64_def)
  have nn: "0 \<le> weeks * week" "0 \<le> days * day" using pos by simp_all
  then have le_w: "weeks * week \<le> MaxInt64" using le pos(4) by linarith
  have nU: "number_next ?U" using Duration_String_next by (simp add: number_next_def)
  have U: "parse_loop ?s ?U (weeks * week + days * day) = Some (Inr d)"
    using parse_loop_Duration_String [of u "weeks * week + days * day" ?s] nn le sum(3) pos(4) by (auto simp: parse_loop.simps [of _ "[]"])
  have "parse_loop ?s ?D (weeks * week) = parse_loop ?s ?U (weeks * week + days * day)"
    using parse_loop_itoa [of "''d''" day days "weeks * week" ?U ?s] nU nn le pos by auto
  moreover have "parse_loop ?s ?s 0 = parse_loop ?s ?D (weeks * week)"
  proof (cases "0 < weeks")
    case True
    have "number_next ?D" using nU number_next_itoa [OF pos(3)] by simp
    then have "parse_loop ?s (itoa weeks @ ''w'' @ ?D) 0 = parse_loop ?s ?D (0 + weeks * week)"
      using nn le_w pos by (intro parse_loop_itoa) auto
    then show ?thesis using True str by simp
  next
    case False
    then show ?thesis using str pos(1) by simp
  qed
  ultimately show ?thesis using ParseDuration_loop U assms(1) by simp
qed

text \<open>
  C28. Every positive duration is read back from what \<open>durationToString\<close> prints for it, to the nanosecond, although
  fractions go through floating point.
\<close>

theorem duration_roundtrip:
  assumes "0 < d" "d < 2 ^ 63"
  shows "ParseDuration (durationToString d) = Some (Inr d)"
  using assms by (rule parse_durationToString)

theorem duration_roundtrip_witness: "ParseDuration ''1w1d23h55m0.5s'' = Some (Inr (week + day + 86100500000000))"
proof -
  have "durationToString (week + day + 86100500000000) = ''1w1d23h55m0.5s''" by code_simp
  then show ?thesis using duration_roundtrip [of "week + day + 86100500000000"] by (simp add: week_def day_def)
qed

end
