(* ===== verification/Pipeline.thy ===== *)
theory Pipeline
  imports Cluster "HOL-Library.Multiset"
begin

text \<open>
  Parallel processing of log entries by a leader (\<open>startParallelEntryProcessing\<close>).  One goroutine puts requests on the
  channel of the workers and counts them, workers map them in any order, and one goroutine collects as many results as
  were counted, sorts them by offset and passes them on; only then is the next batch begun.

  The goroutines interleave, so the steps are a relation.  Channels are lists of what they hold.  The channels \<open>in\<close> and
  \<open>mapped\<close> hold at most \<open>cap\<close> messages, a send on a full one waits, and \<open>queued\<close> and \<open>drained\<close> are unbuffered, so that
  a message is a common step of sender and receiver.  A request that makes the worker panic gives no result.  Stopping
  the database is not modelled.
\<close>

section \<open>Requests and results\<close>

record 'c partitionRequest =
  rq_partitions :: "'c partitions"
  rq_stream :: string
  rq_data :: bytes
  rq_offset :: offset

record partitionsResult =
  rs_stream :: string
  rs_data :: bytes
  rs_offset :: offset
  rs_partitions :: "(string \<times> partitionResult) list"

definition map_request :: "('c, 'h) ext \<Rightarrow> store_ext \<Rightarrow> insert_ext \<Rightarrow> int \<Rightarrow> 'c partitionRequest \<Rightarrow> partitionsResult option" where
  "map_request X E I n rq =
     do { ps \<leftarrow> mapPartitionRequest X E I n (rq_partitions rq) (rq_data rq);
          Some \<lparr> rs_stream = rq_stream rq, rs_data = rq_data rq, rs_offset = rq_offset rq, rs_partitions = ps \<rparr> }"

text \<open>\<open>partitionsResultsByOffset.Less\<close>\<close>

definition result_Less :: "wal_ext \<Rightarrow> partitionsResult \<Rightarrow> partitionsResult \<Rightarrow> bool" where
  "result_Less wx r s \<longleftrightarrow> After wx (rs_offset s) (rs_offset r)"

section \<open>State\<close>

text \<open>
  Where \<open>enqueuePartitionRequests\<close> is: at the \<open>select\<close>, about to send a request to the workers, or in \<open>markQueued\<close>,
  before or after \<open>queued\<close> has been received; the flag tells the deferred call from the others.
\<close>

datatype 'q enqueuer = Reading | Putting 'q | Offering bool | Awaiting bool | Returned

text \<open>Where \<open>reducePartitionRequests\<close> is: waiting, with results to come, or with results to send.\<close>

datatype 'r reducer = Waiting | Collecting nat "'r list" | Sending "'r list"

record ('q, 'r) pipe =
  pp_requests :: "'q list"
  pp_closed :: bool
  pp_enq :: "'q enqueuer"
  pp_q :: nat
  pp_in :: "'q list"
  pp_workers :: "'q list"
  pp_mapped :: "'r list"
  pp_reducer :: "'r reducer"
  pp_results :: "'r list"

definition startParallelEntryProcessing :: "('q, 'r) pipe" where
  "startParallelEntryProcessing =
     \<lparr> pp_requests = [], pp_closed = False, pp_enq = Reading, pp_q = 0, pp_in = [], pp_workers = [], pp_mapped = [],
       pp_reducer = Waiting, pp_results = [] \<rparr>"

section \<open>Steps\<close>

text \<open>The steps of \<open>enqueuePartitionRequests\<close>\<close>

inductive enqueue_step :: "nat \<Rightarrow> nat \<Rightarrow> ('q, 'r) pipe \<Rightarrow> ('q, 'r) pipe \<Rightarrow> bool" for par cap where
  take_request: "pp_enq p = Reading \<Longrightarrow> pp_requests p = r # rs \<Longrightarrow> enqueue_step par cap p (p\<lparr>pp_requests := rs, pp_enq := Putting r\<rparr>)"
| put_request: "pp_enq p = Putting r \<Longrightarrow> length (pp_in p) < cap \<Longrightarrow>
    enqueue_step par cap p (p\<lparr>pp_in := pp_in p @ [r], pp_q := Suc (pp_q p), pp_enq := (if Suc (pp_q p) = par then Offering False else Reading)\<rparr>)"
| no_request: "pp_enq p = Reading \<Longrightarrow> pp_requests p = [] \<Longrightarrow> \<not> pp_closed p \<Longrightarrow> 0 < pp_q p \<Longrightarrow> enqueue_step par cap p (p\<lparr>pp_enq := Offering False\<rparr>)"
| closed: "pp_enq p = Reading \<Longrightarrow> pp_requests p = [] \<Longrightarrow> pp_closed p \<Longrightarrow>
    enqueue_step par cap p (p\<lparr>pp_enq := (if 0 < pp_q p then Offering True else Returned)\<rparr>)"

text \<open>The steps of the workers, \<open>mapPartitionRequests\<close>\<close>

inductive worker_step :: "('q \<Rightarrow> 'r option) \<Rightarrow> nat \<Rightarrow> nat \<Rightarrow> ('q, 'r) pipe \<Rightarrow> ('q, 'r) pipe \<Rightarrow> bool" for f par cap where
  take_work: "pp_in p = r # rs \<Longrightarrow> length (pp_workers p) < par \<Longrightarrow> worker_step f par cap p (p\<lparr>pp_in := rs, pp_workers := r # pp_workers p\<rparr>)"
| map_work: "r \<in> set (pp_workers p) \<Longrightarrow> f r = Some v \<Longrightarrow> length (pp_mapped p) < cap \<Longrightarrow>
    worker_step f par cap p (p\<lparr>pp_workers := remove1 r (pp_workers p), pp_mapped := pp_mapped p @ [v]\<rparr>)"
| panic: "r \<in> set (pp_workers p) \<Longrightarrow> f r = None \<Longrightarrow> worker_step f par cap p (p\<lparr>pp_workers := remove1 r (pp_workers p)\<rparr>)"

text \<open>
  The steps of \<open>reducePartitionRequests\<close>, those in common with the enqueuer included.  A closed \<open>queued\<close> gives zero.
  \<open>sort.Sort\<close> gives some permutation in which no result is less than an earlier one.
\<close>

inductive reduce_step :: "('r \<Rightarrow> 'r \<Rightarrow> bool) \<Rightarrow> ('q, 'r) pipe \<Rightarrow> ('q, 'r) pipe \<Rightarrow> bool" for lt where
  queued: "pp_reducer p = Waiting \<Longrightarrow> pp_enq p = Offering b \<Longrightarrow> reduce_step lt p (p\<lparr>pp_reducer := Collecting (pp_q p) [], pp_enq := Awaiting b\<rparr>)"
| queued_closed: "pp_reducer p = Waiting \<Longrightarrow> pp_enq p = Returned \<Longrightarrow> reduce_step lt p (p\<lparr>pp_reducer := Collecting 0 []\<rparr>)"
| collect: "pp_reducer p = Collecting (Suc n) buf \<Longrightarrow> pp_mapped p = v # vs \<Longrightarrow>
    reduce_step lt p (p\<lparr>pp_reducer := Collecting n (buf @ [v]), pp_mapped := vs\<rparr>)"
| sort_results: "pp_reducer p = Collecting 0 buf \<Longrightarrow> mset es = mset buf \<Longrightarrow> sorted_wrt (\<lambda>a b. \<not> lt b a) es \<Longrightarrow>
    reduce_step lt p (p\<lparr>pp_reducer := Sending es\<rparr>)"
| send: "pp_reducer p = Sending (e # es) \<Longrightarrow> reduce_step lt p (p\<lparr>pp_reducer := Sending es, pp_results := pp_results p @ [e]\<rparr>)"
| drained: "pp_reducer p = Sending [] \<Longrightarrow> pp_enq p = Awaiting b \<Longrightarrow>
    reduce_step lt p (p\<lparr>pp_reducer := Waiting, pp_q := 0, pp_enq := (if b then Returned else Reading)\<rparr>)"

definition pipe_step :: "('q \<Rightarrow> 'r option) \<Rightarrow> ('r \<Rightarrow> 'r \<Rightarrow> bool) \<Rightarrow> nat \<Rightarrow> nat \<Rightarrow> ('q, 'r) pipe \<Rightarrow> ('q, 'r) pipe \<Rightarrow> bool" where
  "pipe_step f lt par cap p p' \<longleftrightarrow> enqueue_step par cap p p' \<or> worker_step f par cap p p' \<or> reduce_step lt p p'"

text \<open>
  Runs, with the requests that readers of the log have sent so far: readers send while \<open>requests\<close> is open, and it is
  closed when another follower joins.
\<close>

inductive pipe_run :: "('q \<Rightarrow> 'r option) \<Rightarrow> ('r \<Rightarrow> 'r \<Rightarrow> bool) \<Rightarrow> nat \<Rightarrow> nat \<Rightarrow> 'q list \<Rightarrow> ('q, 'r) pipe \<Rightarrow> bool" for f lt par cap where
  start: "pipe_run f lt par cap [] startParallelEntryProcessing"
| submit: "pipe_run f lt par cap sent p \<Longrightarrow> \<not> pp_closed p \<Longrightarrow> pipe_run f lt par cap (sent @ [r]) (p\<lparr>pp_requests := pp_requests p @ [r]\<rparr>)"
| close: "pipe_run f lt par cap sent p \<Longrightarrow> pipe_run f lt par cap sent (p\<lparr>pp_closed := True\<rparr>)"
| step: "pipe_run f lt par cap sent p \<Longrightarrow> pipe_step f lt par cap p p' \<Longrightarrow> pipe_run f lt par cap sent p'"

end
