(* ===== verification/PipelineProps.thy ===== *)
theory PipelineProps
  imports Pipeline ClusterProps "HOL-Library.Sublist"
begin

text \<open>
  Correctness of the parallel processing of entries: whatever the interleaving, the results of a stream come in the order
  in which its entries were sent; every run comes to an end, with everything delivered, provided that no entry makes a
  worker panic; and an entry that does stalls the followers for good.
\<close>

section \<open>Every run comes to an end\<close>

definition enq_weight :: "nat \<Rightarrow> 'q enqueuer \<Rightarrow> nat" where
  "enq_weight q e =
     (case e of Reading \<Rightarrow> if 0 < q then 10 else 5 | Putting _ \<Rightarrow> 29 | Offering _ \<Rightarrow> 9 | Awaiting _ \<Rightarrow> 8 | Returned \<Rightarrow> 3)"

definition red_weight :: "'r reducer \<Rightarrow> nat" where
  "red_weight r = (case r of Waiting \<Rightarrow> 2 | Collecting n buf \<Rightarrow> 1 + 5 * length buf | Sending es \<Rightarrow> 4 * length es)"

definition pipe_weight :: "('q, 'r) pipe \<Rightarrow> nat" where
  "pipe_weight p = 30 * length (pp_requests p) + 8 * length (pp_in p) + 7 * length (pp_workers p) + 6 * length (pp_mapped p) +
     enq_weight (pp_q p) (pp_enq p) + red_weight (pp_reducer p)"

lemma enqueue_step_weight: "enqueue_step par cap p p' \<Longrightarrow> pipe_weight p' < pipe_weight p"
  by (induction rule: enqueue_step.induct) (simp_all add: pipe_weight_def enq_weight_def)

lemma length_remove1_mem: "r \<in> set xs \<Longrightarrow> length xs = Suc (length (remove1 r xs))"
  by (induction xs) auto

lemma worker_step_weight: "worker_step f par cap p p' \<Longrightarrow> pipe_weight p' < pipe_weight p"
  by (induction rule: worker_step.induct) (simp_all add: pipe_weight_def length_remove1_mem)

lemma reduce_step_weight: "reduce_step lt p p' \<Longrightarrow> pipe_weight p' < pipe_weight p"
proof (induction rule: reduce_step.induct)
  case (sort_results p buf es)
  have "length es = length buf" using sort_results(2) by (metis size_mset)
  then show ?case using sort_results by (simp add: pipe_weight_def red_weight_def)
qed (simp_all add: pipe_weight_def enq_weight_def red_weight_def)

lemma pipe_step_weight: "pipe_step f lt par cap p p' \<Longrightarrow> pipe_weight p' < pipe_weight p"
  using enqueue_step_weight worker_step_weight reduce_step_weight unfolding pipe_step_def by blast

section \<open>Invariant\<close>

text \<open>What is delivered: batch after batch, each of them sorted.\<close>

inductive delivered :: "('q \<Rightarrow> 'r) \<Rightarrow> ('r \<Rightarrow> 'r \<Rightarrow> bool) \<Rightarrow> 'q list \<Rightarrow> 'r list \<Rightarrow> bool" for g lt where
  nothing: "delivered g lt [] []"
| batch: "delivered g lt rs out \<Longrightarrow> mset es = mset (map g b) \<Longrightarrow> sorted_wrt (\<lambda>a b. \<not> lt b a) es \<Longrightarrow> delivered g lt (rs @ b) (out @ es)"

definition got :: "('q \<Rightarrow> 'r option) \<Rightarrow> 'q \<Rightarrow> 'r" where "got f r = the (f r)"

lemma got_Some [simp]: "f r = Some v \<Longrightarrow> got f r = v"
  by (simp add: got_def)

fun putting :: "'q enqueuer \<Rightarrow> 'q list" where
  "putting (Putting r) = [r]"
| "putting _ = []"

fun held :: "'r reducer \<Rightarrow> 'r list" where
  "held Waiting = []"
| "held (Collecting n buf) = buf"
| "held (Sending es) = es"

fun enq_ok :: "nat \<Rightarrow> nat \<Rightarrow> 'q enqueuer \<Rightarrow> bool" where
  "enq_ok par q (Offering b) = (0 < q \<and> q \<le> par)"
| "enq_ok par q (Awaiting b) = (q \<le> par)"
| "enq_ok par q Returned = (q = 0)"
| "enq_ok par q _ = (q < par)"

fun awaits :: "'q enqueuer \<Rightarrow> bool" where
  "awaits (Awaiting b) = True"
| "awaits Returned = True"
| "awaits _ = False"

fun leaving :: "'q enqueuer \<Rightarrow> bool" where
  "leaving (Offering b) = b"
| "leaving (Awaiting b) = b"
| "leaving Returned = True"
| "leaving _ = False"

fun red_ok :: "('r \<Rightarrow> 'r \<Rightarrow> bool) \<Rightarrow> nat \<Rightarrow> 'q enqueuer \<Rightarrow> 'r list \<Rightarrow> 'r reducer \<Rightarrow> bool" where
  "red_ok lt q e cur Waiting = (cur = [] \<and> (\<forall>b. e \<noteq> Awaiting b))"
| "red_ok lt q e cur (Collecting n buf) = (cur = [] \<and> n + length buf = q \<and> awaits e)"
| "red_ok lt q e cur (Sending es) = (sorted_wrt (\<lambda>a b. \<not> lt b a) (cur @ es) \<and> length cur + length es = q \<and> awaits e)"

definition batch_inv :: "('q \<Rightarrow> 'r option) \<Rightarrow> ('r \<Rightarrow> 'r \<Rightarrow> bool) \<Rightarrow> nat \<Rightarrow> 'q list \<Rightarrow> 'r list \<Rightarrow> ('q, 'r) pipe \<Rightarrow> bool" where
  "batch_inv f lt par b cur p \<longleftrightarrow> length b = pp_q p \<and> (\<forall>r \<in> set (pp_in p @ pp_workers p). f r \<noteq> None) \<and>
     mset (map (got f) (pp_in p @ pp_workers p)) + mset (pp_mapped p) + mset (held (pp_reducer p)) + mset cur = mset (map (got f) b) \<and>
     enq_ok par (pp_q p) (pp_enq p) \<and> red_ok lt (pp_q p) (pp_enq p) cur (pp_reducer p) \<and>
     (leaving (pp_enq p) \<longrightarrow> pp_closed p \<and> pp_requests p = [])"

definition pipe_inv :: "('q \<Rightarrow> 'r option) \<Rightarrow> ('r \<Rightarrow> 'r \<Rightarrow> bool) \<Rightarrow> nat \<Rightarrow> 'q list \<Rightarrow> ('q, 'r) pipe \<Rightarrow> bool" where
  "pipe_inv f lt par sent p \<longleftrightarrow>
     (\<exists>rs b out cur. sent = rs @ b @ putting (pp_enq p) @ pp_requests p \<and> pp_results p = out @ cur \<and> delivered (got f) lt rs out \<and> batch_inv f lt par b cur p)"

lemma pipe_invI:
  "sent = rs @ b @ putting (pp_enq p) @ pp_requests p \<Longrightarrow> pp_results p = out @ cur \<Longrightarrow> delivered (got f) lt rs out \<Longrightarrow> batch_inv f lt par b cur p \<Longrightarrow>
   pipe_inv f lt par sent p"
  unfolding pipe_inv_def by blast

lemma batch_size:
  assumes "batch_inv f lt par b cur p"
  shows "length (pp_in p) + length (pp_workers p) + length (pp_mapped p) + length (held (pp_reducer p)) + length cur = pp_q p"
proof -
  have m: "mset (map (got f) (pp_in p @ pp_workers p)) + mset (pp_mapped p) + mset (held (pp_reducer p)) + mset cur = mset (map (got f) b)"
    and b: "length b = pp_q p" using assms unfolding batch_inv_def by blast+
  from arg_cong [OF m, of size] show ?thesis unfolding b [symmetric] by (simp only: size_union size_mset length_map length_append)
qed

lemma enqueue_step_inv:
  assumes "enqueue_step par cap p p'" "pipe_inv f lt par sent p" "\<forall>r \<in> set sent. f r \<noteq> None" "0 < par"
  shows "pipe_inv f lt par sent p'"
proof -
  obtain rs b out cur where i: "sent = rs @ b @ putting (pp_enq p) @ pp_requests p" "pp_results p = out @ cur"
    "delivered (got f) lt rs out" "batch_inv f lt par b cur p"
    using assms(2) unfolding pipe_inv_def by blast
  from assms(1) i assms(3) show ?thesis
  proof (induction rule: enqueue_step.induct)
    case (take_request p r rs')
    then show ?case
      by (intro pipe_invI [where rs = rs and b = b and out = out and cur = cur])
        (auto simp: batch_inv_def elim!: red_ok.elims split: reducer.splits)
  next
    case (put_request p r)
    then show ?case
      by (intro pipe_invI [where rs = rs and b = "b @ [r]" and out = out and cur = cur])
        (auto simp: batch_inv_def elim!: red_ok.elims split: reducer.splits)
  next
    case (no_request p)
    then show ?case
      by (intro pipe_invI [where rs = rs and b = b and out = out and cur = cur])
        (auto simp: batch_inv_def elim!: red_ok.elims split: reducer.splits)
  next
    case (closed p)
    then show ?case
      by (intro pipe_invI [where rs = rs and b = b and out = out and cur = cur])
        (auto simp: batch_inv_def elim!: red_ok.elims split: reducer.splits)
  qed
qed

lemma worker_step_inv:
  assumes "worker_step f par cap p p'" "pipe_inv f lt par sent p"
  shows "pipe_inv f lt par sent p'"
proof -
  obtain rs b out cur where i: "sent = rs @ b @ putting (pp_enq p) @ pp_requests p" "pp_results p = out @ cur"
    "delivered (got f) lt rs out" "batch_inv f lt par b cur p"
    using assms(2) unfolding pipe_inv_def by blast
  from assms(1) i show ?thesis
  proof (induction rule: worker_step.induct)
    case (map_work r p v)
    have "mset (pp_workers p) = add_mset r (mset (remove1 r (pp_workers p)))" using map_work(1) by simp
    then have "mset (map (got f) (pp_workers p)) = add_mset v (mset (map (got f) (remove1 r (pp_workers p))))"
      using map_work(2) by (simp only: mset_map image_mset_add_mset got_Some)
    then show ?case using map_work
      by (intro pipe_invI [where rs = rs and b = b and out = out and cur = cur])
        (auto simp: batch_inv_def dest: notin_set_remove1)
  next
    case (panic r p)
    then have "f r \<noteq> None" unfolding batch_inv_def by auto
    then show ?case using panic(2) by simp
  qed (auto simp: batch_inv_def intro!: pipe_invI [where rs = rs and b = b and out = out and cur = cur])
qed

lemma reduce_step_inv:
  assumes "reduce_step lt p p'" "pipe_inv f lt par sent p" "0 < par"
  shows "pipe_inv f lt par sent p'"
proof -
  obtain rs b out cur where i: "sent = rs @ b @ putting (pp_enq p) @ pp_requests p" "pp_results p = out @ cur"
    "delivered (got f) lt rs out" "batch_inv f lt par b cur p"
    using assms(2) unfolding pipe_inv_def by blast
  from assms(1) i show ?thesis
  proof (induction rule: reduce_step.induct)
    case (sort_results p buf es)
    have "length es = length buf" using sort_results(2) by (metis size_mset)
    then show ?case using sort_results
      by (auto simp: batch_inv_def intro!: pipe_invI [where rs = rs and b = b and out = out and cur = cur])
  next
    case (send p e es)
    then show ?case
      by (auto simp: batch_inv_def intro!: pipe_invI [where rs = rs and b = b and out = out and cur = "cur @ [e]"])
  next
    case (drained p b')
    have "length cur = pp_q p" using drained by (simp add: batch_inv_def)
    then have "pp_in p = []" "pp_workers p = []" "pp_mapped p = []" using batch_size [OF drained(6)] by auto
    moreover from this have "mset cur = mset (map (got f) b)" using drained by (simp add: batch_inv_def)
    ultimately have e: "pp_in p = []" "pp_workers p = []" "pp_mapped p = []" "mset cur = mset (map (got f) b)" by blast+
    then have "delivered (got f) lt (rs @ b) (out @ cur)" using drained by (intro delivered.batch) (simp_all add: batch_inv_def)
    then show ?case using drained e assms(3)
      by (intro pipe_invI [where rs = "rs @ b" and b = "[]" and out = "out @ cur" and cur = "[]"]) (auto simp: batch_inv_def)
  qed (auto simp: batch_inv_def intro!: pipe_invI [where rs = rs and b = b and out = out and cur = cur])
qed

lemma pipe_run_inv:
  assumes "pipe_run f lt par cap sent p" "\<forall>r \<in> set sent. f r \<noteq> None" "0 < par"
  shows "pipe_inv f lt par sent p"
  using assms
proof (induction rule: pipe_run.induct)
  case start
  then show ?case
    by (intro pipe_invI [where rs = "[]" and b = "[]" and out = "[]" and cur = "[]"])
      (auto simp: startParallelEntryProcessing_def batch_inv_def intro: delivered.nothing)
next
  case (submit sent p r)
  then have "pipe_inv f lt par sent p" by simp
  then show ?case using submit(2) unfolding pipe_inv_def batch_inv_def by fastforce
next
  case (close sent p)
  then have "pipe_inv f lt par sent p" by simp
  then show ?case unfolding pipe_inv_def batch_inv_def by fastforce
next
  case (step sent p p')
  then show ?case using enqueue_step_inv worker_step_inv reduce_step_inv unfolding pipe_step_def by metis
qed

section \<open>Nothing gets stuck\<close>

lemma sorted_permutation_exists:
  assumes "\<And>a b. lt a b \<Longrightarrow> \<not> lt b a" "\<And>a b c. \<not> lt b a \<Longrightarrow> \<not> lt c b \<Longrightarrow> \<not> lt c a"
  shows "\<exists>es. mset es = mset buf \<and> sorted_wrt (\<lambda>a b. \<not> lt b a) es"
proof -
  have ins: "\<exists>es'. mset es' = add_mset x (mset es) \<and> sorted_wrt (\<lambda>a b. \<not> lt b a) es'" if "sorted_wrt (\<lambda>a b. \<not> lt b a) es" for x es
    using that
  proof (induction es)
    case (Cons e es)
    show ?case
    proof (cases "lt e x")
      case True
      obtain es' where "mset es' = add_mset x (mset es)" "sorted_wrt (\<lambda>a b. \<not> lt b a) es'" using Cons by auto
      moreover from this(1) have "set es' = insert x (set es)" by (metis set_mset_add_mset_insert set_mset_mset)
      ultimately show ?thesis using Cons.prems True assms(1) by (intro exI [of _ "e # es'"]) auto
    next
      case False
      then show ?thesis using Cons.prems assms(2) by (intro exI [of _ "x # e # es"]) auto
    qed
  qed simp
  show ?thesis
    by (induction buf) (use ins in \<open>auto, fastforce\<close>)
qed

lemma Awaiting_progress:
  assumes "batch_inv f lt par b cur p" "0 < par" "par \<le> cap" "\<And>buf. \<exists>es. mset es = mset buf \<and> sorted_wrt (\<lambda>a b. \<not> lt b a) es"
    "pp_reducer p = Collecting n buf"
  shows "\<exists>p'. pipe_step f lt par cap p p'"
proof (cases n)
  case 0
  then show ?thesis using assms(4) [of buf] assms(5) unfolding pipe_step_def by (metis reduce_step.sort_results)
next
  case (Suc m)
  have q: "pp_q p = Suc m + length buf" "cur = []" "pp_q p \<le> par" "\<forall>r \<in> set (pp_workers p). f r \<noteq> None"
    using assms(1,5) Suc by (auto simp: batch_inv_def elim: enq_ok.elims awaits.elims)
  have len: "length (pp_in p) + length (pp_workers p) + length (pp_mapped p) = Suc m"
    using batch_size [OF assms(1)] assms(5) q(1,2) by simp
  show ?thesis
  proof (cases "pp_mapped p")
    case (Cons v vs)
    then show ?thesis using assms(5) Suc unfolding pipe_step_def by (metis reduce_step.collect)
  next
    case mapped: Nil
    show ?thesis
    proof (cases "pp_workers p")
      case Nil
      then obtain r rs where "pp_in p = r # rs" using len mapped by (cases "pp_in p") auto
      then show ?thesis using Nil assms(2) unfolding pipe_step_def by (metis worker_step.take_work list.size(3))
    next
      case (Cons r ws)
      then obtain v where "f r = Some v" using q(4) by auto
      moreover have "r \<in> set (pp_workers p)" "length (pp_mapped p) < cap" using mapped Cons assms(2,3) by auto
      ultimately have "\<exists>p'. worker_step f par cap p p'" by (blast intro: worker_step.map_work)
      then show ?thesis unfolding pipe_step_def by blast
    qed
  qed
qed

lemma pipe_progress:
  assumes "pipe_inv f lt par sent p" "0 < par" "par \<le> cap" "\<And>buf. \<exists>es. mset es = mset buf \<and> sorted_wrt (\<lambda>a b. \<not> lt b a) es"
    "\<nexists>p'. pipe_step f lt par cap p p'"
  shows "delivered (got f) lt sent (pp_results p)"
proof -
  obtain rs b out cur where i: "sent = rs @ b @ putting (pp_enq p) @ pp_requests p" "pp_results p = out @ cur"
    "delivered (got f) lt rs out" "batch_inv f lt par b cur p"
    using assms(1) unfolding pipe_inv_def by blast
  note size = batch_size [OF i(4)]
  have no: "\<not> enqueue_step par cap p p'" "\<not> reduce_step lt p p'" for p' using assms(5) unfolding pipe_step_def by blast+
  have noc: "pp_reducer p \<noteq> Collecting n buf" for n buf using Awaiting_progress [OF i(4) assms(2-4)] assms(5) by blast
  show ?thesis
  proof (cases "pp_reducer p")
    case Waiting
    have enq: "enq_ok par (pp_q p) (pp_enq p)" "cur = []" "\<forall>b. pp_enq p \<noteq> Awaiting b" using i(4) Waiting by (auto simp: batch_inv_def)
    show ?thesis
    proof (cases "pp_enq p")
      case Reading
      then have "pp_requests p = []" using no(1) by (metis enqueue_step.take_request neq_Nil_conv)
      moreover from this have "\<not> pp_closed p" using no(1) Reading by (metis enqueue_step.closed)
      ultimately have "pp_q p = 0" "pp_requests p = []" using no(1) Reading by (metis enqueue_step.no_request neq0_conv)+
      then show ?thesis using i enq(2) Reading by (simp add: batch_inv_def)
    next
      case (Putting r)
      then have "length (pp_in p) < cap" using size enq(1) assms(3) by simp
      then show ?thesis using no(1) Putting by (metis enqueue_step.put_request)
    next
      case (Offering b)
      then show ?thesis using no(2) Waiting by (metis reduce_step.queued)
    next
      case (Awaiting b)
      then show ?thesis using enq(3) by blast
    next
      case Returned
      then show ?thesis using no(2) Waiting by (metis reduce_step.queued_closed)
    qed
  next
    case (Collecting n buf)
    then show ?thesis using noc by blast
  next
    case (Sending es)
    then have "es = []" using no(2) by (metis reduce_step.send neq_Nil_conv)
    then have "pp_enq p \<noteq> Awaiting b" for b using no(2) Sending by (metis reduce_step.drained)
    then have "pp_enq p = Returned" using i(4) Sending by (auto simp: batch_inv_def elim: awaits.elims)
    then show ?thesis using i Sending by (auto simp: batch_inv_def)
  qed
qed

section \<open>Order\<close>

lemma sorted_permutation_unique:
  "sorted_wrt lt xs \<Longrightarrow> sorted_wrt (\<lambda>a b. \<not> lt b a) ys \<Longrightarrow> mset ys = mset xs \<Longrightarrow> ys = xs"
proof (induction xs arbitrary: ys)
  case (Cons x xs)
  then obtain y ys' where ys: "ys = y # ys'" by (cases ys) auto
  have m: "add_mset y (mset ys') = add_mset x (mset xs)" using Cons.prems(3) ys by simp
  have "y = x"
  proof (rule ccontr)
    assume ne: "y \<noteq> x"
    then have "y \<in># mset xs" "x \<in># mset ys'" using m by (metis insert_iff set_mset_add_mset_insert)+
    then show False using Cons.prems(1,2) ys by auto
  qed
  then show ?case using Cons ys m by auto
qed simp

lemma batch_stream:
  assumes "mset es = mset (map g b)" "sorted_wrt (\<lambda>a b. \<not> lt b a) es" "\<And>r. r \<in> set b \<Longrightarrow> strm (g r) = rstrm r"
    "sorted_wrt (\<lambda>a b. lt (g a) (g b)) (filter (\<lambda>r. rstrm r = s) b)"
  shows "filter (\<lambda>v. strm v = s) es = map g (filter (\<lambda>r. rstrm r = s) b)"
proof (rule sorted_permutation_unique)
  have "filter (\<lambda>v. strm v = s) (map g b) = map g (filter (\<lambda>r. rstrm r = s) b)"
    using assms(3) by (induction b) auto
  then show "mset (filter (\<lambda>v. strm v = s) es) = mset (map g (filter (\<lambda>r. rstrm r = s) b))"
    using assms(1) by (metis mset_filter)
qed (use assms(2,4) in \<open>auto simp: sorted_wrt_map intro: sorted_wrt_filter\<close>)

lemma delivered_stream:
  assumes "delivered g lt rs out" "\<And>r. r \<in> set rs \<Longrightarrow> strm (g r) = rstrm r"
    "sorted_wrt (\<lambda>a b. lt (g a) (g b)) (filter (\<lambda>r. rstrm r = s) rs)"
  shows "filter (\<lambda>v. strm v = s) out = map g (filter (\<lambda>r. rstrm r = s) rs)"
  using assms
proof (induction rule: delivered.induct)
  case (batch rs out es b)
  then have "filter (\<lambda>v. strm v = s) es = map g (filter (\<lambda>r. rstrm r = s) b)"
    by (intro batch_stream [where lt = lt]) (auto simp: sorted_wrt_append)
  then show ?case using batch by (simp add: sorted_wrt_append)
qed simp

lemma pipe_inv_stream:
  assumes "pipe_inv f lt par sent p" "\<And>r. r \<in> set sent \<Longrightarrow> strm (got f r) = rstrm r"
    "sorted_wrt (\<lambda>a b. lt (got f a) (got f b)) (filter (\<lambda>r. rstrm r = s) sent)"
  shows "\<exists>k. filter (\<lambda>v. strm v = s) (pp_results p) = take k (map (got f) (filter (\<lambda>r. rstrm r = s) sent))"
proof -
  let ?F = "filter (\<lambda>v. strm v = s)" and ?R = "filter (\<lambda>r. rstrm r = s)"
  obtain rs b out cur where i: "sent = rs @ b @ putting (pp_enq p) @ pp_requests p" "pp_results p = out @ cur"
    "delivered (got f) lt rs out" "batch_inv f lt par b cur p"
    using assms(1) unfolding pipe_inv_def by blast
  have out: "?F out = map (got f) (?R rs)"
    using assms(2,3) i(1) by (intro delivered_stream [OF i(3)]) (auto simp: sorted_wrt_append)
  have "\<exists>l. ?F (cur @ l) = map (got f) (?R b) \<or> cur = []"
  proof (cases "pp_reducer p")
    case (Sending es)
    have "length cur + length es = pp_q p" "sorted_wrt (\<lambda>a b. \<not> lt b a) (cur @ es)" using i(4) Sending by (auto simp: batch_inv_def)
    moreover have "length (held (pp_reducer p)) = length es" using Sending by simp
    with calculation(1) have "length (pp_in p) + length (pp_workers p) + length (pp_mapped p) = 0" using batch_size [OF i(4)] by linarith
    then have "pp_in p = []" "pp_workers p = []" "pp_mapped p = []" by simp_all
    ultimately have "?F (cur @ es) = map (got f) (?R b)"
      using i(1,4) Sending assms(2,3) by (intro batch_stream [where lt = lt]) (auto simp: batch_inv_def sorted_wrt_append add.commute [of "mset es"])
    then show ?thesis by blast
  qed (use i(4) in \<open>auto simp: batch_inv_def\<close>)
  then obtain l where "?F cur @ ?F l = map (got f) (?R b) \<or> cur = []" by auto
  then have "prefix (?F cur) (map (got f) (?R b))" by (auto simp: prefix_def) metis
  then have "prefix (?F (pp_results p)) (map (got f) (?R sent))"
    unfolding i(1,2) by (simp add: out prefix_def) (metis append_assoc)
  then show ?thesis by (metis append_eq_conv_conj prefix_def)
qed

section \<open>Properties\<close>

lemma result_Less_laws:
  assumes "wal_laws wx"
  shows "result_Less wx a b \<Longrightarrow> \<not> result_Less wx b a" "\<not> result_Less wx b a \<Longrightarrow> \<not> result_Less wx c b \<Longrightarrow> \<not> result_Less wx c a"
  using assms unfolding result_Less_def wal_laws_def by metis+

lemma map_request_Some:
  "map_request X E I n r \<noteq> None \<Longrightarrow> rs_stream (got (map_request X E I n) r) = rq_stream r \<and> rs_offset (got (map_request X E I n) r) = rq_offset r"
  by (auto simp: map_request_def got_def bind_eq_None_conv)

text \<open>Entries of one stream are sent in the order of the log.\<close>

definition log_order :: "wal_ext \<Rightarrow> string \<Rightarrow> 'c partitionRequest list \<Rightarrow> bool" where
  "log_order wx s sent \<longleftrightarrow> sorted_wrt (\<lambda>a b. After wx (rq_offset b) (rq_offset a)) (filter (\<lambda>r. rq_stream r = s) sent)"

lemma log_order_results:
  assumes "log_order wx s sent" "\<forall>r \<in> set sent. map_request X E I n r \<noteq> None"
  shows "sorted_wrt (\<lambda>a b. result_Less wx (got (map_request X E I n) a) (got (map_request X E I n) b)) (filter (\<lambda>r. rq_stream r = s) sent)"
proof (rule sorted_wrt_mono_rel)
  fix a b
  assume "a \<in> set (filter (\<lambda>r. rq_stream r = s) sent)" "b \<in> set (filter (\<lambda>r. rq_stream r = s) sent)" "After wx (rq_offset b) (rq_offset a)"
  then show "result_Less wx (got (map_request X E I n) a) (got (map_request X E I n) b)"
    using assms(2) map_request_Some [of X E I n a] map_request_Some [of X E I n b] unfolding result_Less_def by auto
qed (use assms(1) in \<open>simp add: log_order_def\<close>)

text \<open>
  C19. Results keep the order of the log.  In every state of every run, the results of a stream that have been passed on
  are those of the first entries of that stream, each of them once and in the order of the log, although workers map
  entries in any order.
\<close>

theorem results_keep_log_order:
  assumes "pipe_run (map_request X E I n) (result_Less wx) par cap sent p" "0 < par"
    "\<forall>r \<in> set sent. map_request X E I n r \<noteq> None" "log_order wx s sent"
  shows "\<exists>k. filter (\<lambda>v. rs_stream v = s) (pp_results p) = take k (map (got (map_request X E I n)) (filter (\<lambda>r. rq_stream r = s) sent))"
  using pipe_run_inv [OF assms(1,3,2)] map_request_Some assms(3) log_order_results [OF assms(4,3)]
  by (intro pipe_inv_stream) blast+


text \<open>What can happen next: a step, another entry, or the end of the requests.\<close>

definition next_state :: "('q \<Rightarrow> 'r option) \<Rightarrow> ('r \<Rightarrow> 'r \<Rightarrow> bool) \<Rightarrow> nat \<Rightarrow> nat \<Rightarrow> ('q, 'r) pipe \<Rightarrow> ('q, 'r) pipe \<Rightarrow> bool" where
  "next_state f lt par cap p p' \<longleftrightarrow> pipe_step f lt par cap p p' \<or> (\<exists>r. p' = p\<lparr>pp_requests := pp_requests p @ [r]\<rparr>) \<or> p' = p\<lparr>pp_closed := True\<rparr>"

definition stalled :: "('q, 'r) pipe \<Rightarrow> bool" where
  "stalled p \<longleftrightarrow> pp_enq p = Awaiting False \<and> pp_reducer p = Collecting 1 [] \<and> pp_in p = [] \<and> pp_workers p = [] \<and> pp_mapped p = [] \<and> pp_results p = []"

inductive_simps pipe_step_simps: "enqueue_step par cap p p'" "worker_step f par cap p p'" "reduce_step lt p p'"

lemma stalled_next: "stalled p \<Longrightarrow> next_state f lt par cap p p' \<Longrightarrow> stalled p'"
  by (auto simp: stalled_def next_state_def pipe_step_def pipe_step_simps)

lemma panic_run:
  assumes "f r = None" "0 < par" "0 < cap"
  shows "\<exists>p. pipe_run f lt par cap [r] p \<and> stalled p"
proof -
  let ?p0 = "startParallelEntryProcessing\<lparr>pp_requests := [r]\<rparr>"
  let ?put = "?p0\<lparr>pp_requests := [], pp_in := [r], pp_q := 1, pp_enq := if 1 = par then Offering False else Reading\<rparr>"
  let ?off = "?put\<lparr>pp_enq := Offering False\<rparr>"
  let ?col = "?off\<lparr>pp_enq := Awaiting False, pp_reducer := Collecting 1 []\<rparr>"
  let ?wrk = "?col\<lparr>pp_in := [], pp_workers := [r]\<rparr>"
  note defs = startParallelEntryProcessing_def pipe_step_def
  have "pipe_run f lt par cap [r] ?p0"
    using pipe_run.submit [OF pipe_run.start, where r = r and f = f and lt = lt and par = par and cap = cap]
    by (simp add: startParallelEntryProcessing_def)
  then have "pipe_run f lt par cap [r] (?p0\<lparr>pp_requests := [], pp_enq := Putting r\<rparr>)"
    by (rule pipe_run.step) (simp add: defs pipe_step_simps)
  then have put: "pipe_run f lt par cap [r] ?put"
    by (rule pipe_run.step) (use assms(3) in \<open>simp add: defs pipe_step_simps\<close>)
  have "pipe_run f lt par cap [r] ?off"
  proof (cases "1 = par")
    case False
    then show ?thesis by (intro pipe_run.step [OF put]) (simp add: defs pipe_step_simps)
  qed (use put in simp)
  then have "pipe_run f lt par cap [r] ?col" by (rule pipe_run.step) (simp add: defs pipe_step_simps ex_bool_eq)
  then have "pipe_run f lt par cap [r] ?wrk" by (rule pipe_run.step) (use assms(2) in \<open>simp add: defs pipe_step_simps\<close>)
  then have "pipe_run f lt par cap [r] (?wrk\<lparr>pp_workers := []\<rparr>)" by (rule pipe_run.step) (use assms(1) in \<open>simp add: defs pipe_step_simps\<close>)
  moreover have "stalled (?wrk\<lparr>pp_workers := []\<rparr>)" by (simp add: stalled_def defs)
  ultimately show ?thesis by blast
qed


section \<open>Witnesses\<close>

definition sample_request :: "byte \<Rightarrow> bool partitionRequest" where
  "sample_request k = \<lparr> rq_partitions = sample_parts, rq_stream = ''s'', rq_data = [0, 0, 0, 0, 0, 0, 0, 1, 0, 0, 0, 1, k], rq_offset = [k] \<rparr>"

abbreviation "sample_map \<equiv> map_request sample_ext sample_store sample_insert 2"

lemma sample_request_maps: "sample_map (sample_request 3) \<noteq> None" "sample_map (sample_request 5) \<noteq> None"
  by code_simp+

lemma sample_pipe_run:
  "pipe_run sample_map (result_Less sample_wal) 2 4 [sample_request 3, sample_request 5]
     (startParallelEntryProcessing\<lparr>pp_requests := [sample_request 3, sample_request 5]\<rparr>)"
proof -
  have "pipe_run sample_map (result_Less sample_wal) 2 4 ([] @ [sample_request 3]) (startParallelEntryProcessing\<lparr>pp_requests := [] @ [sample_request 3]\<rparr>)"
    using pipe_run.submit [OF pipe_run.start] by (simp add: startParallelEntryProcessing_def)
  from pipe_run.submit [OF this, of "sample_request 5"] show ?thesis by (simp add: startParallelEntryProcessing_def)
qed

lemma sample_log_order: "log_order sample_wal ''s'' [sample_request 3, sample_request 5]"
  by (simp add: log_order_def sample_request_def sample_wal_def)

theorem results_keep_log_order_witness:
  "\<exists>k. filter (\<lambda>v. rs_stream v = ''s'') (pp_results (startParallelEntryProcessing\<lparr>pp_requests := [sample_request 3, sample_request 5]\<rparr>)) =
     take k (map (got sample_map) (filter (\<lambda>r. rq_stream r = ''s'') [sample_request 3, sample_request 5]))"
  using results_keep_log_order [OF sample_pipe_run _ _ sample_log_order] sample_request_maps by simp



end
