(* ===== verification/Metrics.thy ===== *)
theory Metrics
  imports Cluster
begin

text \<open>
  Counters about the cluster (metrics/metrics.go): the followers that have joined the leader, the number of followers of
  every partition, and the statistics made from them.  The maps are association lists; \<open>None\<close> is a nil dereference.
\<close>

section \<open>State\<close>

record leaderStats =
  ls_NumPartitions :: int
  ls_ConnectedPartitions :: int
  ls_ConnectedFollowers :: int
  ls_CurrentlyReadingWAL :: string

record followerStats =
  fs_FollowerID :: followerID
  fs_Queued :: int

record partitionStats =
  pst_Partition :: int
  pst_NumFollowers :: int

record metrics =
  mt_leader :: leaderStats
  mt_followers :: "(followerID \<times> followerStats) list"
  mt_partitions :: "(int \<times> partitionStats) list"

definition reset :: metrics where
  "reset = \<lparr> mt_leader = \<lparr> ls_NumPartitions = 0, ls_ConnectedPartitions = 0, ls_ConnectedFollowers = 0, ls_CurrentlyReadingWAL = [] \<rparr>,
     mt_followers = [], mt_partitions = [] \<rparr>"

section \<open>Operations\<close>

definition SetNumPartitions :: "int \<Rightarrow> metrics \<Rightarrow> metrics" where
  "SetNumPartitions n m = m\<lparr>mt_leader := (mt_leader m)\<lparr>ls_NumPartitions := n\<rparr>\<rparr>"

text \<open>\<open>CurrentlyReadingWAL\<close>, with \<open>offset.TS().Format(time.RFC3339)\<close> as argument.\<close>

definition CurrentlyReadingWAL :: "(offset \<Rightarrow> string) \<Rightarrow> offset \<Rightarrow> metrics \<Rightarrow> metrics" where
  "CurrentlyReadingWAL formatTS off m = m\<lparr>mt_leader := (mt_leader m)\<lparr>ls_CurrentlyReadingWAL := formatTS off\<rparr>\<rparr>"

definition getFollowerStats :: "followerID \<Rightarrow> metrics \<Rightarrow> followerStats \<times> metrics" where
  "getFollowerStats fid m =
     (case map_of (mt_followers m) fid of
        Some fs \<Rightarrow> (fs, m)
      | None \<Rightarrow> let fs = \<lparr> fs_FollowerID = fid, fs_Queued = 0 \<rparr> in (fs, m\<lparr>mt_followers := AList.update fid fs (mt_followers m)\<rparr>))"

definition FollowerJoined :: "followerID \<Rightarrow> metrics \<Rightarrow> metrics" where
  "FollowerJoined fid m =
     (let m = snd (getFollowerStats fid m);
          ps = (case map_of (mt_partitions m) (fst fid) of Some ps \<Rightarrow> ps | None \<Rightarrow> \<lparr> pst_Partition = fst fid, pst_NumFollowers = 0 \<rparr>)
      in m\<lparr>mt_partitions := AList.update (fst fid) (ps\<lparr>pst_NumFollowers := pst_NumFollowers ps + 1\<rparr>) (mt_partitions m)\<rparr>)"

definition FollowerFailed :: "followerID \<Rightarrow> metrics \<Rightarrow> metrics go" where
  "FollowerFailed fid m =
     (case map_of (mt_followers m) fid of
        None \<Rightarrow> Some m
      | Some fs \<Rightarrow>
          do { let p = fst (fs_FollowerID fs);
               ps \<leftarrow> map_of (mt_partitions m) p;
               let n = pst_NumFollowers ps - 1;
               Some (m\<lparr>mt_followers := AList.delete fid (mt_followers m),
                 mt_partitions := (if n = 0 then AList.delete p (mt_partitions m)
                   else AList.update p (ps\<lparr>pst_NumFollowers := n\<rparr>) (mt_partitions m))\<rparr>) })"

definition QueuedForFollower :: "followerID \<Rightarrow> int \<Rightarrow> metrics \<Rightarrow> metrics" where
  "QueuedForFollower fid queued m =
     (case map_of (mt_followers m) fid of
        None \<Rightarrow> m
      | Some fs \<Rightarrow> m\<lparr>mt_followers := AList.update fid (fs\<lparr>fs_Queued := queued\<rparr>) (mt_followers m)\<rparr>)"

definition follower_Less :: "followerStats \<Rightarrow> followerStats \<Rightarrow> bool" where
  "follower_Less a b \<longleftrightarrow> fst (fs_FollowerID a) < fst (fs_FollowerID b) \<or> snd (fs_FollowerID a) < snd (fs_FollowerID b)"

definition partition_Less :: "partitionStats \<Rightarrow> partitionStats \<Rightarrow> bool" where
  "partition_Less a b \<longleftrightarrow> pst_Partition a < pst_Partition b"

text \<open>\<open>GetStats\<close>; the sorting algorithm is an argument, because \<open>follower_Less\<close> is not an order.\<close>

definition GetStats ::
  "((followerStats \<Rightarrow> followerStats \<Rightarrow> bool) \<Rightarrow> followerStats list \<Rightarrow> followerStats list)
   \<Rightarrow> ((partitionStats \<Rightarrow> partitionStats \<Rightarrow> bool) \<Rightarrow> partitionStats list \<Rightarrow> partitionStats list) \<Rightarrow> metrics
   \<Rightarrow> leaderStats \<times> followerStats list \<times> partitionStats list" where
  "GetStats sortF sortP m =
     ((mt_leader m)\<lparr>ls_ConnectedPartitions := int (length (mt_partitions m)), ls_ConnectedFollowers := int (length (mt_followers m))\<rparr>,
      sortF follower_Less (map snd (mt_followers m)), sortP partition_Less (map snd (mt_partitions m)))"

section \<open>Events\<close>

datatype metrics_event = Joined followerID | Failed followerID | Queued followerID int

definition metrics_step :: "metrics_event \<Rightarrow> metrics \<Rightarrow> metrics go" where
  "metrics_step e m =
     (case e of Joined fid \<Rightarrow> Some (FollowerJoined fid m) | Failed fid \<Rightarrow> FollowerFailed fid m | Queued fid n \<Rightarrow> Some (QueuedForFollower fid n m))"

fun metrics_run :: "metrics_event list \<Rightarrow> metrics \<Rightarrow> metrics go" where
  "metrics_run [] m = Some m"
| "metrics_run (e # es) m = do { m \<leftarrow> metrics_step e m; metrics_run es m }"

text \<open>The followers that are connected after some events, and that nobody joins twice.\<close>

fun connected :: "metrics_event list \<Rightarrow> followerID set \<Rightarrow> followerID set" where
  "connected [] F = F"
| "connected (Joined fid # es) F = connected es (insert fid F)"
| "connected (Failed fid # es) F = connected es (F - {fid})"
| "connected (Queued fid n # es) F = connected es F"

fun joins_once :: "metrics_event list \<Rightarrow> followerID set \<Rightarrow> bool" where
  "joins_once [] F = True"
| "joins_once (Joined fid # es) F = (fid \<notin> F \<and> joins_once es (insert fid F))"
| "joins_once (Failed fid # es) F = joins_once es (F - {fid})"
| "joins_once (Queued fid n # es) F = joins_once es F"

section \<open>Correctness\<close>

definition count_in :: "followerID set \<Rightarrow> int \<Rightarrow> nat" where "count_in F p = card {f \<in> F. fst f = p}"

definition part_map :: "followerID set \<Rightarrow> int \<rightharpoonup> partitionStats" where
  "part_map F p = (if count_in F p = 0 then None else Some \<lparr> pst_Partition = p, pst_NumFollowers = int (count_in F p) \<rparr>)"

definition metrics_inv :: "followerID set \<Rightarrow> metrics \<Rightarrow> bool" where
  "metrics_inv F m \<longleftrightarrow> finite F \<and> distinct (map fst (mt_followers m)) \<and> dom (map_of (mt_followers m)) = F \<and>
     (\<forall>fid fs. map_of (mt_followers m) fid = Some fs \<longrightarrow> fs_FollowerID fs = fid) \<and> distinct (map fst (mt_partitions m)) \<and>
     map_of (mt_partitions m) = part_map F"

lemma count_in_insert: "finite F \<Longrightarrow> fid \<notin> F \<Longrightarrow> count_in (insert fid F) p = count_in F p + (if fst fid = p then 1 else 0)"
proof -
  assume f: "finite F" "fid \<notin> F"
  have "{f \<in> insert fid F. fst f = p} = (if fst fid = p then insert fid {f \<in> F. fst f = p} else {f \<in> F. fst f = p})" by auto
  then show ?thesis using f by (simp add: count_in_def)
qed

lemma part_map_insert:
  "finite F \<Longrightarrow> fid \<notin> F \<Longrightarrow> part_map (insert fid F) = (part_map F)(fst fid \<mapsto> \<lparr> pst_Partition = fst fid, pst_NumFollowers = int (count_in F (fst fid)) + 1 \<rparr>)"
  by (auto simp: part_map_def count_in_insert)

lemma part_map_remove:
  assumes "finite F" "fid \<in> F" "n = count_in (F - {fid}) (fst fid)"
  shows "part_map F (fst fid) = Some \<lparr> pst_Partition = fst fid, pst_NumFollowers = int n + 1 \<rparr>"
    and "part_map (F - {fid}) = (part_map F)(fst fid := (if n = 0 then None else Some \<lparr> pst_Partition = fst fid, pst_NumFollowers = int n \<rparr>))"
proof -
  have F: "F = insert fid (F - {fid})" using assms(2) by blast
  have c: "count_in F p = count_in (F - {fid}) p + (if fst fid = p then 1 else 0)" for p
    using count_in_insert [of "F - {fid}" fid p] assms(1) F by simp
  show "part_map F (fst fid) = Some \<lparr> pst_Partition = fst fid, pst_NumFollowers = int n + 1 \<rparr>"
    by (simp add: part_map_def c assms(3))
  show "part_map (F - {fid}) = (part_map F)(fst fid := (if n = 0 then None else Some \<lparr> pst_Partition = fst fid, pst_NumFollowers = int n \<rparr>))"
    by (rule ext) (simp add: part_map_def c assms(3))
qed

lemma joined_inv:
  assumes "metrics_inv F m" "fid \<notin> F" shows "metrics_inv (insert fid F) (FollowerJoined fid m)"
proof -
  have f: "map_of (mt_followers m) fid = None" "finite F" "map_of (mt_partitions m) = part_map F"
    using assms unfolding metrics_inv_def by blast+
  then have "FollowerJoined fid m = m\<lparr>mt_followers := AList.update fid \<lparr> fs_FollowerID = fid, fs_Queued = 0 \<rparr> (mt_followers m),
      mt_partitions := AList.update (fst fid) \<lparr> pst_Partition = fst fid, pst_NumFollowers = int (count_in F (fst fid)) + 1 \<rparr> (mt_partitions m)\<rparr>"
    by (simp add: FollowerJoined_def getFollowerStats_def part_map_def Let_def)
  then show ?thesis using assms f
    by (simp add: metrics_inv_def update_conv' distinct_update part_map_insert)
qed

lemma failed_inv:
  assumes "metrics_inv F m" shows "\<exists>m'. FollowerFailed fid m = Some m' \<and> metrics_inv (F - {fid}) m'"
proof (cases "map_of (mt_followers m) fid")
  case None
  then have "F - {fid} = F" using assms unfolding metrics_inv_def by blast
  then show ?thesis using None assms by (simp add: FollowerFailed_def)
next
  case (Some fs)
  then have f: "fid \<in> F" "fs_FollowerID fs = fid" "finite F" "map_of (mt_partitions m) = part_map F"
    using assms unfolding metrics_inv_def by blast+
  define n where "n = count_in (F - {fid}) (fst fid)"
  note c = part_map_remove [OF f(3,1) n_def]
  have "FollowerFailed fid m = Some (m\<lparr>mt_followers := AList.delete fid (mt_followers m), mt_partitions :=
      (if n = 0 then AList.delete (fst fid) (mt_partitions m)
       else AList.update (fst fid) \<lparr> pst_Partition = fst fid, pst_NumFollowers = int n \<rparr> (mt_partitions m))\<rparr>)"
    using Some f c(1) by (simp add: FollowerFailed_def Let_def)
  moreover have "dom ((map_of (mt_followers m))(fid := None)) = F - {fid}" using assms unfolding metrics_inv_def by auto
  ultimately show ?thesis using assms f(4) c(2) by (auto simp: metrics_inv_def update_conv' delete_conv' distinct_update distinct_delete simp del: map_of_eq_Some_iff)
qed

lemma queued_inv: "metrics_inv F m \<Longrightarrow> metrics_inv F (QueuedForFollower fid n m)"
proof (cases "map_of (mt_followers m) fid")
  case (Some fs)
  assume "metrics_inv F m"
  moreover from this have "insert fid F = F" "fs_FollowerID fs = fid" using Some unfolding metrics_inv_def by blast+
  ultimately show ?thesis using Some by (simp add: metrics_inv_def QueuedForFollower_def update_conv' distinct_update del: map_of_eq_Some_iff)
qed (simp add: QueuedForFollower_def)

lemma metrics_run_inv: "metrics_inv F m \<Longrightarrow> joins_once es F \<Longrightarrow> \<exists>m'. metrics_run es m = Some m' \<and> metrics_inv (connected es F) m'"
proof (induction es F arbitrary: m rule: connected.induct)
  case (3 fid es F)
  then show ?case using failed_inv [of F m fid] by (auto simp: metrics_step_def)
qed (auto simp: metrics_step_def joined_inv queued_inv)

text \<open>
  The statistics of the cluster: if no follower joins again before it has failed, no operation panics, the leader counts the
  followers that are connected, and a partition is listed exactly if it has a connected follower, with their number.
\<close>

theorem connected_followers_counted:
  assumes "joins_once es {}" "F = connected es {}"
  shows "\<exists>m ls fss pss. metrics_run es reset = Some m \<and> GetStats (\<lambda>_ xs. xs) (\<lambda>_ xs. xs) m = (ls, fss, pss) \<and>
    ls_ConnectedFollowers ls = int (card F) \<and> ls_ConnectedPartitions ls = int (card (fst ` F)) \<and>
    fs_FollowerID ` set fss = F \<and> set pss = {\<lparr> pst_Partition = p, pst_NumFollowers = int (count_in F p) \<rparr> | p. p \<in> fst ` F}"
proof -
  have "metrics_inv {} reset" by (auto simp: metrics_inv_def reset_def count_in_def part_map_def)
  then obtain m where m: "metrics_run es reset = Some m" "metrics_inv F m" using metrics_run_inv assms by blast
  let ?P = "\<lambda>p. \<lparr> pst_Partition = p, pst_NumFollowers = int (count_in F p) \<rparr>"
  have fin: "finite F" and pm: "map_of (mt_partitions m) p = (if count_in F p = 0 then None else Some (?P p))" for p
    using m(2) by (simp_all add: metrics_inv_def part_map_def)
  have c: "count_in F p = 0 \<longleftrightarrow> p \<notin> fst ` F" for p using fin by (force simp: count_in_def card_eq_0_iff)
  have dm: "dom (map_of (mt_partitions m)) = fst ` F" unfolding dom_def pm using c by auto
  have dp: "fst ` set (mt_partitions m) = fst ` F" "distinct (map fst (mt_partitions m))"
    using dm m(2) by (simp_all add: metrics_inv_def dom_map_of_conv_image_fst)
  have df: "fst ` set (mt_followers m) = F" "distinct (map fst (mt_followers m))"
    using m(2) by (simp_all add: metrics_inv_def dom_map_of_conv_image_fst)
  have len: "length (mt_partitions m) = card (fst ` F)" "length (mt_followers m) = card F"
    using distinct_card [OF dp(2)] distinct_card [OF df(2)] dp(1) df(1) by simp_all
  have "fs_FollowerID (snd x) = fst x" if "x \<in> set (mt_followers m)" for x
  proof -
    have "map_of (mt_followers m) (fst x) = Some (snd x)" using df(2) that by simp
    then show ?thesis using m(2) unfolding metrics_inv_def by blast
  qed
  then have ids: "fs_FollowerID ` snd ` set (mt_followers m) = F" using df(1) by (simp add: image_image)
  have pss: "snd ` set (mt_partitions m) = {?P p | p. p \<in> fst ` F}"
  proof -
    have "(p, ps) \<in> set (mt_partitions m) \<longleftrightarrow> p \<in> fst ` F \<and> ps = ?P p" for p ps
      unfolding map_of_eq_Some_iff [OF dp(2), symmetric] pm c by auto
    then have "set (mt_partitions m) = (\<lambda>p. (p, ?P p)) ` (fst ` F)" by (intro set_eqI) (simp only: split_paired_all image_iff Pair_inject, blast)
    then show ?thesis by (simp only: image_image snd_conv Setcompr_eq_image)
  qed
  show ?thesis using m(1) len ids pss by (auto simp: GetStats_def)
qed

theorem connected_followers_counted_witness:
  "\<exists>m ls fss pss. metrics_run [Joined (0, 1), Joined (0, 2), Joined (1, 3), Failed (0, 1)] reset = Some m \<and>
     GetStats (\<lambda>_ xs. xs) (\<lambda>_ xs. xs) m = (ls, fss, pss) \<and> ls_ConnectedFollowers ls = 2"
proof -
  have "joins_once [Joined (0, 1), Joined (0, 2), Joined (1, 3), Failed (0, 1)] {}" by simp
  from connected_followers_counted [OF this refl] show ?thesis by (auto simp: insert_Diff_if)
qed

text \<open>
  A follower that joins again before its failure is noticed is counted twice and removed once, so that its
  partition stays connected although no follower is left.
\<close>

lemma rejoin_leaks_follower:
  "map_option (\<lambda>m. (map fst (mt_followers m), map (pst_NumFollowers \<circ> snd) (mt_partitions m)))
     (metrics_run [Joined (0, 1), Joined (0, 1), Failed (0, 1), Failed (0, 1)] reset) = Some ([], [1])"
  by code_simp

text \<open>The order of followers is not asymmetric.\<close>

lemma follower_Less_not_asymmetric:
  "follower_Less \<lparr> fs_FollowerID = (0, 2), fs_Queued = 0 \<rparr> \<lparr> fs_FollowerID = (1, 1), fs_Queued = 0 \<rparr> \<and>
   follower_Less \<lparr> fs_FollowerID = (1, 1), fs_Queued = 0 \<rparr> \<lparr> fs_FollowerID = (0, 2), fs_Queued = 0 \<rparr>"
  by (simp add: follower_Less_def)

end
