(* ===== verification/Planner.thy ===== *)
theory Planner
  imports Group Insert Duration
begin

text \<open>
  The package \<open>planner\<close>: how a parsed query becomes a tree of sources.  Sources are objects with an \<open>Iterate\<close> method; a
  plan is the tree of these objects, and the methods that describe a source (\<open>GetResolution\<close>, \<open>GetAsOf\<close>, \<open>GetUntil\<close>,
  \<open>GetGroupBy\<close>) are functions of it.  The parser, the regular expressions of the standard library and what is known about
  conditions are arguments.  \<open>None\<close> is a panic, or recursion into sub queries that has not come to an end with the
  fuel given.
\<close>

section \<open>Queries\<close>

record 'c sqlquery =
  q_SQL :: string
  q_Fields :: "'c fieldsource"
  q_FieldsNoHaving :: "'c fieldsource"
  q_HasSelectAll :: bool
  q_HasSpecificFields :: bool
  q_From :: string
  q_FromSQL :: string
  q_Resolution :: duration
  q_Where :: "'c option"
  q_WhereSQL :: string
  q_AsOf :: gotime
  q_AsOfOffset :: duration
  q_Until :: gotime
  q_UntilOffset :: duration
  q_Stride :: duration
  q_GroupBy :: "(string \<times> 'c) list"
  q_GroupByAll :: bool
  q_Crosstab :: "'c option"
  q_CrosstabIncludesTotal :: bool
  q_HasHaving :: bool
  q_HavingSQL :: string
  q_OrderBy :: "orderby list"
  q_Offset :: int
  q_Limit :: int
  q_ForceFresh :: bool

text \<open>\<open>FromSubQuery\<close> is a pointer to a query that may have one in turn: the chain of these queries, the outermost first.\<close>

record 'c query = "'c sqlquery" +
  q_FromSubQuery :: "'c sqlquery list"

definition chain :: "'c query \<Rightarrow> 'c sqlquery list" where
  "chain q = sqlquery.truncate q # q_FromSubQuery q"

text \<open>
  What other packages provide: \<open>sql.Parse\<close>, the sub queries in the lists of a condition (dimension and SQL), the parameters
  of an expression, those that its value determines, and \<open>FindStringIndex\<close> of the regular expression for a FROM clause.
\<close>

record 'c planner_ext =
  pl_parse :: "string \<Rightarrow> error + 'c query"
  pl_walkLists :: "'c \<Rightarrow> (string \<times> string) list"
  pl_walkParams :: "'c \<Rightarrow> string list"
  pl_oneToOneParams :: "'c \<Rightarrow> string list"
  pl_fromIndex :: "string \<Rightarrow> string \<Rightarrow> error + int option"

record 'c table_source =
  qt_Name :: string
  qt_Fields :: "'c fields"
  qt_info :: "'c source_info"
  qt_PartitionBy :: "string list"

record 'c opts =
  o_GetTable :: "string \<Rightarrow> ('c fields \<Rightarrow> error + 'c fields) \<Rightarrow> error + 'c table_source"
  o_Now :: "string \<Rightarrow> gotime"
  o_IsSubQuery :: bool
  o_SubQueryResults :: "goval option list list"
  o_QueryCluster :: bool

section \<open>Plans\<close>

text \<open>The sub queries of a condition: none, given results, or the plans to run with the dimension of each.\<close>

datatype 'p subqueries =
    NoSubQueries
  | GivenResults "goval option list list"
  | RunSubQueries "(string \<times> 'p) list"

text \<open>The sources of rows and, declared together with them, of flat rows that a plan is built from.\<close>

datatype 'c rowsource =
    TableRows "'c table_source"
  | ClusterRows "'c query" "'c rowsource"
  | Unflatten "'c flatsource" "'c fieldsource"
  | RowFilter "'c rowsource" string 'c "'c flatsource subqueries"
  | GroupRows "'c rowsource" "'c groupopts"
and 'c flatsource =
    ClusterFlatRows "'c query" "'c flatsource"
  | Flatten "'c rowsource"
  | HavingFilter "'c flatsource"
  | SortRows "'c flatsource" "orderby list"
  | OffsetRows "'c flatsource" int
  | LimitRows "'c flatsource" int

fun row_info :: "'c rowsource \<Rightarrow> 'c source_info"
and flat_info :: "'c flatsource \<Rightarrow> 'c source_info" where
  "row_info (TableRows t) = qt_info t"
| "row_info (ClusterRows q planAsIfLocal) = row_info planAsIfLocal"
| "row_info (Unflatten s fs) = flat_info s"
| "row_info (RowFilter s label w subs) = row_info s"
| "row_info (GroupRows s g) =
     \<lparr> si_groupBy = group_GetGroupBy g, si_resolution = group_GetResolution g (row_info s), si_asOf = group_GetAsOf g (row_info s),
       si_until = group_GetUntil g (row_info s) \<rparr>"
| "flat_info (ClusterFlatRows q planAsIfLocal) = flat_info planAsIfLocal"
| "flat_info (Flatten s) = row_info s"
| "flat_info (HavingFilter s) = flat_info s"
| "flat_info (SortRows s by) = flat_info s"
| "flat_info (OffsetRows s n) = flat_info s"
| "flat_info (LimitRows s n) = flat_info s"

text \<open>\<open>UnflattenOptimized\<close>: only a \<open>flatten\<close> is a transform of a row source.\<close>

fun UnflattenOptimized :: "'c flatsource \<Rightarrow> 'c rowsource" where
  "UnflattenOptimized (Flatten s) = s"
| "UnflattenOptimized s = Unflatten s PassthroughFieldSource"

type_synonym 'a planned = "(error + 'a) option"

definition rbind :: "'a planned \<Rightarrow> ('a \<Rightarrow> 'b planned) \<Rightarrow> 'b planned" where
  "rbind r f = (case r of None \<Rightarrow> None | Some (Inl err) \<Rightarrow> Some (Inl err) | Some (Inr x) \<Rightarrow> f x)"

section \<open>Common steps (planner.go, having.go)\<close>

definition addGroupBy :: "'c rowsource \<Rightarrow> 'c query \<Rightarrow> bool \<Rightarrow> duration \<Rightarrow> duration \<Rightarrow> 'c rowsource" where
  "addGroupBy source q applyResolution resolution strideSlice =
     GroupRows source (Group
       \<lparr> go_By = q_GroupBy q, go_Crosstab = q_Crosstab q, go_CrosstabIncludesTotal = q_CrosstabIncludesTotal q, go_Fields = Some (q_Fields q),
         go_Resolution = (if applyResolution then resolution else 0), go_AsOf = q_AsOf q, go_Until = q_Until q, go_StrideSlice = strideSlice \<rparr>)"

definition addOrderLimitOffset :: "'c flatsource \<Rightarrow> 'c query \<Rightarrow> 'c flatsource" where
  "addOrderLimitOffset flat q =
     (let flat = (if q_OrderBy q \<noteq> [] then SortRows flat (q_OrderBy q) else flat);
          flat = (if 0 < q_Offset q then OffsetRows flat (q_Offset q) else flat)
      in if 0 < q_Limit q then LimitRows flat (q_Limit q) else flat)"

text \<open>The filter of \<open>addHaving\<close>, and the fields that \<open>havingFilter\<close> passes on.\<close>

definition having_include :: "'c flatrow \<Rightarrow> 'c fields \<Rightarrow> 'c flatrow option go" where
  "having_include row fs =
     (let havingIdx = int (length fs) - 1 in
      if havingIdx < 0 \<or> int (length (fr_Values row)) \<le> havingIdx then None
      else if feq (fr_Values row ! nat havingIdx) (float_of_int 1) then Some (Some (row\<lparr>fr_Values := take (nat havingIdx) (fr_Values row)\<rparr>))
      else Some None)"

definition cleanedFields :: "'c fields \<Rightarrow> 'c fields" where
  "cleanedFields fs = filter (\<lambda>f. f_name f \<noteq> HavingFieldName) fs"

section \<open>Sub queries (subquery.go)\<close>

definition pointsAndHaving_Get :: "'c fieldsource \<Rightarrow> 'c fields \<Rightarrow> error + 'c fields" where
  "pointsAndHaving_Get wrapped known =
     (case fieldsource_Get wrapped known of
        Inl err \<Rightarrow> Inl err
      | Inr origFields \<Rightarrow> Inr (PointsField # filter (\<lambda>f. f_name f = HavingFieldName) origFields))"

definition fixupSubQuery :: "'c query \<Rightarrow> 'c opts \<Rightarrow> 'c query" where
  "fixupSubQuery q opts = (if o_IsSubQuery opts then q\<lparr>q_Fields := OtherFieldSource (pointsAndHaving_Get (q_Fields q))\<rparr> else q)"

fun plan_all :: "('q \<Rightarrow> 'p planned) \<Rightarrow> ('d \<times> 'q) list \<Rightarrow> ('d \<times> 'p) list planned" where
  "plan_all plan [] = Some (Inr [])"
| "plan_all plan ((d, sql) # sqs) = rbind (plan sql) (\<lambda>p. rbind (plan_all plan sqs) (\<lambda>ps. Some (Inr ((d, p) # ps))))"

definition planSubQueries :: "'c planner_ext \<Rightarrow> ('c opts \<Rightarrow> string \<Rightarrow> 'c flatsource planned) \<Rightarrow> 'c opts \<Rightarrow> 'c \<Rightarrow> 'c flatsource subqueries planned" where
  "planSubQueries P plan opts w =
     (let subQueries = pl_walkLists P w in
      if length (o_SubQueryResults opts) = length subQueries
      then Some (Inr (if subQueries = [] then NoSubQueries else GivenResults (o_SubQueryResults opts)))
      else rbind (plan_all (plan (opts\<lparr>o_IsSubQuery := True\<rparr>)) subQueries)
             (\<lambda>plans. Some (Inr (if subQueries = [] then NoSubQueries else RunSubQueries plans))))"

text \<open>
  Running sub queries, with the rows and the error that a plan delivers as argument: the values of a dimension without
  duplicates, and the error that is kept.
\<close>

definition subquery_dims :: "bm_get \<Rightarrow> string \<Rightarrow> 'c flatrow list \<times> error option \<Rightarrow> goval option list" where
  "subquery_dims get d r = (if snd r = None \<or> snd r = Some ErrDeadlineExceeded then remdups (map (\<lambda>row. get (fr_Key row) d) (fst r)) else [])"

fun keep_error :: "error option \<Rightarrow> error option \<Rightarrow> error option" where
  "keep_error finalErr err = (if err \<noteq> None \<and> (finalErr = None \<or> finalErr = Some ErrDeadlineExceeded) then err else finalErr)"

definition runSubQueries ::
  "bm_get \<Rightarrow> ('c flatsource \<Rightarrow> 'c flatrow list \<times> error option) \<Rightarrow> (string \<times> 'c flatsource) list \<Rightarrow> goval option list list \<times> error option" where
  "runSubQueries get iter plans =
     (map (\<lambda>(d, p). subquery_dims get d (iter p)) plans, foldl keep_error None (map (\<lambda>(d, p). snd (iter p)) plans))"

text \<open>
  \<open>clusterSource.doIterate\<close>: sub queries run on the leader before the query goes to the cluster with their results; results
  that were given already are not sent again.
\<close>

definition doIterate ::
  "'c planner_ext \<Rightarrow> ('c opts \<Rightarrow> string \<Rightarrow> 'c flatsource planned) \<Rightarrow> bm_get \<Rightarrow> ('c flatsource \<Rightarrow> 'c flatrow list \<times> error option) \<Rightarrow>
   (string \<Rightarrow> bool \<Rightarrow> goval option list list \<Rightarrow> 'r planned) \<Rightarrow> 'c opts \<Rightarrow> 'c query \<Rightarrow> 'r planned" where
  "doIterate P plan get iter QueryCluster opts q =
     (case q_Where q of
        None \<Rightarrow> QueryCluster (q_SQL q) (o_IsSubQuery opts) []
      | Some w \<Rightarrow> rbind (planSubQueries P plan opts w) (\<lambda>subs.
          case subs of
            RunSubQueries plans \<Rightarrow>
              (case runSubQueries get iter plans of
                 (_, Some err) \<Rightarrow> Some (Inl err)
               | (results, None) \<Rightarrow> QueryCluster (q_SQL q) (o_IsSubQuery opts) results)
          | _ \<Rightarrow> QueryCluster (q_SQL q) (o_IsSubQuery opts) []))"

section \<open>Local plans (local.go)\<close>

definition sourceForSubQuery :: "('c opts \<Rightarrow> string \<Rightarrow> 'c flatsource planned) \<Rightarrow> 'c query \<Rightarrow> 'c opts \<Rightarrow> 'c rowsource planned" where
  "sourceForSubQuery plan q opts =
     (case q_FromSubQuery q of
        [] \<Rightarrow> None
      | sub # _ \<Rightarrow> rbind (plan opts (q_SQL sub)) (\<lambda>subSource. Some (Inr (Unflatten subSource (q_FieldsNoHaving q)))))"

text \<open>The table fields that the fields of the query are computed from.\<close>

definition includedFields :: "('c, 'h) ext \<Rightarrow> 'c query \<Rightarrow> 'c fields \<Rightarrow> error + 'c fields" where
  "includedFields X q tableFields =
     (if q_HasSelectAll q then Inr tableFields
      else case fieldsource_Get (q_Fields q) tableFields of
        Inl err \<Rightarrow> Inl err
      | Inr fs \<Rightarrow> Inr (map (\<lambda>i. tableFields ! i) (filter (\<lambda>i. \<exists>f \<in> set fs. SubMergers X (f_expr f) (Exprs tableFields) ! i \<noteq> None) [0..<length tableFields])))"

definition sourceForTable :: "('c, 'h) ext \<Rightarrow> 'c query \<Rightarrow> 'c opts \<Rightarrow> 'c rowsource planned" where
  "sourceForTable X q opts =
     Some (case o_GetTable opts (q_From q) (includedFields X q) of Inl err \<Rightarrow> Inl err | Inr t \<Rightarrow> Inr (TableRows t))"

definition asOfUntilFor :: "'c query \<Rightarrow> 'c source_info \<Rightarrow> gotime \<Rightarrow> 'c query \<times> gotime \<times> bool \<times> gotime \<times> bool" where
  "asOfUntilFor q src now =
     (let asOf0 = (if q_AsOfOffset q \<noteq> 0 then now + q_AsOfOffset q else q_AsOf q);
          until0 = (if q_UntilOffset q \<noteq> 0 then now + q_UntilOffset q else q_Until q);
          q = q\<lparr>q_AsOf := RoundTimeUp asOf0 (si_resolution src), q_Until := RoundTimeUp until0 (si_resolution src)\<rparr>;
          asOfChanged = (\<not> IsZero (q_AsOf q) \<and> UnixNano (q_AsOf q) \<noteq> UnixNano (si_asOf src));
          untilChanged = (\<not> IsZero (q_Until q) \<and> UnixNano (q_Until q) \<noteq> UnixNano (si_until src))
      in (q, if asOfChanged then q_AsOf q else si_asOf src, asOfChanged, if untilChanged then q_Until q else si_until src, untilChanged))"

definition resolutionFor :: "'c query \<Rightarrow> 'c source_info \<Rightarrow> gotime \<Rightarrow> gotime \<Rightarrow> (duration \<times> duration \<times> bool \<times> bool) planned" where
  "resolutionFor q src asOf until =
     (let res = si_resolution src;
          resolution = (if q_Resolution q = 0 then res else q_Resolution q)
      in if 0 < q_Stride q \<and> res = 0 then None
         else if 0 < q_Stride q \<and> trem (q_Stride q) res \<noteq> 0 then Some (Inl (OtherError ''Query stride is not an even multiple of table resolution''))
         else
           (let strideSlice = (if 0 < q_Stride q then resolution else 0);
                resolution = (if 0 < q_Stride q then q_Stride q else resolution);
                window = Sub until asOf;
                resolutionTruncated = (window < resolution);
                resolution = (if resolutionTruncated then window else resolution);
                resolutionChanged = (resolution \<noteq> res)
            in if resolutionChanged \<and> resolution < res then Some (Inl (OtherError ''Query resolution is higher than table resolution''))
               else if resolutionChanged \<and> res = 0 then None
               else if resolutionChanged \<and> trem resolution res \<noteq> 0
               then Some (Inl (OtherError ''Query resolution is not an even multiple of table resolution''))
               else Some (Inr (resolution, strideSlice, resolutionChanged, resolutionTruncated))))"

definition applySubQueryFilters ::
  "'c planner_ext \<Rightarrow> ('c opts \<Rightarrow> string \<Rightarrow> 'c flatsource planned) \<Rightarrow> 'c query \<Rightarrow> 'c opts \<Rightarrow> 'c \<Rightarrow> 'c rowsource \<Rightarrow> 'c rowsource planned" where
  "applySubQueryFilters P plan q opts w source = rbind (planSubQueries P plan opts w) (\<lambda>subs. Some (Inr (RowFilter source (q_WhereSQL q) w subs)))"

text \<open>The test of the filter once sub queries have run, with the value of the condition as argument; a value that is not a boolean panics.\<close>

definition where_include :: "goval option \<Rightarrow> row \<Rightarrow> row option go" where
  "where_include result row = (case result of None \<Rightarrow> Some None | Some (GBool b) \<Rightarrow> Some (if b then Some row else None) | _ \<Rightarrow> None)"

definition needsGroupBy :: "'c query \<Rightarrow> bool \<Rightarrow> bool \<Rightarrow> bool \<Rightarrow> duration \<Rightarrow> bool" where
  "needsGroupBy q asOfChanged untilChanged resolutionChanged strideSlice \<longleftrightarrow>
     asOfChanged \<or> untilChanged \<or> resolutionChanged \<or> \<not> q_GroupByAll q \<or> q_HasSpecificFields q \<or> q_HasHaving q \<or> q_Crosstab q \<noteq> None \<or> 0 < strideSlice"

definition planLocal ::
  "'c planner_ext \<Rightarrow> ('c, 'h) ext \<Rightarrow> ('c opts \<Rightarrow> string \<Rightarrow> 'c flatsource planned) \<Rightarrow> 'c query \<Rightarrow> 'c opts \<Rightarrow> 'c flatsource planned" where
  "planLocal P X plan q0 opts =
     (let q1 = fixupSubQuery q0 opts in
      rbind (if q_FromSubQuery q1 \<noteq> [] then sourceForSubQuery plan q1 opts else sourceForTable X q1 opts) (\<lambda>source.
        let (q, asOf, asOfChanged, until, untilChanged) = asOfUntilFor q1 (row_info source) (o_Now opts (q_From q1)) in
        if asOf < si_asOf (row_info source) then Some (Inl (OtherError ''Query asOf is before table asOf''))
        else rbind (resolutionFor q (row_info source) asOf until) (\<lambda>(resolution, strideSlice, resolutionChanged, resolutionTruncated).
          rbind (case q_Where q of None \<Rightarrow> Some (Inr source) | Some w \<Rightarrow> applySubQueryFilters P plan q opts w source) (\<lambda>source.
            let source = (if needsGroupBy q asOfChanged untilChanged resolutionChanged strideSlice
                  then addGroupBy source q (resolutionTruncated \<or> resolutionChanged) resolution strideSlice else source);
                flat = (if q_HasHaving q then HavingFilter (Flatten source) else Flatten source)
            in Some (Inr (addOrderLimitOffset flat q))))))"

section \<open>Cluster plans (cluster.go)\<close>

text \<open>The parameters that the groups of a level determine, if the parents determine \<open>parentParams\<close> of its results.\<close>

definition level_params :: "'c planner_ext \<Rightarrow> bool \<Rightarrow> string list \<Rightarrow> ('c, 'z) sqlquery_scheme \<Rightarrow> string list" where
  "level_params P parentAll parentParams q =
     concat (map (\<lambda>(name, e). if parentAll \<or> name \<in> set parentParams then pl_oneToOneParams P e else []) (q_GroupBy q))"

fun pushdown_levels :: "'c planner_ext \<Rightarrow> 'c opts \<Rightarrow> bool \<Rightarrow> string list \<Rightarrow> 'c sqlquery list \<Rightarrow> error + bool" where
  "pushdown_levels P opts parentAll parentParams [] = Inl (OtherError ''Should never reach this branch of pushdownAllowed'')"
| "pushdown_levels P opts parentAll parentParams [q] =
     (case o_GetTable opts (q_From q) (\<lambda>tableFields. Inr tableFields) of
        Inl err \<Rightarrow> Inl err
      | Inr t \<Rightarrow>
          if q_GroupByAll q \<and> parentAll then Inr True
          else if qt_PartitionBy t = [] then Inr False
          else let groupParams = (if q_GroupByAll q then parentParams else level_params P parentAll parentParams q)
               in Inr (\<forall>k \<in> set (qt_PartitionBy t). k \<in> set groupParams))"
| "pushdown_levels P opts parentAll parentParams (q # q' # qs) =
     (if q_GroupByAll q then pushdown_levels P opts parentAll parentParams (q' # qs)
      else pushdown_levels P opts False (level_params P parentAll parentParams q) (q' # qs))"

definition pushdownAllowed :: "'c planner_ext \<Rightarrow> 'c opts \<Rightarrow> 'c query \<Rightarrow> error + bool" where
  "pushdownAllowed P opts q =
     (if q_Crosstab q \<noteq> None then Inr False
      else if (case q_FromSubQuery q of [] \<Rightarrow> False
               | sub # _ \<Rightarrow> q_OrderBy sub \<noteq> [] \<or> q_Crosstab sub \<noteq> None \<or> 0 < q_Limit sub \<or> 0 < q_Offset sub)
      then Inr False
      else pushdown_levels P opts True [] (chain q))"

definition planAsIfLocal ::
  "'c planner_ext \<Rightarrow> ('c, 'h) ext \<Rightarrow> ('c opts \<Rightarrow> string \<Rightarrow> 'c flatsource planned) \<Rightarrow> 'c opts \<Rightarrow> string \<Rightarrow> 'c flatsource planned" where
  "planAsIfLocal P X plan opts sql =
     (case pl_parse P sql of Inl err \<Rightarrow> Some (Inl err) | Inr q \<Rightarrow> planLocal P X plan q (opts\<lparr>o_QueryCluster := False\<rparr>))"

definition planClusterPushdown ::
  "'c planner_ext \<Rightarrow> ('c, 'h) ext \<Rightarrow> ('c opts \<Rightarrow> string \<Rightarrow> 'c flatsource planned) \<Rightarrow> 'c opts \<Rightarrow> 'c query \<Rightarrow> 'c flatsource planned" where
  "planClusterPushdown P X plan opts q =
     rbind (planAsIfLocal P X plan opts (q_SQL q)) (\<lambda>pail. Some (Inr (addOrderLimitOffset (ClusterFlatRows q pail) q)))"

subsection \<open>The query for partitions, as a string\<close>

definition toUpper_char :: "char \<Rightarrow> char" where
  "toUpper_char c = (let n = (of_char c :: nat) in if 97 \<le> n \<and> n \<le> 122 then char_of (n - 32) else c)"

definition ToUpper :: "string \<Rightarrow> string" where "ToUpper s = map toUpper_char s"

text \<open>\<open>strings.Index\<close>\<close>

fun Index_from :: "int \<Rightarrow> string \<Rightarrow> string \<Rightarrow> int" where
  "Index_from i sub s = (if take (length sub) s = sub then i else case s of [] \<Rightarrow> - 1 | _ # cs \<Rightarrow> Index_from (i + 1) sub cs)"

declare Index_from.simps [simp del]

definition Index :: "string \<Rightarrow> string \<Rightarrow> int" where "Index s sub = Index_from 0 sub s"

text \<open>The loop over the arguments of a crosstab, up to the parenthesis that closes it.\<close>

fun crosstab_args :: "int \<Rightarrow> string \<Rightarrow> string" where
  "crosstab_args level [] = []"
| "crosstab_args level (c # cs) =
     (if c = CHR ''('' then c # crosstab_args (level + 1) cs
      else if c = CHR '')'' then c # (if level - 1 = 0 then [] else crosstab_args (level - 1) cs)
      else c # crosstab_args level cs)"

definition concatForCrosstab :: "string \<Rightarrow> string" where
  "concatForCrosstab sql =
     (let (crosstab, idx) = (let i = Index (ToUpper sql) ''CROSSTABT'' in
            if i < 0 then (''CROSSTAB'', Index (ToUpper sql) ''CROSSTAB'') else (''CROSSTABT'', i))
      in if idx < 0 then []
         else ''concat('' @ [CHR 0x27] @ ''_'' @ [CHR 0x27] @ '', '' @ crosstab_args 1 (drop (nat idx + length crosstab + 1) sql) @ '' as _crosstab'')"

text \<open>GROUP BY, HAVING, ORDER BY and LIMIT are cut off where the first of these words occurs.\<close>

definition cut_clauses :: "string \<Rightarrow> string" where
  "cut_clauses sql =
     (let low = ToLower sql;
          g = Index low ''group by ''; h = Index low ''having ''; ob = Index low ''order by ''; l = Index low ''limit ''
      in if 0 < g then take (nat g) sql else if 0 < h then take (nat h) sql else if 0 < ob then take (nat ob) sql
         else if 0 < l then take (nat l) sql else sql)"

definition insert_having :: "'c planner_ext \<Rightarrow> 'c query \<Rightarrow> string \<Rightarrow> string planned" where
  "insert_having P q sql =
     (if \<not> q_HasHaving q then Some (Inr sql)
      else case pl_fromIndex P (ToLower (q_FromSQL q)) (ToLower (q_SQL q)) of
        Inl err \<Rightarrow> Some (Inl (OtherError ''Unable to compile from regex''))
      | Inr None \<Rightarrow> Some (Inl (OtherError ''FROM clause not found!''))
      | Inr (Some i) \<Rightarrow>
          if i < 0 \<or> int (length sql) < i then None
          else Some (Inr (take (nat i) sql @ '', '' @ q_HavingSQL q @ '' '' @ drop (nat i) sql)))"

definition groupByParts :: "'c planner_ext \<Rightarrow> 'c query \<Rightarrow> string \<Rightarrow> string list" where
  "groupByParts P q crosstabString =
     (if q_GroupByAll q \<and> (q_GroupBy q \<noteq> [] \<or> crosstabString \<noteq> []) then [''*''] else []) @
     sort (remdups (concat (map (\<lambda>(name, e). pl_walkParams P e) (q_GroupBy q)))) @
     (if crosstabString \<noteq> [] then [crosstabString] else []) @
     (if q_Resolution q \<noteq> 0 then [''period('' @ Duration_String (q_Resolution q) @ '')''] else []) @
     (if 0 < q_Stride q then [''stride('' @ Duration_String (q_Stride q) @ '')''] else [])"

fun join_parts :: "string list \<Rightarrow> string" where
  "join_parts [] = []"
| "join_parts [p] = p"
| "join_parts (p # ps) = p @ '', '' @ join_parts ps"

definition clusterSQL :: "'c planner_ext \<Rightarrow> 'c query \<Rightarrow> string planned" where
  "clusterSQL P q =
     rbind (insert_having P q (cut_clauses (q_SQL q))) (\<lambda>sql.
       let parts = groupByParts P q (concatForCrosstab (q_SQL q))
       in Some (Inr (if parts \<noteq> [] then sql @ '' group by '' @ join_parts parts else sql)))"

definition planClusterNonPushdown ::
  "'c planner_ext \<Rightarrow> ('c, 'h) ext \<Rightarrow> 'c gext \<Rightarrow> ('c opts \<Rightarrow> string \<Rightarrow> 'c flatsource planned) \<Rightarrow> 'c opts \<Rightarrow> 'c query \<Rightarrow> 'c flatsource planned" where
  "planClusterNonPushdown P X G plan opts q =
     rbind (clusterSQL P q) (\<lambda>sql.
       case planAsIfLocal P X plan opts sql of
         None \<Rightarrow> None
       | Some (Inl err) \<Rightarrow> Some (Inl (OtherError ''Unable to plan non-pushdown query''))
       | Some (Inr pail) \<Rightarrow>
           (case pl_parse P sql of
              Inl err \<Rightarrow> Some (Inl err)
            | Inr clusterQuery \<Rightarrow>
                (let q' = q\<lparr>q_Crosstab := (if concatForCrosstab (q_SQL q) \<noteq> [] then Some (g_clusterCrosstab G) else q_Crosstab q),
                       q_Fields := PassthroughFieldSource, q_AsOf := zeroTime, q_Until := zeroTime, q_Resolution := 0\<rparr>;
                     source = ClusterRows (fixupSubQuery clusterQuery opts) (UnflattenOptimized pail);
                     flat = Flatten (addGroupBy source q' True (q_Resolution q') 0)
                 in Some (Inr (addOrderLimitOffset (if q_HasHaving q then HavingFilter flat else flat) q')))))"

section \<open>Planning\<close>

primrec Plan :: "nat \<Rightarrow> 'c planner_ext \<Rightarrow> ('c, 'h) ext \<Rightarrow> 'c gext \<Rightarrow> 'c opts \<Rightarrow> string \<Rightarrow> 'c flatsource planned" where
  "Plan 0 P X G opts sql = None"
| "Plan (Suc n) P X G opts sql =
     (case pl_parse P sql of
        Inl err \<Rightarrow> Some (Inl err)
      | Inr q0 \<Rightarrow>
          (let q = fixupSubQuery q0 opts; plan = Plan n P X G in
           if \<not> o_QueryCluster opts then planLocal P X plan q opts
           else case pushdownAllowed P opts q of
             Inl err \<Rightarrow> Some (Inl err)
           | Inr allow \<Rightarrow>
               if allow then planClusterPushdown P X plan opts q
               else if q_FromSubQuery q = [] then planClusterNonPushdown P X G plan opts q
               else planLocal P X plan q opts))"

end
