(* ===== verification/Sql.thy ===== *)
theory Sql
  imports Planner
begin

text \<open>
  The package \<open>sql\<close>: from the parse tree of a SELECT statement to a query.  The parser and its printer are a third-party
  package; the nodes of its tree that the code distinguishes are the constructors below.  The constructors of goexpr,
  the number formats of \<open>strconv\<close> for floats and \<open>time.Parse\<close> are arguments.  Strings are ASCII.

  Sub queries in FROM, the fields of a query with HAVING and aliases are parsed again from text, so that \<open>Parse\<close> has
  fuel for the depth of this nesting.  \<open>None\<close> is a panic, or the end of the fuel.
\<close>

section \<open>Parse trees\<close>

datatype sqlexpr =
    ColName string
  | FuncExpr string "selexpr list"
  | ComparisonExpr string sqlexpr sqlexpr
  | BinaryExpr string sqlexpr sqlexpr
  | ValTuple "sqlexpr list"
  | AndExpr sqlexpr sqlexpr
  | OrExpr sqlexpr sqlexpr
  | NotExpr sqlexpr
  | ParenBoolExpr sqlexpr
  | NumVal string
  | StrVal string
  | NullCheck string sqlexpr
  | Subquery "selstmt option"
  | OtherExpr string
and selexpr = StarExpr | NonStarExpr sqlexpr string | OtherSelectExpr string
and simpletable = SubqueryTable selstmt | TableName string | OtherTable string
and tableexpr = AliasedTableExpr simpletable string | OtherTableExpr string
and selstmt =
    Select (st_Comments: "string list") (st_SelectExprs: "selexpr list") (st_From: "tableexpr list") (st_Where: "sqlexpr option")
      (st_TimeRange: "(string \<times> string) option") (st_GroupBy: "selexpr list") (st_Having: "sqlexpr option")
      (st_OrderBy: "(sqlexpr \<times> string) list") (st_Limit: "(sqlexpr option \<times> sqlexpr option) option")

text \<open>What is printed by \<open>nodeToString\<close>.\<close>

datatype sqlnode =
  NExpr sqlexpr | NSelectExpr selexpr | NSelectExprs "selexpr list" | NSelect selstmt | NFrom "tableexpr list" | NTable tableexpr | NWhere sqlexpr

text \<open>The right-hand side of IN.\<close>

datatype 'c golist = ArrayList "'c list" | SubQuery string string

record 'c sql_ext =
  s_parse :: "string \<Rightarrow> error + selstmt option"
  nodeToString :: "sqlnode \<Rightarrow> string"
  s_Sprintf :: "string \<Rightarrow> string list \<Rightarrow> string"
  s_floatValue :: "string \<Rightarrow> float64"
  s_parseTime :: "string \<Rightarrow> gotime option"
  gx_Constant :: "goval option \<Rightarrow> 'c"
  gx_Param :: "string \<Rightarrow> 'c"
  gx_Binary :: "string \<Rightarrow> 'c \<Rightarrow> 'c \<Rightarrow> error + 'c"
  gx_Not :: "'c \<Rightarrow> 'c"
  gx_In :: "'c \<Rightarrow> 'c golist \<Rightarrow> 'c"
  gx_P :: "'c \<Rightarrow> 'c"
  gx_fn :: "string \<Rightarrow> 'c list \<Rightarrow> 'c"
  gx_arrayItems :: "'c \<Rightarrow> 'c list option"
  gx_Lua :: "'c \<Rightarrow> 'c list \<Rightarrow> 'c list \<Rightarrow> 'c"

section \<open>Errors and tables of functions\<close>

definition ErrSelectNoName :: error where "ErrSelectNoName = OtherError ''All expressions in SELECT must either reference a column name or include an AS alias''"
definition ErrIfArity :: error where "ErrIfArity = OtherError ''IF requires two parameters''"
definition ErrBoundedArity :: error where "ErrBoundedArity = OtherError ''BOUNDED requires three parameters''"
definition ErrPercentileArity :: error where "ErrPercentileArity = OtherError ''PERCENTILE requires either two or five parameters''"
definition ErrPercentileOptWrap :: error where "ErrPercentileOptWrap = OtherError ''PERCENTILE with two parameters may only wrap an existing PERCENTILE expression''"
definition ErrShiftArity :: error where "ErrShiftArity = OtherError ''SHIFT requires two parameters''"
definition ErrCrosshiftArity :: error where "ErrCrosshiftArity = OtherError ''CROSSHIFT requires three parameters''"
definition ErrCrosshiftZeroCutoffOrInterval :: error where
  "ErrCrosshiftZeroCutoffOrInterval = OtherError ''CROSSHIFT cutoff and interval must be non-zero''"
definition ErrCROSSTABArity :: error where "ErrCROSSTABArity = OtherError ''CROSSTAB requires at least one argument''"
definition ErrCROSSTABUnique :: error where "ErrCROSSTABUnique = OtherError ''Only one CROSSTAB statement allowed per query''"
definition ErrAggregateArity :: error where "ErrAggregateArity = OtherError ''Aggregate functions take only one parameter''"
definition ErrWildcardNotAllowed :: error where "ErrWildcardNotAllowed = OtherError ''Wildcard * is not supported''"
definition ErrInvalidPeriod :: error where "ErrInvalidPeriod = OtherError ''Please specify a period in the form period(5s)''"
definition ErrInvalidStride :: error where "ErrInvalidStride = OtherError ''Please specify a stride in the form stride(5s)''"

definition aggregateFuncs :: "string \<Rightarrow> 'c expr \<Rightarrow> 'c expr option" where
  "aggregateFuncs fname w = (if fname = ''AVG'' then Some (AVG w) else aggregateFor fname w)"

definition binaryAggregateFuncs :: "string \<Rightarrow> 'c expr \<Rightarrow> 'c expr \<Rightarrow> 'c expr option" where
  "binaryAggregateFuncs fname v w = (if fname = ''WAVG'' then Some (WAVG v w) else None)"

definition operators :: "(string \<times> binop) list" where
  "operators = [(''+'', Plus), (''-'', Minus), (''*'', Times), (''/'', Divide)]"

definition conditions :: "(string \<times> binop) list" where
  "conditions = [(''<'', LT), (''<='', LTE), (''='', EQ), (''<>'', NEQ), (''!='', NEQ), (''>='', GTE), (''>'', GT)]"

text \<open>The names of functions on dimensions; names of unary ones can be added.\<close>

definition nullaryGoExpr :: "string list" where "nullaryGoExpr = [''RAND'']"
definition unaryGoExpr :: "string list" where
  "unaryGoExpr = [''CITY'', ''REGION'', ''REGION_CITY'', ''COUNTRY_CODE'', ''ISP'', ''ORG'', ''ASN'', ''ASNAME'', ''LEN'']"
definition binaryGoExpr :: "string list" where "binaryGoExpr = [''HGET'', ''SISMEMBER'']"
definition ternaryGoExpr :: "string list" where "ternaryGoExpr = [''SPLIT'', ''SUBSTR'', ''REPLACEALL'', ''LUA'']"
definition varGoExpr :: "string list" where "varGoExpr = [''CONCAT'', ''CROSSTAB'', ''CROSSTABT'', ''ANY'', ''ARRAY'', ''DECODE'']"

record registry =
  reg_unary :: "string list"
  reg_aliases :: "(string \<times> string) list"

definition registry0 :: registry where "registry0 = \<lparr> reg_unary = unaryGoExpr, reg_aliases = [] \<rparr>"

definition RegisterUnaryDIMFunction :: "string \<Rightarrow> registry \<Rightarrow> error + registry" where
  "RegisterUnaryDIMFunction name reg =
     (if ToUpper name \<in> set (reg_unary reg) then Inl (OtherError ''Expression already registered'')
      else Inr (reg\<lparr>reg_unary := ToUpper name # reg_unary reg\<rparr>))"

definition RegisterAlias :: "string \<Rightarrow> string \<Rightarrow> registry \<Rightarrow> registry" where
  "RegisterAlias al template reg = reg\<lparr>reg_aliases := (ToUpper al, template) # reg_aliases reg\<rparr>"

section \<open>Strings and numbers of the standard library\<close>

definition Trim_quotes :: "string \<Rightarrow> string" where
  "Trim_quotes s = rev (dropWhile (\<lambda>c. c = CHR 0x27) (rev (dropWhile (\<lambda>c. c = CHR 0x27) s)))"

text \<open>\<open>strings.Replace(s, old, [], 1)\<close>\<close>

definition remove_first :: "string \<Rightarrow> string \<Rightarrow> string" where
  "remove_first old s = (let i = Index s old in if i < 0 then s else take (nat i) s @ drop (nat i + length old) s)"

definition HasPrefix :: "string \<Rightarrow> string \<Rightarrow> bool" where "HasPrefix s p \<longleftrightarrow> take (length p) s = p"
definition HasSuffix :: "string \<Rightarrow> string \<Rightarrow> bool" where "HasSuffix s p \<longleftrightarrow> HasPrefix (rev s) (rev p)"

text \<open>\<open>strconv.ParseInt\<close> in base 10 with 64 bits, also \<open>strconv.Atoi\<close>.\<close>

definition ParseInt :: "string \<Rightarrow> int option" where
  "ParseInt s =
     (let neg = (s \<noteq> [] \<and> hd s = CHR ''-'');
          ds = (if s \<noteq> [] \<and> hd s \<in> {CHR ''-'', CHR ''+''} then tl s else s);
          v = foldl (\<lambda>v c. v * 10 + (of_char c - 48)) 0 ds;
          v = (if neg then - v else v)
      in if ds \<noteq> [] \<and> list_all is_digit ds \<and> in64 v then Some v else None)"

definition ParseBool :: "string \<Rightarrow> bool option" where
  "ParseBool s =
     (if s \<in> {''1'', ''t'', ''T'', ''TRUE'', ''true'', ''True''} then Some True
      else if s \<in> {''0'', ''f'', ''F'', ''FALSE'', ''false'', ''False''} then Some False else None)"

text \<open>\<open>stringToTimeOrDuration\<close>, \<open>nodeToDuration\<close>, \<open>nodeToFloat\<close> and \<open>nodeToInt\<close>.\<close>

definition stringToTimeOrDuration :: "'c sql_ext \<Rightarrow> string \<Rightarrow> (gotime \<times> duration) planned" where
  "stringToTimeOrDuration S str =
     (case s_parseTime S str of
        Some t \<Rightarrow> Some (Inr (t, 0))
      | None \<Rightarrow> rbind (ParseDuration (ToLower str)) (\<lambda>d. Some (Inr (zeroTime, d))))"

definition nodeToDuration :: "'c sql_ext \<Rightarrow> selexpr \<Rightarrow> duration planned" where
  "nodeToDuration S node =
     (case ParseDuration (ToLower (remove_first '' as '' (Trim_quotes (nodeToString S (NSelectExpr node))))) of
        None \<Rightarrow> None
      | Some (Inl err) \<Rightarrow> Some (Inl (OtherError ''Unable to parse duration''))
      | Some (Inr d) \<Rightarrow> Some (Inr d))"

definition nodeToFloat :: "('c, 'h) ext \<Rightarrow> 'c sql_ext \<Rightarrow> sqlnode \<Rightarrow> float64 planned" where
  "nodeToFloat X S node =
     Some (case parse_float X (nodeToString S node) of Some v \<Rightarrow> Inr v | None \<Rightarrow> Inl (OtherError ''Unable to parse float''))"

definition nodeToInt :: "'c sql_ext \<Rightarrow> sqlnode \<Rightarrow> int planned" where
  "nodeToInt S node = Some (case ParseInt (nodeToString S node) of Some v \<Rightarrow> Inr v | None \<Rightarrow> Inl (OtherError ''Unable to parse float''))"

section \<open>What is parsed again from text\<close>

record 'c sql_again =
  again_Parse :: "string \<Rightarrow> 'c query planned"
  again_Get :: "selstmt \<Rightarrow> 'c fields \<Rightarrow> 'c fields planned"

text \<open>A select clause as a source of fields; a panic is an error of its own.\<close>

definition ErrPanic :: error where "ErrPanic = OtherError ''panic''"

definition selectSource :: "('c fields \<Rightarrow> 'c fields planned) \<Rightarrow> 'c fieldsource" where
  "selectSource get = OtherFieldSource (\<lambda>known. case get known of None \<Rightarrow> Inl ErrPanic | Some r \<Rightarrow> r)"

section \<open>Clauses\<close>

definition sql_err :: "string \<Rightarrow> 'a planned" where "sql_err msg = Some (Inl (OtherError msg))"

definition query0 :: "string \<Rightarrow> 'c query" where
  "query0 sql = \<lparr> q_SQL = sql, q_Fields = selectSource (\<lambda>_. None), q_FieldsNoHaving = selectSource (\<lambda>_. None),
     q_HasSelectAll = False, q_HasSpecificFields = False, q_From = [], q_FromSQL = [], q_Resolution = 0, q_Where = None,
     q_WhereSQL = [], q_AsOf = zeroTime, q_AsOfOffset = 0, q_Until = zeroTime, q_UntilOffset = 0, q_Stride = 0,
     q_GroupBy = [], q_GroupByAll = False, q_Crosstab = None, q_CrosstabIncludesTotal = False, q_HasHaving = False,
     q_HavingSQL = [], q_OrderBy = [], q_Offset = 0, q_Limit = 0, q_ForceFresh = False, q_FromSubQuery = [] \<rparr>"

definition applyFrom :: "'c sql_ext \<Rightarrow> 'c sql_again \<Rightarrow> selstmt \<Rightarrow> 'c query \<Rightarrow> 'c query planned" where
  "applyFrom S A stmt q0 =
     (let q = q0\<lparr>q_FromSQL := nodeToString S (NFrom (st_From stmt))\<rparr> in
      case st_From stmt of
        [] \<Rightarrow> None
      | AliasedTableExpr (SubqueryTable sub) al # _ \<Rightarrow>
          (let subSQL = nodeToString S (NTable (hd (st_From stmt))) in
           if length subSQL < 2 then None
           else case again_Parse A (butlast (tl subSQL)) of
             None \<Rightarrow> None
           | Some (Inl err) \<Rightarrow> sql_err ''Unable to parse subquery''
           | Some (Inr sub) \<Rightarrow> Some (Inr (q\<lparr>q_FromSubQuery := chain sub\<rparr>)))
      | AliasedTableExpr (TableName name) al # _ \<Rightarrow> Some (Inr (q\<lparr>q_From := ToLower name\<rparr>))
      | _ \<Rightarrow> sql_err ''Unknown from expression'')"

definition checkForFields :: "'c sql_ext \<Rightarrow> selstmt \<Rightarrow> 'c query \<Rightarrow> 'c query" where
  "checkForFields S stmt q =
     (let es = filter (\<lambda>e. nodeToString S (NSelectExpr e) \<noteq> ''_'') (st_SelectExprs stmt) in
      q\<lparr>q_HasSelectAll := (q_HasSelectAll q \<or> StarExpr \<in> set es),
        q_HasSpecificFields := (q_HasSpecificFields q \<or> list_ex (\<lambda>e. case e of NonStarExpr _ _ \<Rightarrow> True | _ \<Rightarrow> False) es)\<rparr>)"

text \<open>The fields with the one for HAVING come from a synthetic statement.\<close>

definition havingSQL :: "'c sql_ext \<Rightarrow> sqlexpr \<Rightarrow> string" where
  "havingSQL S h = nodeToString S (NExpr h) @ '' AS '' @ HavingFieldName"

definition fieldsSQL :: "'c sql_ext \<Rightarrow> selstmt \<Rightarrow> string" where
  "fieldsSQL S stmt =
     (case (st_SelectExprs stmt, st_Having stmt) of
        (es, None) \<Rightarrow> nodeToString S (NSelectExprs es)
      | ([], Some h) \<Rightarrow> havingSQL S h
      | (es, Some h) \<Rightarrow> nodeToString S (NSelectExprs es) @ '', '' @ havingSQL S h)"

definition applySelect :: "'c sql_ext \<Rightarrow> 'c sql_again \<Rightarrow> selstmt \<Rightarrow> 'c query \<Rightarrow> 'c query planned" where
  "applySelect S A stmt q0 =
     (let q1 = (case st_Having stmt of None \<Rightarrow> q0 | Some h \<Rightarrow> q0\<lparr>q_HasHaving := True, q_HavingSQL := havingSQL S h\<rparr>);
          noHaving = (\<lambda>q. if st_SelectExprs stmt \<noteq> [] then q\<lparr>q_FieldsNoHaving := selectSource (again_Get A stmt)\<rparr> else q)
      in if st_SelectExprs stmt = [] \<and> st_Having stmt = None then Some (Inr q1)
         else case s_parse S (''SELECT '' @ fieldsSQL S stmt @ '' FROM whatever'') of
           Inl err \<Rightarrow> sql_err ''Unable to parse synthetic SQL query for combined fields''
         | Inr None \<Rightarrow> None
         | Inr (Some combinedFields) \<Rightarrow> Some (Inr (noHaving (q1\<lparr>q_Fields := selectSource (again_Get A combinedFields)\<rparr>))))"

text \<open>The argument \<open>w\<close> is the translated condition.\<close>

definition applyWhereClause :: "'c sql_ext \<Rightarrow> selstmt \<Rightarrow> 'c planned option \<Rightarrow> 'c query \<Rightarrow> 'c query planned" where
  "applyWhereClause S stmt w q =
     (case (st_Where stmt, w) of
        (Some e, Some r) \<Rightarrow> rbind r (\<lambda>c. Some (Inr (q\<lparr>q_Where := Some c, q_WhereSQL := TrimSpace (nodeToString S (NWhere e))\<rparr>)))
      | _ \<Rightarrow> Some (Inr q))"

definition applyTimeRange :: "'c sql_ext \<Rightarrow> selstmt \<Rightarrow> 'c query \<Rightarrow> 'c query planned" where
  "applyTimeRange S stmt q0 =
     (case st_TimeRange stmt of
        None \<Rightarrow> Some (Inr q0)
      | Some (from, to) \<Rightarrow>
          rbind (if from = [] then Some (Inr q0)
                 else case stringToTimeOrDuration S from of
                   None \<Rightarrow> None
                 | Some (Inl err) \<Rightarrow> sql_err ''Bad TIMERANGE from''
                 | Some (Inr (t, d)) \<Rightarrow> Some (Inr (if \<not> IsZero t then q0\<lparr>q_AsOf := t\<rparr> else q0\<lparr>q_AsOfOffset := d\<rparr>)))
            (\<lambda>q. if to = [] then Some (Inr q)
                 else case stringToTimeOrDuration S to of
                   None \<Rightarrow> None
                 | Some (Inl err) \<Rightarrow> sql_err ''Bad TIMERANGE to''
                 | Some (Inr (t, d)) \<Rightarrow> Some (Inr (if \<not> IsZero t then q\<lparr>q_Until := t\<rparr> else q\<lparr>q_UntilOffset := d\<rparr>))))"

text \<open>The loop of \<open>applyGroupBy\<close>: every element comes with its translation; the names are collected in the order they occur.\<close>

definition group_name :: "sqlexpr \<Rightarrow> string \<Rightarrow> string" where
  "group_name e al = (if al \<noteq> [] then al else case e of ColName name \<Rightarrow> name | _ \<Rightarrow> [])"

definition isFunc :: "string \<Rightarrow> sqlexpr \<Rightarrow> bool" where
  "isFunc fname e = (case e of FuncExpr name es \<Rightarrow> ToUpper name = fname | _ \<Rightarrow> False)"

fun func_args :: "sqlexpr \<Rightarrow> selexpr list" where
  "func_args (FuncExpr name es) = es"
| "func_args _ = []"

fun func_name :: "sqlexpr \<Rightarrow> string" where
  "func_name (FuncExpr name es) = ToUpper name"
| "func_name _ = []"

definition group_element ::
  "'c sql_ext \<Rightarrow> sqlexpr \<Rightarrow> string \<Rightarrow> 'c planned \<Rightarrow> 'c query \<times> (string \<times> 'c) list \<Rightarrow> ('c query \<times> (string \<times> 'c) list) planned" where
  "group_element S e al r = (\<lambda>(q, groupBy).
     if isFunc ''PERIOD'' e then
       (case func_args e of [a] \<Rightarrow> rbind (nodeToDuration S a) (\<lambda>d. Some (Inr (q\<lparr>q_Resolution := d\<rparr>, groupBy))) | _ \<Rightarrow> Some (Inl ErrInvalidPeriod))
     else if isFunc ''STRIDE'' e then
       (case func_args e of [a] \<Rightarrow> rbind (nodeToDuration S a) (\<lambda>d. Some (Inr (q\<lparr>q_Stride := d\<rparr>, groupBy))) | _ \<Rightarrow> Some (Inl ErrInvalidStride))
     else if HasPrefix (func_name e) ''CROSSTAB'' then
       (if func_args e = [] then Some (Inl ErrCROSSTABArity)
        else if q_Crosstab q \<noteq> None then Some (Inl ErrCROSSTABUnique)
        else rbind r (\<lambda>c. Some (Inr (q\<lparr>q_Crosstab := Some c, q_CrosstabIncludesTotal := HasSuffix (func_name e) ''T''\<rparr>, groupBy))))
     else rbind r (\<lambda>c. if group_name e al = [] then sql_err ''Expression needs to be named via an AS''
                       else Some (Inr (q, groupBy @ [(group_name e al, c)]))))"

fun group_loop ::
  "'c sql_ext \<Rightarrow> (selexpr \<times> 'c planned) list \<Rightarrow> 'c query \<times> (string \<times> 'c) list \<Rightarrow> ('c query \<times> (string \<times> 'c) list) planned" where
  "group_loop S [] st = Some (Inr st)"
| "group_loop S ((StarExpr, r) # es) (q, groupBy) = group_loop S es (q\<lparr>q_GroupByAll := True\<rparr>, groupBy)"
| "group_loop S ((NonStarExpr e al, r) # es) st = rbind (group_element S e al r st) (group_loop S es)"
| "group_loop S ((OtherSelectExpr x, r) # es) st = sql_err ''Unexpected expression in Group By''"

definition applyGroupBy :: "'c sql_ext \<Rightarrow> selstmt \<Rightarrow> 'c planned list \<Rightarrow> 'c query \<Rightarrow> 'c query planned" where
  "applyGroupBy S stmt rs q0 =
     rbind (group_loop S (zip (st_GroupBy stmt) rs) (q0, [])) (\<lambda>(q, groupBy).
       Some (Inr (if st_GroupBy stmt = [] then q\<lparr>q_GroupByAll := True\<rparr>
                  else q\<lparr>q_GroupBy := q_GroupBy q @ map (\<lambda>name. (name, the (map_of (rev groupBy) name))) (sort (map fst groupBy))\<rparr>)))"

definition applyOrderBy :: "'c sql_ext \<Rightarrow> selstmt \<Rightarrow> 'c query \<Rightarrow> 'c query" where
  "applyOrderBy S stmt q =
     q\<lparr>q_OrderBy := q_OrderBy q @ map (\<lambda>(e, direction). NewOrderBy (nodeToString S (NExpr e)) (ToUpper direction = ''DESC'')) (st_OrderBy stmt)\<rparr>"

definition limit_value :: "'c sql_ext \<Rightarrow> sqlexpr \<Rightarrow> int option" where
  "limit_value S e = ParseInt (ToLower (Trim_quotes (nodeToString S (NExpr e))))"

definition applyLimit :: "'c sql_ext \<Rightarrow> selstmt \<Rightarrow> 'c query \<Rightarrow> 'c query planned" where
  "applyLimit S stmt q0 =
     (case st_Limit stmt of
        None \<Rightarrow> Some (Inr q0)
      | Some (offset, rowcount) \<Rightarrow>
          rbind (case rowcount of None \<Rightarrow> Some (Inr q0)
                 | Some e \<Rightarrow> (case limit_value S e of None \<Rightarrow> sql_err ''Unable to parse limit'' | Some n \<Rightarrow> Some (Inr (q0\<lparr>q_Limit := n\<rparr>))))
            (\<lambda>q. case offset of None \<Rightarrow> Some (Inr q)
                 | Some e \<Rightarrow> (case limit_value S e of None \<Rightarrow> sql_err ''Unable to parse offset'' | Some n \<Rightarrow> Some (Inr (q\<lparr>q_Offset := n\<rparr>)))))"

definition applyComments :: "selstmt \<Rightarrow> 'c query \<Rightarrow> 'c query" where
  "applyComments stmt q = q\<lparr>q_ForceFresh := (q_ForceFresh q \<or> (\<exists>c \<in> set (st_Comments stmt). 0 \<le> Index c ''force_fresh''))\<rparr>"

text \<open>\<open>parse\<close>, with the translations of the condition and of the elements of GROUP BY.\<close>

definition parse_clauses :: "'c sql_ext \<Rightarrow> 'c sql_again \<Rightarrow> selstmt \<Rightarrow> 'c planned option \<Rightarrow> 'c planned list \<Rightarrow> 'c query planned" where
  "parse_clauses S A stmt w gs =
     rbind (applyFrom S A stmt (query0 (nodeToString S (NSelect stmt)))) (\<lambda>q.
     rbind (applySelect S A stmt (checkForFields S stmt q)) (\<lambda>q.
     rbind (applyWhereClause S stmt w q) (\<lambda>q.
     rbind (applyTimeRange S stmt q) (\<lambda>q.
     rbind (applyGroupBy S stmt gs q) (\<lambda>q.
     rbind (applyLimit S stmt (applyOrderBy S stmt q)) (\<lambda>q.
     Some (Inr (applyComments stmt q))))))))"

section \<open>Dimensional expressions\<close>

fun run_in_order :: "'a planned list \<Rightarrow> 'a list planned" where
  "run_in_order [] = Some (Inr [])"
| "run_in_order (r # rs) = rbind r (\<lambda>x. rbind (run_in_order rs) (\<lambda>xs. Some (Inr (x # xs))))"

definition crosstabExprFor :: "'c sql_ext \<Rightarrow> 'c list \<Rightarrow> 'c" where
  "crosstabExprFor S es = gx_fn S ''CONCAT'' (gx_Constant S (Some (GString ''_'')) # es)"

definition applyAlias :: "'c sql_ext \<Rightarrow> 'c sql_again \<Rightarrow> selexpr list \<Rightarrow> string \<Rightarrow> 'c planned" where
  "applyAlias S A es al =
     (case again_Parse A (s_Sprintf S (''SELECT phcol FROM phtable GROUP BY '' @ al @ '' AS phgb'') (map (\<lambda>e. nodeToString S (NSelectExpr e)) es)) of
        None \<Rightarrow> None
      | Some (Inl err) \<Rightarrow> sql_err ''Unable to parse query placeholder for applying alias''
      | Some (Inr qp) \<Rightarrow> (case q_GroupBy qp of [] \<Rightarrow> None | (name, c) # _ \<Rightarrow> Some (Inr c)))"

text \<open>\<open>goFnExprFor\<close>, with the translations of the parameters.\<close>

definition ternaryCall :: "'c sql_ext \<Rightarrow> string \<Rightarrow> 'c list \<Rightarrow> 'c planned" where
  "ternaryCall S fname ps =
     (if fname = ''LUA''
      then case map (gx_arrayItems S) (tl ps) of
        [Some ks, Some as] \<Rightarrow> Some (Inr (gx_Lua S (hd ps) ks as))
      | _ \<Rightarrow> None
      else Some (Inr (gx_fn S fname ps)))"

definition goFnExprFor :: "'c sql_ext \<Rightarrow> 'c sql_again \<Rightarrow> registry \<Rightarrow> selexpr list \<Rightarrow> 'c planned list \<Rightarrow> string \<Rightarrow> 'c planned" where
  "goFnExprFor S A reg es params fname =
     (case map_of (reg_aliases reg) fname of
        Some al \<Rightarrow> applyAlias S A es al
      | None \<Rightarrow>
          if fname \<in> set nullaryGoExpr then Some (Inr (gx_fn S fname []))
          else if fname \<in> set (reg_unary reg) then
            (if length es \<noteq> 1 then sql_err ''Function requires 1 parameter'' else rbind (run_in_order params) (\<lambda>ps. Some (Inr (gx_fn S fname ps))))
          else if fname \<in> set binaryGoExpr then
            (if length es \<noteq> 2 then sql_err ''Function requires 2 parameters'' else rbind (run_in_order params) (\<lambda>ps. Some (Inr (gx_fn S fname ps))))
          else if fname \<in> set ternaryGoExpr then
            (if length es \<noteq> 3 then sql_err ''Function requires 3 parameters'' else rbind (run_in_order params) (ternaryCall S fname))
          else if fname \<in> set varGoExpr then
            rbind (run_in_order params) (\<lambda>ps. Some (Inr (if fname \<in> {''CROSSTAB'', ''CROSSTABT''} then crosstabExprFor S ps else gx_fn S fname ps)))
          else sql_err ''Unknown function'')"

text \<open>A function whose name begins with P is tried without it.\<close>

definition goFuncCall :: "'c sql_ext \<Rightarrow> 'c sql_again \<Rightarrow> registry \<Rightarrow> string \<Rightarrow> selexpr list \<Rightarrow> 'c planned list \<Rightarrow> 'c planned" where
  "goFuncCall S A reg name es params =
     (let fname = ToUpper name in
      case goFnExprFor S A reg es params fname of
        Some (Inl err) \<Rightarrow>
          if fname = [] then None
          else if hd fname = CHR ''P'' then rbind (goFnExprFor S A reg es params (tl fname)) (\<lambda>ge. Some (Inr (gx_P S ge)))
          else Some (Inl err)
      | r \<Rightarrow> r)"

definition columnParam :: "'c sql_ext \<Rightarrow> string \<Rightarrow> 'c" where
  "columnParam S name =
     (let colName = TrimSpace (ToLower name) in case ParseBool colName of Some b \<Rightarrow> gx_Constant S (Some (GBool b)) | None \<Rightarrow> gx_Param S colName)"

definition numberConstant :: "('c, 'h) ext \<Rightarrow> 'c sql_ext \<Rightarrow> string \<Rightarrow> 'c planned" where
  "numberConstant X S e =
     (case ParseInt e of
        Some i \<Rightarrow> Some (Inr (gx_Constant S (Some (GInt (word_of_int i)))))
      | None \<Rightarrow> (case parse_float X e of Some v \<Rightarrow> Some (Inr (gx_Constant S (Some (GFloat64 v)))) | None \<Rightarrow> sql_err ''invalid syntax''))"

text \<open>The list of a sub query of IN, once it has been parsed.\<close>

definition subQueryList :: "'c sql_ext \<Rightarrow> selstmt \<Rightarrow> 'c query planned \<Rightarrow> 'c golist planned" where
  "subQueryList S stmt r =
     (case r of
        None \<Rightarrow> None
      | Some (Inl err) \<Rightarrow> sql_err ''In subquery''
      | Some (Inr sq) \<Rightarrow>
          (case fieldsource_Get (q_Fields sq) [] of
             Inl err \<Rightarrow> if err = ErrPanic then None else Some (Inl err)
           | Inr fs \<Rightarrow>
               (case filter (\<lambda>n. n \<noteq> HavingFieldName) (map f_name fs) of
                  [d] \<Rightarrow> Some (Inr (SubQuery d (nodeToString S (NSelect stmt))))
                | _ \<Rightarrow> sql_err ''Subqueries in must select exactly 1 dimension'')))"

fun goExprFor :: "('c, 'h) ext \<Rightarrow> 'c sql_ext \<Rightarrow> 'c sql_again \<Rightarrow> registry \<Rightarrow> sqlexpr \<Rightarrow> 'c planned"
and goVals :: "('c, 'h) ext \<Rightarrow> 'c sql_ext \<Rightarrow> 'c sql_again \<Rightarrow> registry \<Rightarrow> sqlexpr list \<Rightarrow> 'c planned list"
and paramGoExprs :: "('c, 'h) ext \<Rightarrow> 'c sql_ext \<Rightarrow> 'c sql_again \<Rightarrow> registry \<Rightarrow> selexpr list \<Rightarrow> 'c planned list"
and goList :: "('c, 'h) ext \<Rightarrow> 'c sql_ext \<Rightarrow> 'c sql_again \<Rightarrow> registry \<Rightarrow> sqlexpr \<Rightarrow> 'c golist planned"
and parse :: "('c, 'h) ext \<Rightarrow> 'c sql_ext \<Rightarrow> 'c sql_again \<Rightarrow> registry \<Rightarrow> selstmt \<Rightarrow> 'c query planned" where
  "goExprFor X S A reg (AndExpr l r) =
     rbind (goExprFor X S A reg l) (\<lambda>left. rbind (goExprFor X S A reg r) (\<lambda>right. Some (gx_Binary S ''AND'' left right)))"
| "goExprFor X S A reg (OrExpr l r) =
     rbind (goExprFor X S A reg l) (\<lambda>left. rbind (goExprFor X S A reg r) (\<lambda>right. Some (gx_Binary S ''OR'' left right)))"
| "goExprFor X S A reg (ParenBoolExpr e) = goExprFor X S A reg e"
| "goExprFor X S A reg (NotExpr e) = rbind (goExprFor X S A reg e) (\<lambda>wrapped. Some (Inr (gx_Not S wrapped)))"
| "goExprFor X S A reg (ComparisonExpr op l r) =
     rbind (goExprFor X S A reg l) (\<lambda>left.
       if ToUpper op = ''IN'' then rbind (goList X S A reg r) (\<lambda>right. Some (Inr (gx_In S left right)))
       else rbind (goExprFor X S A reg r) (\<lambda>right. Some (gx_Binary S (ToUpper op) left right)))"
| "goExprFor X S A reg (ColName name) = Some (Inr (columnParam S name))"
| "goExprFor X S A reg (StrVal str) = Some (Inr (gx_Constant S (Some (GString str))))"
| "goExprFor X S A reg (NumVal str) = numberConstant X S str"
| "goExprFor X S A reg (FuncExpr name es) = goFuncCall S A reg name es (paramGoExprs X S A reg es)"
| "goExprFor X S A reg (NullCheck op e) =
     rbind (goExprFor X S A reg e) (\<lambda>wrapped. Some (gx_Binary S (if op = ''is not null'' then ''<>'' else ''=='') wrapped (gx_Constant S None)))"
| "goExprFor X S A reg (BinaryExpr op l r) = sql_err ''Unknown dimensional expression''"
| "goExprFor X S A reg (ValTuple es) = sql_err ''Unknown dimensional expression''"
| "goExprFor X S A reg (Subquery st) = sql_err ''Unknown dimensional expression''"
| "goExprFor X S A reg (OtherExpr str) = sql_err ''Unknown dimensional expression''"
| "goVals X S A reg [] = []"
| "goVals X S A reg (e # es) = goExprFor X S A reg e # goVals X S A reg es"
| "paramGoExprs X S A reg [] = []"
| "paramGoExprs X S A reg (StarExpr # es) = Some (Inl ErrWildcardNotAllowed) # paramGoExprs X S A reg es"
| "paramGoExprs X S A reg (OtherSelectExpr str # es) = Some (Inl ErrWildcardNotAllowed) # paramGoExprs X S A reg es"
| "paramGoExprs X S A reg (NonStarExpr e al # es) = goExprFor X S A reg e # paramGoExprs X S A reg es"
| "goList X S A reg (ValTuple es) = rbind (run_in_order (goVals X S A reg es)) (\<lambda>vs. Some (Inr (ArrayList vs)))"
| "goList X S A reg (Subquery None) = sql_err ''Subquery requires a SELECT statement''"
| "goList X S A reg (Subquery (Some stmt)) = subQueryList S stmt (parse X S A reg stmt)"
| "goList X S A reg _ = sql_err ''IN requires a list of values on the right hand side''"
| "parse X S A reg (Select comments es from wh tr gb hv ob li) =
     parse_clauses S A (Select comments es from wh tr gb hv ob li)
       (case wh of None \<Rightarrow> None | Some w \<Rightarrow> Some (goExprFor X S A reg w)) (paramGoExprs X S A reg gb)"

section \<open>Expressions over fields\<close>

type_synonym 'c fields_map = "string \<rightharpoonup> 'c field"

definition fielded_init :: "'c fields \<Rightarrow> 'c fields_map" where
  "fielded_init known = map_of (rev (map (\<lambda>f. (f_name f, f)) known))"

definition columnExprFor :: "'c fields_map \<Rightarrow> string \<Rightarrow> bool \<Rightarrow> 'c expr" where
  "columnExprFor fm colName defaultToSum =
     (let name = ToLower colName in
      if name = ''_'' then binaryExprFor GT (f_expr PointsField) (Constant (float_of_int 0))
      else if \<not> defaultToSum then Field name
      else case fm name of Some existing \<Rightarrow> f_expr existing | None \<Rightarrow> Aggregate AggSum (Field name))"

fun nonstar :: "selexpr \<Rightarrow> sqlexpr option" where
  "nonstar (NonStarExpr e al) = Some e"
| "nonstar _ = None"

text \<open>The functions get the translations of their parameters, with and without sums by default.\<close>

type_synonym 'c args = "bool \<Rightarrow> 'c exprarg planned list"

definition ifExprFor :: "('c, 'h) ext \<Rightarrow> 'c sql_ext \<Rightarrow> 'c sql_again \<Rightarrow> registry \<Rightarrow> selexpr list \<Rightarrow> 'c args \<Rightarrow> 'c exprarg planned" where
  "ifExprFor X S A reg es args =
     (case map nonstar es of
        [Some condEx, Some _] \<Rightarrow>
          rbind (args True ! 1) (\<lambda>valueEx. rbind (goExprFor X S A reg condEx) (\<lambda>boolEx. Some (Inr (AExpr (IF (Some boolEx) (exprFor X valueEx))))))
      | [_, _] \<Rightarrow> Some (Inl ErrWildcardNotAllowed)
      | _ \<Rightarrow> Some (Inl ErrIfArity))"

definition boundedExprFor :: "('c, 'h) ext \<Rightarrow> 'c sql_ext \<Rightarrow> selexpr list \<Rightarrow> 'c args \<Rightarrow> bool \<Rightarrow> 'c exprarg planned" where
  "boundedExprFor X S es args defaultToSum =
     (case map nonstar es of
        [Some _, Some p1, Some p2] \<Rightarrow>
          rbind (args defaultToSum ! 0) (\<lambda>wrapped.
            case parse_float X (nodeToString S (NExpr p1)) of
              None \<Rightarrow> sql_err ''Unable to parse min parameter to BOUNDED''
            | Some mn \<Rightarrow>
                (case parse_float X (nodeToString S (NExpr p2)) of
                   None \<Rightarrow> sql_err ''Unable to parse max parameter to BOUNDED''
                 | Some mx \<Rightarrow> Some (Inr (AExpr (BOUNDED (exprFor X wrapped) mn mx)))))
      | [_, _, _] \<Rightarrow> Some (Inl ErrWildcardNotAllowed)
      | _ \<Rightarrow> Some (Inl ErrBoundedArity))"

text \<open>The field that a PERCENTILE refers to by name, if it is itself a percentile.\<close>

definition percentileField :: "'c fields_map \<Rightarrow> sqlexpr \<Rightarrow> 'c expr option" where
  "percentileField fm e =
     (case e of
        ColName name \<Rightarrow> (case fm (ToLower name) of Some f \<Rightarrow> (if IsPercentile (f_expr f) then Some (f_expr f) else None) | None \<Rightarrow> None)
      | _ \<Rightarrow> None)"

definition percentileExprFor :: "('c, 'h) ext \<Rightarrow> 'c sql_ext \<Rightarrow> 'c fields_map \<Rightarrow> selexpr list \<Rightarrow> 'c args \<Rightarrow> 'c exprarg planned" where
  "percentileExprFor X S fm es args =
     (if length es \<noteq> 2 \<and> length es \<noteq> 5 then Some (Inl ErrPercentileArity)
      else case nonstar (es ! 0) of
        None \<Rightarrow> Some (Inl ErrWildcardNotAllowed)
      | Some v \<Rightarrow>
          rbind (case percentileField fm v of
                   Some e \<Rightarrow> Some (Inr (AExpr e))
                 | None \<Rightarrow> if length es = 2 then Some (Inl ErrPercentileOptWrap) else args False ! 0) (\<lambda>valueEx.
            if nonstar (es ! 1) = None then Some (Inl ErrWildcardNotAllowed)
            else rbind (args False ! 1) (\<lambda>percentileEx.
              if length es = 2 then map_option (\<lambda>e. Inr (AExpr e)) (PERCENTILEOPT (exprFor X valueEx) (exprFor X percentileEx))
              else rbind (nodeToFloat X S (NSelectExpr (es ! 2))) (\<lambda>mn. rbind (nodeToFloat X S (NSelectExpr (es ! 3))) (\<lambda>mx.
                   rbind (nodeToInt S (NSelectExpr (es ! 4))) (\<lambda>precision.
                     map_option (\<lambda>e. Inr (AExpr e)) (PERCENTILE X (exprFor X valueEx) (exprFor X percentileEx) mn mx precision)))))))"

definition shiftExprFor :: "('c, 'h) ext \<Rightarrow> 'c sql_ext \<Rightarrow> selexpr list \<Rightarrow> 'c args \<Rightarrow> 'c exprarg planned" where
  "shiftExprFor X S es args =
     (case es of
        [NonStarExpr _ _, b] \<Rightarrow>
          rbind (args True ! 0) (\<lambda>valueEx. rbind (nodeToDuration S b) (\<lambda>offset. Some (Inr (AExpr (SHIFT (exprFor X valueEx) offset)))))
      | [_, _] \<Rightarrow> Some (Inl ErrWildcardNotAllowed)
      | _ \<Rightarrow> Some (Inl ErrShiftArity))"

definition UnaryMathNamed :: "string \<Rightarrow> 'c expr \<Rightarrow> 'c expr option" where
  "UnaryMathNamed fname w = map_option (\<lambda>f. UnaryMathFor f w) (find (\<lambda>f. math_name f = fname) [LN, LOG2, LOG10])"

definition unaryFuncExprFor :: "('c, 'h) ext \<Rightarrow> string \<Rightarrow> selexpr \<Rightarrow> 'c args \<Rightarrow> bool \<Rightarrow> 'c exprarg planned" where
  "unaryFuncExprFor X fname e args defaultToSum =
     (let isAggregate = (aggregateFuncs fname (Field [] :: 'c expr) \<noteq> None) in
      if nonstar e = None then Some (Inl ErrWildcardNotAllowed)
      else rbind (args (defaultToSum \<and> \<not> isAggregate) ! 0) (\<lambda>se.
        case (if isAggregate then aggregateFuncs fname (exprFor X se) else UnaryMathNamed fname (exprFor X se)) of
          Some fx \<Rightarrow> Some (Inr (AExpr fx))
        | None \<Rightarrow> sql_err ''Unknown math function''))"

definition binaryFuncExprFor :: "('c, 'h) ext \<Rightarrow> string \<Rightarrow> selexpr list \<Rightarrow> 'c args \<Rightarrow> 'c exprarg planned" where
  "binaryFuncExprFor X fname es args =
     (if fname \<noteq> ''WAVG'' then sql_err ''Unknown function''
      else if None \<in> set (map nonstar es) then Some (Inl ErrWildcardNotAllowed)
      else rbind (args False ! 0) (\<lambda>se1. rbind (args False ! 1) (\<lambda>se2.
        case binaryAggregateFuncs fname (exprFor X se1) (exprFor X se2) of
          Some fx \<Rightarrow> Some (Inr (AExpr fx))
        | None \<Rightarrow> sql_err ''Unknown function'')))"

definition funcExprFor ::
  "('c, 'h) ext \<Rightarrow> 'c sql_ext \<Rightarrow> 'c sql_again \<Rightarrow> registry \<Rightarrow> 'c fields_map \<Rightarrow> string \<Rightarrow> selexpr list \<Rightarrow> 'c args \<Rightarrow> bool \<Rightarrow> 'c exprarg planned" where
  "funcExprFor X S A reg fm name es args defaultToSum =
     (let fname = ToUpper name in
      if fname = ''IF'' then ifExprFor X S A reg es args
      else if fname = ''BOUNDED'' then boundedExprFor X S es args defaultToSum
      else if fname = ''PERCENTILE'' then percentileExprFor X S fm es args
      else if fname = ''SHIFT'' then shiftExprFor X S es args
      else case es of
        [e] \<Rightarrow> unaryFuncExprFor X fname e args defaultToSum
      | [_, _] \<Rightarrow> binaryFuncExprFor X fname es args
      | _ \<Rightarrow> Some (Inl ErrAggregateArity))"

text \<open>The operators and conditions, with the translations of both sides.\<close>

definition binaryOpFor :: "('c, 'h) ext \<Rightarrow> binop option \<Rightarrow> 'c exprarg planned \<Rightarrow> 'c exprarg planned \<Rightarrow> 'c exprarg planned" where
  "binaryOpFor X op l r =
     (case op of
        None \<Rightarrow> sql_err ''Unknown operator''
      | Some bop \<Rightarrow> rbind l (\<lambda>left. rbind r (\<lambda>right. Some (Inr (AExpr (binaryExprFor bop (exprFor X left) (exprFor X right)))))))"

fun fielded_exprFor ::
  "('c, 'h) ext \<Rightarrow> 'c sql_ext \<Rightarrow> 'c sql_again \<Rightarrow> registry \<Rightarrow> 'c fields_map \<Rightarrow> sqlexpr \<Rightarrow> bool \<Rightarrow> 'c exprarg planned"
and fielded_args ::
  "('c, 'h) ext \<Rightarrow> 'c sql_ext \<Rightarrow> 'c sql_again \<Rightarrow> registry \<Rightarrow> 'c fields_map \<Rightarrow> selexpr list \<Rightarrow> bool \<Rightarrow> 'c exprarg planned list" where
  "fielded_exprFor X S A reg fm (ColName name) d = Some (Inr (AExpr (columnExprFor fm name d)))"
| "fielded_exprFor X S A reg fm (FuncExpr name es) d = funcExprFor X S A reg fm name es (\<lambda>d'. fielded_args X S A reg fm es d') d"
| "fielded_exprFor X S A reg fm (ComparisonExpr op l r) d =
     binaryOpFor X (map_of conditions op) (fielded_exprFor X S A reg fm l True) (fielded_exprFor X S A reg fm r True)"
| "fielded_exprFor X S A reg fm (BinaryExpr op l r) d =
     binaryOpFor X (map_of operators op) (fielded_exprFor X S A reg fm l True) (fielded_exprFor X S A reg fm r True)"
| "fielded_exprFor X S A reg fm (ValTuple []) d = None"
| "fielded_exprFor X S A reg fm (ValTuple (e # es)) d = fielded_exprFor X S A reg fm e d"
| "fielded_exprFor X S A reg fm (AndExpr l r) d =
     binaryOpFor X (Some And) (fielded_exprFor X S A reg fm l True) (fielded_exprFor X S A reg fm r True)"
| "fielded_exprFor X S A reg fm (OrExpr l r) d =
     binaryOpFor X (Some Or) (fielded_exprFor X S A reg fm l True) (fielded_exprFor X S A reg fm r True)"
| "fielded_exprFor X S A reg fm (ParenBoolExpr e) d = fielded_exprFor X S A reg fm e d"
| "fielded_exprFor X S A reg fm (NumVal str) d = Some (Inr (AExpr (Constant (s_floatValue S (nodeToString S (NExpr (NumVal str)))))))"
| "fielded_exprFor X S A reg fm e d = Some (Inr (AString (nodeToString S (NExpr e))))"
| "fielded_args X S A reg fm [] d = []"
| "fielded_args X S A reg fm (NonStarExpr e al # es) d = fielded_exprFor X S A reg fm e d # fielded_args X S A reg fm es d"
| "fielded_args X S A reg fm (StarExpr # es) d = Some (Inl ErrWildcardNotAllowed) # fielded_args X S A reg fm es d"
| "fielded_args X S A reg fm (OtherSelectExpr str # es) d = Some (Inl ErrWildcardNotAllowed) # fielded_args X S A reg fm es d"

section \<open>Select clauses\<close>

type_synonym 'c selected = "'c fields \<times> 'c fields_map"

definition addField :: "'c field \<Rightarrow> 'c selected \<Rightarrow> 'c selected" where
  "addField f = (\<lambda>(fs, fm). if f_name f \<in> set (map f_name fs) then (fs, fm) else (fs @ [f], fm(f_name f \<mapsto> f)))"

definition addExpr :: "'c exprarg \<Rightarrow> string \<Rightarrow> 'c selected \<Rightarrow> error + 'c selected" where
  "addExpr fe as st =
     (case fe of
        AExpr e \<Rightarrow> (case Validate e of None \<Rightarrow> Inr (addField (NewField (ToLower as) e) st) | Some err \<Rightarrow> Inl (OtherError ''Invalid expression''))
      | _ \<Rightarrow> Inl (OtherError ''Not an Expr''))"

definition asOrColName :: "string \<Rightarrow> sqlexpr \<Rightarrow> error + string" where
  "asOrColName as e = (if as \<noteq> [] then Inr as else case e of ColName name \<Rightarrow> Inr name | _ \<Rightarrow> Inl ErrSelectNoName)"

partial_function (option) crosshift_loop ::
  "'c expr \<Rightarrow> string \<Rightarrow> bool \<Rightarrow> duration \<Rightarrow> duration \<Rightarrow> duration \<Rightarrow> 'c selected \<Rightarrow> 'c selected planned" where
  "crosshift_loop valueEx as backward bound interval i st =
     (if i < bound
      then case addExpr (AExpr (SHIFT valueEx (if backward then wrap64 (- i) else i)))
                  (if i = 0 then as else as @ ''_'' @ durationToString i) st of
             Inl err \<Rightarrow> Some (Inl err)
           | Inr st \<Rightarrow> crosshift_loop valueEx as backward bound interval (wrap64 (i + interval)) st
      else Some (Inr st))"

declare crosshift_loop.simps [code]

definition addCrosshiftExpr ::
  "('c, 'h) ext \<Rightarrow> 'c sql_ext \<Rightarrow> 'c sql_again \<Rightarrow> registry \<Rightarrow> selexpr list \<Rightarrow> string \<Rightarrow> 'c selected \<Rightarrow> 'c selected planned" where
  "addCrosshiftExpr X S A reg es asBytes st =
     (case es of
        [e0, e1, e2] \<Rightarrow>
          (case nonstar e0 of
             None \<Rightarrow> Some (Inl ErrWildcardNotAllowed)
           | Some v \<Rightarrow>
               rbind (fielded_exprFor X S A reg (snd st) v True) (\<lambda>valueEx.
               rbind (Some (asOrColName asBytes v)) (\<lambda>as.
               rbind (nodeToDuration S e1) (\<lambda>cutoff.
                 if cutoff = 0 then Some (Inl ErrCrosshiftZeroCutoffOrInterval)
                 else rbind (nodeToDuration S e2) (\<lambda>interval.
                   if interval = 0 then Some (Inl ErrCrosshiftZeroCutoffOrInterval)
                   else crosshift_loop (exprFor X valueEx) as (cutoff < 0) (if cutoff < 0 then wrap64 (- cutoff) else cutoff)
                          (if interval < 0 then wrap64 (- interval) else interval) 0 st)))))
      | _ \<Rightarrow> Some (Inl ErrCrosshiftArity))"

definition select_element ::
  "('c, 'h) ext \<Rightarrow> 'c sql_ext \<Rightarrow> 'c sql_again \<Rightarrow> registry \<Rightarrow> 'c fields \<Rightarrow> selexpr \<Rightarrow> 'c selected \<Rightarrow> 'c selected planned" where
  "select_element X S A reg known e st =
     (if nodeToString S (NSelectExpr e) = ''_'' then Some (Inr st)
      else case e of
        StarExpr \<Rightarrow> Some (Inr (fold addField known st))
      | NonStarExpr sx al \<Rightarrow>
          if isFunc ''CROSSHIFT'' sx then addCrosshiftExpr X S A reg (func_args sx) al st
          else rbind (Some (asOrColName al sx)) (\<lambda>as. rbind (fielded_exprFor X S A reg (snd st) sx True) (\<lambda>fe. Some (addExpr fe as st)))
      | OtherSelectExpr _ \<Rightarrow> Some (Inr st))"

fun select_loop ::
  "('c, 'h) ext \<Rightarrow> 'c sql_ext \<Rightarrow> 'c sql_again \<Rightarrow> registry \<Rightarrow> 'c fields \<Rightarrow> selexpr list \<Rightarrow> 'c selected \<Rightarrow> 'c selected planned" where
  "select_loop X S A reg known [] st = Some (Inr st)"
| "select_loop X S A reg known (e # es) st = rbind (select_element X S A reg known e st) (select_loop X S A reg known es)"

definition selectClause_Get :: "('c, 'h) ext \<Rightarrow> 'c sql_ext \<Rightarrow> 'c sql_again \<Rightarrow> registry \<Rightarrow> selstmt \<Rightarrow> 'c fields \<Rightarrow> 'c fields planned" where
  "selectClause_Get X S A reg stmt known =
     rbind (select_loop X S A reg known (st_SelectExprs stmt) ([], fielded_init known)) (\<lambda>(fs, fm). Some (Inr fs))"

section \<open>Parsing\<close>

primrec sql_level :: "nat \<Rightarrow> ('c, 'h) ext \<Rightarrow> 'c sql_ext \<Rightarrow> registry \<Rightarrow> 'c sql_again" where
  "sql_level 0 X S reg = \<lparr> again_Parse = (\<lambda>_. None), again_Get = (\<lambda>_ _. None) \<rparr>"
| "sql_level (Suc n) X S reg =
     \<lparr> again_Parse = (\<lambda>sql. case s_parse S sql of
          Inl err \<Rightarrow> sql_err ''Error parsing''
        | Inr None \<Rightarrow> None
        | Inr (Some stmt) \<Rightarrow> parse X S (sql_level n X S reg) reg stmt),
       again_Get = selectClause_Get X S (sql_level n X S reg) reg \<rparr>"

definition Parse :: "nat \<Rightarrow> ('c, 'h) ext \<Rightarrow> 'c sql_ext \<Rightarrow> registry \<Rightarrow> string \<Rightarrow> 'c query planned" where
  "Parse n X S reg = again_Parse (sql_level n X S reg)"

definition TableFor :: "'c sql_ext \<Rightarrow> string \<Rightarrow> string planned" where
  "TableFor S sql =
     (case s_parse S sql of
        Inl err \<Rightarrow> Some (Inl err)
      | Inr None \<Rightarrow> None
      | Inr (Some stmt) \<Rightarrow> (case st_From stmt of [] \<Rightarrow> None | t # _ \<Rightarrow> Some (Inr (ToLower (nodeToString S (NTable t))))))"

end
