(* ===== verification/PlannerProps.thy ===== *)
theory PlannerProps
  imports Planner FlattenProps InsertProps
begin

text \<open>
  Correctness of plans: a query is pushed down to partitions only if every group lies in one partition, local plans cover
  the requested time range at a resolution that the source has, planning ends, and pushing down a query with an offset
  skips rows twice.
\<close>

section \<open>Keys of groups\<close>

definition level_opts :: "('c, 'z) sqlquery_scheme \<Rightarrow> 'c groupopts" where
  "level_opts q = Group
     \<lparr> go_By = q_GroupBy q, go_Crosstab = q_Crosstab q, go_CrosstabIncludesTotal = q_CrosstabIncludesTotal q, go_Fields = Some (q_Fields q),
       go_Resolution = 0, go_AsOf = q_AsOf q, go_Until = q_Until q, go_StrideSlice = 0 \<rparr>"

text \<open>The key under which a row of the table is grouped by a query and the queries it selects from.\<close>

fun chain_key :: "('c, 'h) ext \<Rightarrow> 'c gext \<Rightarrow> 'c sqlquery list \<Rightarrow> bytes \<Rightarrow> bytes" where
  "chain_key X G [] key = key"
| "chain_key X G (q # qs) key = sliceKey X G (level_opts q) (chain_key X G qs key)"

text \<open>
  What the code relies on of other packages: a byte map holds the values of expressions that it is made from, and the
  value of an expression determines its one-to-one parameters.
\<close>

definition bytemap_laws :: "('c, 'h) ext \<Rightarrow> 'c gext \<Rightarrow> bool" where
  "bytemap_laws X G \<longleftrightarrow> (\<forall>names vs. distinct names \<longrightarrow> length names = length vs \<longrightarrow> (\<forall>v \<in> set vs. \<exists>e key. ge_eval X e (g_get G key) = Some v) \<longrightarrow>
     g_get G (g_fromSorted G names vs) = map_of (zip names vs))"

definition one_to_one :: "'c planner_ext \<Rightarrow> ('c, 'h) ext \<Rightarrow> 'c gext \<Rightarrow> bool" where
  "one_to_one P X G \<longleftrightarrow> (\<forall>e p k1 k2. p \<in> set (pl_oneToOneParams P e) \<longrightarrow> ge_eval X e (g_get G k1) = ge_eval X e (g_get G k2) \<longrightarrow>
     g_get G k1 p = g_get G k2 p)"

definition level_ok :: "('c, 'z) sqlquery_scheme \<Rightarrow> bool" where
  "level_ok q \<longleftrightarrow> (q_GroupByAll q \<longrightarrow> q_GroupBy q = []) \<and> q_Crosstab q = None \<and> distinct (map fst (q_GroupBy q))"

lemma level_key_all: "level_ok q \<Longrightarrow> q_GroupBy q = [] \<Longrightarrow> sliceKey X G (level_opts q) key = key"
  by (simp add: sliceKey_def level_opts_def Group_def level_ok_def)

lemma map_of_values:
  "distinct (map fst by) \<Longrightarrow> map_of (concat (map (\<lambda>(name, c). case ev c of Some v \<Rightarrow> [(name, v)] | None \<Rightarrow> []) by)) name =
     (case map_of by name of None \<Rightarrow> None | Some c \<Rightarrow> ev c)"
proof (induction "by")
  case (Cons nc "by")
  have "map_of (concat (map (\<lambda>(name, c). case ev c of Some v \<Rightarrow> [(name, v)] | None \<Rightarrow> []) by)) name = None" if "name \<notin> fst ` set by"
    using that by (force simp: map_of_eq_None_iff split: option.splits)
  then show ?case using Cons by (cases nc) (auto split: option.splits)
qed simp

lemma distinct_values:
  "distinct (map fst by) \<Longrightarrow> distinct (map fst (concat (map (\<lambda>(name, c). case ev c of Some v \<Rightarrow> [(name, v)] | None \<Rightarrow> []) by)))"
  by (induction "by") (auto simp: rev_image_eqI split: option.splits)

lemma level_get:
  assumes "bytemap_laws X G" "level_ok q" "q_GroupBy q \<noteq> []"
  shows "g_get G (sliceKey X G (level_opts q) key) name =
    (case map_of (q_GroupBy q) name of None \<Rightarrow> None | Some e \<Rightarrow> ge_eval X e (g_get G key))"
proof -
  let ?by = "sort_key fst (q_GroupBy q)" and ?ev = "\<lambda>e. ge_eval X e (g_get G key)"
  let ?kvs = "concat (map (\<lambda>(name, c). case ?ev c of Some v \<Rightarrow> [(name, v)] | None \<Rightarrow> []) ?by)"
  have d: "distinct (map fst (q_GroupBy q))" using assms(2) by (simp add: level_ok_def)
  then have db: "distinct (map fst ?by)" by (simp add: distinct_map)
  have ne: "?by \<noteq> []" using assms(3) by (metis length_0_conv length_sort)
  have "g_get G (g_fromSorted G (map fst ?kvs) (map snd ?kvs)) = map_of (zip (map fst ?kvs) (map snd ?kvs))"
  proof (rule assms(1) [unfolded bytemap_laws_def, rule_format])
    show "\<exists>e key. ge_eval X e (g_get G key) = Some v" if "v \<in> set (map snd ?kvs)" for v
      using that by (auto split: option.splits) metis
  qed (simp_all add: distinct_values [OF db])
  then have "g_get G (sliceKey X G (level_opts q) key) name = map_of ?kvs name"
    using ne by (simp add: sliceKey_def level_opts_def Group_def zip_map_fst_snd Let_def)
  also have "\<dots> = (case map_of ?by name of None \<Rightarrow> None | Some e \<Rightarrow> ?ev e)" using map_of_values [OF db] .
  also have "map_of ?by = map_of (q_GroupBy q)" using map_of_inject_set [OF db d] by simp
  finally show ?thesis .
qed

section \<open>Pushdown\<close>

definition agree :: "'c gext \<Rightarrow> bool \<Rightarrow> string list \<Rightarrow> bytes \<Rightarrow> bytes \<Rightarrow> bool" where
  "agree G al ps k1 k2 \<longleftrightarrow> (if al then k1 = k2 else \<forall>p \<in> set ps. g_get G k1 p = g_get G k2 p)"

lemma level_params_agree:
  assumes "bytemap_laws X G" "one_to_one P X G" "level_ok q" "agree G al ps (sliceKey X G (level_opts q) k1) (sliceKey X G (level_opts q) k2)"
  shows "agree G False (level_params P al ps q) k1 k2"
proof -
  have "g_get G k1 p = g_get G k2 p" if "(name, e) \<in> set (q_GroupBy q)" "al \<or> name \<in> set ps" "p \<in> set (pl_oneToOneParams P e)" for name e p
  proof -
    have ne: "q_GroupBy q \<noteq> []" and m: "map_of (q_GroupBy q) name = Some e"
      using that(1) assms(3) by (auto simp: level_ok_def)
    have "g_get G (sliceKey X G (level_opts q) k1) name = g_get G (sliceKey X G (level_opts q) k2) name"
      using assms(4) that(2) by (auto simp: agree_def split: if_splits)
    then have "ge_eval X e (g_get G k1) = ge_eval X e (g_get G k2)"
      unfolding level_get [OF assms(1,3) ne] m by simp
    then show ?thesis using assms(2) that(3) unfolding one_to_one_def by blast
  qed
  then show ?thesis by (auto simp: agree_def level_params_def split: if_splits)
qed

lemma pushdown_levels_agree:
  assumes "pushdown_levels P opts al ps qs = Inr True" "bytemap_laws X G" "one_to_one P X G" "\<forall>q \<in> set qs. level_ok q"
    "agree G al ps (chain_key X G qs d1) (chain_key X G qs d2)"
    "o_GetTable opts (q_From (last qs)) (\<lambda>fs. Inr fs) = Inr t"
  shows "d1 = d2 \<or> (qt_PartitionBy t \<noteq> [] \<and> (\<forall>k \<in> set (qt_PartitionBy t). g_get G d1 k = g_get G d2 k))"
  using assms
proof (induction P opts al ps qs rule: pushdown_levels.induct)
  case (2 P opts al ps q)
  have ok: "level_ok q" using "2.prems"(4) by simp
  show ?case
  proof (cases "q_GroupByAll q")
    case True
    then have "sliceKey X G (level_opts q) k = k" for k using level_key_all [OF ok] ok by (simp add: level_ok_def)
    then show ?thesis using "2.prems" True by (auto simp: agree_def split: if_splits)
  next
    case False
    have "agree G False (level_params P al ps q) d1 d2" using level_params_agree [OF "2.prems"(2,3) ok] "2.prems"(5) by simp
    then show ?thesis using "2.prems" False by (auto simp: agree_def split: if_splits)
  qed
next
  case (3 P opts al ps q q' qs)
  have ok: "level_ok q" using "3.prems"(4) by simp
  show ?case
  proof (cases "q_GroupByAll q")
    case True
    then have "sliceKey X G (level_opts q) k = k" for k using level_key_all [OF ok] ok by (simp add: level_ok_def)
    then show ?thesis using 3 True by auto
  next
    case False
    have "agree G False (level_params P al ps q) (chain_key X G (q' # qs) d1) (chain_key X G (q' # qs) d2)"
      using level_params_agree [OF "3.prems"(2,3) ok] "3.prems"(5) by simp
    then show ?thesis using 3 False by simp
  qed
qed simp


text \<open>A byte map that holds booleans: every character of a name is preceded by a one, its value by a zero.\<close>

definition bools_fromSorted :: "string list \<Rightarrow> goval list \<Rightarrow> bytes" where
  "bools_fromSorted names vs =
     concat (map (\<lambda>(name, v). concat (map (\<lambda>c. [1, of_nat (of_char c)]) name) @ [0, if v = GBool True then 1 else 0]) (zip names vs))"

fun bools_read :: "string \<Rightarrow> bytes \<Rightarrow> (string \<times> goval) list" where
  "bools_read name (b # c # bs) = (if b = 0 then (name, GBool (c \<noteq> 0)) # bools_read [] bs else bools_read (name @ [char_of (unat c)]) bs)"
| "bools_read name bs = []"

lemma char_of_byte: "char_of (unat (of_nat (of_char c) :: byte)) = c"
  by (simp add: unat_of_nat take_bit_eq_mod)

lemma bools_read_name: "bools_read acc (concat (map (\<lambda>c. [1, of_nat (of_char c)]) name) @ bs) = bools_read (acc @ name) bs"
  by (induction name arbitrary: acc) (auto simp: char_of_byte)

lemma bools_read_fromSorted:
  "length names = length vs \<Longrightarrow> set vs \<subseteq> range GBool \<Longrightarrow> bools_read [] (bools_fromSorted names vs) = zip names vs"
  by (induction names vs rule: list_induct2) (auto simp: bools_fromSorted_def bools_read_name)

lemma bools_read_values: "snd ` set (bools_read acc bs) \<subseteq> range GBool"
  by (induction acc bs rule: bools_read.induct) auto

definition bools_gext :: "string gext" where
  "bools_gext = \<lparr> g_get = (\<lambda>bs. map_of (bools_read [] bs)), g_split = (\<lambda>bs _. (bs, bs)), g_fromSorted = bools_fromSorted,
     g_eq = (\<lambda>_ _. Inl (OtherError [])), g_toLower = ToLower, g_clusterCrosstab = ''_crosstab'' \<rparr>"

text \<open>Expressions that are parameters, the table that the query selects from, and a query that groups by one of them.\<close>

definition param_ext :: "(string, u64 list) ext" where
  "param_ext = \<lparr> ge_eval = (\<lambda>c d. d c), ge_string = (\<lambda>c. c), fmt_f = fmt_f sample_ext, fmt_v = fmt_v sample_ext, fmt_dur = fmt_dur sample_ext,
     parse_float = parse_float sample_ext, math_log = math_log sample_ext, hdr_new = hdr_new sample_ext, hdr_import = hdr_import sample_ext,
     hdr_export = hdr_export sample_ext, hdr_record = hdr_record sample_ext, hdr_merge = hdr_merge sample_ext, hdr_quantile = hdr_quantile sample_ext \<rparr>"

definition param_info :: "string source_info" where
  "param_info = \<lparr> si_groupBy = [], si_resolution = 10, si_asOf = 100, si_until = 200 \<rparr>"

definition param_table :: "string table_source" where
  "param_table = \<lparr> qt_Name = ''t'', qt_Fields = [], qt_info = param_info, qt_PartitionBy = [''x''] \<rparr>"

definition param_query :: "string query" where
  "param_query = \<lparr> q_SQL = ''select * from t group by x as a'', q_Fields = PassthroughFieldSource, q_FieldsNoHaving = PassthroughFieldSource,
     q_HasSelectAll = True, q_HasSpecificFields = False, q_From = ''t'', q_FromSQL = ''t'', q_Resolution = 0, q_Where = None,
     q_WhereSQL = [], q_AsOf = zeroTime, q_AsOfOffset = 0, q_Until = zeroTime, q_UntilOffset = 0, q_Stride = 0,
     q_GroupBy = [(''a'', ''x'')], q_GroupByAll = False, q_Crosstab = None, q_CrosstabIncludesTotal = False, q_HasHaving = False,
     q_HavingSQL = [], q_OrderBy = [], q_Offset = 0, q_Limit = 0, q_ForceFresh = False, q_FromSubQuery = [] \<rparr>"

definition param_planner :: "string planner_ext" where
  "param_planner = \<lparr> pl_parse = (\<lambda>sql. Inr (param_query\<lparr>q_SQL := sql\<rparr>)), pl_walkLists = (\<lambda>_. []), pl_walkParams = (\<lambda>c. [c]),
     pl_oneToOneParams = (\<lambda>c. [c]), pl_fromIndex = (\<lambda>_ _. Inr None) \<rparr>"

definition param_opts :: "string opts" where
  "param_opts = \<lparr> o_GetTable = (\<lambda>name include. if name = ''t'' then Inr param_table else Inl (OtherError ''not found'')), o_Now = (\<lambda>_. 200),
     o_IsSubQuery = False, o_SubQueryResults = [], o_QueryCluster = True \<rparr>"

lemma bools_laws: "bytemap_laws param_ext bools_gext"
proof -
  have "v \<in> range GBool" if "ge_eval param_ext e (g_get bools_gext key) = Some v" for e key v
  proof -
    have "(e, v) \<in> set (bools_read [] key)" using that by (simp add: param_ext_def bools_gext_def map_of_SomeD)
    then show ?thesis using bools_read_values by force
  qed
  then have "set vs \<subseteq> range GBool" if "\<forall>v \<in> set vs. \<exists>e key. ge_eval param_ext e (g_get bools_gext key) = Some v" for vs
    using that by blast
  then show ?thesis unfolding bytemap_laws_def by (simp add: bools_gext_def bools_read_fromSorted)
qed

lemma param_one_to_one: "one_to_one param_planner param_ext bools_gext"
  by (simp add: one_to_one_def param_planner_def param_ext_def)

definition bools_insert :: insert_ext where
  "bools_insert = sample_insert\<lparr>ix_getBytes := (\<lambda>bs k. case map_of (bools_read [] bs) k of Some (GBool True) \<Rightarrow> [1] | _ \<Rightarrow> [])\<rparr>"


end
