(* ===== verification/PlannerRange.thy ===== *)
theory PlannerRange
  imports PlannerProps
begin

text \<open>
  The time range and the resolution of a local plan, the end of planning, and the order in which rows are skipped in a plan
  that is pushed down.
\<close>

section \<open>Range and resolution of a local plan\<close>

text \<open>Times of a source that \<open>UnixNano\<close> represents, and a positive resolution.\<close>

definition range_ok :: "'c source_info \<Rightarrow> bool" where
  "range_ok src \<longleftrightarrow> 0 < si_resolution src \<and> 0 \<le> si_asOf src \<and> si_asOf src < 2 ^ 62 \<and> 0 \<le> si_until src \<and> si_until src < 2 ^ 62"

definition requested_asOf :: "'c query \<Rightarrow> gotime \<Rightarrow> gotime" where
  "requested_asOf q now = (if q_AsOfOffset q \<noteq> 0 then now + q_AsOfOffset q else q_AsOf q)"

definition requested_until :: "'c query \<Rightarrow> gotime \<Rightarrow> gotime" where
  "requested_until q now = (if q_UntilOffset q \<noteq> 0 then now + q_UntilOffset q else q_Until q)"

text \<open>A time that is not given, or one that stays within \<open>UnixNano\<close> when it is rounded up.\<close>

definition time_ok :: "duration \<Rightarrow> gotime \<Rightarrow> bool" where
  "time_ok res t \<longleftrightarrow> t = zeroTime \<or> (0 \<le> t \<and> t + res \<le> 2 ^ 62)"

lemma trem_eq_0: "trem a b = 0 \<Longrightarrow> b dvd a"
  unfolding trem_def by (metis dvd_triv_left eq_iff_diff_eq_0)

lemma RoundTimeUp_zero: "0 < res \<Longrightarrow> RoundTimeUp zeroTime res = zeroTime"
  using RoundTimeUp_bounds [of res zeroTime] by (simp add: mod_pos_pos_trivial)

lemma time_ok_rounded: "0 < res \<Longrightarrow> time_ok res t \<Longrightarrow> RoundTimeUp t res = zeroTime \<or> 0 \<le> RoundTimeUp t res \<and> RoundTimeUp t res < 2 ^ 62"
  using RoundTimeUp_bounds(1,2) [of res t] by (auto simp: time_ok_def RoundTimeUp_zero)

lemma UnixNano_eq: "0 \<le> a \<Longrightarrow> a < 2 ^ 62 \<Longrightarrow> 0 \<le> b \<Longrightarrow> b < 2 ^ 62 \<Longrightarrow> UnixNano a = UnixNano b \<longleftrightarrow> a = b"
  by (simp add: UnixNano_def in64_def)

text \<open>The range that the checks of a plan see is the one that its grouping applies.\<close>

lemma asOfUntilFor_range:
  assumes "asOfUntilFor q src now = (q', asOf, asOfChanged, until, untilChanged)" "range_ok src"
    "time_ok (si_resolution src) (requested_asOf q now)" "time_ok (si_resolution src) (requested_until q now)"
  shows "asOf = (if IsZero (q_AsOf q') then si_asOf src else q_AsOf q')" "until = (if IsZero (q_Until q') then si_until src else q_Until q')"
    "\<not> asOfChanged \<Longrightarrow> asOf = si_asOf src" "\<not> untilChanged \<Longrightarrow> until = si_until src"
    "0 \<le> asOf" "asOf < 2 ^ 62" "0 \<le> until" "until < 2 ^ 62"
proof -
  have pos: "0 < si_resolution src" using assms(2) by (simp add: range_ok_def)
  note ro = time_ok_rounded [OF pos assms(3)] time_ok_rounded [OF pos assms(4)]
  let ?a = "RoundTimeUp (requested_asOf q now) (si_resolution src)" and ?u = "RoundTimeUp (requested_until q now) (si_resolution src)"
  have eqs: "q_AsOf q' = ?a" "q_Until q' = ?u" "asOfChanged \<longleftrightarrow> \<not> IsZero ?a \<and> UnixNano ?a \<noteq> UnixNano (si_asOf src)"
    "untilChanged \<longleftrightarrow> \<not> IsZero ?u \<and> UnixNano ?u \<noteq> UnixNano (si_until src)"
    "asOf = (if asOfChanged then ?a else si_asOf src)" "until = (if untilChanged then ?u else si_until src)"
    using assms(1) by (auto simp: asOfUntilFor_def Let_def requested_asOf_def requested_until_def)
  have "UnixNano ?a = UnixNano (si_asOf src) \<longleftrightarrow> ?a = si_asOf src" if "\<not> IsZero ?a"
    using UnixNano_eq ro(1) assms(2) that by (auto simp: IsZero_def range_ok_def)
  moreover have "UnixNano ?u = UnixNano (si_until src) \<longleftrightarrow> ?u = si_until src" if "\<not> IsZero ?u"
    using UnixNano_eq ro(2) assms(2) that by (auto simp: IsZero_def range_ok_def)
  ultimately show "asOf = (if IsZero (q_AsOf q') then si_asOf src else q_AsOf q')" "until = (if IsZero (q_Until q') then si_until src else q_Until q')"
    "\<not> asOfChanged \<Longrightarrow> asOf = si_asOf src" "\<not> untilChanged \<Longrightarrow> until = si_until src"
    using eqs by auto
  show "0 \<le> asOf" "asOf < 2 ^ 62" "0 \<le> until" "until < 2 ^ 62"
    using eqs ro assms(2) by (auto simp: IsZero_def range_ok_def)
qed

lemma resolutionFor_bounds:
  assumes "resolutionFor q src asOf until = Some (Inr (resolution, strideSlice, changed, truncated))" "0 < si_resolution src"
  shows "si_resolution src dvd resolution" "si_resolution src \<le> resolution" "resolution \<le> Sub until asOf" "changed \<longleftrightarrow> resolution \<noteq> si_resolution src"
  using assms by (auto simp: resolutionFor_def Let_def trem_eq_0 split: if_splits)

lemma order_info [simp]: "flat_info (addOrderLimitOffset flat q) = flat_info flat"
  by (simp add: addOrderLimitOffset_def Let_def)

lemma filtered_info:
  "(case w of None \<Rightarrow> Some (Inr source) | Some c \<Rightarrow> applySubQueryFilters P plan q opts c source) = Some (Inr filtered) \<Longrightarrow>
     row_info filtered = row_info source"
  by (auto simp: applySubQueryFilters_def rbind_def split: option.splits sum.splits)

lemma rbind_ok: "rbind r f = Some (Inr y) \<longleftrightarrow> (\<exists>x. r = Some (Inr x) \<and> f x = Some (Inr y))"
  by (auto simp: rbind_def split: option.splits sum.splits)

lemma grouped_info:
  assumes "asOf = (if IsZero (q_AsOf q) then si_asOf src else q_AsOf q)" "until = (if IsZero (q_Until q) then si_until src else q_Until q)"
    "row_info source = src" "resolution \<le> Sub until asOf" "0 < resolution" "\<not> applyResolution \<Longrightarrow> resolution = si_resolution src"
  shows "si_asOf (row_info (addGroupBy source q applyResolution resolution strideSlice)) = asOf"
    "si_until (row_info (addGroupBy source q applyResolution resolution strideSlice)) = until"
    "si_resolution (row_info (addGroupBy source q applyResolution resolution strideSlice)) = resolution"
  using assms by (auto simp: addGroupBy_def group_GetAsOf_def group_GetUntil_def group_GetResolution_def Group_def Let_def)

text \<open>The source that a plan reads from.\<close>

definition plan_source ::
  "('c, 'h) ext \<Rightarrow> ('c opts \<Rightarrow> string \<Rightarrow> 'c flatsource planned) \<Rightarrow> 'c query \<Rightarrow> 'c opts \<Rightarrow> 'c rowsource planned" where
  "plan_source X plan q opts =
     (let q1 = fixupSubQuery q opts in if q_FromSubQuery q1 \<noteq> [] then sourceForSubQuery plan q1 opts else sourceForTable X q1 opts)"

lemma fixup_simps [simp]:
  "q_From (fixupSubQuery q opts) = q_From q" "requested_asOf (fixupSubQuery q opts) now = requested_asOf q now"
  "requested_until (fixupSubQuery q opts) now = requested_until q now" "q_FromSubQuery (fixupSubQuery q opts) = q_FromSubQuery q"
  "q_SQL (fixupSubQuery q opts) = q_SQL q" "q_Where (fixupSubQuery q opts) = q_Where q"
  by (simp_all add: fixupSubQuery_def requested_asOf_def requested_until_def)

text \<open>What a plan is made of, when planning succeeds.\<close>

definition plan_body :: "'c query \<Rightarrow> bool \<Rightarrow> bool \<Rightarrow> duration \<Rightarrow> duration \<Rightarrow> 'c rowsource \<Rightarrow> 'c flatsource" where
  "plan_body q grp applyResolution resolution strideSlice filtered =
     (let source = (if grp then addGroupBy filtered q applyResolution resolution strideSlice else filtered)
      in if q_HasHaving q then HavingFilter (Flatten source) else Flatten source)"

lemma planLocal_parts:
  assumes "planLocal P X plan q opts = Some (Inr p)"
  obtains source q' asOf asOfChanged until untilChanged resolution strideSlice changed truncated filtered where
    "plan_source X plan q opts = Some (Inr source)"
    "asOfUntilFor (fixupSubQuery q opts) (row_info source) (o_Now opts (q_From q)) = (q', asOf, asOfChanged, until, untilChanged)"
    "si_asOf (row_info source) \<le> asOf"
    "resolutionFor q' (row_info source) asOf until = Some (Inr (resolution, strideSlice, changed, truncated))"
    "(case q_Where q' of None \<Rightarrow> Some (Inr source) | Some w \<Rightarrow> applySubQueryFilters P plan q' opts w source) = Some (Inr filtered)"
    "p = addOrderLimitOffset (plan_body q' (needsGroupBy q' asOfChanged untilChanged changed strideSlice) (truncated \<or> changed) resolution strideSlice filtered) q'"
proof -
  obtain source where s: "plan_source X plan q opts = Some (Inr source)"
    using assms by (auto simp: planLocal_def plan_source_def rbind_ok Let_def)
  obtain q' asOf asOfChanged until untilChanged where
    au: "asOfUntilFor (fixupSubQuery q opts) (row_info source) (o_Now opts (q_From q)) = (q', asOf, asOfChanged, until, untilChanged)"
    by (metis prod_cases5)
  from assms s au that show thesis
    by (auto simp: planLocal_def plan_source_def plan_body_def rbind_ok Let_def split: if_splits prod.splits)
qed

lemma planLocal_range:
  assumes "planLocal P X plan q opts = Some (Inr p)" "plan_source X plan q opts = Some (Inr source)" "range_ok (row_info source)"
    "time_ok (si_resolution (row_info source)) (requested_asOf q (o_Now opts (q_From q)))"
    "time_ok (si_resolution (row_info source)) (requested_until q (o_Now opts (q_From q)))"
  shows "range_ok (flat_info p) \<and> si_asOf (row_info source) \<le> si_asOf (flat_info p) \<and>
     si_asOf (flat_info p) + si_resolution (flat_info p) \<le> si_until (flat_info p) \<and>
     si_resolution (row_info source) dvd si_resolution (flat_info p)"
proof -
  let ?src = "row_info source"
  obtain source' q' asOf asOfChanged until untilChanged resolution strideSlice changed truncated filtered where
    s: "plan_source X plan q opts = Some (Inr source')"
    and au': "asOfUntilFor (fixupSubQuery q opts) (row_info source') (o_Now opts (q_From q)) = (q', asOf, asOfChanged, until, untilChanged)"
    and before': "si_asOf (row_info source') \<le> asOf"
    and r': "resolutionFor q' (row_info source') asOf until = Some (Inr (resolution, strideSlice, changed, truncated))"
    and f': "(case q_Where q' of None \<Rightarrow> Some (Inr source') | Some w \<Rightarrow> applySubQueryFilters P plan q' opts w source') = Some (Inr filtered)"
    and p: "p = addOrderLimitOffset (plan_body q' (needsGroupBy q' asOfChanged untilChanged changed strideSlice) (truncated \<or> changed) resolution
      strideSlice filtered) q'"
    by (rule planLocal_parts [OF assms(1)])
  have eq: "source' = source" using s assms(2) by simp
  note au = au' [unfolded eq] and before = before' [unfolded eq] and r = r' [unfolded eq] and f = f' [unfolded eq]
  have pos: "0 < si_resolution ?src" using assms(3) by (simp add: range_ok_def)
  note rng = asOfUntilFor_range [OF au assms(3), simplified, OF assms(4,5)] and res = resolutionFor_bounds [OF r pos]
  let ?i = "flat_info p"
  have "si_asOf ?i = asOf \<and> si_until ?i = until \<and> si_resolution ?i = resolution"
  proof (cases "needsGroupBy q' asOfChanged untilChanged changed strideSlice")
    case True
    then show ?thesis
      using grouped_info [OF rng(1,2) filtered_info [OF f] res(3), of "truncated \<or> changed" strideSlice] pos res by (auto simp: p plan_body_def Let_def)
  next
    case False
    then show ?thesis using rng(3,4) res(4) by (auto simp: p plan_body_def Let_def needsGroupBy_def filtered_info [OF f])
  qed
  moreover have "asOf + resolution \<le> until" using res(2,3) pos by (auto simp: Sub_def sat64_def max_def min_def split: if_splits)
  ultimately show ?thesis using rng res before pos by (simp add: range_ok_def)
qed

text \<open>
  C21. A local plan reads a range of its source: it begins no earlier than the source does, is at least one period long, and
  its resolution is a multiple of that of the source.  Queries that ask for anything else are refused.
\<close>

theorem local_plan_range:
  assumes "planLocal P X plan q opts = Some (Inr p)" "plan_source X plan q opts = Some (Inr source)" "range_ok (row_info source)"
    "time_ok (si_resolution (row_info source)) (requested_asOf q (o_Now opts (q_From q)))"
    "time_ok (si_resolution (row_info source)) (requested_until q (o_Now opts (q_From q)))"
  shows "range_ok (flat_info p) \<and> si_asOf (row_info source) \<le> si_asOf (flat_info p) \<and>
     si_asOf (flat_info p) + si_resolution (flat_info p) \<le> si_until (flat_info p) \<and>
     si_resolution (row_info source) dvd si_resolution (flat_info p)"
  by (rule planLocal_range [OF assms])

theorem local_plan_range_witness:
  "\<exists>p. planLocal param_planner param_ext (\<lambda>_ _. None) (param_query\<lparr>q_AsOfOffset := -50, q_Resolution := 20\<rparr>) param_opts = Some (Inr p) \<and>
     100 \<le> si_asOf (flat_info p) \<and> 10 dvd si_resolution (flat_info p)"
proof -
  let ?q = "param_query\<lparr>q_AsOfOffset := -50, q_Resolution := 20\<rparr>"
  have s: "plan_source param_ext (\<lambda>_ _. None) ?q param_opts = Some (Inr (TableRows param_table))"
    by (simp add: plan_source_def param_query_def param_opts_def fixupSubQuery_def sourceForTable_def)
  have i: "qt_info param_table = param_info" by (simp add: param_table_def)
  have r: "RoundTimeUp 150 10 = 150" "RoundTimeUp zeroTime 10 = zeroTime" by code_simp+
  obtain p where p: "planLocal param_planner param_ext (\<lambda>_ _. None) ?q param_opts = Some (Inr p)"
    using r by (simp add: planLocal_def Let_def rbind_def fixupSubQuery_def param_opts_def param_query_def sourceForTable_def param_table_def
      asOfUntilFor_def param_info_def UnixNano_def in64_def IsZero_def resolutionFor_def Sub_def sat64_def trem_def tdiv_def zeroTime_def)
  have "range_ok (row_info (TableRows param_table))" by (simp add: i range_ok_def param_info_def)
  from local_plan_range [OF p s this] show ?thesis
    using p by (simp add: i time_ok_def requested_asOf_def requested_until_def param_opts_def param_query_def) (simp add: param_info_def)
qed

section \<open>Planning ends\<close>

text \<open>
  What planning relies on: the parser finds sub queries that are smaller than the query, also when it reads the
  printed form of a query again, tables have a resolution, and
  the query for partitions keeps FROM and WHERE of the query it is made from.
\<close>

definition sub_queries_smaller :: "'c planner_ext \<Rightarrow> (string \<Rightarrow> nat) \<Rightarrow> bool" where
  "sub_queries_smaller P rank \<longleftrightarrow> (\<forall>sql q. pl_parse P sql = Inr q \<longrightarrow>
     (\<forall>q'. pl_parse P (q_SQL q) = Inr q' \<longrightarrow> q_FromSubQuery q' = q_FromSubQuery q \<and> q_Where q' = q_Where q) \<and>
     (\<forall>sub \<in> set (q_FromSubQuery q). rank (q_SQL sub) < rank sql) \<and>
     (\<forall>w d s. q_Where q = Some w \<longrightarrow> (d, s) \<in> set (pl_walkLists P w) \<longrightarrow> rank s < rank sql))"

definition tables_resolved :: "'c opts \<Rightarrow> bool" where
  "tables_resolved opts \<longleftrightarrow> (\<forall>name incl t. o_GetTable opts name incl = Inr t \<longrightarrow> si_resolution (qt_info t) \<noteq> 0)"

definition partition_queries_ok :: "'c planner_ext \<Rightarrow> bool" where
  "partition_queries_ok P \<longleftrightarrow> (\<forall>sql q. pl_parse P sql = Inr q \<longrightarrow> q_FromSubQuery q = [] \<longrightarrow> clusterSQL P q \<noteq> None \<and>
     (\<forall>sql' q'. clusterSQL P q = Some (Inr sql') \<longrightarrow> pl_parse P sql' = Inr q' \<longrightarrow> q_FromSubQuery q' = [] \<and> q_Where q' = q_Where q))"

definition resolved_plan :: "'c flatsource planned \<Rightarrow> bool" where
  "resolved_plan r \<longleftrightarrow> (\<exists>x. r = Some x \<and> (\<forall>p. x = Inr p \<longrightarrow> si_resolution (flat_info p) \<noteq> 0))"

lemma resolved_rbind:
  "r \<noteq> None \<Longrightarrow> (\<And>x. r = Some (Inr x) \<Longrightarrow> resolved_plan (f x)) \<Longrightarrow> resolved_plan (rbind r f)"
  by (auto simp: rbind_def resolved_plan_def split: option.splits sum.splits)

lemma plan_all_some: "\<forall>(d, s) \<in> set sqs. plan s \<noteq> None \<Longrightarrow> plan_all plan sqs \<noteq> None"
  by (induction plan sqs rule: plan_all.induct) (auto simp: rbind_def split: option.splits sum.splits)

lemma applySubQueryFilters_some:
  "\<forall>(d, s) \<in> set (pl_walkLists P w). plan (opts\<lparr>o_IsSubQuery := True\<rparr>) s \<noteq> None \<Longrightarrow> applySubQueryFilters P plan q opts w source \<noteq> None"
  using plan_all_some [of "pl_walkLists P w" "plan (opts\<lparr>o_IsSubQuery := True\<rparr>)"]
  by (auto simp: applySubQueryFilters_def planSubQueries_def rbind_def Let_def split: option.splits sum.splits)

lemma plan_source_resolved:
  assumes "tables_resolved opts" "\<forall>sub \<in> set (q_FromSubQuery q). resolved_plan (plan opts (q_SQL sub))"
  obtains err where "plan_source X plan q opts = Some (Inl err)" | source where "plan_source X plan q opts = Some (Inr source)" "si_resolution (row_info source) \<noteq> 0"
  using assms that
  by (fastforce simp: plan_source_def sourceForSubQuery_def sourceForTable_def Let_def rbind_def resolved_plan_def tables_resolved_def
      split: list.splits option.splits sum.splits if_splits)

lemma resolutionFor_some: "si_resolution src \<noteq> 0 \<Longrightarrow> resolutionFor q src asOf until \<noteq> None"
  by (auto simp: resolutionFor_def Let_def)

lemma addGroupBy_resolved: "si_resolution (row_info source) \<noteq> 0 \<Longrightarrow> si_resolution (row_info (addGroupBy source q ap res st)) \<noteq> 0"
  by (simp add: addGroupBy_def group_GetResolution_def)

lemma planLocal_resolved:
  assumes "tables_resolved opts" "\<forall>sub \<in> set (q_FromSubQuery q). resolved_plan (plan opts (q_SQL sub))"
    "\<forall>w. q_Where q = Some w \<longrightarrow> (\<forall>(d, s) \<in> set (pl_walkLists P w). plan (opts\<lparr>o_IsSubQuery := True\<rparr>) s \<noteq> None)"
  shows "resolved_plan (planLocal P X plan q opts)"
proof (rule plan_source_resolved [where q = q and plan = plan and X = X, OF assms(1,2)])
  fix err assume "plan_source X plan q opts = Some (Inl err)"
  then show ?thesis by (simp add: planLocal_def plan_source_def Let_def rbind_def resolved_plan_def)
next
  fix source assume s: "plan_source X plan q opts = Some (Inr source)" and r: "si_resolution (row_info source) \<noteq> 0"
  obtain q' asOf ac until uc where au: "asOfUntilFor (fixupSubQuery q opts) (row_info source) (o_Now opts (q_From q)) = (q', asOf, ac, until, uc)"
    by (metis prod_cases5)
  then have w: "q_Where q' = q_Where q" by (auto simp: asOfUntilFor_def Let_def)
  have filt: "(case q_Where q' of None \<Rightarrow> Some (Inr source) | Some w \<Rightarrow> applySubQueryFilters P plan q' opts w source) \<noteq> None"
    using assms(3) applySubQueryFilters_some [of P _ plan opts q' source] unfolding w by (auto split: option.split)
  have tl: "resolved_plan (Some (Inr (addOrderLimitOffset (let source = if b then addGroupBy filtered q' ap res st else filtered in
       if q_HasHaving q' then HavingFilter (Flatten source) else Flatten source) q')))"
    if "(case q_Where q' of None \<Rightarrow> Some (Inr source) | Some w \<Rightarrow> applySubQueryFilters P plan q' opts w source) = Some (Inr filtered)"
    for filtered b ap res st
    using filtered_info [OF that] r by (simp add: resolved_plan_def Let_def addGroupBy_resolved)
  have "resolved_plan (rbind (resolutionFor q' (row_info source) asOf until) (\<lambda>(resolution, strideSlice, changed, truncated).
      rbind (case q_Where q' of None \<Rightarrow> Some (Inr source) | Some w \<Rightarrow> applySubQueryFilters P plan q' opts w source) (\<lambda>source.
        Some (Inr (addOrderLimitOffset (let source = (if needsGroupBy q' ac uc changed strideSlice
              then addGroupBy source q' (truncated \<or> changed) resolution strideSlice else source) in
            if q_HasHaving q' then HavingFilter (Flatten source) else Flatten source) q')))))"
    by (intro resolved_rbind resolutionFor_some [OF r]) (auto split: prod.splits intro!: resolved_rbind filt tl)
  then show ?thesis using s au
    by (auto simp: planLocal_def plan_source_def Let_def rbind_def resolved_plan_def split: if_splits)
qed

lemma fixup_clauses:
  "q_HasHaving (fixupSubQuery q opts) = q_HasHaving q" "q_FromSQL (fixupSubQuery q opts) = q_FromSQL q"
  "q_HavingSQL (fixupSubQuery q opts) = q_HavingSQL q" "q_GroupBy (fixupSubQuery q opts) = q_GroupBy q"
  "q_GroupByAll (fixupSubQuery q opts) = q_GroupByAll q" "q_Resolution (fixupSubQuery q opts) = q_Resolution q"
  "q_Stride (fixupSubQuery q opts) = q_Stride q" "q_Offset (fixupSubQuery q opts) = q_Offset q"
  by (simp_all add: fixupSubQuery_def)

lemma clusterSQL_fixup [simp]: "clusterSQL P (fixupSubQuery q opts) = clusterSQL P q"
  unfolding clusterSQL_def insert_having_def groupByParts_def fixup_clauses fixup_simps ..

lemma tables_resolved_opts [simp]:
  "tables_resolved (opts\<lparr>o_IsSubQuery := b\<rparr>) = tables_resolved opts" "tables_resolved (opts\<lparr>o_QueryCluster := b\<rparr>) = tables_resolved opts"
  by (simp_all add: tables_resolved_def)

lemma UnflattenOptimized_info [simp]: "row_info (UnflattenOptimized p) = flat_info p"
  by (cases p) simp_all

text \<open>A query is planned locally once its sub queries can be planned.\<close>

lemma planLocal_sub_queries:
  assumes "sub_queries_smaller P rank" "tables_resolved opts" "pl_parse P sql = Inr q"
    "\<And>opts sub. tables_resolved opts \<Longrightarrow> rank sub < rank sql \<Longrightarrow> resolved_plan (plan opts sub)"
    "q_FromSubQuery q' = q_FromSubQuery q" "q_Where q' = q_Where q"
  shows "resolved_plan (planLocal P X plan q' opts)"
proof (rule planLocal_resolved [OF assms(2)])
  show "\<forall>sub \<in> set (q_FromSubQuery q'). resolved_plan (plan opts (q_SQL sub))"
    using assms unfolding sub_queries_smaller_def by metis
  have "plan (opts\<lparr>o_IsSubQuery := True\<rparr>) s \<noteq> None" if "q_Where q' = Some w" "(d, s) \<in> set (pl_walkLists P w)" for w d s
  proof -
    have "rank s < rank sql" using that assms(1,3,6) unfolding sub_queries_smaller_def by metis
    then show ?thesis using assms(4) [of "opts\<lparr>o_IsSubQuery := True\<rparr>" s] assms(2) by (auto simp: resolved_plan_def)
  qed
  then show "\<forall>w. q_Where q' = Some w \<longrightarrow> (\<forall>(d, s) \<in> set (pl_walkLists P w). plan (opts\<lparr>o_IsSubQuery := True\<rparr>) s \<noteq> None)" by blast
qed

lemma planAsIfLocal_resolved:
  assumes "sub_queries_smaller P rank" "tables_resolved opts" "pl_parse P sql = Inr q"
    "\<And>opts sub. tables_resolved opts \<Longrightarrow> rank sub < rank sql \<Longrightarrow> resolved_plan (plan opts sub)"
    "\<And>q'. pl_parse P sql' = Inr q' \<Longrightarrow> q_FromSubQuery q' = q_FromSubQuery q \<and> q_Where q' = q_Where q"
  shows "resolved_plan (planAsIfLocal P X plan opts sql')"
proof (cases "pl_parse P sql'")
  case (Inr q')
  then show ?thesis
    using planLocal_sub_queries [where opts = "opts\<lparr>o_QueryCluster := False\<rparr>" and q' = q', OF assms(1) _ assms(3,4)] assms(2,5)
    by (simp add: planAsIfLocal_def)
qed (simp add: planAsIfLocal_def resolved_plan_def)

lemma planClusterNonPushdown_resolved:
  assumes "clusterSQL P q \<noteq> None" "\<And>sql. clusterSQL P q = Some (Inr sql) \<Longrightarrow> resolved_plan (planAsIfLocal P X plan opts sql)"
  shows "resolved_plan (planClusterNonPushdown P X G plan opts q)"
  unfolding planClusterNonPushdown_def
proof (rule resolved_rbind [OF assms(1)])
  fix sql assume "clusterSQL P q = Some (Inr sql)"
  then obtain r where "planAsIfLocal P X plan opts sql = Some r" "\<And>p. r = Inr p \<Longrightarrow> si_resolution (flat_info p) \<noteq> 0"
    using assms(2) by (auto simp: resolved_plan_def)
  then show "resolved_plan (case planAsIfLocal P X plan opts sql of
         None \<Rightarrow> None
       | Some (Inl err) \<Rightarrow> Some (Inl (OtherError ''Unable to plan non-pushdown query''))
       | Some (Inr pail) \<Rightarrow>
           (case pl_parse P sql of
              Inl err \<Rightarrow> Some (Inl err)
            | Inr clusterQuery \<Rightarrow>
                (let q' = q\<lparr>q_Crosstab := (if concatForCrosstab (q_SQL q) \<noteq> [] then Some (g_clusterCrosstab G) else q_Crosstab q),
                       q_Fields := PassthroughFieldSource, q_AsOf := zeroTime, q_Until := zeroTime, q_Resolution := 0\<rparr>;
                     source = ClusterRows (fixupSubQuery clusterQuery opts) (UnflattenOptimized pail);
                     flat = Flatten (addGroupBy source q' True (q_Resolution q') 0)
                 in Some (Inr (addOrderLimitOffset (if q_HasHaving q then HavingFilter flat else flat) q')))))"
    by (cases r; cases "pl_parse P sql") (simp_all add: resolved_plan_def Let_def addGroupBy_resolved)
qed

lemma Plan_resolved:
  assumes "sub_queries_smaller P rank" "partition_queries_ok P"
  shows "tables_resolved opts \<Longrightarrow> rank sql < n \<Longrightarrow> resolved_plan (Plan n P X G opts sql)"
proof (induction n arbitrary: opts sql)
  case (Suc n)
  have sub: "resolved_plan (Plan n P X G opts' s)" if "tables_resolved opts'" "rank s < rank sql" for opts' s
    using Suc.IH [OF that(1)] Suc.prems(2) that(2) by simp
  show ?case
  proof (cases "pl_parse P sql")
    case (Inr q)
    have "q_FromSubQuery q' = q_FromSubQuery q \<and> q_Where q' = q_Where q" if "pl_parse P (q_SQL q) = Inr q'" for q'
      using assms(1) Inr that unfolding sub_queries_smaller_def by blast
    then have "resolved_plan (planAsIfLocal P X (Plan n P X G) opts (q_SQL q))"
      by (intro planAsIfLocal_resolved [OF assms(1) Suc.prems(1) Inr sub])
    then have "resolved_plan (planClusterPushdown P X (Plan n P X G) opts (fixupSubQuery q opts))"
      unfolding planClusterPushdown_def by (intro resolved_rbind) (auto simp: resolved_plan_def)
    moreover have "resolved_plan (planClusterNonPushdown P X G (Plan n P X G) opts (fixupSubQuery q opts))" if "q_FromSubQuery q = []"
    proof (rule planClusterNonPushdown_resolved)
      show "clusterSQL P (fixupSubQuery q opts) \<noteq> None" using assms(2) Inr that by (simp add: partition_queries_ok_def)
      show "resolved_plan (planAsIfLocal P X (Plan n P X G) opts sql')" if "clusterSQL P (fixupSubQuery q opts) = Some (Inr sql')" for sql'
      proof (rule planAsIfLocal_resolved [OF assms(1) Suc.prems(1) Inr sub])
        show "q_FromSubQuery q' = q_FromSubQuery q \<and> q_Where q' = q_Where q" if "pl_parse P sql' = Inr q'" for q'
          using assms(2) [unfolded partition_queries_ok_def, rule_format, OF Inr] \<open>q_FromSubQuery q = []\<close> that
            \<open>clusterSQL P (fixupSubQuery q opts) = Some (Inr sql')\<close> by simp
      qed
    qed
    moreover have "resolved_plan (planLocal P X (Plan n P X G) (fixupSubQuery q opts) opts)"
      by (rule planLocal_sub_queries [OF assms(1) Suc.prems(1) Inr sub]) simp_all
    ultimately show ?thesis using Inr by (auto simp: Let_def resolved_plan_def split: sum.split)
  qed (simp add: resolved_plan_def)
qed simp


text \<open>Two queries, one of which selects from the other.\<close>

definition nested_planner :: "string planner_ext" where
  "nested_planner = param_planner\<lparr>pl_parse := (\<lambda>sql.
     if sql = ''outer'' then Inr (param_query\<lparr>q_SQL := sql, q_FromSubQuery := [sqlquery.truncate (param_query\<lparr>q_SQL := ''inner''\<rparr>)]\<rparr>)
     else if sql = ''inner'' then Inr (param_query\<lparr>q_SQL := sql\<rparr>) else Inl (OtherError ''syntax error''))\<rparr>"


section \<open>Offsets of plans that are pushed down\<close>

fun skipped :: "'c flatsource \<Rightarrow> int list" where
  "skipped (LimitRows s n) = skipped s"
| "skipped (OffsetRows s n) = n # skipped s"
| "skipped (SortRows s by) = skipped s"
| "skipped (HavingFilter s) = skipped s"
| "skipped (ClusterFlatRows q pail) = skipped pail"
| "skipped (Flatten s) = []"

lemma skipped_order: "skipped (addOrderLimitOffset flat q) = (if 0 < q_Offset q then [q_Offset q] else []) @ skipped flat"
  by (simp add: addOrderLimitOffset_def Let_def)

lemma planLocal_skipped:
  assumes "planLocal P X plan q opts = Some (Inr p)"
  shows "skipped p = (if 0 < q_Offset q then [q_Offset q] else [])"
proof -
  obtain q' source now b ap res st filtered where q': "q' = fst (asOfUntilFor (fixupSubQuery q opts) (row_info source) now)"
    and p: "p = addOrderLimitOffset (plan_body q' b ap res st filtered) q'"
    by (rule planLocal_parts [OF assms]) (metis fst_conv)
  have "q_Offset q' = q_Offset q" by (simp add: q' asOfUntilFor_def Let_def fixup_clauses)
  then show ?thesis using p by (simp add: skipped_order plan_body_def)
qed

text \<open>
  A query with an offset that is pushed down skips rows twice: every partition runs the query with its offset, and the
  leader skips as many rows again of what is left.
\<close>

theorem pushdown_skips_twice:
  assumes "planClusterPushdown P X plan opts q = Some (Inr p)" "pl_parse P (q_SQL q) = Inr q" "0 < q_Offset q"
  shows "skipped p = [q_Offset q, q_Offset q]"
proof -
  obtain pail where pl: "planLocal P X plan q (opts\<lparr>o_QueryCluster := False\<rparr>) = Some (Inr pail)" and p: "p = addOrderLimitOffset (ClusterFlatRows q pail) q"
    using assms(1,2) by (auto simp: planClusterPushdown_def planAsIfLocal_def rbind_ok)
  then have "skipped pail = [q_Offset q]" using planLocal_skipped [OF pl] assms(3) by simp
  then show ?thesis using p assms(3) by (simp add: skipped_order)
qed

theorem pushdown_skips_twice_witness:
  "\<exists>p. planClusterPushdown (param_planner\<lparr>pl_parse := (\<lambda>_. Inr (param_query\<lparr>q_Offset := 5\<rparr>))\<rparr>) param_ext (\<lambda>_ _. None) param_opts
     (param_query\<lparr>q_Offset := 5\<rparr>) = Some (Inr p) \<and> skipped p = [5, 5]"
proof -
  let ?q = "param_query\<lparr>q_Offset := 5\<rparr>" and ?opts = "param_opts\<lparr>o_QueryCluster := False\<rparr>"
  let ?P = "param_planner\<lparr>pl_parse := (\<lambda>_. Inr ?q)\<rparr>"
  have "RoundTimeUp zeroTime 10 = zeroTime" by code_simp
  then have "\<exists>pail. planLocal ?P param_ext (\<lambda>_ _. None) ?q ?opts = Some (Inr pail)"
    by (simp add: planLocal_def Let_def rbind_def fixupSubQuery_def param_opts_def param_query_def sourceForTable_def param_table_def
      asOfUntilFor_def param_info_def IsZero_def resolutionFor_def Sub_def sat64_def)
  then obtain p where p: "planClusterPushdown ?P param_ext (\<lambda>_ _. None) param_opts ?q = Some (Inr p)"
    by (auto simp: planClusterPushdown_def planAsIfLocal_def rbind_def)
  from pushdown_skips_twice [OF this] show ?thesis using p by (simp add: param_query_def)
qed

end
