(* ===== verification/SqlProps.thy ===== *)
theory SqlProps
  imports Sql DurationProps PlannerRange
begin

text \<open>
  Correctness of parsed queries: the fields of a select clause, the series of CROSSHIFT, the field for HAVING and what the
  planner does with it, and the grouping.
\<close>

section \<open>Fields of a select clause\<close>

text \<open>The fields selected so far: names occur once, and expressions are valid unless they come from the source.\<close>

definition selected_inv :: "'c fields \<Rightarrow> 'c selected \<Rightarrow> bool" where
  "selected_inv known st \<longleftrightarrow> distinct (map f_name (fst st)) \<and>
     (\<forall>f \<in> set (fst st). f \<in> set known \<or> Validate (f_expr f) = None \<and> ToLower (f_name f) = f_name f)"

lemma ToLower_append [simp]: "ToLower (s @ t) = ToLower s @ ToLower t"
  by (simp add: ToLower_def)

lemma ToLower_Cons: "ToLower (c # s) = toLower_char c # ToLower s"
  by (simp add: ToLower_def)

lemma ToLower_ToLower [simp]: "ToLower (ToLower s) = ToLower s"
  by (simp add: ToLower_def toLower_char_def Let_def)

lemma addField_inv:
  "selected_inv known st \<Longrightarrow> f \<in> set known \<or> Validate (f_expr f) = None \<and> ToLower (f_name f) = f_name f \<Longrightarrow> selected_inv known (addField f st)"
  by (cases st) (auto simp: selected_inv_def addField_def)

lemma addExpr_inv: "selected_inv known st \<Longrightarrow> addExpr fe as st = Inr st' \<Longrightarrow> selected_inv known st'"
  by (auto simp: addExpr_def NewField_def split: exprarg.splits option.splits intro!: addField_inv)

lemma crosshift_loop_inv:
  assumes "crosshift_loop valueEx as backward bound interval i st = Some r"
  shows "r = Inr st' \<longrightarrow> selected_inv known st \<longrightarrow> selected_inv known st'"
proof (rule crosshift_loop.raw_induct [OF _ assms, where P = "\<lambda>_ _ _ _ _ _ st r. r = Inr st' \<longrightarrow> selected_inv known st \<longrightarrow> selected_inv known st'"])
  fix self :: "'a expr \<Rightarrow> string \<Rightarrow> bool \<Rightarrow> duration \<Rightarrow> duration \<Rightarrow> duration \<Rightarrow> 'a selected \<Rightarrow> 'a selected planned"
    and valueEx as backward bound interval i st r
  assume IH: "\<And>valueEx as backward bound interval i st r. self valueEx as backward bound interval i st = Some r \<Longrightarrow>
        r = Inr st' \<longrightarrow> selected_inv known st \<longrightarrow> selected_inv known st'"
    and body: "(if i < bound
      then case addExpr (AExpr (SHIFT valueEx (if backward then wrap64 (- i) else i))) (if i = 0 then as else as @ ''_'' @ durationToString i) st of
             Inl err \<Rightarrow> Some (Inl err)
           | Inr st \<Rightarrow> self valueEx as backward bound interval (wrap64 (i + interval)) st
      else Some (Inr st)) = Some r"
  let ?a = "addExpr (AExpr (SHIFT valueEx (if backward then wrap64 (- i) else i))) (if i = 0 then as else as @ ''_'' @ durationToString i) st"
  show "r = Inr st' \<longrightarrow> selected_inv known st \<longrightarrow> selected_inv known st'"
  proof (cases ?a)
    case (Inr st1)
    then show ?thesis
      using body IH [of valueEx as backward bound interval "wrap64 (i + interval)" st1 r] addExpr_inv [OF _ Inr, of known] by (cases "i < bound") (simp, auto)
  qed (use body in \<open>cases "i < bound"; auto\<close>)
qed

lemma fold_addField_inv: "selected_inv known st \<Longrightarrow> set fs \<subseteq> set known \<Longrightarrow> selected_inv known (fold addField fs st)"
  by (induction fs arbitrary: st) (simp_all add: addField_inv)

lemma select_element_inv:
  assumes "select_element X S A reg known e st = Some (Inr st')" "selected_inv known st"
  shows "selected_inv known st'"
  using assms
  by (auto simp: select_element_def addCrosshiftExpr_def rbind_ok fold_addField_inv dest!: crosshift_loop_inv [where st' = st' and known = known]
      split: if_splits selexpr.splits list.splits option.splits dest: addExpr_inv)

lemma select_loop_inv:
  "select_loop X S A reg known es st = Some (Inr st') \<Longrightarrow> selected_inv known st \<Longrightarrow> selected_inv known st'"
  by (induction es arbitrary: st) (auto simp: rbind_ok dest: select_element_inv)

text \<open>
  C24. The fields that a select clause delivers have distinct names, and every one is a field of the source or has a valid
  expression under a name in lower case: what the rest of the program does with expressions applies to all of them.
\<close>

theorem select_fields_valid:
  assumes "selectClause_Get X S A reg stmt known = Some (Inr fs)" "\<forall>f \<in> set known. Validate (f_expr f) = None"
  shows "distinct (map f_name fs) \<and> (\<forall>f \<in> set fs. Validate (f_expr f) = None \<and> (f \<in> set known \<or> ToLower (f_name f) = f_name f))"
proof -
  obtain fm where l: "select_loop X S A reg known (st_SelectExprs stmt) ([], fielded_init known) = Some (Inr (fs, fm))"
    using assms(1) by (auto simp: selectClause_Get_def rbind_ok)
  have "selected_inv known ([], fielded_init known)" by (simp add: selected_inv_def)
  from select_loop_inv [OF l this] show ?thesis using assms(2) by (auto simp: selected_inv_def)
qed

section \<open>CROSSHIFT\<close>

text \<open>Printed durations are in lower case, so that the names of a series differ.\<close>

lemma toLower_digit: "is_digit c \<Longrightarrow> toLower_char c = c"
proof -
  have "int (of_char c) = of_char c" by (rule of_nat_of_char)
  then show "is_digit c \<Longrightarrow> ?thesis" unfolding is_digit_def toLower_char_def Let_def by auto
qed

lemma ToLower_itoa: "0 \<le> n \<Longrightarrow> ToLower (itoa n) = itoa n"
proof -
  have "list_all is_digit (itoa_nat k)" for k
    by (induction k rule: itoa_nat.induct) (subst itoa_nat.simps, auto)
  then show "0 \<le> n \<Longrightarrow> ?thesis" by (simp add: itoa_def ToLower_def list_all_iff map_idI toLower_digit)
qed

lemma ToLower_fmtFrac: "0 \<le> v \<Longrightarrow> ToLower (fst (fmtFrac v prec)) = fst (fmtFrac v prec)" "0 \<le> v \<Longrightarrow> 0 \<le> snd (fmtFrac v prec)"
proof -
  have dot: "toLower_char (CHR ''.'') = CHR ''.''" by code_simp
  show "0 \<le> v \<Longrightarrow> ToLower (fst (fmtFrac v prec)) = fst (fmtFrac v prec)" "0 \<le> v \<Longrightarrow> 0 \<le> snd (fmtFrac v prec)"
    using fmtFrac_from_digits [of v prec] dot by (auto simp: fmtFrac_def ToLower_def toLower_digit pos_imp_zdiv_nonneg_iff)
qed

lemma ToLower_Duration_String: "0 \<le> d \<Longrightarrow> ToLower (Duration_String d) = Duration_String d"
proof -
  have "ToLower ''ns'' = ''ns''" "ToLower [CHR 0xC2, CHR 0xB5, CHR ''s''] = [CHR 0xC2, CHR 0xB5, CHR ''s'']" "ToLower ''ms'' = ''ms''"
    "ToLower ''h'' = ''h''" "ToLower ''m'' = ''m''" "ToLower ''s'' = ''s''" "ToLower ''0s'' = ''0s''" "ToLower [] = []" by code_simp+
  then show "0 \<le> d \<Longrightarrow> ?thesis"
    by (simp add: Duration_String_def Let_def split_beta ToLower_itoa ToLower_fmtFrac pos_imp_zdiv_nonneg_iff)
qed

lemma ToLower_durationToString: "0 \<le> d \<Longrightarrow> ToLower (durationToString d) = durationToString d"
proof -
  assume d: "0 \<le> d"
  have u: "toLower_char (CHR ''w'') = CHR ''w''" "ToLower ''d'' = ''d''" "ToLower [] = []" by code_simp+
  have w: "0 < week" "0 < day" by (simp_all add: week_def day_def)
  have "0 \<le> trem x y" "0 \<le> tdiv x y" if "0 \<le> x" "0 < y" for x y
    using that by (simp_all add: tdiv_nonneg trem_def minus_mult_div_eq_mod pos_imp_zdiv_nonneg_iff)
  then show ?thesis using d w u by (simp add: durationToString_def Let_def ToLower_itoa ToLower_Duration_String ToLower_Cons)
qed

definition shift_name :: "string \<Rightarrow> duration \<Rightarrow> string" where
  "shift_name as i = ToLower (if i = 0 then as else as @ ''_'' @ durationToString i)"

definition shift_field :: "'c expr \<Rightarrow> string \<Rightarrow> bool \<Rightarrow> duration \<Rightarrow> nat \<Rightarrow> 'c field" where
  "shift_field ve as backward interval k =
     NewField (shift_name as (int k * interval)) (SHIFT ve (if backward then - (int k * interval) else int k * interval))"

lemma shift_name_inj:
  assumes "shift_name as i = shift_name as j" "0 \<le> i" "i < 2 ^ 63" "0 \<le> j" "j < 2 ^ 63"
  shows "i = j"
proof (cases "0 < i \<and> 0 < j")
  case True
  then have "durationToString i = durationToString j" using assms by (simp add: shift_name_def ToLower_durationToString ToLower_Cons)
  then show ?thesis using True assms parse_durationToString by (metis option.inject sum.inject(2))
next
  case False
  have "length (shift_name as i) = length (shift_name as j)" using assms(1) by simp
  then show ?thesis using False assms(2,4) by (auto simp: shift_name_def ToLower_def split: if_splits)
qed

lemma wrap64_small: "0 \<le> a \<Longrightarrow> a < 2 ^ 63 \<Longrightarrow> wrap64 a = a \<and> wrap64 (- a) = - a"
  by (simp add: in64_def)

lemma ceil_div_bounds: "0 < i \<Longrightarrow> c \<le> (c + i - 1) div i * i \<and> ((c + i - 1) div i - 1) * i < (c :: int)"
  using div_mult_mod_eq [of "c + i - 1" i] pos_mod_bound [of i "c + i - 1"] pos_mod_sign [of i "c + i - 1"]
  unfolding left_diff_distrib by linarith

lemma crosshift_loop_series:
  assumes "0 < interval" "Validate ve = None" "bound \<le> int n * interval" "(int n - 1) * interval < bound" "bound + interval < 2 ^ 63"
  shows "k \<le> n \<Longrightarrow> distinct (map f_name (fs @ map (shift_field ve as backward interval) [k..<n])) \<Longrightarrow>
    \<exists>fm'. crosshift_loop ve as backward bound interval (int k * interval) (fs, fm) =
      Some (Inr (fs @ map (shift_field ve as backward interval) [k..<n], fm'))"
proof (induction "n - k" arbitrary: k fs fm)
  case 0
  then show ?case using assms(3) by (simp add: crosshift_loop.simps)
next
  case (Suc m)
  then have k: "k < n" "k \<le> n - 1" by simp_all
  have "int k * interval \<le> (int n - 1) * interval" "int (Suc k) * interval \<le> int n * interval"
    using k assms(1) by (simp_all add: mult_right_mono)
  then have i: "int k * interval < bound" "int k * interval + interval < 2 ^ 63" and wr: "int (Suc k) * interval = int k * interval + interval"
    using assms(4,5) by (simp_all add: algebra_simps)
  have nn: "0 \<le> int k * interval" using assms(1) by simp
  have w: "wrap64 (int k * interval + interval) = int (Suc k) * interval" "wrap64 (- (int k * interval)) = - (int k * interval)"
    using wrap64_small [of "int k * interval + interval"] wrap64_small [of "int k * interval"] i nn assms(1) wr by linarith+
  let ?f = "shift_field ve as backward interval k"
  have fresh: "f_name ?f \<notin> f_name ` set fs" using Suc.prems(2) k(1) by (auto simp: upt_rec [of k n])
  have a: "addExpr (AExpr (SHIFT ve (if backward then wrap64 (- (int k * interval)) else int k * interval)))
      (if int k * interval = 0 then as else as @ ''_'' @ durationToString (int k * interval)) (fs, fm) = Inr (fs @ [?f], fm(f_name ?f \<mapsto> ?f))"
    using assms(2) fresh by (auto simp: addExpr_def addField_def shift_field_def shift_name_def SHIFT_def NewField_def w(2))
  have "\<exists>fm'. crosshift_loop ve as backward bound interval (int (Suc k) * interval) (fs @ [?f], fm(f_name ?f \<mapsto> ?f)) =
      Some (Inr ((fs @ [?f]) @ map (shift_field ve as backward interval) [Suc k..<n], fm'))"
    using Suc.hyps(2) Suc.prems k(1) by (intro Suc.hyps(1)) (auto simp: upt_rec [of k n])
  then show ?case using i(1) a w(1) k(1) by (subst crosshift_loop.simps) (simp add: upt_rec [of k n] del: upt_Suc)
qed

text \<open>
  CROSSHIFT selects one field per shift, from none up to but not including the cutoff in steps of the interval, in the
  direction of the cutoff; the names carry the shift and are distinct.  The loop ends if cutoff and interval together fit 64 bits.
\<close>

theorem crosshift_series:
  assumes "fielded_exprFor X S A reg fm v True = Some (Inr (AExpr ve))" "Validate ve = None" "asOrColName al v = Inr as"
    "nodeToDuration S e1 = Some (Inr cutoff)" "nodeToDuration S e2 = Some (Inr interval)" "cutoff \<noteq> 0" "interval \<noteq> 0" "\<bar>cutoff\<bar> + \<bar>interval\<bar> < 2 ^ 63"
    "n = nat ((\<bar>cutoff\<bar> + \<bar>interval\<bar> - 1) div \<bar>interval\<bar>)"
    "distinct (map f_name fs)" "\<forall>k < n. shift_name as (int k * \<bar>interval\<bar>) \<notin> f_name ` set fs"
  shows "\<exists>fm'. addCrosshiftExpr X S A reg [NonStarExpr v va, e1, e2] al (fs, fm) =
      Some (Inr (fs @ map (shift_field ve as (cutoff < 0) \<bar>interval\<bar>) [0..<n], fm')) \<and>
    distinct (map f_name (fs @ map (shift_field ve as (cutoff < 0) \<bar>interval\<bar>) [0..<n]))"
proof -
  let ?i = "\<bar>interval\<bar>" and ?c = "\<bar>cutoff\<bar>"
  have pos: "0 < ?i" "0 < ?c" using assms(6,7) by simp_all
  have n: "int n = (?c + ?i - 1) div ?i" using assms(9) pos by (simp add: pos_imp_zdiv_nonneg_iff)
  have b: "?c \<le> int n * ?i" "(int n - 1) * ?i < ?c"
    using ceil_div_bounds [OF pos(1)] unfolding n by simp_all
  have range: "int k * ?i < 2 ^ 63" if "k < n" for k
  proof -
    have "int k * ?i \<le> (int n - 1) * ?i" using that pos(1) by (intro mult_right_mono) auto
    then show ?thesis using b(2) assms(8) pos(1) by linarith
  qed
  have "k = l" if "shift_name as (int k * ?i) = shift_name as (int l * ?i)" "k < n" "l < n" for k l
    using shift_name_inj [OF that(1)] range that pos(1) by simp
  then have "inj_on (\<lambda>k. shift_name as (int k * ?i)) {0..<n}" by (auto simp: inj_on_def)
  then have "distinct (map (\<lambda>k. shift_name as (int k * ?i)) [0..<n])" by (simp only: distinct_map set_upt distinct_upt simp_thms)
  moreover have names: "map f_name (map (shift_field ve as (cutoff < 0) ?i) [0..<n]) = map (\<lambda>k. shift_name as (int k * ?i)) [0..<n]"
    by (simp add: shift_field_def NewField_def)
  moreover have "set (map f_name fs) \<inter> set (map (\<lambda>k. shift_name as (int k * ?i)) [0..<n]) = {}" 
    using assms(11) by (metis (no_types, lifting) atLeastLessThan_iff disjoint_iff imageE set_map set_upt)
  ultimately have d: "distinct (map f_name (fs @ map (shift_field ve as (cutoff < 0) ?i) [0..<n]))"
    using assms(10) by (simp only: map_append distinct_append simp_thms)
  have w: "(if cutoff < 0 then wrap64 (- cutoff) else cutoff) = ?c" "(if interval < 0 then wrap64 (- interval) else interval) = ?i"
    using assms(8) by (auto simp: in64_def)
  show ?thesis
    using crosshift_loop_series [OF pos(1) assms(2) b assms(8) _ d, of fm] d assms(1,3-7) w
    by (simp add: addCrosshiftExpr_def rbind_def)
qed

section \<open>HAVING\<close>

text \<open>The sources of fields of a query, which the clauses after SELECT leave alone.\<close>

definition field_sources :: "'c query \<Rightarrow> 'c fieldsource \<times> 'c fieldsource \<times> bool" where
  "field_sources q = (q_Fields q, q_FieldsNoHaving q, q_HasHaving q)"

lemma group_element_keeps: "group_element S e al r st = Some (Inr st') \<Longrightarrow> field_sources (fst st') = field_sources (fst st)"
  by (cases st) (auto simp: group_element_def rbind_ok field_sources_def sql_err_def split: if_splits list.splits)

lemma group_loop_keeps: "group_loop S es st = Some (Inr st') \<Longrightarrow> field_sources (fst st') = field_sources (fst st)"
  by (induction S es st rule: group_loop.induct) (auto simp: rbind_ok sql_err_def field_sources_def dest!: group_element_keeps)

lemma clauses_keep:
  "applyWhereClause S stmt w q = Some (Inr q') \<Longrightarrow> field_sources q' = field_sources q"
  "applyTimeRange S stmt q = Some (Inr q') \<Longrightarrow> field_sources q' = field_sources q"
  "applyGroupBy S stmt gs q = Some (Inr q') \<Longrightarrow> field_sources q' = field_sources q"
  "applyLimit S stmt q = Some (Inr q') \<Longrightarrow> field_sources q' = field_sources q"
  "field_sources (applyOrderBy S stmt q) = field_sources q" "field_sources (applyComments stmt q) = field_sources q"
proof -
  show "applyWhereClause S stmt w q = Some (Inr q') \<Longrightarrow> field_sources q' = field_sources q"
    by (auto simp: applyWhereClause_def rbind_ok field_sources_def split: option.splits)
  show "applyTimeRange S stmt q = Some (Inr q') \<Longrightarrow> field_sources q' = field_sources q"
    by (cases "st_TimeRange stmt") (auto simp: applyTimeRange_def rbind_ok, auto simp: field_sources_def sql_err_def split: option.splits if_splits sum.splits)
  show "applyGroupBy S stmt gs q = Some (Inr q') \<Longrightarrow> field_sources q' = field_sources q"
    by (auto simp: applyGroupBy_def rbind_ok dest!: group_loop_keeps) (simp_all add: field_sources_def)
  show "applyLimit S stmt q = Some (Inr q') \<Longrightarrow> field_sources q' = field_sources q"
    by (cases "st_Limit stmt") (auto simp: applyLimit_def rbind_ok, auto simp: field_sources_def sql_err_def split: option.splits)
qed (simp_all add: applyOrderBy_def applyComments_def field_sources_def)

lemma parse_field_sources:
  assumes "parse X S A reg stmt = Some (Inr q)" "st_SelectExprs stmt \<noteq> []"
    "s_parse S (''SELECT '' @ fieldsSQL S stmt @ '' FROM whatever'') = Inr (Some combined)"
  shows "q_Fields q = selectSource (again_Get A combined)" "q_FieldsNoHaving q = selectSource (again_Get A stmt)"
proof -
  obtain w gs where "parse_clauses S A stmt w gs = Some (Inr q)" using assms(1) by (cases stmt) auto
  then obtain q0 q1 q2 q3 q4 q5 where "applySelect S A stmt q0 = Some (Inr q1)" "applyWhereClause S stmt w q1 = Some (Inr q2)"
    "applyTimeRange S stmt q2 = Some (Inr q3)" "applyGroupBy S stmt gs q3 = Some (Inr q4)"
    "applyLimit S stmt (applyOrderBy S stmt q4) = Some (Inr q5)" "q = applyComments stmt q5"
    by (auto simp: parse_clauses_def rbind_ok)
  then have "field_sources q = field_sources q1" "applySelect S A stmt q0 = Some (Inr q1)" by (simp_all add: clauses_keep)
  then show "q_Fields q = selectSource (again_Get A combined)" "q_FieldsNoHaving q = selectSource (again_Get A stmt)"
    using assms(2,3) by (auto simp: applySelect_def field_sources_def Let_def split: option.splits if_splits)
qed

lemma selectSource_ok: "fieldsource_Get (selectSource get) known = Inr fs \<longleftrightarrow> get known = Some (Inr fs)"
  by (auto simp: selectSource_def ErrPanic_def split: option.splits)

lemma select_loop_append:
  "select_loop X S A reg known (es @ es') st = rbind (select_loop X S A reg known es st) (select_loop X S A reg known es')"
  by (induction es arbitrary: st) (auto simp: rbind_def split: option.splits sum.splits)


section \<open>GROUP BY\<close>

text \<open>The elements that are dimensions, with their names and translations.\<close>

definition is_dimension :: "sqlexpr \<Rightarrow> bool" where
  "is_dimension e \<longleftrightarrow> \<not> isFunc ''PERIOD'' e \<and> \<not> isFunc ''STRIDE'' e \<and> \<not> HasPrefix (func_name e) ''CROSSTAB''"

definition group_dim :: "selexpr \<times> 'c planned \<Rightarrow> (string \<times> 'c) list" where
  "group_dim er =
     (case er of
        (NonStarExpr e al, Some (Inr c)) \<Rightarrow> if is_dimension e then [(group_name e al, c)] else []
      | _ \<Rightarrow> [])"

definition group_dims :: "(selexpr \<times> 'c planned) list \<Rightarrow> (string \<times> 'c) list" where
  "group_dims es = concat (map group_dim es)"

lemma group_element_dims:
  assumes "group_element S e al r (q, gb) = Some (Inr (q', gb'))"
  shows "gb' = gb @ group_dim (NonStarExpr e al, r)" "q_GroupBy q' = q_GroupBy q" "q_GroupByAll q' = q_GroupByAll q"
  using assms
  by (auto simp: group_element_def group_dim_def is_dimension_def rbind_ok sql_err_def split: if_splits list.splits option.splits sum.splits)

lemma group_loop_dims:
  "group_loop S es (q, gb) = Some (Inr (q', gb')) \<Longrightarrow>
     gb' = gb @ group_dims es \<and> q_GroupBy q' = q_GroupBy q \<and> (q_GroupByAll q' \<longleftrightarrow> q_GroupByAll q \<or> StarExpr \<in> set (map fst es))"
proof (induction es arbitrary: q gb)
  case (Cons er es)
  obtain x r where er: "er = (x, r)" by fastforce
  show ?case
  proof (cases x)
    case (NonStarExpr e al)
    then obtain q1 gb1 where s: "group_element S e al r (q, gb) = Some (Inr (q1, gb1))" "group_loop S es (q1, gb1) = Some (Inr (q', gb'))"
      using Cons.prems er by (auto simp: rbind_ok)
    show ?thesis using Cons.IH [OF s(2)] group_element_dims [OF s(1)] er NonStarExpr by (auto simp: group_dims_def)
  qed (use Cons er in \<open>auto simp: group_dims_def group_dim_def sql_err_def\<close>)
qed (simp add: group_dims_def)

lemma sorted_lookup:
  assumes "distinct (map fst gb)"
  shows "map (\<lambda>name. (name, the (map_of (rev gb) name))) (sort (map fst gb)) = sort_key fst gb"
proof -
  have "sort (map fst gb) = map fst (sort_key fst gb)"
    by (rule properties_for_sort) simp_all
  moreover have "(fst nc, the (map_of (rev gb) (fst nc))) = nc" if "nc \<in> set (sort_key fst gb)" for nc
  proof -
    have "map_of (rev gb) (fst nc) = Some (snd nc)"
      by (rule map_of_is_SomeI) (use that assms in \<open>simp_all add: rev_map [symmetric]\<close>)
    then show ?thesis by simp
  qed
  ultimately show ?thesis by (simp add: comp_def) (rule map_idI, simp)
qed

lemma clauses_keep_group:
  "applyLimit S stmt q = Some (Inr q') \<Longrightarrow> q_GroupBy q' = q_GroupBy q \<and> q_GroupByAll q' = q_GroupByAll q"
  by (cases "st_Limit stmt") (auto simp: applyLimit_def rbind_ok, auto simp: sql_err_def split: option.splits)

lemma length_params: "length (paramGoExprs X S A reg es) = length es"
proof (induction es)
  case (Cons e es)
  then show ?case by (cases e) simp_all
qed simp

text \<open>The clauses before GROUP BY leave the grouping empty.\<close>

lemma group_untouched:
  assumes "applyFrom S A stmt (query0 sql) = Some (Inr q0)" "applySelect S A stmt (checkForFields S stmt q0) = Some (Inr q1)"
    "applyWhereClause S stmt w q1 = Some (Inr q2)" "applyTimeRange S stmt q2 = Some (Inr q3)"
  shows "q_GroupBy q3 = [] \<and> \<not> q_GroupByAll q3"
proof -
  have "q_GroupBy q0 = [] \<and> \<not> q_GroupByAll q0"
    using assms(1) by (auto simp: applyFrom_def query0_def Let_def sql_err_def split: list.splits tableexpr.splits simpletable.splits if_splits option.splits sum.splits)
  then have "q_GroupBy q1 = [] \<and> \<not> q_GroupByAll q1"
    using assms(2) by (auto simp: applySelect_def checkForFields_def Let_def sql_err_def split: if_splits option.splits sum.splits)
  then have "q_GroupBy q2 = [] \<and> \<not> q_GroupByAll q2"
    using assms(3) by (auto simp: applyWhereClause_def rbind_ok split: option.splits)
  then show ?thesis
    using assms(4) by (cases "st_TimeRange stmt") (auto simp: applyTimeRange_def rbind_ok, auto simp: sql_err_def split: option.splits if_splits sum.splits)
qed

text \<open>
  The dimensions of GROUP BY become the group-by expressions of the query, sorted by name and each with its own translation,
  if their names differ; the query groups by all dimensions exactly if nothing or a wildcard is given.
\<close>

theorem parsed_group_by:
  assumes "Parse (Suc n) X S reg sql = Some (Inr q)" "s_parse S sql = Inr (Some stmt)"
    "dims = group_dims (zip (st_GroupBy stmt) (paramGoExprs X S (sql_level n X S reg) reg (st_GroupBy stmt)))" "distinct (map fst dims)"
  shows "q_GroupBy q = sort_key fst dims \<and> sorted (map fst (q_GroupBy q)) \<and> (q_GroupByAll q \<longleftrightarrow> st_GroupBy stmt = [] \<or> StarExpr \<in> set (st_GroupBy stmt))"
proof -
  let ?A = "sql_level n X S reg"
  let ?gs = "paramGoExprs X S ?A reg (st_GroupBy stmt)"
  obtain w where "parse_clauses S ?A stmt w ?gs = Some (Inr q)"
    using assms(1,2) by (cases stmt) (auto simp: Parse_def)
  then obtain q0 q1 q2 q3 q4 q5 where
    "applyFrom S ?A stmt (query0 (nodeToString S (NSelect stmt))) = Some (Inr q0)" "applySelect S ?A stmt (checkForFields S stmt q0) = Some (Inr q1)"
    "applyWhereClause S stmt w q1 = Some (Inr q2)" "applyTimeRange S stmt q2 = Some (Inr q3)" "applyGroupBy S stmt ?gs q3 = Some (Inr q4)"
    "applyLimit S stmt (applyOrderBy S stmt q4) = Some (Inr q5)" "q = applyComments stmt q5"
    by (auto simp: parse_clauses_def rbind_ok)
  note steps = this
  have "q_GroupBy q3 = [] \<and> \<not> q_GroupByAll q3" using steps(1-4) by (metis group_untouched)
  moreover have "q_GroupBy q = q_GroupBy q4 \<and> q_GroupByAll q = q_GroupByAll q4"
    using clauses_keep_group [OF steps(6)] steps(7) by (simp add: applyComments_def applyOrderBy_def)
  moreover obtain q3' gb where "group_loop S (zip (st_GroupBy stmt) ?gs) (q3, []) = Some (Inr (q3', gb))"
    "q4 = (if st_GroupBy stmt = [] then q3'\<lparr>q_GroupByAll := True\<rparr>
           else q3'\<lparr>q_GroupBy := q_GroupBy q3' @ map (\<lambda>name. (name, the (map_of (rev gb) name))) (sort (map fst gb))\<rparr>)"
    using steps(5) by (auto simp: applyGroupBy_def rbind_ok)
  ultimately show ?thesis
    using group_loop_dims [of S "zip (st_GroupBy stmt) ?gs" q3 "[]" q3' gb] sorted_lookup [OF assms(4)] assms(3) length_params [of X S ?A reg]
    by (auto simp: group_dims_def)
qed

section \<open>A statement\<close>

fun expr_str :: "sqlexpr \<Rightarrow> string" where
  "expr_str (ColName name) = name"
| "expr_str (NumVal v) = v"
| "expr_str (StrVal v) = [CHR 0x27] @ v @ [CHR 0x27]"
| "expr_str _ = ''?''"

fun node_str :: "sqlnode \<Rightarrow> string" where
  "node_str (NExpr e) = expr_str e"
| "node_str (NSelectExpr (NonStarExpr e al)) = expr_str e"
| "node_str _ = ''?''"

text \<open>SELECT A, sum(b) AS total FROM T GROUP BY y, x AS a HAVING a > 1\<close>

definition sample_stmt :: selstmt where
  "sample_stmt = Select [] [NonStarExpr (ColName ''A'') [], NonStarExpr (FuncExpr ''sum'' [NonStarExpr (ColName ''b'') []]) ''total'']
     [AliasedTableExpr (TableName ''T'') []] None None [NonStarExpr (ColName ''y'') [], NonStarExpr (ColName ''x'') ''a'']
     (Some (ComparisonExpr ''>'' (ColName ''a'') (NumVal ''1''))) [] None"

definition sample_combined :: selstmt where
  "sample_combined = Select [] [NonStarExpr (ColName ''A'') [], NonStarExpr (FuncExpr ''sum'' [NonStarExpr (ColName ''b'') []]) ''total'',
       NonStarExpr (ComparisonExpr ''>'' (ColName ''a'') (NumVal ''1'')) ''_having'']
     [AliasedTableExpr (TableName ''whatever'') []] None None [] None [] None"

definition sample_sql :: "string sql_ext" where
  "sample_sql = \<lparr> s_parse = (\<lambda>sql. if sql = ''q'' then Inr (Some sample_stmt)
       else if sql = ''SELECT ?, ? AS _having FROM whatever'' then Inr (Some sample_combined) else Inl (OtherError ''syntax error'')),
     nodeToString = node_str, s_Sprintf = (\<lambda>f _. f), s_floatValue = (\<lambda>_. float_of_int 1), s_parseTime = (\<lambda>_. None),
     gx_Constant = (\<lambda>_. ''const''), gx_Param = (\<lambda>p. p), gx_Binary = (\<lambda>op l r. Inr (l @ op @ r)), gx_Not = (\<lambda>c. ''not '' @ c),
     gx_In = (\<lambda>c _. c), gx_P = (\<lambda>c. c), gx_fn = (\<lambda>f _. f), gx_arrayItems = (\<lambda>_. None), gx_Lua = (\<lambda>c _ _. c) \<rparr>"

abbreviation "sample_level n \<equiv> sql_level n param_ext sample_sql registry0"

lemma sample_select:
  "select_loop param_ext sample_sql A registry0 [] (st_SelectExprs sample_stmt) ([], fielded_init []) =
     Some (Inr ([NewField ''a'' (Aggregate AggSum (Field ''a'')), NewField ''total'' (Aggregate AggSum (Field ''b''))],
       (fielded_init [])(''a'' \<mapsto> NewField ''a'' (Aggregate AggSum (Field ''a'')), ''total'' \<mapsto> NewField ''total'' (Aggregate AggSum (Field ''b'')))))"
proof -
  have "ToLower ''A'' = ''a''" "ToLower ''b'' = ''b''" "ToUpper ''sum'' = ''SUM''" "ToLower ''total'' = ''total''" by code_simp+
  then show ?thesis
    by (simp add: sample_stmt_def select_element_def sample_sql_def rbind_def asOrColName_def isFunc_def columnExprFor_def fielded_init_def addExpr_def
      addField_def funcExprFor_def unaryFuncExprFor_def aggregateFuncs_def aggregateFor_def NewField_def)
qed

theorem select_fields_valid_witness:
  "\<exists>fs. selectClause_Get param_ext sample_sql (sample_level 0) registry0 sample_stmt [] = Some (Inr fs) \<and> distinct (map f_name fs) \<and> length fs = 2"
proof -
  let ?fs = "[NewField ''a'' (Aggregate AggSum (Field ''a'')), NewField ''total'' (Aggregate AggSum (Field ''b''))]"
  have g: "selectClause_Get param_ext sample_sql (sample_level 0) registry0 sample_stmt [] = Some (Inr ?fs)"
    by (simp add: selectClause_Get_def sample_select rbind_def)
  from select_fields_valid [OF g] show ?thesis using g by simp
qed

theorem crosshift_series_witness:
  "\<exists>fm'. addCrosshiftExpr param_ext sample_sql (sample_level 0) registry0
     [NonStarExpr (ColName ''b'') [], NonStarExpr (StrVal ''2h0m0s'') [], NonStarExpr (StrVal ''1h0m0s'') []] ''c'' ([], Map.empty) =
     Some (Inr ([shift_field (Aggregate AggSum (Field ''b'')) ''c'' False 3600000000000 0, shift_field (Aggregate AggSum (Field ''b'')) ''c'' False 3600000000000 1], fm'))"
proof -
  have str: "durationToString 7200000000000 = ''2h0m0s''" "durationToString 3600000000000 = ''1h0m0s''"
    "ToLower (remove_first '' as '' (Trim_quotes (node_str (NSelectExpr (NonStarExpr (StrVal ''2h0m0s'') []))))) = ''2h0m0s''"
    "ToLower (remove_first '' as '' (Trim_quotes (node_str (NSelectExpr (NonStarExpr (StrVal ''1h0m0s'') []))))) = ''1h0m0s''" "ToLower ''b'' = ''b''"
    by code_simp+
  have d: "nodeToDuration sample_sql (NonStarExpr (StrVal ''2h0m0s'') []) = Some (Inr 7200000000000)"
    "nodeToDuration sample_sql (NonStarExpr (StrVal ''1h0m0s'') []) = Some (Inr 3600000000000)"
    using parse_durationToString [of 7200000000000] parse_durationToString [of 3600000000000] str by (simp_all add: nodeToDuration_def sample_sql_def)
  have v: "fielded_exprFor param_ext sample_sql (sample_level 0) registry0 Map.empty (ColName ''b'') True = Some (Inr (AExpr (Aggregate AggSum (Field ''b''))))"
    using str by (simp add: columnExprFor_def)
  show ?thesis
    using crosshift_series [OF v _ _ d, of "''c''" "''c''" 2 "[]" "[]"] by (simp add: asOrColName_def upt_rec)
qed

lemma sample_parse: "\<exists>q. Parse (Suc n) param_ext sample_sql registry0 ''q'' = Some (Inr q)"
  by (simp add: Parse_def sample_sql_def sample_stmt_def parse_clauses_def applyFrom_def rbind_def applySelect_def checkForFields_def fieldsSQL_def
    havingSQL_def HavingFieldName_def applyWhereClause_def applyTimeRange_def applyGroupBy_def group_element_def isFunc_def HasPrefix_def group_name_def
    applyLimit_def)


theorem parsed_group_by_witness:
  "\<exists>q. Parse 1 param_ext sample_sql registry0 ''q'' = Some (Inr q) \<and> q_GroupBy q = [(''a'', ''x''), (''y'', ''y'')] \<and> \<not> q_GroupByAll q"
proof -
  obtain q where q: "Parse (Suc 0) param_ext sample_sql registry0 ''q'' = Some (Inr q)" using sample_parse by blast
  have p: "s_parse sample_sql ''q'' = Inr (Some sample_stmt)" by (simp add: sample_sql_def)
  have "columnParam sample_sql ''y'' = ''y''" "columnParam sample_sql ''x'' = ''x''" by code_simp+
  then have d: "group_dims (zip (st_GroupBy sample_stmt) (paramGoExprs param_ext sample_sql (sample_level 0) registry0 (st_GroupBy sample_stmt))) = [(''y'', ''y''), (''a'', ''x'')]"
    by (simp add: sample_stmt_def group_dims_def group_dim_def is_dimension_def isFunc_def HasPrefix_def group_name_def)
  from parsed_group_by [OF q p d [symmetric]] show ?thesis using q by (simp add: sample_stmt_def)
qed

end
