(* ===== verification/Coalesce.thy ===== *)
theory Coalesce
  imports Prelude "HOL-Library.Multiset"
begin

text \<open>
  Requests that arrive within an interval and concern the same table are handled together: \<open>coalesceIteration\<close> of table.go
  and the loop of \<open>coalesceQueries\<close> of web/query.go.  Both wait for requests on a channel until a timer fires; the others go
  back into the channel.  What arrives is a list of events.  \<open>None\<close> is waiting for the next event.
\<close>

datatype 'q arrival = Arrives 'q | Timeout

section \<open>Iterations of tables (table.go)\<close>

fun coalesceLoop :: "('q \<Rightarrow> 't) \<Rightarrow> 't \<Rightarrow> 'q arrival list \<Rightarrow> 'q list \<Rightarrow> 'q list \<Rightarrow> ('q list \<times> 'q list \<times> 'q arrival list) option" where
  "coalesceLoop tab t [] iterations others = None"
| "coalesceLoop tab t (Timeout # es) iterations others = Some (iterations, others, es)"
| "coalesceLoop tab t (Arrives it2 # es) iterations others =
     (if tab it2 = t then coalesceLoop tab t es (iterations @ [it2]) others
      else coalesceLoop tab t es iterations (others @ [it2]))"

text \<open>
  The channel of requests is a list; what is in the channel when the loop begins arrives before the timer fires.  The result is
  the batch that is handed on and the channel with the other requests put back.
\<close>

definition coalesceIteration :: "('q \<Rightarrow> 't) \<Rightarrow> 'q \<Rightarrow> 'q list \<Rightarrow> ('q list \<times> 'q list) option" where
  "coalesceIteration tab it requested =
     (case coalesceLoop tab (tab it) (map Arrives requested @ [Timeout]) [it] [] of
        None \<Rightarrow> None
      | Some (iterations, others, _) \<Rightarrow> Some (iterations, others))"

section \<open>Queries of the web server (web/query.go)\<close>

record 'q webquery =
  wq_From :: string
  wq_immediate :: bool
  wq_request :: 'q

fun coalesceQueriesLoop ::
  "string \<Rightarrow> 'q webquery arrival list \<Rightarrow> 'q webquery list \<Rightarrow> 'q webquery list \<Rightarrow> ('q webquery list \<times> 'q webquery list \<times> 'q webquery arrival list) option" where
  "coalesceQueriesLoop tab [] coalesced remaining = None"
| "coalesceQueriesLoop tab (Timeout # es) coalesced remaining = Some (coalesced, remaining, es)"
| "coalesceQueriesLoop tab (Arrives q # es) coalesced remaining =
     (let (coalesced, remaining) = (if tab = wq_From q then (coalesced @ [q], remaining) else (coalesced, remaining @ [q]))
      in if wq_immediate q then Some (coalesced, remaining, es) else coalesceQueriesLoop tab es coalesced remaining)"

definition coalesceQueries :: "'q webquery \<Rightarrow> 'q webquery arrival list \<Rightarrow> ('q webquery list \<times> 'q webquery list \<times> 'q webquery arrival list) option" where
  "coalesceQueries q es = (if wq_immediate q then Some ([q], [], es) else coalesceQueriesLoop (wq_From q) es [q] [])"

section \<open>What both promise\<close>

text \<open>
  A loop over arrivals that splits them by a key, and ends with a timeout or with a request that does not wait.  Arrivals are
  neither lost nor duplicated, and keep their order.
\<close>

locale coalescer =
  fixes loop :: "'k \<Rightarrow> 'q arrival list \<Rightarrow> 'q list \<Rightarrow> 'q list \<Rightarrow> ('q list \<times> 'q list \<times> 'q arrival list) option"
    and key :: "'q \<Rightarrow> 'k" and closes :: "'q \<Rightarrow> bool"
  assumes waits: "loop k [] cs rs = None"
    and expires: "loop k (Timeout # es) cs rs = Some (cs, rs, es)"
    and arrives: "loop k (Arrives q # es) cs rs =
      (if closes q then Some (cs @ filter (\<lambda>x. key x = k) [q], rs @ filter (\<lambda>x. key x \<noteq> k) [q], es)
       else loop k es (cs @ filter (\<lambda>x. key x = k) [q]) (rs @ filter (\<lambda>x. key x \<noteq> k) [q]))"
begin

lemma loop_splits:
  "loop k es cs rs = Some (cs', rs', es') \<Longrightarrow>
     \<exists>qs ts. es = map Arrives qs @ ts @ es' \<and> cs' = cs @ filter (\<lambda>q. key q = k) qs \<and> rs' = rs @ filter (\<lambda>q. key q \<noteq> k) qs \<and>
       (ts = [Timeout] \<or> ts = [] \<and> qs \<noteq> [] \<and> closes (last qs)) \<and> (\<forall>q \<in> set (butlast qs). \<not> closes q)"
proof (induction es arbitrary: cs rs)
  case (Cons e es)
  show ?case
  proof (cases e)
    case Timeout
    then show ?thesis using Cons.prems by (intro exI [of _ "[]"] exI [of _ "[Timeout]"]) (simp add: expires)
  next
    case (Arrives q)
    show ?thesis
    proof (cases "closes q")
      case True
      then show ?thesis using Cons.prems Arrives by (intro exI [of _ "[q]"] exI [of _ "[]"]) (simp add: arrives)
    next
      case False
      then have "loop k es (cs @ filter (\<lambda>x. key x = k) [q]) (rs @ filter (\<lambda>x. key x \<noteq> k) [q]) = Some (cs', rs', es')"
        using Cons.prems Arrives by (simp add: arrives)
      from Cons.IH [OF this] obtain qs ts where "es = map Arrives qs @ ts @ es'"
        "cs' = (cs @ filter (\<lambda>x. key x = k) [q]) @ filter (\<lambda>q. key q = k) qs" "rs' = (rs @ filter (\<lambda>x. key x \<noteq> k) [q]) @ filter (\<lambda>q. key q \<noteq> k) qs"
        "ts = [Timeout] \<or> ts = [] \<and> qs \<noteq> [] \<and> closes (last qs)" "\<forall>q \<in> set (butlast qs). \<not> closes q" by blast
      then show ?thesis using False Arrives by (intro exI [of _ "q # qs"] exI [of _ ts]) auto
    qed
  qed
qed (simp add: waits)

lemma loop_all:
  "\<forall>q \<in> set qs. \<not> closes q \<Longrightarrow>
     loop k (map Arrives qs @ [Timeout]) cs rs = Some (cs @ filter (\<lambda>q. key q = k) qs, rs @ filter (\<lambda>q. key q \<noteq> k) qs, [])"
  by (induction qs arbitrary: cs rs) (auto simp: expires arrives)

end

interpretation iterations: coalescer "coalesceLoop tab" tab "\<lambda>_. False" for tab :: "'q \<Rightarrow> 't"
  by unfold_locales auto

interpretation webqueries: coalescer coalesceQueriesLoop wq_From wq_immediate
  by unfold_locales auto

section \<open>All requests\<close>

lemma coalesceIteration_splits:
  "coalesceIteration tab it requested = Some (it # filter (\<lambda>q. tab q = tab it) requested, filter (\<lambda>q. tab q \<noteq> tab it) requested)"
  by (simp add: coalesceIteration_def iterations.loop_all)

text \<open>\<open>coalesceIterations\<close>, as long as there are requests.\<close>

function coalesceIterations :: "('q \<Rightarrow> 't) \<Rightarrow> 'q list \<Rightarrow> 'q list list option" where
  "coalesceIterations tab [] = Some []"
| "coalesceIterations tab (it # requested) =
     (case coalesceIteration tab it requested of
        None \<Rightarrow> None
      | Some (iterations, others) \<Rightarrow> map_option (Cons iterations) (coalesceIterations tab others))"
  by pat_completeness auto
termination
  by (relation "measure (\<lambda>(_, qs). length qs)") (auto simp: coalesceIteration_splits le_imp_less_Suc)


text \<open>
  Coalescing web queries loses and duplicates none: the batch is the first query with those for the same table, the others are
  put back, both in the order of their arrival, and the first immediate query ends the wait.
\<close>

theorem web_queries_batched:
  assumes "coalesceQueries q es = Some (coalesced, remaining, es')"
  shows "\<exists>qs ts. es = map Arrives qs @ ts @ es' \<and> coalesced = q # filter (\<lambda>x. wq_From x = wq_From q) qs \<and>
    remaining = filter (\<lambda>x. wq_From x \<noteq> wq_From q) qs \<and> mset (coalesced @ remaining) = mset (q # qs) \<and> (\<forall>x \<in> set (butlast (q # qs)). \<not> wq_immediate x)"
proof (cases "wq_immediate q")
  case True
  then show ?thesis using assms by (intro exI [of _ "[]"] exI [of _ "[]"]) (auto simp: coalesceQueries_def)
next
  case False
  then have "coalesceQueriesLoop (wq_From q) es [q] [] = Some (coalesced, remaining, es')" using assms by (simp add: coalesceQueries_def)
  from webqueries.loop_splits [OF this] obtain qs ts where "es = map Arrives qs @ ts @ es'" "coalesced = [q] @ filter (\<lambda>x. wq_From x = wq_From q) qs"
    "remaining = [] @ filter (\<lambda>x. wq_From x \<noteq> wq_From q) qs" "\<forall>x \<in> set (butlast qs). \<not> wq_immediate x" by blast
  then show ?thesis using False by (intro exI [of _ qs] exI [of _ ts]) (auto split: if_splits)
qed

definition sample_webquery :: "string \<Rightarrow> nat \<Rightarrow> nat webquery" where
  "sample_webquery tab n = \<lparr> wq_From = tab, wq_immediate = False, wq_request = n \<rparr>"

theorem web_queries_batched_witness:
  "\<exists>coalesced remaining. coalesceQueries (sample_webquery ''a'' 1) [Arrives (sample_webquery ''b'' 2), Arrives (sample_webquery ''a'' 3), Timeout] =
     Some (coalesced, remaining, []) \<and> mset (coalesced @ remaining) = mset [sample_webquery ''a'' 1, sample_webquery ''b'' 2, sample_webquery ''a'' 3]"
proof -
  have c: "coalesceQueries (sample_webquery ''a'' 1) [Arrives (sample_webquery ''b'' 2), Arrives (sample_webquery ''a'' 3), Timeout] =
     Some ([sample_webquery ''a'' 1, sample_webquery ''a'' 3], [sample_webquery ''b'' 2], [])"
    by (simp add: coalesceQueries_def sample_webquery_def)
  from web_queries_batched [OF c] show ?thesis using c by (simp add: ac_simps)
qed

end
