(* ===== verification/WebCache.thy ===== *)
theory WebCache
  imports Core Coalesce
begin

text \<open>
  Results of web queries (web/cache.go, web/query.go).  The cache has two buckets of a key-value database: entries by SQL and
  entries by permalink.  An entry is a slice of bytes: a status, the permalink, the time it expires and the data.  A
  transaction of the database whose function returns an error is rolled back; a commit may fail, which is an argument.
  Fresh permalinks, the time and the results of queries are arguments.
\<close>

section \<open>Entries\<close>

definition statusPending :: byte where "statusPending = 0"
definition statusSuccess :: byte where "statusSuccess = 1"
definition statusError :: byte where "statusError = 2"

definition widthPermalink :: nat where "widthPermalink = 16"
definition idxStatus :: nat where "idxStatus = 0"
definition idxPermalink :: nat where "idxPermalink = 1"
definition idxTime :: nat where "idxTime = idxPermalink + widthPermalink"
definition idxData :: nat where "idxData = idxTime + 8"

type_synonym cacheEntry = bytes

definition newCacheEntry :: "duration \<Rightarrow> bytes \<Rightarrow> gotime \<Rightarrow> cacheEntry go" where
  "newCacheEntry ttl permalink now =
     (let ce = replicate (widthPermalink + 8 + 1) 0;
          ce = take idxPermalink ce @ go_copy (drop idxPermalink ce) permalink
      in do { t \<leftarrow> EncodeTime (drop idxTime ce) (now + ttl); Some (take idxTime ce @ t) })"

definition permalinkBytes :: "cacheEntry \<Rightarrow> bytes go" where
  "permalinkBytes ce = (if idxPermalink + widthPermalink \<le> length ce then Some (take widthPermalink (drop idxPermalink ce)) else None)"

definition ce_expires :: "cacheEntry \<Rightarrow> gotime go" where
  "ce_expires ce = (if idxTime \<le> length ce then TimeFromBytes (drop idxTime ce) else None)"

definition ce_expired :: "gotime \<Rightarrow> cacheEntry \<Rightarrow> bool go" where
  "ce_expired now ce = do { t \<leftarrow> ce_expires ce; Some (t < now) }"

definition ce_status :: "cacheEntry \<Rightarrow> byte go" where
  "ce_status ce = (if idxStatus < length ce then Some (ce ! idxStatus) else None)"

definition ce_data :: "cacheEntry \<Rightarrow> bytes go" where
  "ce_data ce = (if idxData \<le> length ce then Some (drop idxData ce) else None)"

definition ce_update :: "byte \<Rightarrow> bytes \<Rightarrow> cacheEntry \<Rightarrow> cacheEntry go" where
  "ce_update status data ce =
     (if idxData \<le> length ce then Some ([status] @ take widthPermalink (drop idxPermalink ce) @ take 8 (drop idxTime ce) @ data) else None)"

definition ce_succeed :: "bytes \<Rightarrow> cacheEntry \<Rightarrow> cacheEntry go" where "ce_succeed data ce = ce_update statusSuccess data ce"
definition ce_fail :: "bytes \<Rightarrow> cacheEntry \<Rightarrow> cacheEntry go" where "ce_fail msg ce = ce_update statusError msg ce"

section \<open>The cache\<close>

record cachedb =
  cacheBucket :: "string \<rightharpoonup> cacheEntry"
  permalinkBucket :: "bytes \<rightharpoonup> cacheEntry"

definition cachedb0 :: cachedb where "cachedb0 = \<lparr> cacheBucket = Map.empty, permalinkBucket = Map.empty \<rparr>"

text \<open>\<open>Update\<close> of the database: what the function computes is kept only if it returns no error and the commit succeeds.\<close>

definition db_Update :: "(cachedb \<Rightarrow> error option) \<Rightarrow> (cachedb \<Rightarrow> (cachedb \<times> 'a \<times> error option) go) \<Rightarrow> cachedb \<Rightarrow> (cachedb \<times> 'a \<times> error option) go" where
  "db_Update commit f db =
     do { (db', x, err) \<leftarrow> f db;
          case err of Some e \<Rightarrow> Some (db, x, Some e)
          | None \<Rightarrow> (case commit db' of Some e \<Rightarrow> Some (db, x, Some e) | None \<Rightarrow> Some (db', x, None)) }"

definition put_entry :: "string \<Rightarrow> cacheEntry \<Rightarrow> cachedb \<Rightarrow> cachedb go" where
  "put_entry sql ce db =
     do { pl \<leftarrow> permalinkBytes ce;
          Some (db\<lparr>cacheBucket := (cacheBucket db)(sql \<mapsto> ce), permalinkBucket := (permalinkBucket db)(pl \<mapsto> ce)\<rparr>) }"

definition getOrBegin ::
  "(cachedb \<Rightarrow> error option) \<Rightarrow> duration \<Rightarrow> bytes \<Rightarrow> gotime \<Rightarrow> string \<Rightarrow> cachedb \<Rightarrow> (cachedb \<times> (cacheEntry \<times> bool) \<times> error option) go" where
  "getOrBegin commit ttl permalink now sql = db_Update commit (\<lambda>db.
     do { expired \<leftarrow> (case cacheBucket db sql of None \<Rightarrow> Some True | Some ce \<Rightarrow> ce_expired now ce);
          if expired then
            do { ce \<leftarrow> newCacheEntry ttl permalink now;
                 db \<leftarrow> put_entry sql ce (db\<lparr>cacheBucket := (cacheBucket db)(sql := None)\<rparr>);
                 Some (db, (ce, True), None) }
          else Some (db, (the (cacheBucket db sql), False), None) })"

definition begin_entry ::
  "(cachedb \<Rightarrow> error option) \<Rightarrow> duration \<Rightarrow> bytes \<Rightarrow> gotime \<Rightarrow> string \<Rightarrow> cachedb \<Rightarrow> (cachedb \<times> cacheEntry \<times> error option) go" where
  "begin_entry commit ttl permalink now sql = db_Update commit (\<lambda>db.
     do { ce \<leftarrow> newCacheEntry ttl permalink now; db \<leftarrow> put_entry sql ce db; Some (db, ce, None) })"

text \<open>An entry that is not there is the nil slice.\<close>

definition getByPermalink :: "bytes \<Rightarrow> cachedb \<Rightarrow> cacheEntry" where
  "getByPermalink permalink db = (case permalinkBucket db permalink of None \<Rightarrow> [] | Some ce \<Rightarrow> ce)"

definition cache_put :: "(cachedb \<Rightarrow> error option) \<Rightarrow> gotime \<Rightarrow> string \<Rightarrow> cacheEntry \<Rightarrow> cachedb \<Rightarrow> (cachedb \<times> unit \<times> error option) go" where
  "cache_put commit now sql ce = db_Update commit (\<lambda>db.
     do { pl \<leftarrow> permalinkBytes ce;
          expired \<leftarrow> ce_expired now ce;
          let db = db\<lparr>permalinkBucket := (permalinkBucket db)(pl \<mapsto> ce)\<rparr>;
          Some (if expired then (db\<lparr>cacheBucket := (cacheBucket db)(sql := None)\<rparr>, (), Some (OtherError ''Finished entry after expiration''))
                else (db\<lparr>cacheBucket := (cacheBucket db)(sql \<mapsto> ce)\<rparr>, (), None)) })"

section \<open>Queries\<close>

text \<open>The handler: its cache and the queries that have been queued and not yet executed.\<close>

record webhandler =
  wh_cache :: cachedb
  wh_queries :: "(string \<times> cacheEntry) list"

text \<open>\<open>parseErr\<close> is the error that parsing the SQL returns; \<open>noCache\<close> is the header of the request.\<close>

definition web_query ::
  "(string \<Rightarrow> error option) \<Rightarrow> (cachedb \<Rightarrow> error option) \<Rightarrow> duration \<Rightarrow> bytes \<Rightarrow> gotime \<Rightarrow> bool \<Rightarrow> string \<Rightarrow> webhandler \<Rightarrow> (webhandler \<times> cacheEntry \<times> error option) go" where
  "web_query parseErr commit ttl permalink now noCache sql h =
     (if parseErr sql \<noteq> None then Some (h, [], parseErr sql)
      else if noCache then
        do { (db, ce, err) \<leftarrow> begin_entry commit ttl permalink now sql (wh_cache h);
             Some (if err \<noteq> None then (h\<lparr>wh_cache := db\<rparr>, ce, err) else (h\<lparr>wh_cache := db, wh_queries := wh_queries h @ [(sql, ce)]\<rparr>, ce, None)) }
      else
        do { (db, (ce, created), err) \<leftarrow> getOrBegin commit ttl permalink now sql (wh_cache h);
             if err \<noteq> None \<or> \<not> created then Some (h\<lparr>wh_cache := db\<rparr>, ce, err)
             else do { st \<leftarrow> ce_status ce;
                       Some (if st \<noteq> statusPending then (h\<lparr>wh_cache := db\<rparr>, ce, None)
                             else (h\<lparr>wh_cache := db, wh_queries := wh_queries h @ [(sql, ce)]\<rparr>, ce, None)) } })"

text \<open>
  What \<open>execQuery\<close> stores for the outcome of a query: the text of an error, or the compressed result unless it is too long.
  \<open>humanize\<close> is the library function that prints a number of bytes.
\<close>

definition text_bytes :: "string \<Rightarrow> bytes" where "text_bytes s = map (\<lambda>c. of_nat (of_char c)) s"

definition finished_entry :: "(nat \<Rightarrow> string) \<Rightarrow> nat \<Rightarrow> string + bytes \<Rightarrow> cacheEntry \<Rightarrow> cacheEntry go" where
  "finished_entry humanize maxBytes outcome ce =
     (case outcome of
        Inl msg \<Rightarrow> ce_fail (text_bytes msg) ce
      | Inr resultBytes \<Rightarrow>
          if maxBytes < length resultBytes
          then ce_fail (text_bytes (''Query result size '' @ humanize (length resultBytes) @ '' exceeded limit of '' @ humanize maxBytes)) ce
          else ce_succeed resultBytes ce)"

definition execQuery ::
  "(nat \<Rightarrow> string) \<Rightarrow> (cachedb \<Rightarrow> error option) \<Rightarrow> nat \<Rightarrow> gotime \<Rightarrow> string + bytes \<Rightarrow> string \<Rightarrow> cacheEntry \<Rightarrow> webhandler \<Rightarrow> webhandler go" where
  "execQuery humanize commit maxBytes now outcome sql ce h =
     do { ce \<leftarrow> finished_entry humanize maxBytes outcome ce;
          (db, _, _) \<leftarrow> cache_put commit now sql ce (wh_cache h);
          Some (h\<lparr>wh_cache := db\<rparr>) }"

text \<open>
  \<open>respondWithCacheEntry\<close>: the loop over at most \<open>n\<close> polls; \<open>poll i\<close> is what the cache returns at the \<open>i\<close>-th.  The status of a
  response is 200, 500 with the entry's data, 500 with the text of an error, or 202 with the permalink.
\<close>

datatype response = OK bytes | InternalServerError bytes | RequestFailed error | Accepted bytes

fun respondWithCacheEntry :: "nat \<Rightarrow> nat \<Rightarrow> (nat \<Rightarrow> cacheEntry \<times> error option) \<Rightarrow> cacheEntry \<Rightarrow> error option \<Rightarrow> response go" where
  "respondWithCacheEntry 0 i poll ce err = do { pl \<leftarrow> permalinkBytes ce; Some (Accepted pl) }"
| "respondWithCacheEntry (Suc n) i poll ce err =
     (if err \<noteq> None then Some (RequestFailed (the err))
      else do { st \<leftarrow> ce_status ce;
                if st = statusSuccess then do { d \<leftarrow> ce_data ce; Some (OK d) }
                else if st = statusError then do { d \<leftarrow> ce_data ce; Some (InternalServerError d) }
                else if st = statusPending then (case poll i of (ce, err) \<Rightarrow> respondWithCacheEntry n (Suc i) poll ce err)
                else respondWithCacheEntry n i poll ce err })"

definition pauseTime :: duration where "pauseTime = 250000000"
definition shortTimeout :: duration where "shortTimeout = 5000000000"
definition longTimeout :: duration where "longTimeout = 1000 * 3600000000000"

definition poll_limit :: "duration \<Rightarrow> nat" where "poll_limit timeout = nat (tdiv timeout pauseTime)"

section \<open>Runs of the server\<close>

text \<open>
  A step is a request or the end of a query, at any time and with any outcome of the commit.  Permalinks are fresh: neither the
  database nor a queued query has them.
\<close>

definition query_permalink :: "string \<times> cacheEntry \<Rightarrow> bytes" where "query_permalink q = the (permalinkBytes (snd q))"

inductive web_step :: "(string \<Rightarrow> error option) \<Rightarrow> (nat \<Rightarrow> string) \<Rightarrow> duration \<Rightarrow> nat \<Rightarrow> webhandler \<Rightarrow> webhandler \<Rightarrow> bool"
  for parseErr humanize ttl maxBytes where
  request: "length permalink = widthPermalink \<Longrightarrow> permalinkBucket (wh_cache h) permalink = None \<Longrightarrow>
      permalink \<notin> query_permalink ` set (wh_queries h) \<Longrightarrow>
      web_query parseErr commit ttl permalink now noCache sql h = Some (h', ce, err) \<Longrightarrow> web_step parseErr humanize ttl maxBytes h h'"
| finished: "(sql, ce) \<in> set (wh_queries h) \<Longrightarrow>
      execQuery humanize commit maxBytes now outcome sql ce (h\<lparr>wh_queries := remove1 (sql, ce) (wh_queries h)\<rparr>) = Some h' \<Longrightarrow>
      web_step parseErr humanize ttl maxBytes h h'"

definition web_run :: "(string \<Rightarrow> error option) \<Rightarrow> (nat \<Rightarrow> string) \<Rightarrow> duration \<Rightarrow> nat \<Rightarrow> webhandler \<Rightarrow> webhandler \<Rightarrow> bool" where
  "web_run parseErr humanize ttl maxBytes = (web_step parseErr humanize ttl maxBytes)\<^sup>*\<^sup>*"

definition webhandler0 :: webhandler where "webhandler0 = \<lparr> wh_cache = cachedb0, wh_queries = [] \<rparr>"

end
