(* ===== verification/WebCacheProps.thy ===== *)
theory WebCacheProps
  imports WebCache
begin

text \<open>
  What clients of the web server can rely on: a result that has been stored under a permalink stays as it is, a result that is
  ready in time is served to everyone who asks for the same SQL, and a result that comes after its entry has expired is lost.
\<close>

lemmas idx_defs = widthPermalink_def idxStatus_def idxPermalink_def idxTime_def idxData_def

section \<open>Entries as records\<close>

text \<open>An entry with its four parts.\<close>

definition entry_of :: "byte \<Rightarrow> bytes \<Rightarrow> gotime \<Rightarrow> bytes \<Rightarrow> cacheEntry" where
  "entry_of st pl expires data = [st] @ pl @ be 8 (unat (word_of_int (UnixNano expires) :: u64)) @ data"

lemma newCacheEntry_of: "length pl = widthPermalink \<Longrightarrow> newCacheEntry ttl pl now = Some (entry_of statusPending pl (now + ttl) [])"
  by (simp add: newCacheEntry_def idx_defs entry_of_def statusPending_def go_copy_def EncodeTime_def' Let_def take_replicate drop_replicate)

lemma wrap64_wrap64: "wrap64 (wrap64 x) = wrap64 x"
  by (rule wrap64_id) (rule in64_wrap64)

lemma entry_parts:
  assumes "length pl = widthPermalink"
  shows "permalinkBytes (entry_of st pl t data) = Some pl" "ce_status (entry_of st pl t data) = Some st" "ce_data (entry_of st pl t data) = Some data"
    "ce_update st' data' (entry_of st pl t data) = Some (entry_of st' pl t data')"
    "ce_expires (entry_of st pl t data) = Some (UnixNano t)" "entry_of st pl t data \<noteq> []"
  using assms by (simp_all add: entry_of_def idx_defs permalinkBytes_def ce_status_def ce_data_def ce_update_def ce_expires_def UnixNano_def
      sint_word_of_int64 wrap64_wrap64)

section \<open>The state of the server\<close>

text \<open>
  Entries under a permalink carry it, entries of the cache are complete, and a queued query has a pending entry under a
  permalink of its own.
\<close>

definition well_formed :: "cacheEntry \<Rightarrow> bool" where
  "well_formed ce \<longleftrightarrow> (\<exists>st pl t data. ce = entry_of st pl t data \<and> length pl = widthPermalink)"

definition web_inv :: "webhandler \<Rightarrow> bool" where
  "web_inv h \<longleftrightarrow>
     (\<forall>pl ce. permalinkBucket (wh_cache h) pl = Some ce \<longrightarrow> well_formed ce \<and> permalinkBytes ce = Some pl) \<and>
     (\<forall>sql ce. cacheBucket (wh_cache h) sql = Some ce \<longrightarrow> well_formed ce) \<and>
     distinct (map query_permalink (wh_queries h)) \<and>
     (\<forall>q \<in> set (wh_queries h). permalinkBucket (wh_cache h) (query_permalink q) = Some (snd q) \<and> ce_status (snd q) = Some statusPending)"

section \<open>What an operation changes\<close>

lemma db_Update_cases:
  assumes "db_Update commit f db = Some (db', x, err)"
  shows "\<exists>dbf e. f db = Some (dbf, x, e) \<and> (if err = None then db' = dbf \<and> e = None \<and> commit dbf = None else db' = db)"
proof -
  obtain dbf e where f: "f db = Some (dbf, x, e)" using assms by (cases "f db") (auto simp: db_Update_def split: option.splits)
  then show ?thesis using assms by (cases e; cases "commit dbf") (auto simp: db_Update_def)
qed

definition stored_entry :: "string \<Rightarrow> bytes \<Rightarrow> cacheEntry \<Rightarrow> cachedb \<Rightarrow> cachedb" where
  "stored_entry sql pl ce db = db\<lparr>cacheBucket := (cacheBucket db)(sql \<mapsto> ce), permalinkBucket := (permalinkBucket db)(pl \<mapsto> ce)\<rparr>"

lemma stored_entry_eq: "db\<lparr>permalinkBucket := (permalinkBucket db)(pl \<mapsto> ce), cacheBucket := (cacheBucket db)(sql \<mapsto> ce)\<rparr> = stored_entry sql pl ce db"
  by (simp add: stored_entry_def)

lemma stored_entry_simps [simp]:
  "cacheBucket (stored_entry sql pl ce db) = (cacheBucket db)(sql \<mapsto> ce)" "permalinkBucket (stored_entry sql pl ce db) = (permalinkBucket db)(pl \<mapsto> ce)"
  by (simp_all add: stored_entry_def)

text \<open>A request changes nothing, or begins an entry and queues the query.\<close>

definition begun :: "string \<Rightarrow> bytes \<Rightarrow> gotime \<Rightarrow> webhandler \<Rightarrow> webhandler" where
  "begun sql pl expires h =
     (let ce = entry_of statusPending pl expires [] in h\<lparr>wh_cache := stored_entry sql pl ce (wh_cache h), wh_queries := wh_queries h @ [(sql, ce)]\<rparr>)"

lemma begin_entry_cases:
  assumes "length pl = widthPermalink" "begin_entry commit ttl pl now sql db = Some (db', ce, err)"
  shows "if err = None then ce = entry_of statusPending pl (now + ttl) [] \<and> db' = stored_entry sql pl ce db else db' = db"
  using db_Update_cases [OF assms(2) [unfolded begin_entry_def]] assms(1)
  by (auto simp: newCacheEntry_of put_entry_def entry_parts stored_entry_def split: if_splits)

lemma getOrBegin_cases:
  assumes "length pl = widthPermalink" "getOrBegin commit ttl pl now sql db = Some (db', (ce, created), err)"
  shows "if err \<noteq> None \<or> \<not> created then db' = db else ce = entry_of statusPending pl (now + ttl) [] \<and> db' = stored_entry sql pl ce db"
  using db_Update_cases [OF assms(2) [unfolded getOrBegin_def]] assms(1)
  by (auto simp: newCacheEntry_of put_entry_def entry_parts stored_entry_def split: if_splits Option.bind_splits)

lemma web_query_cases:
  assumes pl: "length pl = widthPermalink" and q: "web_query parseErr commit ttl pl now noCache sql h = Some (h', ce, err)"
  shows "h' = h \<or> h' = begun sql pl (now + ttl) h"
proof (cases "parseErr sql \<noteq> None")
  case False
  show ?thesis
  proof (cases noCache)
    case True
    then obtain db e where "begin_entry commit ttl pl now sql (wh_cache h) = Some (db, ce, e)"
      "h' = (if e \<noteq> None then h\<lparr>wh_cache := db\<rparr> else h\<lparr>wh_cache := db, wh_queries := wh_queries h @ [(sql, ce)]\<rparr>)"
      using q False by (auto simp: web_query_def split: Option.bind_splits if_splits)
    with begin_entry_cases [OF pl this(1)] show ?thesis by (cases e) (auto simp: begun_def Let_def)
  next
    case nc: False
    then obtain db c e where "getOrBegin commit ttl pl now sql (wh_cache h) = Some (db, (ce, c), e)"
      "h' = h\<lparr>wh_cache := db\<rparr> \<and> (e \<noteq> None \<or> \<not> c \<or> ce_status ce \<noteq> Some statusPending) \<or>
       h' = h\<lparr>wh_cache := db, wh_queries := wh_queries h @ [(sql, ce)]\<rparr> \<and> e = None \<and> c"
      using q False by (auto simp: web_query_def split: Option.bind_splits if_splits)
    with getOrBegin_cases [OF pl this(1)] show ?thesis by (cases e; cases c) (auto simp: begun_def Let_def entry_parts pl)
  qed
qed (use q in \<open>auto simp: web_query_def\<close>)

text \<open>The end of a query changes nothing, or stores its result under its SQL and its permalink.\<close>

lemma cache_put_cases:
  assumes "permalinkBytes ce = Some pl" "cache_put commit now sql ce db = Some (db', u, err)"
  shows "if err = None then ce_expired now ce = Some False \<and> db' = stored_entry sql pl ce db else db' = db"
  using db_Update_cases [OF assms(2) [unfolded cache_put_def]] assms(1) by (auto simp: stored_entry_eq Let_def split: if_splits Option.bind_splits)

lemma finished_entry_of:
  assumes "length pl = widthPermalink"
  shows "\<exists>st data. finished_entry humanize maxBytes outcome (entry_of st0 pl t data0) = Some (entry_of st pl t data) \<and> st \<noteq> statusPending"
  using assms by (auto simp: finished_entry_def ce_fail_def ce_succeed_def entry_parts statusPending_def statusError_def statusSuccess_def split: sum.splits)

lemma execQuery_cases:
  assumes pl: "length pl = widthPermalink" and q: "execQuery humanize commit maxBytes now outcome sql (entry_of st0 pl t data0) h = Some h'"
  shows "h' = h \<or> (\<exists>st data. st \<noteq> statusPending \<and> \<not> UnixNano t < now \<and>
    h' = h\<lparr>wh_cache := stored_entry sql pl (entry_of st pl t data) (wh_cache h)\<rparr>)"
proof -
  obtain st data where f: "finished_entry humanize maxBytes outcome (entry_of st0 pl t data0) = Some (entry_of st pl t data)" "st \<noteq> statusPending"
    using finished_entry_of [OF pl] by blast
  then obtain db u e where "cache_put commit now sql (entry_of st pl t data) (wh_cache h) = Some (db, u, e)" "h' = h\<lparr>wh_cache := db\<rparr>"
    using q by (auto simp: execQuery_def split: Option.bind_splits)
  with cache_put_cases [OF entry_parts(1) [OF pl] this(1)] f(2) show ?thesis by (cases e) (auto simp: entry_parts pl ce_expired_def)
qed

section \<open>Runs keep the invariant\<close>

lemma well_formed_entry [simp]: "length pl = widthPermalink \<Longrightarrow> well_formed (entry_of st pl t data)"
  by (auto simp: well_formed_def)

lemma query_permalink_entry [simp]: "length pl = widthPermalink \<Longrightarrow> query_permalink (sql, entry_of st pl t data) = pl"
  by (simp add: query_permalink_def entry_parts)

lemma queued_entry:
  assumes "web_inv h" "(sql, ce) \<in> set (wh_queries h)"
  obtains pl t data where "ce = entry_of statusPending pl t data" "length pl = widthPermalink" "permalinkBucket (wh_cache h) pl = Some ce"
proof -
  have b: "permalinkBucket (wh_cache h) (query_permalink (sql, ce)) = Some ce" "ce_status ce = Some statusPending"
    using assms by (auto simp: web_inv_def)
  then have "well_formed ce" using assms(1) unfolding web_inv_def by blast
  then show thesis using b that by (auto simp: well_formed_def entry_parts)
qed

text \<open>A step as one of four changes.\<close>

lemma web_step_changes:
  assumes inv: "web_inv h" and st: "web_step parseErr humanize ttl maxBytes h h'"
  obtains (same) "h' = h"
  | (begun) sql pl t where "length pl = widthPermalink" "permalinkBucket (wh_cache h) pl = None" "pl \<notin> query_permalink ` set (wh_queries h)"
      "h' = begun sql pl t h"
  | (lost) q where "q \<in> set (wh_queries h)" "h' = h\<lparr>wh_queries := remove1 q (wh_queries h)\<rparr>"
  | (finished) sql st0 pl t data0 st data where "length pl = widthPermalink" "(sql, entry_of st0 pl t data0) \<in> set (wh_queries h)"
      "st \<noteq> statusPending"
      "h' = h\<lparr>wh_queries := remove1 (sql, entry_of st0 pl t data0) (wh_queries h), wh_cache := stored_entry sql pl (entry_of st pl t data) (wh_cache h)\<rparr>"
  using st
proof (cases rule: web_step.cases)
  case (request pl commit now noCache sql ce err)
  from web_query_cases [OF request(1,4)] show ?thesis using request(1-3) begun same by blast
next
  case query: (finished sql ce commit now outcome)
  from queued_entry [OF inv query(1)] obtain pl t data0 where ce: "ce = entry_of statusPending pl t data0" and pl: "length pl = widthPermalink" .
  from execQuery_cases [OF pl query(2) [unfolded ce]] show ?thesis
  proof
    assume "h' = h\<lparr>wh_queries := remove1 (sql, entry_of statusPending pl t data0) (wh_queries h)\<rparr>"
    then show ?thesis using lost query(1) ce by blast
  next
    assume "\<exists>st data. st \<noteq> statusPending \<and> \<not> UnixNano t < now \<and> h' = h\<lparr>wh_queries := remove1 (sql, entry_of statusPending pl t data0) (wh_queries h),
      wh_cache := stored_entry sql pl (entry_of st pl t data) (wh_cache (h\<lparr>wh_queries := remove1 (sql, entry_of statusPending pl t data0) (wh_queries h)\<rparr>))\<rparr>"
    then show ?thesis using finished [OF pl] query(1) ce by auto
  qed
qed

lemma web_inv_begun:
  assumes "web_inv h" "length pl = widthPermalink" "permalinkBucket (wh_cache h) pl = None" "pl \<notin> query_permalink ` set (wh_queries h)"
  shows "web_inv (begun sql pl t h)"
  using assms unfolding web_inv_def begun_def Let_def by (auto simp: entry_parts)

lemma permalinks_differ:
  assumes "web_inv h" "q \<in> set (wh_queries h)" "q' \<in> set (remove1 q (wh_queries h))"
  shows "query_permalink q' \<noteq> query_permalink q"
  using assms by (auto simp: web_inv_def distinct_map dest: inj_onD)

lemma web_inv_finished:
  assumes inv: "web_inv h" and pl: "length pl = widthPermalink" and q: "(sql, entry_of st0 pl t data0) \<in> set (wh_queries h)"
  shows "web_inv (h\<lparr>wh_queries := remove1 (sql, entry_of st0 pl t data0) (wh_queries h), wh_cache := stored_entry sql pl (entry_of st pl t data) (wh_cache h)\<rparr>)"
proof -
  have "query_permalink q' \<noteq> pl" if "q' \<in> set (remove1 (sql, entry_of st0 pl t data0) (wh_queries h))" for q'
    using permalinks_differ [OF inv q that] pl by simp
  moreover have "distinct (map query_permalink (remove1 q' (wh_queries h)))" for q'
    using inv by (auto simp: web_inv_def distinct_map intro: inj_on_subset)
  ultimately show ?thesis using inv pl unfolding web_inv_def by (auto simp: entry_parts dest: notin_set_remove1 in_set_remove1 set_mp [OF set_remove1_subset])
qed

lemma web_inv_lost: "web_inv h \<Longrightarrow> web_inv (h\<lparr>wh_queries := remove1 q (wh_queries h)\<rparr>)"
  by (auto simp: web_inv_def distinct_map dest: notin_set_remove1 set_mp [OF set_remove1_subset] intro: inj_on_subset)

lemma web_inv_step: "web_inv h \<Longrightarrow> web_step parseErr humanize ttl maxBytes h h' \<Longrightarrow> web_inv h'"
  by (rule web_step_changes) (auto intro: web_inv_begun web_inv_lost web_inv_finished)

lemma web_inv_run: "web_run parseErr humanize ttl maxBytes h h' \<Longrightarrow> web_inv h \<Longrightarrow> web_inv h'"
  unfolding web_run_def by (induction rule: rtranclp_induct) (auto intro: web_inv_step)

lemma web_inv_reachable: "web_run parseErr humanize ttl maxBytes webhandler0 h \<Longrightarrow> web_inv h"
  by (erule web_inv_run) (simp add: web_inv_def webhandler0_def cachedb0_def)

text \<open>The entry of a query that is not queued, any more or yet, never changes.\<close>

definition settled :: "bytes \<Rightarrow> cacheEntry \<Rightarrow> webhandler \<Rightarrow> bool" where
  "settled pl ce h \<longleftrightarrow> permalinkBucket (wh_cache h) pl = Some ce \<and> pl \<notin> query_permalink ` set (wh_queries h)"

lemma settled_step:
  assumes "web_inv h" "web_step parseErr humanize ttl maxBytes h h'" "settled pl ce h"
  shows "settled pl ce h'"
  using assms(1,2)
proof (cases rule: web_step_changes)
  case (finished sql st0 pl' t data0 st data)
  then have "pl' \<in> query_permalink ` set (wh_queries h)" by (metis image_eqI query_permalink_entry)
  then show ?thesis using assms(3) finished(4) by (auto simp: settled_def dest: set_mp [OF set_remove1_subset])
qed (use assms(3) in \<open>auto simp: settled_def begun_def Let_def dest: set_mp [OF set_remove1_subset]\<close>)

lemma settled_run: "web_run parseErr humanize ttl maxBytes h h' \<Longrightarrow> web_inv h \<Longrightarrow> settled pl ce h \<Longrightarrow> settled pl ce h'"
  unfolding web_run_def
  by (induction rule: rtranclp_induct) (auto intro: settled_step web_inv_run [unfolded web_run_def])

section \<open>What clients see\<close>

text \<open>
  C16. A finished entry, result or error, is permanent: once stored under its permalink, it is what the cache returns for it after any
  further requests and queries, whether they concern the same SQL or not.
\<close>

theorem web_results_stable:
  assumes "web_run parseErr humanize ttl maxBytes webhandler0 h" "permalinkBucket (wh_cache h) pl = Some ce" "ce_status ce \<noteq> Some statusPending"
    and "web_run parseErr humanize ttl maxBytes h h'"
  shows "getByPermalink pl (wh_cache h') = ce"
proof -
  have inv: "web_inv h" by (rule web_inv_reachable [OF assms(1)])
  then have "settled pl ce h" using assms(2,3) by (auto simp: web_inv_def settled_def)
  from settled_run [OF assms(4) inv this] show ?thesis by (simp add: settled_def getByPermalink_def)
qed

text \<open>
  C17. A result that is ready in time is served: after a queued query ends with a result within the limit before its entry
  expires, asking for the same SQL returns the result without running the query again, and so does its permalink.
\<close>

theorem finished_query_served:
  assumes "web_run parseErr humanize ttl maxBytes webhandler0 h" "(sql, ce) \<in> set (wh_queries h)" "length result \<le> maxBytes"
    and "ce_expired now ce = Some False" "ce_expired now' ce = Some False" "parseErr sql = None"
  shows "\<exists>h' ce'. execQuery humanize (\<lambda>_. None) maxBytes now (Inr result) sql ce (h\<lparr>wh_queries := remove1 (sql, ce) (wh_queries h)\<rparr>) = Some h' \<and>
    web_query parseErr (\<lambda>_. None) ttl pl now' False sql h' = Some (h', ce', None) \<and>
    getByPermalink (query_permalink (sql, ce)) (wh_cache h') = ce' \<and> respondWithCacheEntry (Suc n) i poll ce' None = Some (OK result)"
proof -
  have inv: "web_inv h" by (rule web_inv_reachable [OF assms(1)])
  from queued_entry [OF inv assms(2)] obtain pl0 t data0 where ce: "ce = entry_of statusPending pl0 t data0" and pl: "length pl0 = widthPermalink" .
  let ?ce = "entry_of statusSuccess pl0 t result"
  let ?h = "h\<lparr>wh_queries := remove1 (sql, ce) (wh_queries h), wh_cache := stored_entry sql pl0 ?ce (wh_cache h)\<rparr>"
  have ex: "ce_expired now ?ce = Some False" "ce_expired now' ?ce = Some False" using assms(4,5) by (simp_all add: ce ce_expired_def entry_parts pl)
  have "execQuery humanize (\<lambda>_. None) maxBytes now (Inr result) sql ce (h\<lparr>wh_queries := remove1 (sql, ce) (wh_queries h)\<rparr>) = Some ?h"
    using assms(3) ex(1) by (simp add: execQuery_def finished_entry_def ce_succeed_def ce entry_parts pl cache_put_def db_Update_def stored_entry_eq)
  moreover have "web_query parseErr (\<lambda>_. None) ttl pl now' False sql ?h = Some (?h, ?ce, None)"
    using assms(6) ex(2) by (simp add: web_query_def getOrBegin_def db_Update_def)
  ultimately show ?thesis using pl by (intro exI [of _ ?h] exI [of _ ?ce]) (simp add: getByPermalink_def ce entry_parts)
qed

text \<open>
  C38. The result of a query that ends after its entry has expired is lost: the error that \<open>put\<close> returns rolls back the
  transaction that stored it, so its permalink answers for ever that the query is still running.
\<close>

theorem late_result_lost:
  assumes "web_run parseErr humanize ttl maxBytes webhandler0 h" "(sql, ce) \<in> set (wh_queries h)" "ce_expired now ce = Some True"
    and "execQuery humanize commit maxBytes now outcome sql ce (h\<lparr>wh_queries := remove1 (sql, ce) (wh_queries h)\<rparr>) = Some h'"
    and "web_run parseErr humanize ttl maxBytes h' h''"
  shows "getByPermalink (query_permalink (sql, ce)) (wh_cache h'') = ce \<and>
    respondWithCacheEntry n i (\<lambda>_. (getByPermalink (query_permalink (sql, ce)) (wh_cache h''), None)) ce None = Some (Accepted (query_permalink (sql, ce)))"
proof -
  have inv: "web_inv h" by (rule web_inv_reachable [OF assms(1)])
  from queued_entry [OF inv assms(2)] obtain pl t data0 where ce: "ce = entry_of statusPending pl t data0" and pl: "length pl = widthPermalink"
    and b: "permalinkBucket (wh_cache h) pl = Some ce" .
  have h': "h' = h\<lparr>wh_queries := remove1 (sql, ce) (wh_queries h)\<rparr>"
    using execQuery_cases [OF pl assms(4) [unfolded ce]] assms(3) by (auto simp: ce ce_expired_def entry_parts pl)
  have "settled (query_permalink (sql, ce)) ce h'"
    using permalinks_differ [OF inv assms(2)] b by (auto simp: settled_def h' ce pl)
  from settled_run [OF assms(5) _ this] have g: "getByPermalink (query_permalink (sql, ce)) (wh_cache h'') = ce"
    using web_inv_lost [OF inv] by (simp add: h' settled_def getByPermalink_def)
  have "respondWithCacheEntry n i (\<lambda>_. (ce, None)) ce None = Some (Accepted (query_permalink (sql, ce)))"
    by (induction n arbitrary: i) (simp_all add: ce entry_parts pl statusPending_def statusSuccess_def statusError_def)
  with g show ?thesis by simp
qed

section \<open>A run\<close>

definition sample_link :: bytes where "sample_link = replicate 16 7"
definition sample_entry :: cacheEntry where "sample_entry = entry_of statusPending sample_link 60 []"
definition sample_queued :: webhandler where "sample_queued = begun ''q'' sample_link 60 webhandler0"

lemma sample_queued_reachable: "web_run (\<lambda>_. None) (\<lambda>_. []) 50 100 webhandler0 sample_queued"
proof -
  have "web_query (\<lambda>_. None) (\<lambda>_. None) 50 sample_link 10 False ''q'' webhandler0 = Some (sample_queued, sample_entry, None)"
    by (simp add: web_query_def getOrBegin_def db_Update_def webhandler0_def cachedb0_def newCacheEntry_of sample_link_def widthPermalink_def put_entry_def
        entry_parts sample_queued_def begun_def stored_entry_def sample_entry_def Let_def)
  then have "web_step (\<lambda>_. None) (\<lambda>_. []) 50 100 webhandler0 sample_queued"
    by (rule web_step.request [rotated 3]) (simp_all add: sample_link_def widthPermalink_def webhandler0_def cachedb0_def)
  then show ?thesis by (simp add: web_run_def r_into_rtranclp)
qed

lemma sample_queued_simps:
  "wh_queries sample_queued = [(''q'', sample_entry)]" "length sample_link = widthPermalink" "ce_expires sample_entry = Some 60"
  by (simp_all add: sample_queued_def begun_def Let_def sample_entry_def webhandler0_def sample_link_def widthPermalink_def entry_parts UnixNano_def in64_def)

definition sample_finished :: webhandler where
  "sample_finished = \<lparr> wh_cache = stored_entry ''q'' sample_link (entry_of statusSuccess sample_link 60 [1, 2]) (wh_cache sample_queued), wh_queries = [] \<rparr>"

lemma sample_finished_reachable: "web_run (\<lambda>_. None) (\<lambda>_. []) 50 100 webhandler0 sample_finished"
proof -
  have "execQuery (\<lambda>_. []) (\<lambda>_. None) 100 20 (Inr [1, 2]) ''q'' sample_entry
      (sample_queued\<lparr>wh_queries := remove1 (''q'', sample_entry) (wh_queries sample_queued)\<rparr>) = Some sample_finished"
    using sample_queued_simps(2)
    by (simp add: sample_queued_simps(1) execQuery_def finished_entry_def ce_succeed_def cache_put_def db_Update_def sample_entry_def entry_parts
        ce_expired_def UnixNano_def in64_def stored_entry_eq sample_finished_def)
  then have "web_step (\<lambda>_. None) (\<lambda>_. []) 50 100 sample_queued sample_finished"
    by (rule web_step.finished [rotated]) (simp add: sample_queued_simps)
  with sample_queued_reachable show ?thesis unfolding web_run_def by (rule rtranclp.rtrancl_into_rtrancl)
qed

theorem web_results_stable_witness: "getByPermalink sample_link (wh_cache sample_finished) = entry_of statusSuccess sample_link 60 [1, 2]"
proof (rule web_results_stable)
  show "web_run (\<lambda>_. None) (\<lambda>_. []) 50 100 webhandler0 sample_finished" by (rule sample_finished_reachable)
  show "permalinkBucket (wh_cache sample_finished) sample_link = Some (entry_of statusSuccess sample_link 60 [1, 2])" by (simp add: sample_finished_def)
  show "ce_status (entry_of statusSuccess sample_link 60 [1, 2]) \<noteq> Some statusPending"
    using sample_queued_simps(2) by (simp add: entry_parts statusSuccess_def statusPending_def)
  show "web_run (\<lambda>_. None) (\<lambda>_. []) 50 100 sample_finished sample_finished" by (simp add: web_run_def)
qed

theorem finished_query_served_witness:
  "\<exists>h' ce'. execQuery (\<lambda>_. []) (\<lambda>_. None) 100 20 (Inr [1, 2]) ''q'' sample_entry
      (sample_queued\<lparr>wh_queries := remove1 (''q'', sample_entry) (wh_queries sample_queued)\<rparr>) = Some h' \<and>
    web_query (\<lambda>_. None) (\<lambda>_. None) 50 (replicate 16 8) 30 False ''q'' h' = Some (h', ce', None) \<and>
    getByPermalink (query_permalink (''q'', sample_entry)) (wh_cache h') = ce' \<and> respondWithCacheEntry (Suc 3) 0 (\<lambda>_. ([], None)) ce' None = Some (OK [1, 2])"
  by (rule finished_query_served [OF sample_queued_reachable]) (simp_all add: sample_queued_simps ce_expired_def)

theorem late_result_lost_witness:
  "\<exists>h'. execQuery (\<lambda>_. []) (\<lambda>_. None) 100 70 (Inr [1, 2]) ''q'' sample_entry
      (sample_queued\<lparr>wh_queries := remove1 (''q'', sample_entry) (wh_queries sample_queued)\<rparr>) = Some h' \<and>
    getByPermalink (query_permalink (''q'', sample_entry)) (wh_cache h') = sample_entry \<and>
    respondWithCacheEntry 20 0 (\<lambda>_. (getByPermalink (query_permalink (''q'', sample_entry)) (wh_cache h'), None)) sample_entry None =
      Some (Accepted (query_permalink (''q'', sample_entry)))"
proof -
  have e: "execQuery (\<lambda>_. []) (\<lambda>_. None) 100 70 (Inr [1, 2]) ''q'' sample_entry
      (sample_queued\<lparr>wh_queries := remove1 (''q'', sample_entry) (wh_queries sample_queued)\<rparr>) =
    Some (sample_queued\<lparr>wh_queries := remove1 (''q'', sample_entry) (wh_queries sample_queued)\<rparr>)"
    using sample_queued_simps(2)
    by (simp add: execQuery_def finished_entry_def ce_succeed_def cache_put_def db_Update_def sample_entry_def entry_parts
        ce_expired_def UnixNano_def in64_def)
  have "web_run (\<lambda>_. None) (\<lambda>_. []) 50 100 h h" for h by (simp add: web_run_def)
  moreover have "(''q'', sample_entry) \<in> set (wh_queries sample_queued)" "ce_expired 70 sample_entry = Some True"
    by (simp_all add: sample_queued_simps ce_expired_def)
  ultimately show ?thesis using e late_result_lost [OF sample_queued_reachable] by blast
qed

end
