(* ===== verification/WebTools.thy ===== *)
theory WebTools
  imports WebCacheProps
begin

text \<open>
  Listing the stored results (web/toolsupport.go).  Decompressing and decoding an entry is an argument, which yields the link, the SQL, the time
  in milliseconds and the number of rows, or an error.
\<close>

record PermalinkInfo =
  pi_Permalink :: string
  pi_SQL :: string
  pi_Timestamp :: gotime
  pi_NumRows :: nat

type_synonym decoder = "bytes \<Rightarrow> error + string \<times> string \<times> int \<times> nat"

text \<open>The loop over the bucket.  \<open>i mod reportEvery\<close> panics if \<open>reportEvery\<close> is 0.\<close>

fun list_permalinks :: "decoder \<Rightarrow> nat \<Rightarrow> nat \<Rightarrow> cacheEntry list \<Rightarrow> PermalinkInfo list \<Rightarrow> (PermalinkInfo list \<times> error option) go" where
  "list_permalinks decode reportEvery i [] found = Some (found, None)"
| "list_permalinks decode reportEvery i (ce # rest) found =
     do { st \<leftarrow> ce_status ce;
          if st \<noteq> statusSuccess then list_permalinks decode reportEvery i rest found
          else do { d \<leftarrow> ce_data ce;
                    case decode d of
                      Inl e \<Rightarrow> Some (found, Some e)
                    | Inr (pl, sql, ts, rows) \<Rightarrow>
                        if 0 < i \<and> reportEvery = 0 then None
                        else list_permalinks decode reportEvery (Suc i) rest
                               (found @ [\<lparr> pi_Permalink = pl, pi_SQL = sql, pi_Timestamp = TimeFromInt (wrap64 (ts * 1000000)), pi_NumRows = rows \<rparr>]) } }"

definition listPermalinks :: "decoder \<Rightarrow> cacheEntry list \<Rightarrow> (PermalinkInfo list \<times> error option) go" where
  "listPermalinks decode bucket = list_permalinks decode (length bucket div 100) 0 bucket []"

definition decodes :: "decoder \<Rightarrow> cacheEntry \<Rightarrow> bool" where
  "decodes decode ce \<longleftrightarrow> well_formed ce \<and> (ce_status ce = Some statusSuccess \<longrightarrow> (\<exists>d x. ce_data ce = Some d \<and> decode d = Inr x))"

text \<open>
  Listing the permalinks panics for every small cache: with fewer than a hundred entries, of which two or more are results, the
  remainder for the report of the progress is by zero.
\<close>

theorem small_cache_not_listed:
  assumes "length bucket < 100" "\<forall>ce \<in> set bucket. decodes decode ce" "2 \<le> length (filter (\<lambda>ce. ce_status ce = Some statusSuccess) bucket)"
  shows "listPermalinks decode bucket = None"
proof -
  have "list_permalinks decode 0 i ces found = None"
    if "\<forall>ce \<in> set ces. decodes decode ce" "2 \<le> i + length (filter (\<lambda>ce. ce_status ce = Some statusSuccess) ces)" "i < 2"
       "0 < length (filter (\<lambda>ce. ce_status ce = Some statusSuccess) ces)" for i ces found
    using that
  proof (induction ces arbitrary: i found)
    case (Cons ce ces)
    from Cons.prems(1) obtain st pl t data where ce: "ce = entry_of st pl t data" "length pl = widthPermalink" by (auto simp: decodes_def well_formed_def)
    show ?case
    proof (cases "st = statusSuccess")
      case True
      then obtain pl' sql ts n where "decode data = Inr (pl', sql, ts, n)" using Cons.prems(1) ce by (auto simp: decodes_def entry_parts)
      moreover have "list_permalinks decode 0 1 ces found' = None" if "i = 0" for found'
        by (rule Cons.IH) (use Cons.prems True ce that in \<open>auto simp: entry_parts\<close>)
      ultimately show ?thesis using True ce by (auto simp: entry_parts)
    next
      case False
      then show ?thesis using Cons ce by (auto simp: entry_parts)
    qed
  qed simp
  from this [of bucket 0 "[]"] show ?thesis using assms by (cases "filter (\<lambda>ce. ce_status ce = Some statusSuccess) bucket = []") (auto simp: listPermalinks_def)
qed

theorem small_cache_not_listed_witness:
  "listPermalinks (\<lambda>_. Inr ([], [], 0, 0)) (replicate 2 (entry_of statusSuccess sample_link 60 [1])) = None"
  by (rule small_cache_not_listed) (use sample_queued_simps(2) in \<open>simp_all add: decodes_def entry_parts\<close>)

end
