(* ===== verification/WebAccess.thy ===== *)
theory WebAccess
  imports InsertProps
begin

text \<open>
  Who may use the web server (web/auth.go), and points that are posted to it (web/insert.go).  The clock, the secure cookies and the
  answers of GitHub are arguments.  What a handler writes to a response is a list, in the order in which it is written; the first
  status of it is the one that the client gets.
\<close>

section \<open>Access\<close>

record web_opts =
  wo_OAuthClientID :: string
  wo_OAuthClientSecret :: string
  wo_GitHubOrg :: string
  wo_Password :: string

record AuthData =
  ad_AccessToken :: string
  ad_Expiration :: gotime

definition sessionTimeout :: duration where "sessionTimeout = 3600000000000"

text \<open>A URL with its parameters, as \<open>buildURL\<close> puts it together.\<close>

type_synonym web_url = "string \<times> (string \<times> string) list"

definition buildURL :: "string \<Rightarrow> (string \<times> string) list \<Rightarrow> web_url" where "buildURL base ps = (base, ps)"

text \<open>
  The secure cookies of \<open>securecookie\<close>, the requests to GitHub with status and body of the answers, and the decoding of JSON.  Of an
  organisation only its login is used, if it is a string.
\<close>

record auth_ext =
  ax_encodeAuth :: "AuthData \<Rightarrow> error + string"
  ax_decodeAuth :: "string \<Rightarrow> error + AuthData"
  ax_encodeXsrf :: "gotime \<Rightarrow> error + string"
  ax_decodeXsrf :: "string \<Rightarrow> error + gotime"
  ax_getOrgs :: "string \<Rightarrow> error + int \<times> (error + bytes)"
  ax_jsonOrgs :: "bytes \<Rightarrow> error + string option list"
  ax_postToken :: "web_url \<Rightarrow> error + (error + bytes)"
  ax_jsonToken :: "bytes \<Rightarrow> error + (string \<rightharpoonup> string)"

definition userInOrg :: "auth_ext \<Rightarrow> web_opts \<Rightarrow> string \<Rightarrow> error + bool" where
  "userInOrg A opts accessToken =
     (case ax_getOrgs A accessToken of
        Inl e \<Rightarrow> Inl (OtherError ''Unable to get user orgs from GitHub'')
      | Inr (_, Inl e) \<Rightarrow> Inl (OtherError ''Unable to read user orgs from GitHub'')
      | Inr (status, Inr body) \<Rightarrow>
          if 299 < status then Inl (OtherError ''Got response status'')
          else (case ax_jsonOrgs A body of
                  Inl e \<Rightarrow> Inl (OtherError ''Unable to unmarshal user orgs from GitHub'')
                | Inr orgs \<Rightarrow> Inr (list_ex (\<lambda>org. org = Some (wo_GitHubOrg opts)) orgs)))"

datatype auth_write = RedirectTo web_url | SetCookie string

definition requestAuthorization :: "auth_ext \<Rightarrow> web_opts \<Rightarrow> gotime \<Rightarrow> auth_write list" where
  "requestAuthorization A opts now =
     (case ax_encodeXsrf A (now + 60000000000) of
        Inl e \<Rightarrow> []
      | Inr state \<Rightarrow> [RedirectTo (buildURL ''https://github.com/login/oauth/authorize''
          [(''client_id'', wo_OAuthClientID opts), (''state'', state), (''scope'', ''read:org'')])])"

text \<open>\<open>authenticate\<close>, of a request with the header for the password and possibly a cookie.\<close>

definition authenticate :: "auth_ext \<Rightarrow> web_opts \<Rightarrow> gotime \<Rightarrow> string \<Rightarrow> string option \<Rightarrow> bool \<times> auth_write list" where
  "authenticate A opts now password cookie =
     (if wo_OAuthClientID opts = [] \<or> wo_OAuthClientSecret opts = [] then (True, [])
      else if wo_Password opts \<noteq> [] \<and> password \<noteq> [] then (password = wo_Password opts, [])
      else case cookie of
        None \<Rightarrow> (False, requestAuthorization A opts now)
      | Some c \<Rightarrow> (case ax_decodeAuth A c of
            Inl e \<Rightarrow> (False, requestAuthorization A opts now)
          | Inr ad \<Rightarrow>
              if ad_Expiration ad < now then (True, [])
              else (case userInOrg A opts (ad_AccessToken ad) of
                      Inr True \<Rightarrow> (True, [])
                    | _ \<Rightarrow> (False, requestAuthorization A opts now))))"

text \<open>
  \<open>oauthCode\<close>, the return from GitHub.  After a token that cannot be decoded it goes on with the zero time; after an error of
  \<open>userInOrg\<close> it goes on as well.
\<close>

definition login :: "auth_ext \<Rightarrow> web_opts \<Rightarrow> gotime \<Rightarrow> string \<Rightarrow> auth_write list" where
  "login A opts now accessToken =
     (if userInOrg A opts accessToken = Inr False then []
      else case ax_encodeAuth A \<lparr> ad_AccessToken = accessToken, ad_Expiration = now + sessionTimeout \<rparr> of
        Inl e \<Rightarrow> []
      | Inr cookieData \<Rightarrow> [SetCookie cookieData, RedirectTo (''/'', [])])"

definition oauthCode :: "auth_ext \<Rightarrow> web_opts \<Rightarrow> gotime \<Rightarrow> string \<Rightarrow> string \<Rightarrow> auth_write list" where
  "oauthCode A opts now code state =
     (let (xsrfExpiration, out) = (case ax_decodeXsrf A state of Inl e \<Rightarrow> (zeroTime, requestAuthorization A opts now) | Inr t \<Rightarrow> (t, []))
      in if xsrfExpiration < now then out @ requestAuthorization A opts now
      else case ax_postToken A (buildURL ''https://github.com/login/oauth/access_token''
          [(''client_id'', wo_OAuthClientID opts), (''client_secret'', wo_OAuthClientSecret opts), (''code'', code), (''state'', state)]) of
        Inl e \<Rightarrow> out @ requestAuthorization A opts now
      | Inr (Inl e) \<Rightarrow> out @ requestAuthorization A opts now
      | Inr (Inr body) \<Rightarrow> (case ax_jsonToken A body of
            Inl e \<Rightarrow> out @ requestAuthorization A opts now
          | Inr tokenData \<Rightarrow> out @ login A opts now (case tokenData ''access_token'' of None \<Rightarrow> [] | Some t \<Rightarrow> t)))"

section \<open>Posted points\<close>

record point =
  pt_Ts :: gotime
  pt_Dims :: "(string \<times> goval) list"
  pt_Vals :: "(string \<times> goval) list"

text \<open>The decoder yields points or an error; it has reached the end of the body where the list ends.\<close>

datatype insert_status = MethodNotAllowed | UnsupportedMediaType | Created | BadRequest string | SubmitError error

definition db_Insert :: "insert_ext \<Rightarrow> insert_opts \<Rightarrow> ((string \<times> goval) list \<Rightarrow> bytes) \<Rightarrow> string \<Rightarrow> point \<Rightarrow> (error + string \<times> bytes) go" where
  "db_Insert I opts newMap strm p = InsertRaw I opts strm (pt_Ts p) (newMap (pt_Dims p)) (newMap (pt_Vals p))"

fun insert_points ::
  "insert_ext \<Rightarrow> insert_opts \<Rightarrow> ((string \<times> goval) list \<Rightarrow> bytes) \<Rightarrow> gotime \<Rightarrow> string \<Rightarrow> (error + point) list
   \<Rightarrow> (insert_status list \<times> (string \<times> bytes) list) go" where
  "insert_points I opts newMap now strm [] = Some ([Created], [])"
| "insert_points I opts newMap now strm (Inl e # rest) = Some ([BadRequest ''Error decoding JSON''], [])"
| "insert_points I opts newMap now strm (Inr p # rest) =
     (if pt_Dims p = [] then Some ([BadRequest ''Need at least one dim''], [])
      else if pt_Vals p = [] then Some ([BadRequest ''Need at least one val''], [])
      else do { r \<leftarrow> db_Insert I opts newMap strm (if IsZero (pt_Ts p) then p\<lparr>pt_Ts := now\<rparr> else p);
                (ss, entries) \<leftarrow> insert_points I opts newMap now strm rest;
                Some (case r of Inl e \<Rightarrow> (SubmitError e # ss, entries) | Inr en \<Rightarrow> (ss, en # entries)) })"

text \<open>The statuses that \<open>insert\<close> writes and the entries that it appends to the logs of streams.\<close>

definition web_insert ::
  "insert_ext \<Rightarrow> insert_opts \<Rightarrow> ((string \<times> goval) list \<Rightarrow> bytes) \<Rightarrow> gotime \<Rightarrow> string \<Rightarrow> string \<Rightarrow> string \<Rightarrow> (error + point) list
   \<Rightarrow> (insert_status list \<times> (string \<times> bytes) list) go" where
  "web_insert I opts newMap now httpMethod contentType strm body =
     (if httpMethod \<noteq> ''POST'' then Some ([MethodNotAllowed], [])
      else if contentType \<noteq> ''application/json'' then Some ([UnsupportedMediaType], [])
      else insert_points I opts newMap now strm body)"

end
