(* ===== verification/WebAccessProps.thy ===== *)
theory WebAccessProps
  imports WebAccess
begin

text \<open>
  Who is let in, and what becomes of posted points.
\<close>

section \<open>Access\<close>

text \<open>The requests that are admitted when logins are configured.\<close>

definition session_of :: "auth_ext \<Rightarrow> string option \<Rightarrow> AuthData option" where
  "session_of A cookie = (case cookie of None \<Rightarrow> None | Some c \<Rightarrow> (case ax_decodeAuth A c of Inl _ \<Rightarrow> None | Inr ad \<Rightarrow> Some ad))"

text \<open>
  A request is admitted exactly if logins are not configured, or it has the password, or it has no password and a session that has
  expired or whose user is in the organisation.  Who is refused without a password is sent to GitHub, if a token for it can be made.
\<close>

theorem authenticate_admits:
  "fst (authenticate A opts now password cookie) \<longleftrightarrow>
     wo_OAuthClientID opts = [] \<or> wo_OAuthClientSecret opts = [] \<or>
     (if wo_Password opts \<noteq> [] \<and> password \<noteq> [] then password = wo_Password opts
      else \<exists>ad. session_of A cookie = Some ad \<and> (ad_Expiration ad < now \<or> userInOrg A opts (ad_AccessToken ad) = Inr True))"
  by (auto simp: authenticate_def session_of_def split: option.splits sum.splits bool.splits)


text \<open>Cookies that are what they carry, and a GitHub that refuses.\<close>

definition show_session :: "AuthData \<Rightarrow> string" where
  "show_session ad = (if 0 \<le> ad_Expiration ad then CHR ''+'' else CHR ''-'') # replicate (nat \<bar>ad_Expiration ad\<bar>) CHR ''1'' @ CHR ''.'' # ad_AccessToken ad"

definition read_session :: "string \<Rightarrow> AuthData" where
  "read_session s = (let n = int (length (takeWhile (\<lambda>c. c = CHR ''1'') (tl s)))
     in \<lparr> ad_AccessToken = tl (dropWhile (\<lambda>c. c = CHR ''1'') (tl s)), ad_Expiration = (if hd s = CHR ''+'' then n else - n) \<rparr>)"

lemma read_show_session: "read_session (show_session ad) = ad"
proof -
  have t: "takeWhile (\<lambda>c. c = CHR ''1'') (replicate n CHR ''1'' @ CHR ''.'' # xs) = replicate n CHR ''1''"
    "dropWhile (\<lambda>c. c = CHR ''1'') (replicate n CHR ''1'' @ CHR ''.'' # xs) = CHR ''.'' # xs" for n xs
    by (induction n) simp_all
  show ?thesis by (simp add: read_session_def show_session_def Let_def t)
qed

definition sample_auth :: auth_ext where
  "sample_auth = \<lparr> ax_encodeAuth = (\<lambda>ad. Inr (show_session ad)), ax_decodeAuth = (\<lambda>s. Inr (read_session s)),
     ax_encodeXsrf = (\<lambda>t. Inr ''state''), ax_decodeXsrf = (\<lambda>s. Inr 60), ax_getOrgs = (\<lambda>_. Inr (401, Inr [])), ax_jsonOrgs = (\<lambda>_. Inr []),
     ax_postToken = (\<lambda>_. Inr (Inr [])), ax_jsonToken = (\<lambda>_. Inr Map.empty) \<rparr>"

definition sample_web_opts :: web_opts where
  "sample_web_opts = \<lparr> wo_OAuthClientID = ''id'', wo_OAuthClientSecret = ''secret'', wo_GitHubOrg = ''org'', wo_Password = ''pw'' \<rparr>"


section \<open>Posted points\<close>

definition accepted :: "point \<Rightarrow> bool" where "accepted p \<longleftrightarrow> pt_Dims p \<noteq> [] \<and> pt_Vals p \<noteq> []"

definition stamped :: "gotime \<Rightarrow> point \<Rightarrow> point" where "stamped now p = (if IsZero (pt_Ts p) then p\<lparr>pt_Ts := now\<rparr> else p)"

text \<open>The answer to a body from which no more points are taken.\<close>

definition answer_to :: "(error + point) list \<Rightarrow> insert_status" where
  "answer_to rest = (case rest of
      [] \<Rightarrow> Created
    | Inl _ # _ \<Rightarrow> BadRequest ''Error decoding JSON''
    | Inr p # _ \<Rightarrow> BadRequest (if pt_Dims p = [] then ''Need at least one dim'' else ''Need at least one val''))"

lemma insert_points_append:
  assumes "list_all2 (\<lambda>p en. accepted p \<and> db_Insert I opts newMap strm (stamped now p) = Some (Inr en)) ps written"
    and "insert_points I opts newMap now strm rest = Some (ss, es)"
  shows "insert_points I opts newMap now strm (map Inr ps @ rest) = Some (ss, written @ es)"
  using assms by (induction ps written rule: list_all2_induct) (simp_all add: accepted_def stamped_def)

text \<open>
  A body of points that all have dimensions and values is appended to the log of its stream, point by point, a point without a time
  with the time of the request, and the request is answered as created.  Where the decoder fails or a point lacks dimensions or
  values, the points before it stay inserted although the request is answered as a bad one.
\<close>

theorem posted_points_inserted:
  assumes "\<not> io_follow opts" "TrimSpace (ToLower strm) \<in> set (io_streams opts)" "io_whitelist opts = []"
    and "\<forall>p \<in> set ps. accepted p \<and> in64 (pt_Ts (stamped now p)) \<and> int (length (newMap (pt_Dims p))) < 2 ^ 32 \<and> int (length (newMap (pt_Vals p))) < 2 ^ 32"
    and "case rest of Inr p # _ \<Rightarrow> \<not> accepted p | _ \<Rightarrow> True"
  shows "web_insert I opts newMap now ''POST'' ''application/json'' strm (map Inr ps @ rest) =
    Some ([answer_to rest], map (\<lambda>p. (TrimSpace (ToLower strm), be 8 (unat (word_of_int (pt_Ts (stamped now p)) :: u64)) @
      be 4 (length (newMap (pt_Dims p))) @ newMap (pt_Dims p) @ be 4 (length (newMap (pt_Vals p))) @ newMap (pt_Vals p))) ps)"
proof -
  have r: "insert_points I opts newMap now strm rest = Some ([answer_to rest], [])"
    using assms(5) by (auto simp: answer_to_def accepted_def split: list.splits sum.splits)
  have "db_Insert I opts newMap strm (stamped now p) = Some (Inr (TrimSpace (ToLower strm), be 8 (unat (word_of_int (pt_Ts (stamped now p)) :: u64)) @
      be 4 (length (newMap (pt_Dims p))) @ newMap (pt_Dims p) @ be 4 (length (newMap (pt_Vals p))) @ newMap (pt_Vals p)))" if "p \<in> set ps" for p
    using assms(4) that InsertRaw_data [OF assms(1,2)] by (simp add: db_Insert_def assms(3)) (simp add: stamped_def)
  then show ?thesis
    using insert_points_append [OF _ r, of ps "map _ ps"] assms(4) by (simp add: web_insert_def list_all2_conv_all_nth)
qed

definition sample_point :: "gotime \<Rightarrow> point" where
  "sample_point t = \<lparr> pt_Ts = t, pt_Dims = [(''d'', GString ''x'')], pt_Vals = [(''v'', GString ''1'')] \<rparr>"

theorem posted_points_inserted_witness:
  "web_insert sample_insert sample_opts (\<lambda>kvs. [of_nat (length kvs)]) 9 ''POST'' ''application/json'' ''s''
     [Inr (sample_point 5), Inr (sample_point zeroTime), Inr (sample_point 6\<lparr>pt_Vals := []\<rparr>), Inr (sample_point 7)] =
   Some ([BadRequest ''Need at least one val''],
     map (\<lambda>t. (TrimSpace (ToLower ''s''), be 8 (unat (word_of_int t :: u64)) @ be 4 1 @ [1] @ be 4 1 @ [1])) [5, 9])"
proof -
  have "TrimSpace (ToLower ''s'') = ''s''" by code_simp
  then show ?thesis
    using posted_points_inserted [of sample_opts "''s''" "[sample_point 5, sample_point zeroTime]" 9 "\<lambda>kvs. [of_nat (length kvs)]"
        "[Inr (sample_point 6\<lparr>pt_Vals := []\<rparr>), Inr (sample_point 7)]" sample_insert]
    by (simp add: sample_opts_def sample_point_def accepted_def stamped_def answer_to_def IsZero_def in64_def zeroTime_def)
qed

end
