(* ===== verification/WebResult.thy ===== *)
theory WebResult
  imports CoreProps Common
begin

text \<open>
  What the web server makes of a query (\<open>doQuery\<close> of web/query.go): the rows of the query in a form for JSON, with the numbers of
  different times, values and dimensions.  The counters of \<open>hllpp\<close> are the lists of what has been added to them, and the estimate of
  such a list is an argument; the iteration over a byte map is one, too.
\<close>

section \<open>Collecting the rows\<close>

record result_ext =
  rx_dims :: "bytes \<Rightarrow> (string \<times> goval option \<times> bytes) list"
  rx_count :: "bytes list \<Rightarrow> nat"
  rx_humanize :: "int \<Rightarrow> string"

record ResultRow =
  rr_TS :: int
  rr_Key :: "string \<rightharpoonup> goval option"
  rr_Vals :: "float64 list"

record 'm QueryResult =
  qr_SQL :: string
  qr_Permalink :: string
  qr_TS :: int
  qr_TSCardinality :: nat
  qr_Fields :: "string list"
  qr_FieldCardinalities :: "nat list"
  qr_Dims :: "string list"
  qr_DimCardinalities :: "nat list"
  qr_Rows :: "ResultRow list"
  qr_Stats :: 'm

text \<open>The variables that the callbacks share.\<close>

record collected =
  co_Fields :: "string list"
  co_Rows :: "ResultRow list"
  co_fieldCardinalities :: "bytes list list"
  co_dimCardinalities :: "(string \<times> bytes list) list"
  co_tsCardinality :: "bytes list"
  co_estimatedResultBytes :: int

definition collected0 :: collected where
  "collected0 = \<lparr> co_Fields = [], co_Rows = [], co_fieldCardinalities = [], co_dimCardinalities = [], co_tsCardinality = [], co_estimatedResultBytes = 0 \<rparr>"

definition web_onFields :: "('c, collected) onfields" where
  "web_onFields fs s = Some (s\<lparr>co_Fields := co_Fields s @ map f_name fs, co_fieldCardinalities := co_fieldCardinalities s @ map (\<lambda>_. []) fs\<rparr>, None)"

fun add_dim :: "string \<Rightarrow> bytes \<Rightarrow> (string \<times> bytes list) list \<Rightarrow> (string \<times> bytes list) list" where
  "add_dim d v [] = [(d, [v])]"
| "add_dim d v ((d', vs) # hs) = (if d' = d then (d', vs @ [v]) # hs else (d', vs) # add_dim d v hs)"

fun collect_key ::
  "(string \<times> goval option \<times> bytes) list \<Rightarrow> (string \<rightharpoonup> goval option) \<Rightarrow> (string \<times> bytes list) list \<Rightarrow> int
   \<Rightarrow> (string \<rightharpoonup> goval option) \<times> (string \<times> bytes list) list \<times> int" where
  "collect_key [] key hs n = (key, hs, n)"
| "collect_key ((dim', v, b) # ds) key hs n = collect_key ds (key(dim' \<mapsto> v)) (add_dim dim' b hs) (n + int (length dim') + int (length b))"

fun add_values :: "float64 list \<Rightarrow> bytes list list \<Rightarrow> bytes list list go" where
  "add_values [] hs = Some hs"
| "add_values (v # vs) [] = None"
| "add_values (v # vs) (h # hs) = do { hs' \<leftarrow> add_values vs hs; Some ((h @ [be 8 (unat v)]) # hs') }"

definition web_onRow :: "result_ext \<Rightarrow> int \<Rightarrow> ('c flatrow, collected) onrow" where
  "web_onRow R maxBytes row s =
     (case collect_key (rx_dims R (fr_Key row)) Map.empty (co_dimCardinalities s) (co_estimatedResultBytes s) of
        (key, hs, n) \<Rightarrow>
          let n = n + 8 * int (length (fr_Values row));
              s = s\<lparr>co_dimCardinalities := hs, co_estimatedResultBytes := n\<rparr>
          in if maxBytes < n
             then Some (s, False, Some (OtherError (''Estimated query result size '' @ rx_humanize R n @ '' exceeded limit of '' @ rx_humanize R maxBytes)))
             else let s = s\<lparr>co_tsCardinality := co_tsCardinality s @ [be 8 (unat (word_of_int (fr_TS row) :: u64))]\<rparr> in
               do { fcs \<leftarrow> add_values (fr_Values row) (co_fieldCardinalities s);
                    Some (s\<lparr>co_fieldCardinalities := fcs,
                           co_Rows := co_Rows s @ [\<lparr> rr_TS = NanosToMillis (fr_TS row), rr_Key = key, rr_Vals = fr_Values row \<rparr>]\<rparr>, True, None) })"

text \<open>\<open>doQuery\<close>; the error of the iteration is ignored.\<close>

definition doQuery ::
  "result_ext \<Rightarrow> int \<Rightarrow> gotime \<Rightarrow> string \<Rightarrow> string \<Rightarrow> error + ('c, 'c flatrow, 'm, collected) iterate \<Rightarrow> (error + 'm QueryResult) go" where
  "doQuery R maxBytes now sql permalink rs =
     (case rs of
        Inl e \<Rightarrow> Some (Inl e)
      | Inr iterate \<Rightarrow>
          do { (s, stats, _) \<leftarrow> iterate web_onFields (web_onRow R maxBytes) collected0;
               let dims = sort (map fst (co_dimCardinalities s));
               Some (Inr \<lparr> qr_SQL = sql, qr_Permalink = permalink, qr_TS = TimeToMillis now, qr_TSCardinality = rx_count R (co_tsCardinality s),
                 qr_Fields = co_Fields s, qr_FieldCardinalities = map (rx_count R) (co_fieldCardinalities s), qr_Dims = dims,
                 qr_DimCardinalities = map (\<lambda>dim'. rx_count R (the (map_of (co_dimCardinalities s) dim'))) dims, qr_Rows = co_Rows s, qr_Stats = stats \<rparr>) })"

section \<open>What the result holds\<close>

definition row_dims :: "result_ext \<Rightarrow> 'c flatrow \<Rightarrow> string list" where "row_dims R row = map fst (rx_dims R (fr_Key row))"

definition key_map :: "(string \<times> goval option \<times> bytes) list \<Rightarrow> string \<rightharpoonup> goval option" where
  "key_map ds = map_of (rev (map (\<lambda>(d, v, b). (d, v)) ds))"

definition key_size :: "(string \<times> goval option \<times> bytes) list \<Rightarrow> int" where
  "key_size ds = (\<Sum>(d, v, b) \<leftarrow> ds. int (length d) + int (length b))"

definition row_size :: "result_ext \<Rightarrow> 'c flatrow \<Rightarrow> int" where
  "row_size R row = key_size (rx_dims R (fr_Key row)) + 8 * int (length (fr_Values row))"

definition result_row :: "result_ext \<Rightarrow> 'c flatrow \<Rightarrow> ResultRow" where
  "result_row R row = \<lparr> rr_TS = NanosToMillis (fr_TS row), rr_Key = key_map (rx_dims R (fr_Key row)), rr_Vals = fr_Values row \<rparr>"

text \<open>The rows that fit, with \<open>n\<close> bytes counted before.\<close>

fun rows_within :: "result_ext \<Rightarrow> int \<Rightarrow> int \<Rightarrow> 'c flatrow list \<Rightarrow> 'c flatrow list" where
  "rows_within R maxBytes n [] = []"
| "rows_within R maxBytes n (r # rs) = (let n' = n + row_size R r in if maxBytes < n' then [] else r # rows_within R maxBytes n' rs)"

lemma dom_add_dim: "set (map fst (add_dim d v hs)) = insert d (set (map fst hs))"
  by (induction d v hs rule: add_dim.induct) auto

lemma distinct_add_dim: "distinct (map fst hs) \<Longrightarrow> distinct (map fst (add_dim d v hs))"
  using dom_add_dim by (induction d v hs rule: add_dim.induct) fastforce+

lemma key_map_Cons: "key(d \<mapsto> v) ++ key_map ds = key ++ key_map ((d, v, b) # ds)"
  by (simp add: key_map_def map_add_def fun_eq_iff split: option.splits)

lemma collect_key_eq:
  "\<exists>hs'. collect_key ds key hs n = (key ++ key_map ds, hs', n + key_size ds) \<and>
    set (map fst hs') = set (map fst hs) \<union> set (map fst ds) \<and> (distinct (map fst hs) \<longrightarrow> distinct (map fst hs'))"
proof (induction ds arbitrary: key hs n)
  case (Cons x ds)
  obtain d v b where x: "x = (d, v, b)" by (cases x)
  obtain hs' where hs': "collect_key ds (key(d \<mapsto> v)) (add_dim d b hs) (n + int (length d) + int (length b)) =
      (key(d \<mapsto> v) ++ key_map ds, hs', n + int (length d) + int (length b) + key_size ds)"
    "set (map fst hs') = set (map fst (add_dim d b hs)) \<union> set (map fst ds)" "distinct (map fst (add_dim d b hs)) \<longrightarrow> distinct (map fst hs')"
    using Cons.IH by blast
  have "collect_key (x # ds) key hs n = (key ++ key_map (x # ds), hs', n + key_size (x # ds))"
    using hs'(1) unfolding x key_map_Cons [of key d v ds b] by (simp add: key_size_def)
  moreover have "set (map fst hs') = set (map fst hs) \<union> set (map fst (x # ds))" using hs'(2) unfolding dom_add_dim by (simp add: x)
  ultimately show ?case using hs'(3) distinct_add_dim [of hs d b] by blast
qed (simp add: key_map_def key_size_def)

definition row_ok :: "nat \<Rightarrow> 'c flatrow \<Rightarrow> bool" where "row_ok n row \<longleftrightarrow> length (fr_Values row) = n"

lemma add_values_total: "length vs = length hs \<Longrightarrow> \<exists>hs'. add_values vs hs = Some hs' \<and> length hs' = length hs"
  by (induction vs hs rule: add_values.induct) auto

text \<open>One row: it is collected if it fits.\<close>

lemma web_onRow_eq:
  fixes R :: result_ext
  assumes "row_ok (length (co_fieldCardinalities s)) row"
  defines "n \<equiv> co_estimatedResultBytes s + row_size R row"
  shows "\<exists>hs fcs ts err. web_onRow R maxBytes row s = Some (s\<lparr>co_dimCardinalities := hs, co_estimatedResultBytes := n,
      co_tsCardinality := ts, co_fieldCardinalities := fcs, co_Rows := co_Rows s @ (if n \<le> maxBytes then [result_row R row] else [])\<rparr>, n \<le> maxBytes, err) \<and>
    (err = None) = (n \<le> maxBytes) \<and> length fcs = length (co_fieldCardinalities s) \<and>
    set (map fst hs) = set (map fst (co_dimCardinalities s)) \<union> set (row_dims R row) \<and> (distinct (map fst (co_dimCardinalities s)) \<longrightarrow> distinct (map fst hs))"
proof -
  obtain hs where k: "collect_key (rx_dims R (fr_Key row)) Map.empty (co_dimCardinalities s) (co_estimatedResultBytes s) =
      (key_map (rx_dims R (fr_Key row)), hs, co_estimatedResultBytes s + key_size (rx_dims R (fr_Key row)))"
    "set (map fst hs) = set (map fst (co_dimCardinalities s)) \<union> set (row_dims R row)"
    "distinct (map fst (co_dimCardinalities s)) \<longrightarrow> distinct (map fst hs)"
    using collect_key_eq [of "rx_dims R (fr_Key row)" Map.empty "co_dimCardinalities s" "co_estimatedResultBytes s"]
    unfolding row_dims_def by (metis empty_map_add)
  obtain fcs where f: "add_values (fr_Values row) (co_fieldCardinalities s) = Some fcs" "length fcs = length (co_fieldCardinalities s)"
    using add_values_total assms(1) unfolding row_ok_def by blast
  have n: "co_estimatedResultBytes s + key_size (rx_dims R (fr_Key row)) + 8 * int (length (fr_Values row)) = n" by (simp add: n_def row_size_def)
  show ?thesis
  proof (cases "n \<le> maxBytes")
    case True
    have "web_onRow R maxBytes row s = Some (s\<lparr>co_dimCardinalities := hs, co_estimatedResultBytes := n,
        co_tsCardinality := co_tsCardinality s @ [be 8 (unat (word_of_int (fr_TS row) :: u64))], co_fieldCardinalities := fcs,
        co_Rows := co_Rows s @ [result_row R row]\<rparr>, True, None)"
      using True f(1) by (simp add: web_onRow_def k(1) Let_def n result_row_def)
    then show ?thesis using True k(2,3) f(2) by auto
  next
    case False
    let ?e = "OtherError (''Estimated query result size '' @ rx_humanize R n @ '' exceeded limit of '' @ rx_humanize R maxBytes)"
    have "web_onRow R maxBytes row s = Some (s\<lparr>co_dimCardinalities := hs, co_estimatedResultBytes := n,
        co_tsCardinality := co_tsCardinality s, co_fieldCardinalities := co_fieldCardinalities s, co_Rows := co_Rows s @ []\<rparr>, False, Some ?e)"
      using False by (simp add: web_onRow_def k(1) Let_def n)
    then show ?thesis using False k(2,3)
      by (intro exI [of _ hs] exI [of _ "co_fieldCardinalities s"] exI [of _ "co_tsCardinality s"] exI [of _ "Some ?e"]) (simp del: set_map)
  qed
qed

text \<open>All rows: those that fit are collected, and their dimensions; the row that does not fit adds its dimensions.\<close>

lemma feed_collects:
  assumes "\<forall>row \<in> set rows. row_ok (length (co_fieldCardinalities s)) row" "distinct (map fst (co_dimCardinalities s))"
  shows "\<exists>s' c err. feed (web_onRow R maxBytes) rows s = Some (s', c, err) \<and> co_Fields s' = co_Fields s \<and>
    co_Rows s' = co_Rows s @ map (result_row R) (rows_within R maxBytes (co_estimatedResultBytes s) rows) \<and>
    distinct (map fst (co_dimCardinalities s')) \<and>
    set (map fst (co_dimCardinalities s')) = set (map fst (co_dimCardinalities s)) \<union>
      (\<Union>row \<in> set (take (Suc (length (rows_within R maxBytes (co_estimatedResultBytes s) rows))) rows). set (row_dims R row))"
  using assms
proof (induction rows arbitrary: s)
  case (Cons row rows)
  let ?n = "co_estimatedResultBytes s + row_size R row"
  have "row_ok (length (co_fieldCardinalities s)) row" using Cons.prems by simp
  from web_onRow_eq [OF this] obtain hs fcs ts e where c: "web_onRow R maxBytes row s = Some (s\<lparr>co_dimCardinalities := hs, co_estimatedResultBytes := ?n,
      co_tsCardinality := ts, co_fieldCardinalities := fcs, co_Rows := co_Rows s @ (if ?n \<le> maxBytes then [result_row R row] else [])\<rparr>, ?n \<le> maxBytes, e)"
    "(e = None) = (?n \<le> maxBytes)" "length fcs = length (co_fieldCardinalities s)"
    "set (map fst hs) = set (map fst (co_dimCardinalities s)) \<union> set (row_dims R row)" "distinct (map fst (co_dimCardinalities s)) \<longrightarrow> distinct (map fst hs)"
    by blast
  show ?case
  proof (cases "?n \<le> maxBytes")
    case True
    let ?s = "s\<lparr>co_dimCardinalities := hs, co_estimatedResultBytes := ?n, co_tsCardinality := ts, co_fieldCardinalities := fcs, co_Rows := co_Rows s @ [result_row R row]\<rparr>"
    have "\<forall>row \<in> set rows. row_ok (length (co_fieldCardinalities ?s)) row" "distinct (map fst (co_dimCardinalities ?s))" using Cons.prems c(3,5) by simp_all
    from Cons.IH [OF this] show ?thesis using True c(1,2,4) by (simp add: Let_def Un_assoc del: set_map)
  next
    case False
    then show ?thesis using c Cons.prems(2) by (auto simp: Let_def simp del: set_map)
  qed
qed auto

text \<open>
  The result of a web query: its rows are those of the query, in order and with their values, as long as the estimated size is within
  the limit; its fields are those of the query, and its dimensions those that occur in the rows, sorted.  Neither a row that does
  not fit nor an error of the query makes it fail: what has been collected is returned as the result.
\<close>

theorem web_result_rows:
  assumes "\<forall>row \<in> set rows. row_ok (length fs) row"
  shows "\<exists>r. doQuery R maxBytes now sql permalink (Inr (list_source fs rows m err)) = Some (Inr r) \<and>
    qr_Rows r = map (result_row R) (rows_within R maxBytes 0 rows) \<and> qr_Fields r = map f_name fs \<and>
    qr_Dims r = sorted_list_of_set (\<Union>row \<in> set (take (Suc (length (rows_within R maxBytes 0 rows))) rows). set (row_dims R row)) \<and> qr_Stats r = m"
proof -
  let ?s = "collected0\<lparr>co_Fields := map f_name fs, co_fieldCardinalities := map (\<lambda>_. []) fs\<rparr>"
  have "length (co_fieldCardinalities ?s) = length fs" "co_estimatedResultBytes ?s = 0" "map fst (co_dimCardinalities ?s) = []" "co_Rows ?s = []" "co_Fields ?s = map f_name fs"
    by (simp_all add: collected0_def)
  then obtain s' c e where s': "feed (web_onRow R maxBytes) rows ?s = Some (s', c, e)" "co_Fields s' = map f_name fs"
    "co_Rows s' = map (result_row R) (rows_within R maxBytes 0 rows)" "distinct (map fst (co_dimCardinalities s'))"
    "set (map fst (co_dimCardinalities s')) = (\<Union>row \<in> set (take (Suc (length (rows_within R maxBytes 0 rows))) rows). set (row_dims R row))"
    using feed_collects [of rows ?s R maxBytes] assms by auto
  have "sort (map fst (co_dimCardinalities s')) = sorted_list_of_set (set (map fst (co_dimCardinalities s')))"
    using s'(4) by (simp add: sorted_list_of_set_sort_remdups distinct_remdups_id del: set_map)
  moreover have "web_onFields fs collected0 = Some (?s, None)" by (simp add: web_onFields_def collected0_def)
  ultimately show ?thesis using s' by (simp add: doQuery_def list_source_def Let_def)
qed

definition sample_result_ext :: result_ext where
  "sample_result_ext = \<lparr> rx_dims = (\<lambda>b. [(''d'', Some (GString ''x''), b)]), rx_count = (\<lambda>bs. length (remdups bs)), rx_humanize = (\<lambda>_. []) \<rparr>"

definition sample_flat :: "int \<Rightarrow> unit flatrow" where
  "sample_flat t = \<lparr> fr_TS = t, fr_Key = [1], fr_Values = [0], fr_fields = [] \<rparr>"

theorem web_result_rows_witness:
  "\<exists>r. doQuery sample_result_ext 25 7 ''q'' ''p'' (Inr (list_source [PointsField] (map sample_flat [1000000, 2000000, 3000000]) () (Some ErrDeadlineExceeded))) = Some (Inr r) \<and>
    map rr_TS (qr_Rows r) = [1, 2] \<and> qr_Dims r = [''d'']"
proof -
  have w: "rows_within sample_result_ext 25 0 (map sample_flat [1000000, 2000000, 3000000]) = map sample_flat [1000000, 2000000]"
    by (simp add: sample_flat_def sample_result_ext_def row_size_def key_size_def)
  have "map rr_TS (map (result_row sample_result_ext) (map sample_flat [1000000, 2000000])) = [1, 2]"
    by (simp add: result_row_def sample_flat_def NanosToMillis_def tdiv_def)
  then show ?thesis
    using web_result_rows [of "map sample_flat [1000000, 2000000, 3000000]" "[PointsField]" sample_result_ext 25 7 "''q''" "''p''" "()" "Some ErrDeadlineExceeded"]
    unfolding w by (auto simp: row_ok_def row_dims_def sample_flat_def sample_result_ext_def)
qed

end
