(* ===== verification/Schema.thy ===== *)
theory Schema
  imports TableProps Sql "HOL-Library.AList"
begin

text \<open>
  Applying a schema to a database (schema.go): tables and views are created or altered, a view after the table or view that it is
  defined on.  The schema is a map in Go; the order in which it is visited is an argument.
\<close>

section \<open>The order of application\<close>

record schema_entry =
  se_opts :: table_opts
  se_SQL :: string

definition se_name :: "schema_entry \<Rightarrow> string" where "se_name e = to_Name (se_opts e)"

definition lower_schema :: "(string \<times> schema_entry) list \<Rightarrow> (string \<times> schema_entry) list" where
  "lower_schema schema0 =
     foldl (\<lambda>schema (name, e). AList.update (ToLower name) (e\<lparr>se_opts := (se_opts e)\<lparr>to_Name := ToLower name\<rparr>\<rparr>) schema) [] schema0"

text \<open>
  The tables, and for each view the name of what it depends on.  The message about a missing table has its arguments in the
  wrong order.
\<close>

fun identify_deps ::
  "'c sql_ext \<Rightarrow> (string \<times> schema_entry) list \<Rightarrow> (string \<times> schema_entry) list \<Rightarrow> schema_entry list \<Rightarrow> (string \<times> schema_entry) list
   \<Rightarrow> (schema_entry list \<times> (string \<times> schema_entry) list) planned" where
  "identify_deps S schema [] tables deps = Some (Inr (tables, deps))"
| "identify_deps S schema ((name, e) # es) tables deps =
     (if \<not> to_View (se_opts e) then identify_deps S schema es (tables @ [e]) deps
      else case TableFor S (se_SQL e) of
        None \<Rightarrow> None
      | Some (Inl err) \<Rightarrow> Some (Inl (OtherError (''Unable to determine underlying table for view '' @ name)))
      | Some (Inr dependsOn) \<Rightarrow>
          if map_of schema dependsOn = None
          then Some (Inl (OtherError (''Table '' @ name @ '' needed by view '' @ dependsOn @ '' not found'')))
          else identify_deps S schema es tables (deps @ [(dependsOn, e)]))"

text \<open>\<open>byDependency.add\<close>, with fuel for its recursion.\<close>

definition dependencyOf :: "(string \<times> schema_entry) list \<Rightarrow> schema_entry \<Rightarrow> schema_entry list" where
  "dependencyOf deps e = map snd (filter (\<lambda>(t, _). t = se_name e) deps)"

fun bd_add :: "nat \<Rightarrow> (string \<times> schema_entry) list \<Rightarrow> schema_entry \<Rightarrow> schema_entry list \<Rightarrow> schema_entry list option"
and bd_adds :: "nat \<Rightarrow> (string \<times> schema_entry) list \<Rightarrow> schema_entry list \<Rightarrow> schema_entry list \<Rightarrow> schema_entry list option" where
  "bd_add 0 deps e acc = None"
| "bd_add (Suc n) deps e acc = bd_adds n deps (dependencyOf deps e) (acc @ [e])"
| "bd_adds n deps [] acc = Some acc"
| "bd_adds n deps (d # ds) acc = (case bd_add n deps d acc of None \<Rightarrow> None | Some acc \<Rightarrow> bd_adds n deps ds acc)"

definition schema_order ::
  "'c sql_ext \<Rightarrow> ((string \<times> schema_entry) list \<Rightarrow> (string \<times> schema_entry) list) \<Rightarrow> (string \<times> schema_entry) list \<Rightarrow> schema_entry list planned" where
  "schema_order S visit schema =
     rbind (identify_deps S schema (visit schema) [] []) (\<lambda>(tables, deps).
       map_option Inr (bd_adds (Suc (length schema)) deps tables []))"

section \<open>Application\<close>

definition table_query_of :: "'c query \<Rightarrow> 'c table_query" where
  "table_query_of q = \<lparr> tq_Fields = q_Fields q, tq_From = q_From q, tq_Resolution = q_Resolution q, tq_Where = q_Where q,
     tq_GroupBy = (if q_GroupBy q = [] then None else Some (q_GroupBy q)), tq_GroupByAll = q_GroupByAll q \<rparr>"

definition replace_table :: "string \<Rightarrow> 'c table_def \<Rightarrow> 'c database \<Rightarrow> 'c database" where
  "replace_table name t db = db\<lparr>db_tables := map (\<lambda>(n, u). if n = name then (n, t) else (n, u)) (db_tables db)\<rparr>"

definition apply_entry ::
  "nat \<Rightarrow> ('c, 'h) ext \<Rightarrow> 'c sql_ext \<Rightarrow> registry \<Rightarrow> store_ext \<Rightarrow> ('c \<Rightarrow> 'c \<Rightarrow> error + 'c) \<Rightarrow> gotime \<Rightarrow> (string \<Rightarrow> (string \<times> filestate) list)
   \<Rightarrow> schema_entry \<Rightarrow> 'c database \<Rightarrow> ('c database \<times> error option) go" where
  "apply_entry n X S reg E conj2 now files e db =
     (case getTable (db_tables db) (se_name e) of
        None \<Rightarrow>
          (case Parse n X S reg (se_SQL e) of
             None \<Rightarrow> None
           | Some (Inl err) \<Rightarrow> Some (db, Some (OtherError (''Error creating table '' @ se_name e)))
           | Some (Inr q) \<Rightarrow>
               do { (db', r) \<leftarrow> CreateTable X E conj2 now (files (se_name e)) (se_opts e) (table_query_of q) db;
                    Some (db', case r of Inl err \<Rightarrow> Some (OtherError (''Error creating table '' @ se_name e)) | Inr _ \<Rightarrow> None) })
      | Some t \<Rightarrow>
          (case Parse n X S reg (se_SQL e) of
             None \<Rightarrow> None
           | Some (Inl err) \<Rightarrow> Some (db, Some err)
           | Some (Inr q) \<Rightarrow>
               do { (t', _, err) \<leftarrow> Alter X conj2 db (se_opts e) (table_query_of q) t;
                    Some (replace_table (ToLower (se_name e)) t' db, err) }))"

fun apply_entries ::
  "nat \<Rightarrow> ('c, 'h) ext \<Rightarrow> 'c sql_ext \<Rightarrow> registry \<Rightarrow> store_ext \<Rightarrow> ('c \<Rightarrow> 'c \<Rightarrow> error + 'c) \<Rightarrow> gotime \<Rightarrow> (string \<Rightarrow> (string \<times> filestate) list)
   \<Rightarrow> schema_entry list \<Rightarrow> 'c database \<Rightarrow> ('c database \<times> error option) go" where
  "apply_entries n X S reg E conj2 now files [] db = Some (db, None)"
| "apply_entries n X S reg E conj2 now files (e # es) db =
     do { (db, err) \<leftarrow> apply_entry n X S reg E conj2 now files e db;
          if err \<noteq> None then Some (db, err) else apply_entries n X S reg E conj2 now files es db }"

definition ApplySchema ::
  "nat \<Rightarrow> ('c, 'h) ext \<Rightarrow> 'c sql_ext \<Rightarrow> registry \<Rightarrow> store_ext \<Rightarrow> ('c \<Rightarrow> 'c \<Rightarrow> error + 'c) \<Rightarrow> gotime \<Rightarrow> (string \<Rightarrow> (string \<times> filestate) list)
   \<Rightarrow> ((string \<times> schema_entry) list \<Rightarrow> (string \<times> schema_entry) list) \<Rightarrow> (string \<times> schema_entry) list \<Rightarrow> 'c database \<Rightarrow> ('c database \<times> error option) go" where
  "ApplySchema n X S reg E conj2 now files visit schema0 db =
     (case schema_order S visit (lower_schema schema0) of
        None \<Rightarrow> None
      | Some (Inl err) \<Rightarrow> Some (db, Some err)
      | Some (Inr es) \<Rightarrow> apply_entries n X S reg E conj2 now files es db)"

section \<open>Every view after its table\<close>

text \<open>The entries of a schema whose dependencies end in a table.\<close>

inductive rooted :: "'c sql_ext \<Rightarrow> (string \<times> schema_entry) list \<Rightarrow> schema_entry \<Rightarrow> bool" for S schema where
  base: "(name, e) \<in> set schema \<Longrightarrow> \<not> to_View (se_opts e) \<Longrightarrow> rooted S schema e"
| view: "(name, e) \<in> set schema \<Longrightarrow> to_View (se_opts e) \<Longrightarrow> TableFor S (se_SQL e) = Some (Inr d) \<Longrightarrow> (d, e') \<in> set schema \<Longrightarrow>
    rooted S schema e' \<Longrightarrow> rooted S schema e"

definition named_schema :: "(string \<times> schema_entry) list \<Rightarrow> bool" where
  "named_schema schema \<longleftrightarrow> distinct (map fst schema) \<and> (\<forall>(name, e) \<in> set schema. se_name e = name \<and> ToLower name = name)"

lemma set_update_subset: "set (AList.update k v al) \<subseteq> insert (k, v) (set al)"
  by (induction al) auto

lemma lower_schema_named: "named_schema (lower_schema schema0)"
proof -
  have "named_schema schema \<Longrightarrow> named_schema (foldl (\<lambda>schema (name, e).
      AList.update (ToLower name) (e\<lparr>se_opts := (se_opts e)\<lparr>to_Name := ToLower name\<rparr>\<rparr>) schema) schema schema0)" for schema
  proof (induction schema0 arbitrary: schema)
    case (Cons x xs)
    have "named_schema (AList.update (ToLower name) (e\<lparr>se_opts := (se_opts e)\<lparr>to_Name := ToLower name\<rparr>\<rparr>) schema)" for name e
      using Cons.prems set_update_subset [of "ToLower name" "e\<lparr>se_opts := (se_opts e)\<lparr>to_Name := ToLower name\<rparr>\<rparr>" schema]
      unfolding named_schema_def by (auto simp: distinct_update se_name_def)
    then show ?case using Cons.IH by (simp split: prod.split)
  qed simp
  from this [of "[]"] show ?thesis by (simp add: lower_schema_def) (simp add: named_schema_def)
qed

lemma named_unique:
  assumes "named_schema schema" "(n, e) \<in> set schema" "(n', e') \<in> set schema" "se_name e = se_name e'"
  shows "e = e'"
proof -
  have "se_name e = n" "se_name e' = n'" "distinct (map fst schema)" using assms(1-3) by (auto simp: named_schema_def)
  then show ?thesis using assms(2-4) by (auto dest: eq_key_imp_eq_value)
qed

text \<open>What \<open>identify_deps\<close> finds: the tables, and one dependency for every view.\<close>

lemma identify_deps_found:
  "identify_deps S schema es tables deps = Some (Inr (ts, ds)) \<Longrightarrow>
     set ts = set tables \<union> {e. \<exists>n. (n, e) \<in> set es \<and> \<not> to_View (se_opts e)} \<and>
     set ds = set deps \<union> {(d, e). \<exists>n. (n, e) \<in> set es \<and> to_View (se_opts e) \<and> TableFor S (se_SQL e) = Some (Inr d)} \<and>
     (\<forall>(n, e) \<in> set es. to_View (se_opts e) \<longrightarrow> (\<exists>d. TableFor S (se_SQL e) = Some (Inr d) \<and> map_of schema d \<noteq> None))"
proof (induction S schema es tables deps rule: identify_deps.induct)
  case (2 S schema name e es tables deps)
  show ?case
  proof (cases "to_View (se_opts e)")
    case False
    then show ?thesis using "2.IH"(1) "2.prems" by auto
  next
    case True
    then obtain d where d: "TableFor S (se_SQL e) = Some (Inr d)" "map_of schema d \<noteq> None"
      "identify_deps S schema es tables (deps @ [(d, e)]) = Some (Inr (ts, ds))"
      using "2.prems" by (auto split: option.splits sum.splits if_splits)
    from "2.IH"(2) [OF _ d(1) refl d(2) d(3)] True d show ?thesis by auto
  qed
qed auto

section \<open>The recursion ends\<close>

definition child :: "(string \<times> schema_entry) list \<Rightarrow> schema_entry \<Rightarrow> schema_entry \<Rightarrow> bool" where
  "child deps e c \<longleftrightarrow> (se_name e, c) \<in> set deps"

lemma dependencyOf_child: "c \<in> set (dependencyOf deps e) \<longleftrightarrow> child deps e c"
  by (force simp: dependencyOf_def child_def)

text \<open>A path of entries from a table; names do not repeat on it, because a view depends on one name only.\<close>

inductive dep_path :: "(string \<times> schema_entry) list \<Rightarrow> schema_entry list \<Rightarrow> bool" for deps where
  start: "\<not> to_View (se_opts e) \<Longrightarrow> dep_path deps [e]"
| extend: "dep_path deps p \<Longrightarrow> child deps (last p) c \<Longrightarrow> dep_path deps (p @ [c])"

definition deps_ok :: "(string \<times> schema_entry) list \<Rightarrow> (string \<times> schema_entry) list \<Rightarrow> bool" where
  "deps_ok schema deps \<longleftrightarrow> named_schema schema \<and> (\<forall>(d, c) \<in> set deps. to_View (se_opts c) \<and> c \<in> snd ` set schema) \<and>
     (\<forall>d d' c. (d, c) \<in> set deps \<longrightarrow> (d', c) \<in> set deps \<longrightarrow> d = d')"

lemma dep_path_nonempty: "dep_path deps p \<Longrightarrow> p \<noteq> []"
  by (induction rule: dep_path.induct) simp_all

lemma dep_path_distinct:
  assumes "dep_path deps p" "deps_ok schema deps" "set p \<subseteq> snd ` set schema"
  shows "distinct (map se_name p) \<and> (\<forall>c \<in> set p. to_View (se_opts c) \<longrightarrow> (\<exists>x \<in> set (butlast p). child deps x c))"
  using assms
proof (induction rule: dep_path.induct)
  case (extend p c)
  then have IH: "distinct (map se_name p)" "\<forall>c \<in> set p. to_View (se_opts c) \<longrightarrow> (\<exists>x \<in> set (butlast p). child deps x c)" by simp_all
  have p: "p = butlast p @ [last p]" using dep_path_nonempty [OF extend(1)] by simp
  have "se_name c \<noteq> se_name x" if x: "x \<in> set p" for x
  proof
    assume "se_name c = se_name x"
    moreover obtain n n' where "(n, c) \<in> set schema" "(n', x) \<in> set schema" using extend.prems(2) x by auto
    ultimately have "c = x" using extend.prems(1) named_unique unfolding deps_ok_def by blast
    moreover have "to_View (se_opts c)" using extend(2) extend.prems(1) by (auto simp: deps_ok_def child_def)
    ultimately obtain y where "y \<in> set (butlast p)" "child deps y c" using IH(2) x by blast
    moreover from this have "se_name (last p) = se_name y" using extend(2) extend.prems(1) by (auto simp: deps_ok_def child_def)
    ultimately have "se_name (last p) \<in> se_name ` set (butlast p)" by simp
    moreover have "distinct (map se_name (butlast p @ [last p]))" using IH(1) p by simp
    ultimately show False by simp
  qed
  then have "distinct (map se_name (p @ [c]))" using IH(1) by auto
  moreover have "\<exists>x \<in> set p. child deps x d" if "d \<in> set (p @ [c])" "to_View (se_opts d)" for d
    using that IH(2) extend(2) dep_path_nonempty [OF extend(1)] by (auto dest: in_set_butlastD)
  ultimately show ?case by simp
qed simp

lemma bd_adds_some: "\<forall>d \<in> set ds. \<forall>acc. bd_add n deps d acc \<noteq> None \<Longrightarrow> bd_adds n deps ds acc \<noteq> None"
  by (induction ds arbitrary: acc) (auto split: option.splits)

lemma bd_add_returns:
  assumes "dep_path deps p" "deps_ok schema deps" "set p \<subseteq> snd ` set schema" "length schema < n + length p"
  shows "bd_add n deps (last p) acc \<noteq> None"
  using assms
proof (induction n arbitrary: p acc)
  case 0
  have "distinct p" using dep_path_distinct [OF 0(1-3)] by (simp add: distinct_map)
  then have "length p \<le> card (snd ` set schema)" using 0(3) by (metis List.finite_set card_mono distinct_card finite_imageI)
  also have "\<dots> \<le> length schema" by (metis card_image_le card_length le_trans List.finite_set)
  finally show ?case using 0(4) by simp
next
  case (Suc n)
  have "bd_add n deps c acc \<noteq> None" if "child deps (last p) c" for c acc
  proof -
    have "set (p @ [c]) \<subseteq> snd ` set schema" using Suc.prems(2,3) that by (auto simp: deps_ok_def child_def)
    from Suc.IH [OF dep_path.extend [OF Suc.prems(1) that] Suc.prems(2) this] show ?thesis using Suc.prems(4) by simp
  qed
  then show ?case by (simp add: bd_adds_some dependencyOf_child)
qed

section \<open>The order\<close>

text \<open>Every view of the list has what it depends on before it.\<close>

definition ordered_deps :: "(string \<times> schema_entry) list \<Rightarrow> schema_entry list \<Rightarrow> bool" where
  "ordered_deps deps es \<longleftrightarrow> (\<forall>xs e ys. es = xs @ e # ys \<longrightarrow> to_View (se_opts e) \<longrightarrow> (\<exists>x \<in> set xs. child deps x e))"

definition supported :: "(string \<times> schema_entry) list \<Rightarrow> schema_entry list \<Rightarrow> schema_entry \<Rightarrow> bool" where
  "supported deps acc e \<longleftrightarrow> (to_View (se_opts e) \<longrightarrow> (\<exists>x \<in> set acc. child deps x e))"

lemma ordered_deps_snoc: "ordered_deps deps (acc @ [e]) \<longleftrightarrow> ordered_deps deps acc \<and> supported deps acc e"
proof
  assume o: "ordered_deps deps (acc @ [e])"
  have "ordered_deps deps acc" unfolding ordered_deps_def
  proof (intro allI impI)
    fix xs x ys assume "acc = xs @ x # ys" "to_View (se_opts x)"
    then show "\<exists>y \<in> set xs. child deps y x" using o [unfolded ordered_deps_def, rule_format, of xs x "ys @ [e]"] by simp
  qed
  then show "ordered_deps deps acc \<and> supported deps acc e" using o by (auto simp: ordered_deps_def supported_def)
qed (auto simp: ordered_deps_def supported_def append_eq_append_conv2 Cons_eq_append_conv append_eq_Cons_conv)

lemma bd_add_grows:
  "bd_add n deps e acc = Some acc' \<Longrightarrow> ordered_deps deps acc \<Longrightarrow> supported deps acc e \<Longrightarrow>
     ordered_deps deps acc' \<and> (\<exists>zs. acc' = acc @ zs \<and> e \<in> set zs \<and> (\<forall>z \<in> set zs. set (dependencyOf deps z) \<subseteq> set acc' \<and> (z = e \<or> z \<in> snd ` set deps)))"
  "bd_adds n deps ds acc = Some acc' \<Longrightarrow> ordered_deps deps acc \<Longrightarrow> \<forall>d \<in> set ds. supported deps acc d \<Longrightarrow>
     ordered_deps deps acc' \<and> (\<exists>zs. acc' = acc @ zs \<and> set ds \<subseteq> set zs \<and> (\<forall>z \<in> set zs. set (dependencyOf deps z) \<subseteq> set acc' \<and> (z \<in> set ds \<or> z \<in> snd ` set deps)))"
proof (induction n deps e acc and n deps ds acc arbitrary: acc' and acc' rule: bd_add_bd_adds.induct)
  case (2 n deps e acc)
  have "ordered_deps deps (acc @ [e])" using "2.prems" by (simp add: ordered_deps_snoc)
  moreover have "\<forall>d \<in> set (dependencyOf deps e). supported deps (acc @ [e]) d" by (simp add: dependencyOf_child supported_def)
  ultimately obtain zs where "ordered_deps deps acc'" "acc' = (acc @ [e]) @ zs" "set (dependencyOf deps e) \<subseteq> set zs"
    "\<forall>z \<in> set zs. set (dependencyOf deps z) \<subseteq> set acc' \<and> (z \<in> set (dependencyOf deps e) \<or> z \<in> snd ` set deps)"
    using "2.IH" "2.prems"(1) by auto
  moreover have "set (dependencyOf deps e) \<subseteq> snd ` set deps" by (auto simp: dependencyOf_def)
  ultimately show ?case by (auto intro!: exI [of _ "e # zs"])
next
  case (4 n deps d ds acc)
  obtain acc1 where a: "bd_add n deps d acc = Some acc1" "bd_adds n deps ds acc1 = Some acc'" using "4.prems"(1) by (auto split: option.splits)
  obtain zs where zs: "ordered_deps deps acc1" "acc1 = acc @ zs" "d \<in> set zs" "\<forall>z \<in> set zs. set (dependencyOf deps z) \<subseteq> set acc1 \<and> (z = d \<or> z \<in> snd ` set deps)"
    using "4.IH"(1) [OF a(1)] "4.prems" by auto
  have "\<forall>d \<in> set ds. supported deps acc1 d" using "4.prems"(3) zs(2) by (auto simp: supported_def)
  then obtain ws where "ordered_deps deps acc'" "acc' = acc1 @ ws" "set ds \<subseteq> set ws"
    "\<forall>z \<in> set ws. set (dependencyOf deps z) \<subseteq> set acc' \<and> (z \<in> set ds \<or> z \<in> snd ` set deps)"
    using "4.IH"(2) [OF a(1,2) zs(1)] by auto
  then show ?case using zs by (auto intro!: exI [of _ "zs @ ws"])
qed auto

lemma found_deps_ok:
  assumes n: "named_schema schema" and v: "set vs = set schema" and d: "identify_deps S schema vs [] [] = Some (Inr (tables, deps))"
  shows "set tables = {e. \<exists>n. (n, e) \<in> set schema \<and> \<not> to_View (se_opts e)}"
    and "child deps x e \<longleftrightarrow> e \<in> snd ` set schema \<and> to_View (se_opts e) \<and> TableFor S (se_SQL e) = Some (Inr (se_name x))"
    and "deps_ok schema deps"
proof -
  have f: "set tables = {e. \<exists>n. (n, e) \<in> set schema \<and> \<not> to_View (se_opts e)}"
    "set deps = {(d, e). \<exists>n. (n, e) \<in> set schema \<and> to_View (se_opts e) \<and> TableFor S (se_SQL e) = Some (Inr d)}"
    using identify_deps_found [OF d] v by simp_all
  show "set tables = {e. \<exists>n. (n, e) \<in> set schema \<and> \<not> to_View (se_opts e)}" by (rule f(1))
  show "child deps x e \<longleftrightarrow> e \<in> snd ` set schema \<and> to_View (se_opts e) \<and> TableFor S (se_SQL e) = Some (Inr (se_name x))"
    unfolding child_def f(2) by force
  show "deps_ok schema deps" unfolding deps_ok_def f(2) using n by force
qed

text \<open>The recursion over dependencies ends within as many levels as the schema has entries.\<close>

lemma schema_order_returns:
  assumes "named_schema schema" "set (visit schema) = set schema" "\<forall>(n, e) \<in> set schema. to_View (se_opts e) \<longrightarrow> TableFor S (se_SQL e) \<noteq> None"
  shows "schema_order S visit schema \<noteq> None"
proof -
  have "\<forall>(n, e) \<in> set es. to_View (se_opts e) \<longrightarrow> TableFor S (se_SQL e) \<noteq> None \<Longrightarrow> identify_deps S schema es ts ds \<noteq> None" for es ts ds
    by (induction S schema es ts ds rule: identify_deps.induct) (auto split: option.splits sum.splits)
  then have i: "identify_deps S schema (visit schema) [] [] \<noteq> None" using assms(2,3) by auto
  have "bd_adds (Suc (length schema)) deps tables [] \<noteq> None" if d: "identify_deps S schema (visit schema) [] [] = Some (Inr (tables, deps))" for tables deps
  proof (rule bd_adds_some, intro ballI allI)
    fix e acc assume "e \<in> set tables"
    then have "dep_path deps [e]" "set [e] \<subseteq> snd ` set schema" using found_deps_ok(1) [OF assms(1,2) d] by (force intro: dep_path.start)+
    from bd_add_returns [OF this(1) found_deps_ok(3) [OF assms(1,2) d] this(2), of "Suc (length schema)" acc]
    show "bd_add (Suc (length schema)) deps e acc \<noteq> None" by simp
  qed
  then show ?thesis using i by (auto simp: schema_order_def rbind_def split: option.splits sum.splits)
qed

lemma schema_order_rooted:
  assumes n: "named_schema schema" and v: "set (visit schema) = set schema" and s: "schema_order S visit schema = Some (Inr es)"
  shows "set es = {e. rooted S schema e}"
    "es = xs @ e # ys \<Longrightarrow> to_View (se_opts e) \<Longrightarrow> \<exists>x \<in> set xs. TableFor S (se_SQL e) = Some (Inr (se_name x))"
proof -
  obtain tables deps where d: "identify_deps S schema (visit schema) [] [] = Some (Inr (tables, deps))" and b: "bd_adds (Suc (length schema)) deps tables [] = Some es"
    using s by (auto simp: schema_order_def rbind_def split: option.splits sum.splits)
  note f = found_deps_ok [OF n v d]
  have g: "ordered_deps deps es" "set tables \<subseteq> set es" "\<forall>z \<in> set es. set (dependencyOf deps z) \<subseteq> set es \<and> (z \<in> set tables \<or> z \<in> snd ` set deps)"
    using bd_add_grows(2) [OF b] f(1) by (auto simp: ordered_deps_def supported_def)
  show o: "\<exists>x \<in> set xs. TableFor S (se_SQL e) = Some (Inr (se_name x))" if "es = xs @ e # ys" "to_View (se_opts e)" for xs e ys
    using g(1) that f(2) unfolding ordered_deps_def by blast
  have "e \<in> set es" if "rooted S schema e" for e
    using that
  proof (induction rule: rooted.induct)
    case (base name e)
    then show ?case using g(2) f(1) by blast
  next
    case (view name e d e')
    have "se_name e' = d" using n view(4) by (auto simp: named_schema_def)
    then have "child deps e' e" unfolding f(2) using view(1-3) by force
    then show ?case using g(3) view(6) dependencyOf_child by blast
  qed
  moreover have "rooted S schema (es ! i)" if "i < length es" for i
    using that
  proof (induction i rule: less_induct)
    case (less i)
    have "es ! i \<in> set tables \<or> es ! i \<in> snd ` set deps" using g(3) less.prems by simp
    then obtain name where m: "(name, es ! i) \<in> set schema" using f(1,3) by (auto simp: deps_ok_def)
    show ?case
    proof (cases "to_View (se_opts (es ! i))")
      case True
      obtain x where x: "x \<in> set (take i es)" "TableFor S (se_SQL (es ! i)) = Some (Inr (se_name x))"
        using o [OF id_take_nth_drop [OF less.prems] True] by blast
      then obtain j where j: "j < i" "j < length es" "x = es ! j" by (auto simp: in_set_conv_nth)
      have "es ! j \<in> set tables \<or> es ! j \<in> snd ` set deps" using g(3) j(2) by simp
      then obtain m' where "(m', x) \<in> set schema" using f(1,3) j(3) by (auto simp: deps_ok_def)
      then have "(se_name x, x) \<in> set schema" using n by (auto simp: named_schema_def)
      then show ?thesis using rooted.view [OF m True x(2)] less.IH [OF j(1,2)] j(3) by blast
    qed (rule rooted.base [OF m])
  qed
  ultimately show "set es = {e. rooted S schema e}" by (auto simp: set_conv_nth)
qed

section \<open>After the application\<close>

lemma getTable_replace: "getTable (db_tables (replace_table name t db)) n \<noteq> None \<longleftrightarrow> getTable (db_tables db) n \<noteq> None"
  by (simp add: getTable_def replace_table_def map_of_eq_None_iff image_image split: prod.split) (force simp: image_iff split: if_splits)

lemma apply_entry_registers:
  assumes "apply_entry n X S reg E conj2 now files e db = Some (db', err)"
  shows "(getTable (db_tables db) m \<noteq> None \<longrightarrow> getTable (db_tables db') m \<noteq> None) \<and> (err = None \<longrightarrow> getTable (db_tables db') (se_name e) \<noteq> None)"
proof (cases "getTable (db_tables db) (se_name e)")
  case None
  obtain y where y: "Parse n X S reg (se_SQL e) = Some y" using assms None by (cases "Parse n X S reg (se_SQL e)") (simp_all add: apply_entry_def)
  have "err \<noteq> None \<and> db' = db \<or> (\<exists>q r. CreateTable X E conj2 now (files (se_name e)) (se_opts e) q db = Some (db', r) \<and>
      err = (case r of Inl err \<Rightarrow> Some (OtherError (''Error creating table '' @ se_name e)) | Inr _ \<Rightarrow> None))"
    using assms None y by (cases y) (auto simp: apply_entry_def bind_eq_Some_conv)
  then show ?thesis
  proof (elim disjE exE conjE)
    fix q r assume "CreateTable X E conj2 now (files (se_name e)) (se_opts e) q db = Some (db', r)" "err = (case r of Inl err \<Rightarrow> Some (OtherError (''Error creating table '' @ se_name e)) | Inr _ \<Rightarrow> None)"
    with CreateTable_cases [OF this(1)] show ?thesis by (auto simp: getTable_def se_name_def map_add_def split: option.splits)
  qed auto
next
  case (Some t)
  then have "db' = db \<or> (\<exists>t'. db' = replace_table (ToLower (se_name e)) t' db)"
    using assms by (auto simp: apply_entry_def bind_eq_Some_conv split: option.splits sum.splits)
  then show ?thesis using Some getTable_replace by (metis option.distinct(1))
qed

lemma apply_entries_register:
  "apply_entries n X S reg E conj2 now files es db = Some (db', err) \<Longrightarrow>
     (getTable (db_tables db) m \<noteq> None \<longrightarrow> getTable (db_tables db') m \<noteq> None) \<and> (err = None \<longrightarrow> (\<forall>e \<in> set es. getTable (db_tables db') (se_name e) \<noteq> None))"
proof (induction es arbitrary: db m)
  case (Cons e es)
  obtain db1 err1 where a: "apply_entry n X S reg E conj2 now files e db = Some (db1, err1)"
    "if err1 \<noteq> None then db' = db1 \<and> err = err1 else apply_entries n X S reg E conj2 now files es db1 = Some (db', err)"
    using Cons.prems by (auto simp: bind_eq_Some_conv split: if_splits)
  show ?case
  proof (cases err1)
    case None
    then show ?thesis using a(2) Cons.IH [of db1] apply_entry_registers [OF a(1)] by auto
  next
    case (Some x)
    then show ?thesis using a(2) apply_entry_registers [OF a(1), of m] by auto
  qed
qed simp

text \<open>
  C30. A schema that is applied without an error leaves every table registered, and every view whose dependencies end in a table; each
  view is created after the table or view that it selects from, and no table of the database is lost.
\<close>

theorem schema_applied:
  assumes "\<And>xs. set (visit xs) = set xs" "ApplySchema n X S reg E conj2 now files visit schema0 db = Some (db', None)"
  shows "\<exists>es. schema_order S visit (lower_schema schema0) = Some (Inr es) \<and> set es = {e. rooted S (lower_schema schema0) e} \<and>
    (\<forall>xs e ys. es = xs @ e # ys \<longrightarrow> to_View (se_opts e) \<longrightarrow> (\<exists>x \<in> set xs. TableFor S (se_SQL e) = Some (Inr (se_name x)))) \<and>
    (\<forall>e \<in> set es. getTable (db_tables db') (se_name e) \<noteq> None) \<and> (\<forall>m. getTable (db_tables db) m \<noteq> None \<longrightarrow> getTable (db_tables db') m \<noteq> None)"
proof -
  obtain es where es: "schema_order S visit (lower_schema schema0) = Some (Inr es)" "apply_entries n X S reg E conj2 now files es db = Some (db', None)"
    using assms(2) by (auto simp: ApplySchema_def split: option.splits sum.splits)
  show ?thesis
    using es schema_order_rooted [OF lower_schema_named assms(1) es(1)] apply_entries_register [OF es(2)] by auto
qed

declare parse_loop.simps [code]

text \<open>A table and a view on it, visited with the view first.\<close>

definition sample_schema_sql :: "bool sql_ext" where
  "sample_schema_sql = \<lparr> s_parse = (\<lambda>sql. Inr (Some (Select [] [StarExpr] [AliasedTableExpr (TableName sql) []] None None [] None [] None))),
     nodeToString = (\<lambda>n. case n of NTable (AliasedTableExpr (TableName t) _) \<Rightarrow> t | _ \<Rightarrow> []),
     s_Sprintf = (\<lambda>f _. f), s_floatValue = (\<lambda>_. 0), s_parseTime = (\<lambda>_. None), gx_Constant = (\<lambda>_. True), gx_Param = (\<lambda>_. True),
     gx_Binary = (\<lambda>_ l r. Inr (l \<and> r)), gx_Not = Not, gx_In = (\<lambda>c _. c), gx_P = (\<lambda>c. c), gx_fn = (\<lambda>_ _. True), gx_arrayItems = (\<lambda>_. None),
     gx_Lua = (\<lambda>c _ _. c) \<rparr>"

definition sample_schema :: "(string \<times> schema_entry) list" where
  "sample_schema = [(''V'', \<lparr> se_opts = sample_topts\<lparr>to_View := True\<rparr>, se_SQL = ''B'' \<rparr>), (''B'', \<lparr> se_opts = sample_topts, se_SQL = ''stream'' \<rparr>)]"

abbreviation "sample_applied \<equiv> ApplySchema 2 sample_ext sample_schema_sql registry0 sample_store (\<lambda>v w. Inr (v \<and> w)) 5000 (\<lambda>_. []) (\<lambda>es. es)
  sample_schema (sample_db\<lparr>db_ReadOnly := True\<rparr>)"

theorem schema_applied_witness:
  "\<exists>db' es. sample_applied = Some (db', None) \<and> schema_order sample_schema_sql (\<lambda>es. es) (lower_schema sample_schema) = Some (Inr es) \<and>
    map se_name es = [''b'', ''v''] \<and> set es = {e. rooted sample_schema_sql (lower_schema sample_schema) e} \<and> (\<forall>e \<in> set es. getTable (db_tables db') (se_name e) \<noteq> None)"
proof -
  have "map_option snd sample_applied = Some None" by code_simp
  then obtain db' where a: "sample_applied = Some (db', None)" by (cases sample_applied) auto
  have o: "map_option (map_sum id (map se_name)) (schema_order sample_schema_sql (\<lambda>es. es) (lower_schema sample_schema)) = Some (Inr [''b'', ''v''])" by code_simp
  from schema_applied [OF refl a] show ?thesis using a o by auto
qed

end
