(* ===== verification/Database.thy ===== *)
theory Database
  imports Sql "HOL-Library.Multiset"
begin

text \<open>
  The database as a whole (zenodb.go): its options, the aliases of expressions, the limit on memory and waiting for backups.  The clock,
  the memory of the process and the flushing of tables are arguments.
\<close>

section \<open>Options\<close>

text \<open>The options, without the handles and callbacks (\<open>ISPProvider\<close>, \<open>RedisClient\<close>, \<open>Follow\<close>, \<open>RegisterRemoteQueryHandler\<close>, \<open>Panic\<close>).  A nil whitelist is \<open>None\<close>.\<close>

record db_opts =
  do_ReadOnly :: bool
  do_Dir :: string
  do_SchemaFile :: string
  do_AliasesFile :: string
  do_EnableGeo :: bool
  do_IPCacheSize :: int
  do_RedisCacheSize :: int
  do_VirtualTime :: bool
  do_WALSyncInterval :: duration
  do_MaxWALMemoryBacklog :: int
  do_MaxWALSize :: int
  do_WALCompressionSize :: int
  do_MaxMemoryRatio :: float64
  do_IterationCoalesceInterval :: duration
  do_IterationConcurrency :: int
  do_MaxBackupWait :: duration
  do_Passthrough :: bool
  do_ID :: int
  do_NumPartitions :: int
  do_Partition :: int
  do_ClusterQueryConcurrency :: int
  do_ClusterQueryTimeout :: duration
  do_MaxFollowAge :: duration
  do_MaxFollowQueue :: int
  do_WhitelistedDimensions :: "(string \<rightharpoonup> bool) option"

definition defaultMaxBackupWait :: duration where "defaultMaxBackupWait = 3600000000000"
definition DefaultIterationCoalesceInterval :: duration where "DefaultIterationCoalesceInterval = 3000000000"
definition DefaultIterationConcurrency :: int where "DefaultIterationConcurrency = 2"
definition DefaultClusterQueryTimeout :: duration where "DefaultClusterQueryTimeout = 3600000000000"
definition DefaultMaxFollowQueue :: int where "DefaultMaxFollowQueue = 100000"

definition default_to :: "int \<Rightarrow> int \<Rightarrow> int" where "default_to d x = (if x \<le> 0 then d else x)"

text \<open>The options that \<open>NewDB\<close> fills in.\<close>

definition newDB_opts :: "db_opts \<Rightarrow> db_opts" where
  "newDB_opts opts =
     (let walSize = default_to (10 * 1024768) (do_MaxWALSize opts) in
      opts\<lparr>do_IterationConcurrency := default_to DefaultIterationConcurrency (do_IterationConcurrency opts),
        do_MaxFollowQueue := default_to DefaultMaxFollowQueue (do_MaxFollowQueue opts),
        do_MaxWALSize := walSize,
        do_WALCompressionSize := default_to (tdiv walSize 10) (do_WALCompressionSize opts),
        do_IterationCoalesceInterval := default_to DefaultIterationCoalesceInterval (do_IterationCoalesceInterval opts),
        do_MaxBackupWait := default_to defaultMaxBackupWait (do_MaxBackupWait opts),
        do_ClusterQueryTimeout := default_to DefaultClusterQueryTimeout (do_ClusterQueryTimeout opts),
        do_ReadOnly := (do_Dir opts = [])\<rparr>)"

text \<open>\<open>registerAliases\<close>, with the properties of the file, or nothing if it cannot be read.\<close>

definition registerAliases :: "(string \<times> string) list option \<Rightarrow> registry \<Rightarrow> registry" where
  "registerAliases props reg =
     (case props of None \<Rightarrow> reg
      | Some ps \<Rightarrow> foldl (\<lambda>reg (al, template). RegisterAlias (TrimSpace al) (TrimSpace template) reg) reg ps)"

section \<open>Memory\<close>

text \<open>What the process does to the world: collecting garbage, flushing a table, reading sizes.  \<open>mx_alloc\<close> is \<open>None\<close> if there are no statistics.\<close>

record 'w mem_ext =
  mx_alloc :: "'w \<Rightarrow> int option"
  mx_FreeOSMemory :: "'w \<Rightarrow> 'w"
  mx_forceFlush :: "string \<Rightarrow> 'w \<Rightarrow> 'w"
  mx_memStoreSize :: "string \<Rightarrow> 'w \<Rightarrow> int"
  mx_sort :: "(string \<times> int) list \<Rightarrow> (string \<times> int) list"

record 'w memstate =
  ms_memory :: int
  ms_world :: 'w

definition updateMemStats :: "'w mem_ext \<Rightarrow> 'w memstate \<Rightarrow> 'w memstate" where
  "updateMemStats M s = (case mx_alloc M (ms_world s) of None \<Rightarrow> s | Some a \<Rightarrow> s\<lparr>ms_memory := a\<rparr>)"

text \<open>Products of at least \<open>2 ^ 63\<close> are outside of the model.\<close>

definition maxMemoryBytes :: "float64 \<Rightarrow> db_opts \<Rightarrow> int" where
  "maxMemoryBytes systemRAM opts = int64_of_float (fmul systemRAM (do_MaxMemoryRatio opts))"

text \<open>The tables are their names and whether they are virtual.  The list in the result has the tables that are flushed.\<close>

definition capMemorySize ::
  "'w mem_ext \<Rightarrow> float64 \<Rightarrow> db_opts \<Rightarrow> (string \<times> bool) list \<Rightarrow> bool \<Rightarrow> 'w memstate \<Rightarrow> ('w memstate \<times> string list \<times> bool) go" where
  "capMemorySize M systemRAM opts tables allowFlush s =
     (if fle (do_MaxMemoryRatio opts) fzero then Some (s, [], True)
      else let allowed = maxMemoryBytes systemRAM opts;
               s = (if allowed < ms_memory s then updateMemStats M (s\<lparr>ms_world := mx_FreeOSMemory M (ms_world s)\<rparr>) else s)
           in if \<not> do_Passthrough opts \<and> allowFlush \<and> allowed < ms_memory s
              then (let sizes = map (\<lambda>(name, _). (name, mx_memStoreSize M name (ms_world s))) (filter (\<lambda>(_, virtual). \<not> virtual) tables) in
                    case mx_sort M sizes of
                      [] \<Rightarrow> None
                    | (name, _) # _ \<Rightarrow>
                        let s = updateMemStats M (s\<lparr>ms_world := mx_forceFlush M name (ms_world s)\<rparr>)
                        in Some (s, [name], ms_memory s \<le> allowed))
              else Some (s, [], ms_memory s \<le> allowed))"

section \<open>Backups\<close>

datatype lock_stat = LockMissing | LockError | LockTime gotime

text \<open>One turn of the loop: the state of the lock file and the time then, whether the database stops during the pause, and the time after it.\<close>

record wait_turn =
  wt_stat :: lock_stat
  wt_now :: gotime
  wt_stop :: bool
  wt_after :: gotime

text \<open>The turns that are left when the wait is over; \<open>None\<close> while it goes on.\<close>

fun waitForBackupToFinish :: "duration \<Rightarrow> gotime \<Rightarrow> wait_turn list \<Rightarrow> wait_turn list option" where
  "waitForBackupToFinish maxBackupWait start [] = None"
| "waitForBackupToFinish maxBackupWait start (t # ts) =
     (case wt_stat t of
        LockMissing \<Rightarrow> Some ts
      | LockError \<Rightarrow> Some ts
      | LockTime modTime \<Rightarrow>
          if maxBackupWait < sat64 (wt_now t - modTime) then Some ts
          else if wt_stop t then Some ts
          else if maxBackupWait < sat64 (wt_after t - start) then Some ts
          else waitForBackupToFinish maxBackupWait start ts)"

section \<open>What they promise\<close>

definition largest_first :: "'w mem_ext \<Rightarrow> bool" where
  "largest_first M \<longleftrightarrow> (\<forall>xs. mset (mx_sort M xs) = mset xs \<and> sorted_wrt (\<lambda>x y. snd y \<le> snd x) (mx_sort M xs))"

text \<open>
  Capping the memory reports exactly whether the memory is within the limit afterwards, if there is one, and flushes at most one
  table: one that is not virtual and has the largest memory store, and only if the memory is above the limit after collecting
  garbage and flushing is allowed.
\<close>

theorem cap_memory_flushes_largest:
  assumes "largest_first M" "capMemorySize M systemRAM opts tables allowFlush s = Some (s', flushed, ok)"
  shows "(ok \<longleftrightarrow> fle (do_MaxMemoryRatio opts) fzero \<or> ms_memory s' \<le> maxMemoryBytes systemRAM opts) \<and>
    (flushed = [] \<or> (\<exists>w name. flushed = [name] \<and> (name, False) \<in> set tables \<and> w = mx_FreeOSMemory M (ms_world s) \<and> allowFlush \<and> \<not> do_Passthrough opts \<and>
       ms_world s' = mx_forceFlush M name w \<and> (\<forall>(other, virtual) \<in> set tables. \<not> virtual \<longrightarrow> mx_memStoreSize M other w \<le> mx_memStoreSize M name w)))"
proof (cases "fle (do_MaxMemoryRatio opts) fzero")
  case True
  then show ?thesis using assms(2) by (simp add: capMemorySize_def)
next
  case False
  define allowed where "allowed = maxMemoryBytes systemRAM opts"
  define s1 where "s1 = (if allowed < ms_memory s then updateMemStats M (s\<lparr>ms_world := mx_FreeOSMemory M (ms_world s)\<rparr>) else s)"
  define sizes where "sizes = map (\<lambda>(name, _). (name, mx_memStoreSize M name (ms_world s1))) (filter (\<lambda>(_, virtual). \<not> virtual) tables)"
  note eq = capMemorySize_def [of M systemRAM opts tables allowFlush s, unfolded Let_def if_not_P [OF False], folded allowed_def, folded s1_def, folded sizes_def]
  show ?thesis
  proof (cases "\<not> do_Passthrough opts \<and> allowFlush \<and> allowed < ms_memory s1")
    case c: True
    have w: "ms_world s1 = mx_FreeOSMemory M (ms_world s)" using c by (auto simp: s1_def updateMemStats_def split: if_splits option.splits)
    obtain name size rest where srt: "mx_sort M sizes = (name, size) # rest" using assms(2) unfolding eq if_P [OF c] by (auto split: list.splits)
    then have r: "s' = updateMemStats M (s1\<lparr>ms_world := mx_forceFlush M name (ms_world s1)\<rparr>)" "flushed = [name]" "ok \<longleftrightarrow> ms_memory s' \<le> allowed"
      using assms(2) unfolding eq if_P [OF c] by auto
    have "set ((name, size) # rest) = set sizes" "sorted_wrt (\<lambda>x y. snd y \<le> snd x) ((name, size) # rest)"
      using assms(1) srt unfolding largest_first_def by (metis mset_eq_setD)+
    then have "(name, size) \<in> set sizes" "\<forall>x \<in> set sizes. snd x \<le> size" by (metis list.set_intros(1), metis order_refl set_ConsD snd_conv sorted_wrt.simps(2))
    then have t: "(name, False) \<in> set tables" "size = mx_memStoreSize M name (ms_world s1)" and
      m: "(other, False) \<in> set tables \<Longrightarrow> mx_memStoreSize M other (ms_world s1) \<le> size" for other by (force simp: sizes_def)+
    have "ms_world s' = mx_forceFlush M name (ms_world s1)" unfolding r(1) by (simp add: updateMemStats_def split: option.splits)
    moreover have "\<forall>(other, virtual) \<in> set tables. \<not> virtual \<longrightarrow> mx_memStoreSize M other (ms_world s1) \<le> mx_memStoreSize M name (ms_world s1)"
      using m t(2) by auto
    ultimately show ?thesis using False c r(2,3) t(1) unfolding w allowed_def by blast
  next
    case c: False
    then show ?thesis using assms(2) False unfolding eq if_not_P [OF c] allowed_def by auto
  qed
qed

text \<open>
  The wait for a backup ends: if every turn takes at least five seconds, it is over after more turns than the longest wait has such
  pauses, whatever happens to the lock file.
\<close>

theorem backup_wait_ends:
  assumes "0 \<le> maxBackupWait" "maxBackupWait < 2 ^ 63 - 1" "\<forall>i < length turns. start + 5000000000 * int (Suc i) \<le> wt_after (turns ! i)"
    and "maxBackupWait < 5000000000 * int (length turns)"
  shows "waitForBackupToFinish maxBackupWait start turns \<noteq> None"
proof -
  have late: "maxBackupWait < sat64 d" if "maxBackupWait < d" for d
    using that assms(1,2) by (auto simp: sat64_def)
  have "turns \<noteq> []" using assms(1,4) by auto
  then have "maxBackupWait < wt_after (last turns) - start"
    using assms(3) [rule_format, of "length turns - 1"] assms(4) by (simp add: last_conv_nth)
  then have "\<exists>t \<in> set turns. maxBackupWait < sat64 (wt_after t - start)" using \<open>turns \<noteq> []\<close> late last_in_set by blast
  then show ?thesis by (induction turns) (auto split: lock_stat.splits)
qed

definition sample_mem :: "int mem_ext" where
  "sample_mem = \<lparr> mx_alloc = Some, mx_FreeOSMemory = (\<lambda>w. w - 1), mx_forceFlush = (\<lambda>name w. w - int (length name)), mx_memStoreSize = (\<lambda>name w. int (length name)),
     mx_sort = (\<lambda>xs. rev (sort_key snd xs)) \<rparr>"

definition sample_db_opts :: db_opts where
  "sample_db_opts = \<lparr> do_ReadOnly = False, do_Dir = ''d'', do_SchemaFile = [], do_AliasesFile = [], do_EnableGeo = False, do_IPCacheSize = 0,
     do_RedisCacheSize = 0, do_VirtualTime = False, do_WALSyncInterval = 0, do_MaxWALMemoryBacklog = 0, do_MaxWALSize = 0, do_WALCompressionSize = 0,
     do_MaxMemoryRatio = float_of_int 1, do_IterationCoalesceInterval = 0, do_IterationConcurrency = 0, do_MaxBackupWait = 0, do_Passthrough = False,
     do_ID = 0, do_NumPartitions = 0, do_Partition = 0, do_ClusterQueryConcurrency = 0, do_ClusterQueryTimeout = 0, do_MaxFollowAge = 0,
     do_MaxFollowQueue = 0, do_WhitelistedDimensions = None \<rparr>"

lemma sample_mem_sorts: "largest_first sample_mem"
proof -
  have "sorted_wrt (\<lambda>x y. snd x \<le> snd y) (sort_key snd xs)" for xs :: "(string \<times> int) list" using sorted_sort_key [of snd xs] by (simp add: sorted_map)
  then show ?thesis by (simp add: largest_first_def sample_mem_def sorted_wrt_rev)
qed

theorem cap_memory_flushes_largest_witness:
  "\<exists>s'. capMemorySize sample_mem (float_of_int 8) sample_db_opts [(''ab'', False), (''abc'', False), (''abcd'', True)] True \<lparr> ms_memory = 12, ms_world = 12 \<rparr> =
     Some (s', [''abc''], True) \<and> ms_memory s' \<le> maxMemoryBytes (float_of_int 8) sample_db_opts"
proof -
  have "map_option (\<lambda>(s', flushed, ok). (ms_memory s', flushed, ok))
      (capMemorySize sample_mem (float_of_int 8) sample_db_opts [(''ab'', False), (''abc'', False), (''abcd'', True)] True \<lparr> ms_memory = 12, ms_world = 12 \<rparr>) =
    Some (8, [''abc''], True)" by code_simp
  then obtain s' where "capMemorySize sample_mem (float_of_int 8) sample_db_opts [(''ab'', False), (''abc'', False), (''abcd'', True)] True \<lparr> ms_memory = 12, ms_world = 12 \<rparr> =
     Some (s', [''abc''], True)" by auto
  moreover have "\<not> fle (do_MaxMemoryRatio sample_db_opts) fzero" by code_simp
  ultimately show ?thesis using cap_memory_flushes_largest [OF sample_mem_sorts] by blast
qed

theorem backup_wait_ends_witness:
  "waitForBackupToFinish 12000000000 0 (map (\<lambda>i. \<lparr> wt_stat = LockTime 0, wt_now = 0, wt_stop = False, wt_after = 5000000000 * i \<rparr>) [1, 2, 3]) \<noteq> None"
  by (rule backup_wait_ends) (auto simp: less_Suc_eq numeral_eq_Suc)

end
