(* ===== verification/Merge.thy ===== *)
theory Merge
  imports RowStoreProps TableProps Sql
begin

text \<open>
  The operations of merge.go on data files, as far as they do something: checking files and tables, and the condition of a merge.
  \<open>filterAndMerge\<close> itself does nothing, because its body is commented out.
\<close>

definition FilterAndMerge :: "(string \<times> 'c table_def) list \<Rightarrow> string \<Rightarrow> error option" where
  "FilterAndMerge tables name = (if getTable tables name = None then Some (OtherError ''Table not found'') else None)"

text \<open>\<open>whereFor\<close>; an empty condition is no condition.\<close>

definition whereFor :: "nat \<Rightarrow> ('c, 'h) ext \<Rightarrow> 'c sql_ext \<Rightarrow> registry \<Rightarrow> string \<Rightarrow> 'c option planned" where
  "whereFor n X S reg whereClause =
     (if whereClause = [] then Some (Inr None)
      else case Parse n X S reg (''SELECT * FROM thetable WHERE '' @ whereClause) of
        None \<Rightarrow> None
      | Some (Inl e) \<Rightarrow> Some (Inl (OtherError ''Unable to process where clause''))
      | Some (Inr q) \<Rightarrow> Some (Inr (q_Where q)))"

text \<open>One file of \<open>Check\<close>: its header is read without knowing fields, and then the rest of it.\<close>

definition check_file :: "('c, 'h) ext \<Rightarrow> store_ext \<Rightarrow> string \<Rightarrow> filestate \<Rightarrow> error option go" where
  "check_file X E name file =
     (case file of
        File data \<Rightarrow>
          do { fileVersion \<leftarrow> versionFor name;
               r \<leftarrow> info X (sx_wal E) fileVersion ([] :: 'c fields) (sx_unsnappy E data);
               Some (case r of
                       Inl e \<Rightarrow> Some e
                     | Inr (_, _, _, rest, clean) \<Rightarrow> if clean then None else Some (OtherError ''after bytes read'')) }
      | _ \<Rightarrow> Some (Some (OtherError ''Unable to open filestore'')))"

fun Check :: "('c, 'h) ext \<Rightarrow> store_ext \<Rightarrow> (string \<times> filestate) list \<Rightarrow> (string \<rightharpoonup> error) \<Rightarrow> (string \<rightharpoonup> error) go" where
  "Check X E [] errs = Some errs"
| "Check X E ((name, file) # inFiles) errs =
     do { e \<leftarrow> check_file X E name file;
          Check X E inFiles (case e of None \<Rightarrow> errs | Some err \<Rightarrow> errs(name \<mapsto> err)) }"

text \<open>\<open>CheckTable\<close>: the number of rows that are read, and the error.\<close>

definition count_row :: "int onfilerow" where "count_row key columns raw n = Some (n + 1, True, None)"

definition CheckTable ::
  "('c, 'h) ext \<Rightarrow> store_ext \<Rightarrow> duration \<Rightarrow> gotime \<Rightarrow> int \<Rightarrow> (string \<times> 'c table_def) list \<Rightarrow> string \<Rightarrow> string \<Rightarrow> filestate \<Rightarrow> bytes option
   \<Rightarrow> (int \<times> error option) go" where
  "CheckTable X E res tb ctx tables name filename file offsetFile =
     (case getTable tables name of
        None \<Rightarrow> Some (0, Some (OtherError ''Table not found''))
      | Some t \<Rightarrow>
          do { (numRows, _, _, err) \<leftarrow> fs_iterate X E res tb ctx (td_fields t) filename file offsetFile (td_fields t) None False count_row 0;
               Some (numRows, map_option (\<lambda>_. OtherError ''Encountered error after reading rows'') err) })"

section \<open>Files that a flush has written are found in order\<close>

lemma mem_columns_all: "mem_columns m i [] cols inc = Some (cols, inc)"
  by (cases "(m, i, cols, inc)") (simp add: mem_columns.simps)

lemma file_fold_count:
  "file_fold m False ctx (\<lambda>_ _ _ n. Some (n + 1)) rows None n = Some (n + int (length rows), None)"
  by (induction rows arbitrary: n) (simp_all add: mem_lookup_def mem_columns_all)

lemma count_row_go_on: "count_row = go_on (\<lambda>_ _ _ n. Some (n + 1))"
  by (intro ext) (simp add: count_row_def go_on_def)

lemma info_unknown_fields:
  "info X wx v fs r = Some (Inr (offs, str, fo, rest)) \<Longrightarrow> \<exists>fo'. info X wx v [] r = Some (Inr (offs, str, fo', rest))"
  by (auto simp: info_def Let_def bind_eq_Some_conv split: sum.splits prod.splits)

text \<open>
  A file that a flush has written for the fields of a table passes both checks, and checking the table reads each of its rows.
\<close>

theorem written_file_checks:
  assumes "store_laws E" "getTable tables name = Some t" "fields_ok X (td_fields t)"
    and "stored X E (td_fields t) filename file offsetFile rows" "file \<noteq> NotExist"
  shows "CheckTable X E res tb ctx tables name filename file offsetFile = Some (int (length rows), None) \<and>
    check_file X E filename file = Some None"
proof
  let ?fs = "td_fields t"
  have fs: "?fs \<noteq> []" using assms(3) by (auto simp: fields_ok_def)
  obtain offs where "iterate_file X E ?fs filename file offsetFile ?fs (\<lambda>_ _ _. None) False ctx count_row None 0 =
      map_option (\<lambda>(s, tree). (s, tree, offs, None)) (file_fold (\<lambda>_ _ _. None) False ctx (\<lambda>_ _ _ n. Some (n + 1)) rows None (0 :: int))"
    using iterate_file_stored [OF assms(1,3,4), where m = "\<lambda>_ _ _. None" and raw = False and ctx = ctx and f = "\<lambda>_ _ _ n. Some (n + 1)"
        and tree = None and s = "0 :: int"] unfolding count_row_go_on by blast
  then show "CheckTable X E res tb ctx tables name filename file offsetFile = Some (int (length rows), None)"
    by (simp add: CheckTable_def assms(2) fs_iterate_def Let_def fs file_fold_count)
  obtain offs where f: "file = File (sx_snappy E (headerOf X (sx_wal E) ?fs offs @ concat (map row_bytes rows)))"
    "versionFor filename = Some CurrentFileVersion" "offsets_ok (sx_wal E) offs" "header_fits X (sx_wal E) ?fs offs"
    using assms(4,5) by (auto simp: stored_def)
  obtain str where "info X (sx_wal E) CurrentFileVersion ?fs (headerOf X (sx_wal E) ?fs offs @ concat (map row_bytes rows), True) =
      Some (Inr (offs, str, map Some ?fs, (concat (map row_bytes rows), True)))" using info_header [OF f(3) assms(3) f(4)] by blast
  from info_unknown_fields [OF this] show "check_file X E filename file = Some None"
    using assms(1) f(2) by (auto simp: check_file_def f(1) store_laws_def)
qed

definition sample_checked :: "bool table_def" where
  "sample_checked = \<lparr> td_opts = sample_topts, td_query = sample_tq 100, td_fields = sample_fields \<rparr>"

theorem written_file_checks_witness:
  "CheckTable sample_ext sample_store 1000 0 0 [(''t'', sample_checked)] ''T'' (fileStoreName 1)
     (File (headerOf sample_ext sample_wal sample_fields [] @ row_bytes ([2], [sample_seq]))) None = Some (1, None)"
proof -
  have f: "fields_ok sample_ext sample_fields" "header_fits sample_ext sample_wal sample_fields []"
    "list_all (row_fits (length sample_fields)) [([2], [sample_seq])]" by code_simp+
  have g: "getTable [(''t'', sample_checked)] ''T'' = Some sample_checked"
  proof -
    have "ToLower ''T'' = ''t''" by code_simp
    then show ?thesis by (simp add: getTable_def)
  qed
  have s: "stored sample_ext sample_store (td_fields sample_checked) (fileStoreName 1)
      (File (headerOf sample_ext sample_wal sample_fields [] @ row_bytes ([2], [sample_seq]))) None [([2], [sample_seq])]"
    using f by (auto simp: stored_def sample_checked_def offsets_ok_def sample_store_def versionFor_fileStoreName)
  have "fields_ok sample_ext (td_fields sample_checked)" using f(1) by (simp add: sample_checked_def)
  from written_file_checks [OF sample_store_laws g this s] show ?thesis by simp
qed

end
