(* ===== verification/Rpc.thy ===== *)
theory Rpc
  imports InsertProps CoreProps
begin

text \<open>
  The messages between nodes and clients (rpc/rpc.go, rpc/rpc_client.go, rpc/server/rpc_server.go) and following a source over
  connections that break (server/server.go).  A stream delivers the messages that were sent in order and then the outcome of the
  handler that sent them; encoding and transport belong to grpc and msgpack.
\<close>

section \<open>Access\<close>

definition authorize :: "string \<Rightarrow> string list option \<Rightarrow> error option" where
  "authorize password passwords =
     (if password = [] then None
      else case passwords of
        None \<Rightarrow> Some (OtherError ''No metadata provided, unable to authenticate'')
      | Some ps \<Rightarrow> if list_ex (\<lambda>p. p = password) ps then None else Some (OtherError ''None of the provided passwords matched, not authorized!''))"

section \<open>Inserts\<close>

record InsertMsg =
  in_Stream :: string
  in_TS :: int
  in_Dims :: bytes
  in_Vals :: bytes
  in_EndOfInserts :: bool

record InsertReport =
  ir_Received :: int
  ir_Succeeded :: int
  ir_Errors :: "(int \<times> string) list"

text \<open>The client: the name of the stream goes with the first point only.\<close>

fun send_points :: "string \<Rightarrow> (gotime \<times> bytes \<times> bytes) list \<Rightarrow> InsertMsg list" where
  "send_points streamName [] = []"
| "send_points streamName ((ts, dims, vals) # ps) =
     \<lparr> in_Stream = streamName, in_TS = UnixNano ts, in_Dims = dims, in_Vals = vals, in_EndOfInserts = False \<rparr> # send_points [] ps"

definition end_of_inserts :: InsertMsg where
  "end_of_inserts = \<lparr> in_Stream = [], in_TS = 0, in_Dims = [], in_Vals = [], in_EndOfInserts = True \<rparr>"

text \<open>
  The server.  The result has the report or the error, and the entries that are appended to the logs of streams.  The texts of errors of
  \<open>InsertRaw\<close> are left out of the report.
\<close>

definition insert_ts :: "gotime \<Rightarrow> int \<Rightarrow> gotime" where "insert_ts now ts = (if ts = 0 then now else TimeFromInt ts)"

fun recv_inserts ::
  "insert_ext \<Rightarrow> insert_opts \<Rightarrow> gotime \<Rightarrow> int \<Rightarrow> string \<Rightarrow> InsertReport \<Rightarrow> InsertMsg list \<Rightarrow> ((error + InsertReport) \<times> (string \<times> bytes) list) go" where
  "recv_inserts I opts now i streamName report [] = Some (Inl (OtherError ''Error reading insert''), [])"
| "recv_inserts I opts now i streamName report (m # ms) =
     (if in_EndOfInserts m then Some (Inr report, [])
      else let report = report\<lparr>ir_Received := ir_Received report + 1\<rparr>;
               streamName = (if streamName = [] then in_Stream m else streamName);
               failed = (\<lambda>msg. report\<lparr>ir_Errors := ir_Errors report @ [(i, msg)]\<rparr>)
           in if streamName = [] then Some (Inl (OtherError ''Please specify a stream''), [])
           else if in_Dims m = [] then recv_inserts I opts now (i + 1) streamName (failed ''Need at least one dim'') ms
           else if in_Vals m = [] then recv_inserts I opts now (i + 1) streamName (failed ''Need at least one val'') ms
           else do { r \<leftarrow> InsertRaw I opts streamName (insert_ts now (in_TS m)) (in_Dims m) (in_Vals m);
                     case r of
                       Inl e \<Rightarrow> recv_inserts I opts now (i + 1) streamName (failed ''Unable to insert'') ms
                     | Inr entry \<Rightarrow>
                         do { (res, written) \<leftarrow> recv_inserts I opts now (i + 1) streamName (report\<lparr>ir_Succeeded := ir_Succeeded report + 1\<rparr>) ms;
                              Some (res, entry # written) } })"

definition server_Insert :: "insert_ext \<Rightarrow> insert_opts \<Rightarrow> gotime \<Rightarrow> InsertMsg list \<Rightarrow> ((error + InsertReport) \<times> (string \<times> bytes) list) go" where
  "server_Insert I opts now ms = recv_inserts I opts now 0 [] \<lparr> ir_Received = 0, ir_Succeeded = 0, ir_Errors = [] \<rparr> ms"

section \<open>Queries\<close>

text \<open>A row is a flat row or a key with values.\<close>

record ('c, 'r, 'm) RemoteQueryResult =
  rq_Fields :: "'c fields"
  rq_Row :: "'r option"
  rq_Stats :: "'m option"
  rq_Error :: string
  rq_EndOfResults :: bool

definition fields_msg :: "'c fields \<Rightarrow> ('c, 'r, 'm) RemoteQueryResult" where
  "fields_msg fs = \<lparr> rq_Fields = fs, rq_Row = None, rq_Stats = None, rq_Error = [], rq_EndOfResults = False \<rparr>"

definition row_msg :: "'r \<Rightarrow> ('c, 'r, 'm) RemoteQueryResult" where
  "row_msg r = \<lparr> rq_Fields = [], rq_Row = Some r, rq_Stats = None, rq_Error = [], rq_EndOfResults = False \<rparr>"

definition end_msg :: "'m option \<Rightarrow> string \<Rightarrow> ('c, 'r, 'm) RemoteQueryResult" where
  "end_msg stats msg = \<lparr> rq_Fields = [], rq_Row = None, rq_Stats = stats, rq_Error = msg, rq_EndOfResults = True \<rparr>"

text \<open>\<open>Query\<close> of the server: the fields that are announced, the messages and the outcome.\<close>

definition query_onFields :: "('c, 'c fields option \<times> ('c, 'r, 'm) RemoteQueryResult list) onfields" where
  "query_onFields fs s = Some ((Some fs, snd s), None)"

definition query_onRow :: "('r, 'c fields option \<times> ('c, 'r, 'm) RemoteQueryResult list) onrow" where
  "query_onRow r s = Some ((fst s, snd s @ [row_msg r]), True, None)"

definition server_Query ::
  "string \<Rightarrow> string list option \<Rightarrow> error + ('c, 'r, 'm option, 'c fields option \<times> ('c, 'r, 'm) RemoteQueryResult list) iterate
   \<Rightarrow> ('c fields option \<times> ('c, 'r, 'm) RemoteQueryResult list \<times> error option) go" where
  "server_Query password passwords source =
     (case authorize password passwords of
        Some e \<Rightarrow> Some (None, [], Some e)
      | None \<Rightarrow> (case source of
          Inl e \<Rightarrow> Some (None, [], Some e)
        | Inr iterate \<Rightarrow>
            do { ((fs, ms), stats, err) \<leftarrow> iterate query_onFields query_onRow (None, []);
                 Some (case err of Some e \<Rightarrow> (fs, ms, Some e) | None \<Rightarrow> (fs, ms @ [end_msg stats []], None)) }))"

text \<open>The iteration of the client over the messages; \<open>eof\<close> is what reading after the last message returns.\<close>

fun client_iterate ::
  "error \<Rightarrow> ('r option, 's) onrow \<Rightarrow> ('c, 'r, 'm) RemoteQueryResult list \<Rightarrow> 's \<Rightarrow> ('s \<times> 'm option \<times> error option) go" where
  "client_iterate eof onRow [] s = Some (s, None, Some eof)"
| "client_iterate eof onRow (m # ms) s =
     (if rq_EndOfResults m then Some (s, rq_Stats m, None)
      else do { (s, cont, err) \<leftarrow> onRow (rq_Row m) s;
                if \<not> cont \<or> err \<noteq> None then Some (s, None, err) else client_iterate eof onRow ms s })"

section \<open>Queries of a leader to its partitions\<close>

definition error_text :: "error \<Rightarrow> string" where
  "error_text e = (case e of ErrDeadlineExceeded \<Rightarrow> ''deadline exceeded'' | OtherError msg \<Rightarrow> msg)"

text \<open>\<open>ProcessRemoteQuery\<close> on the partition: the messages that it sends for a query.\<close>

definition remote_onFields :: "('c, ('c, 'r, 'm) RemoteQueryResult list) onfields" where "remote_onFields fs ms = Some (ms @ [fields_msg fs], None)"

definition remote_onRow :: "('r, ('c, 'r, 'm) RemoteQueryResult list) onrow" where "remote_onRow r ms = Some (ms @ [row_msg r], True, None)"

definition ProcessRemoteQuery ::
  "('c, 'r, 'm option, ('c, 'r, 'm) RemoteQueryResult list) iterate \<Rightarrow> ('c, 'r, 'm) RemoteQueryResult list go" where
  "ProcessRemoteQuery query =
     do { (ms, stats, err) \<leftarrow> query remote_onFields remote_onRow [];
          Some (ms @ [end_msg stats (case err of None \<Rightarrow> [] | Some e \<Rightarrow> error_text e)]) }"

text \<open>
  The handler that \<open>HandleRemoteQueries\<close> registers on the leader.  The first message is taken for the fields, whatever it holds, and the
  error of \<open>onFields\<close> is ignored.  The boolean of the result says whether the error is marked as retriable.
\<close>

fun receive_loop ::
  "('c, 's) onfields \<Rightarrow> ('r option, 's) onrow \<Rightarrow> bool \<Rightarrow> error option \<Rightarrow> ('c, 'r, 'm) RemoteQueryResult list \<Rightarrow> 's
   \<Rightarrow> ('s \<times> 'm option \<times> error option \<times> bool) go" where
  "receive_loop onFields onRow first finalErr [] s = Some (s, None, Some (OtherError ''Unable to receive result''), first)"
| "receive_loop onFields onRow first finalErr (m # ms) s =
     (if first then do { (s, _) \<leftarrow> onFields (rq_Fields m) s; receive_loop onFields onRow False finalErr ms s }
      else let finalErr = (if rq_Error m \<noteq> [] then Some (OtherError (rq_Error m)) else finalErr)
           in if rq_EndOfResults m then Some (s, rq_Stats m, finalErr, False)
              else do { (s, cont, err) \<leftarrow> onRow (rq_Row m) s;
                        if \<not> cont \<or> err \<noteq> None then Some (s, rq_Stats m, err, False)
                        else receive_loop onFields onRow False finalErr ms s })"

definition HandleRemoteQuery ::
  "('c, 's) onfields \<Rightarrow> ('r option, 's) onrow \<Rightarrow> ('c, 'r, 'm) RemoteQueryResult list \<Rightarrow> 's \<Rightarrow> ('s \<times> 'm option \<times> error option \<times> bool) go" where
  "HandleRemoteQuery onFields onRow ms s = receive_loop onFields onRow True None ms s"

section \<open>Following a source\<close>

text \<open>
  A connection of \<open>followStreams\<close>: the points that arrive until it breaks and whether inserting each of them succeeds.  The state is the offset to
  follow from, the pause before the next connection, and what has been inserted.
\<close>

record follow_state =
  fo_EarliestOffset :: offset
  fo_wait :: duration
  fo_inserted :: "(bytes \<times> offset) list"

definition minWait :: duration where "minWait = 1000000000"
definition maxWait :: duration where "maxWait = 60000000000"

fun followStreams :: "(bytes \<times> offset \<times> bool) list \<Rightarrow> follow_state \<Rightarrow> follow_state" where
  "followStreams [] s = s"
| "followStreams ((data, newOffset, ok) # ps) s =
     (if ok then followStreams ps \<lparr> fo_EarliestOffset = newOffset, fo_wait = minWait, fo_inserted = fo_inserted s @ [(data, newOffset)] \<rparr> else s)"

definition backoff :: "follow_state \<Rightarrow> follow_state" where
  "backoff s = s\<lparr>fo_wait := (let wait = fo_wait s * 2 in if maxWait < wait then maxWait else wait)\<rparr>"

text \<open>\<open>followSource\<close> over the connections that a source accepts: \<open>conns\<close> says what each of them delivers when it is asked from an offset.\<close>

fun followSource :: "(offset \<Rightarrow> (bytes \<times> offset \<times> bool) list) list \<Rightarrow> follow_state \<Rightarrow> follow_state" where
  "followSource [] s = s"
| "followSource (conn # conns) s = followSource conns (backoff (followStreams (conn (fo_EarliestOffset s)) s))"

end
