(* ===== verification/RpcProps.thy ===== *)
theory RpcProps
  imports Rpc
begin

text \<open>
  What the protocols carry over: inserts with a report, the rows of queries, and the entries of a log across connections.
\<close>

section \<open>Queries\<close>

text \<open>A consumer of rows as the receiver of messages; every message for a row has one.\<close>

definition given :: "('r, 's) onrow \<Rightarrow> ('r option, 's) onrow" where "given onRow r s = (case r of None \<Rightarrow> None | Some r \<Rightarrow> onRow r s)"

lemma msg_simps [simp]:
  "rq_Fields (fields_msg fs) = fs" "rq_Error (fields_msg fs) = []" "rq_EndOfResults (fields_msg fs) = False"
  "rq_Row (row_msg r) = Some r" "rq_Error (row_msg r) = []" "rq_EndOfResults (row_msg r) = False" "rq_Stats (row_msg r) = None"
  "rq_Row (end_msg st e) = None" "rq_Error (end_msg st e) = e" "rq_EndOfResults (end_msg st e) = True" "rq_Stats (end_msg st e) = st"
  by (simp_all add: fields_msg_def row_msg_def end_msg_def)

lemma given_Some [simp]: "given onRow (Some r) s = onRow r s"
  by (simp add: given_def)

lemma feed_sends:
  "feed query_onRow rows (fs, ms) = Some ((fs, ms @ map row_msg rows), True, None)"
  "feed remote_onRow rows ms' = Some (ms' @ map row_msg rows, True, None)"
  by (induction rows arbitrary: ms ms') (simp_all add: query_onRow_def remote_onRow_def)

lemma client_iterate_feed:
  "client_iterate eof (given onRow) (map row_msg rows @ ms) s =
     do { (s', completed, err) \<leftarrow> feed onRow rows s; if completed then client_iterate eof (given onRow) ms s' else Some (s', None, err) }"
  by (induction rows arbitrary: s) (auto split: bind_splits)

lemma receive_loop_feed:
  "receive_loop onFields (given onRow) False None (map row_msg rows @ ms) s =
     do { (s', completed, err) \<leftarrow> feed onRow rows s; if completed then receive_loop onFields (given onRow) False None ms s' else Some (s', None, err, False) }"
  by (induction rows arbitrary: s) (auto split: bind_splits)

text \<open>
  A client of the server sees a query as if it ran it itself: for an authorized client, the fields that are announced are those of the source,
  and for every consumer the iteration over the messages does what the iteration over the rows does, with the statistics at the end, or the
  error of the query.
\<close>

theorem rpc_query_transparent:
  assumes "authorize password passwords = None"
  shows "\<exists>ms. server_Query password passwords (Inr (list_source fs rows stats err)) = Some (Some fs, ms, err) \<and>
    client_iterate (case err of None \<Rightarrow> eof | Some e \<Rightarrow> e) (given onRow) ms s =
      do { (s', completed, e) \<leftarrow> feed onRow rows s; Some (s', if completed \<and> err = None then stats else None, if completed then err else e) }"
proof -
  let ?ms = "map row_msg rows @ (if err = None then [end_msg stats []] else [])"
  have "server_Query password passwords (Inr (list_source fs rows stats err)) = Some (Some fs, ?ms, err)"
    using assms by (cases err) (simp_all add: server_Query_def list_source_def query_onFields_def feed_sends)
  moreover have "client_iterate (case err of None \<Rightarrow> eof | Some e \<Rightarrow> e) (given onRow) ?ms s =
      do { (s', completed, e) \<leftarrow> feed onRow rows s; Some (s', if completed \<and> err = None then stats else None, if completed then err else e) }"
    unfolding client_iterate_feed by (cases err; cases "feed onRow rows s") auto
  ultimately show ?thesis by blast
qed


text \<open>
  A query that fails on a partition before it has sent its fields is reported to the leader as a failure to receive its result: its error is
  lost, and it is not marked as retriable.
\<close>

theorem remote_failure_masked:
  assumes "onFields [] s = Some (s', e)"
  shows "\<exists>ms. ProcessRemoteQuery (\<lambda>_ _ ms. Some (ms, stats, Some failure)) = Some ms \<and>
    HandleRemoteQuery onFields onRow ms s = Some (s', None, Some (OtherError ''Unable to receive result''), False)"
  using assms by (simp add: ProcessRemoteQuery_def HandleRemoteQuery_def end_msg_def)

section \<open>Inserts\<close>

text \<open>The entry that a point leads to, if any.\<close>

definition point_entry :: "insert_ext \<Rightarrow> insert_opts \<Rightarrow> gotime \<Rightarrow> string \<Rightarrow> gotime \<times> bytes \<times> bytes \<Rightarrow> (string \<times> bytes) option" where
  "point_entry I opts now strm = (\<lambda>(ts, dims, vals).
     if dims = [] \<or> vals = [] then None
     else case InsertRaw I opts strm (insert_ts now (UnixNano ts)) dims vals of Some (Inr en) \<Rightarrow> Some en | _ \<Rightarrow> None)"

lemma InsertRaw_returns: "InsertRaw I opts strm ts dims vals \<noteq> None"
  by (simp add: InsertRaw_def Let_def EncodeTime_def PutUint64_def WriteInt32_def PutUint32_def slice_from_def width_defs)

text \<open>The positions, counted from \<open>i\<close>, of the points that lead to none.\<close>

fun failed_points :: "insert_ext \<Rightarrow> insert_opts \<Rightarrow> gotime \<Rightarrow> string \<Rightarrow> int \<Rightarrow> (gotime \<times> bytes \<times> bytes) list \<Rightarrow> int list" where
  "failed_points I opts now strm i [] = []"
| "failed_points I opts now strm i (p # ps) = (if point_entry I opts now strm p = None then [i] else []) @ failed_points I opts now strm (i + 1) ps"

lemma recv_inserts_batch:
  assumes "strm \<noteq> []"
  shows "\<exists>errs. recv_inserts I opts now i strm report (send_points x ps @ [end_of_inserts]) =
      Some (Inr (report\<lparr>ir_Received := ir_Received report + int (length ps),
          ir_Succeeded := ir_Succeeded report + int (length (List.map_filter (point_entry I opts now strm) ps)), ir_Errors := ir_Errors report @ errs\<rparr>),
        List.map_filter (point_entry I opts now strm) ps) \<and>
    map fst errs = failed_points I opts now strm i ps"
proof (induction ps arbitrary: i report x)
  case Nil
  show ?case by (simp add: end_of_inserts_def)
next
  case (Cons p ps)
  obtain ts dims vals where p: "p = (ts, dims, vals)" by (cases p)
  let ?ts = "insert_ts now (UnixNano ts)"
  let ?pe = "point_entry I opts now strm"
  obtain r where r: "InsertRaw I opts strm ?ts dims vals = Some r" using InsertRaw_returns by blast
  show ?case
  proof (cases "?pe p")
    case None
    let ?msg = "if dims = [] then ''Need at least one dim'' else if vals = [] then ''Need at least one val'' else ''Unable to insert''"
    let ?report = "report\<lparr>ir_Received := ir_Received report + 1, ir_Errors := ir_Errors report @ [(i, ?msg)]\<rparr>"
    have "recv_inserts I opts now i strm report (send_points x (p # ps) @ [end_of_inserts]) =
        recv_inserts I opts now (i + 1) strm ?report (send_points [] ps @ [end_of_inserts])"
      using assms r None by (cases "dims = []"; cases "vals = []"; cases r) (simp_all add: p point_entry_def Let_def)
    moreover obtain errs where "recv_inserts I opts now (i + 1) strm ?report (send_points [] ps @ [end_of_inserts]) =
        Some (Inr (?report\<lparr>ir_Received := ir_Received ?report + int (length ps), ir_Succeeded := ir_Succeeded ?report + int (length (List.map_filter ?pe ps)),
          ir_Errors := ir_Errors ?report @ errs\<rparr>), List.map_filter ?pe ps)" "map fst errs = failed_points I opts now strm (i + 1) ps"
      using Cons.IH by blast
    ultimately show ?thesis using None by (intro exI [of _ "(i, ?msg) # errs"]) (simp add: List.map_filter_simps ac_simps)
  next
    case (Some en)
    then have "recv_inserts I opts now i strm report (send_points x (p # ps) @ [end_of_inserts]) =
        do { (res, written) \<leftarrow> recv_inserts I opts now (i + 1) strm (report\<lparr>ir_Received := ir_Received report + 1, ir_Succeeded := ir_Succeeded report + 1\<rparr>)
             (send_points [] ps @ [end_of_inserts]); Some (res, en # written) }"
      using assms r by (auto simp: p point_entry_def Let_def split: if_splits sum.splits)
    with Cons.IH [of "i + 1" "report\<lparr>ir_Received := ir_Received report + 1, ir_Succeeded := ir_Succeeded report + 1\<rparr>" "[]"] Some show ?thesis
      by (auto simp: List.map_filter_simps ac_simps)
  qed
qed

text \<open>
  C8. A batch of points that a client inserts is reported point by point: the report counts all of them, the points that lead to an entry are appended
  to the log of the stream in their order, and the positions of the others are the keys of the errors.
\<close>

theorem inserts_reported:
  assumes "strm \<noteq> []"
  shows "\<exists>report. server_Insert I opts now (send_points strm ps @ [end_of_inserts]) = Some (Inr report, List.map_filter (point_entry I opts now strm) ps) \<and>
    ir_Received report = int (length ps) \<and> ir_Succeeded report = int (length (List.map_filter (point_entry I opts now strm) ps)) \<and>
    map fst (ir_Errors report) = failed_points I opts now strm 0 ps"
proof -
  have "recv_inserts I opts now 0 [] r (send_points strm ps @ [end_of_inserts]) = recv_inserts I opts now 0 strm r (send_points strm ps @ [end_of_inserts])" for r
    using assms by (cases ps) (auto simp: end_of_inserts_def Let_def)
  then show ?thesis
    using recv_inserts_batch [OF assms, of I opts now 0 "\<lparr> ir_Received = 0, ir_Succeeded = 0, ir_Errors = [] \<rparr>" strm ps] by (auto simp: server_Insert_def)
qed

section \<open>Following\<close>

text \<open>The entries of a log after an offset.\<close>

definition log_after :: "wal_ext \<Rightarrow> (bytes \<times> offset) list \<Rightarrow> offset \<Rightarrow> (bytes \<times> offset) list" where
  "log_after wx lg off = filter (\<lambda>en. After wx (snd en) off) lg"

text \<open>A connection that delivers entries after the requested offset, without gaps, until it breaks.\<close>

definition streams_log :: "wal_ext \<Rightarrow> (bytes \<times> offset) list \<Rightarrow> (offset \<Rightarrow> (bytes \<times> offset \<times> bool) list) \<Rightarrow> bool" where
  "streams_log wx lg conn \<longleftrightarrow> (\<forall>off. \<exists>k. map (\<lambda>(d, x, _). (d, x)) (conn off) = take k (log_after wx lg off))"

definition log_sorted :: "wal_ext \<Rightarrow> (bytes \<times> offset) list \<Rightarrow> bool" where
  "log_sorted wx lg \<longleftrightarrow> sorted_wrt (\<lambda>x y. After wx (snd y) (snd x)) lg"

lemma followStreams_inserts:
  "\<exists>j. fo_inserted (followStreams ps s) = fo_inserted s @ take j (map (\<lambda>(d, x, _). (d, x)) ps) \<and> j \<le> length ps \<and>
     fo_EarliestOffset (followStreams ps s) = (if j = 0 then fo_EarliestOffset s else snd (map (\<lambda>(d, x, _). (d, x)) ps ! (j - 1)))"
proof (induction ps arbitrary: s)
  case (Cons p ps)
  obtain d x ok where p: "p = (d, x, ok)" by (cases p)
  show ?case
  proof (cases ok)
    case True
    let ?s = "\<lparr> fo_EarliestOffset = x, fo_wait = minWait, fo_inserted = fo_inserted s @ [(d, x)] \<rparr>"
    obtain j where "fo_inserted (followStreams ps ?s) = fo_inserted ?s @ take j (map (\<lambda>(d, x, _). (d, x)) ps)" "j \<le> length ps"
      "fo_EarliestOffset (followStreams ps ?s) = (if j = 0 then fo_EarliestOffset ?s else snd (map (\<lambda>(d, x, _). (d, x)) ps ! (j - 1)))"
      using Cons.IH by blast
    then show ?thesis using True p by (intro exI [of _ "Suc j"]) (auto simp: nth_Cons')
  next
    case False
    then show ?thesis using p by (intro exI [of _ 0]) simp
  qed
qed simp

lemma log_after_last:
  assumes "wal_laws wx" "log_sorted wx lg" "0 < n" "n \<le> length (log_after wx lg off)"
  shows "log_after wx lg (snd (log_after wx lg off ! (n - 1))) = drop n (log_after wx lg off)"
proof -
  define L where "L = log_after wx lg off"
  define x where "x = snd (L ! (n - 1))"
  have irrefl: "\<not> After wx a a" and trans: "After wx a b \<Longrightarrow> After wx b c \<Longrightarrow> After wx a c" for a b c using assms(1) unfolding wal_laws_def by blast+
  have n: "n \<le> length L" using assms(4) by (simp add: L_def)
  have "L ! (n - 1) \<in> set L" using assms(3) n by (intro nth_mem) simp
  then have "After wx x off" by (auto simp: L_def log_after_def x_def)
  then have "After wx (snd en) x \<longleftrightarrow> After wx (snd en) off \<and> After wx (snd en) x" for en using trans by blast
  then have e: "log_after wx lg x = filter (\<lambda>en. After wx (snd en) x) L" unfolding L_def log_after_def filter_filter by (rule filter_cong [OF refl])
  have s: "sorted_wrt (\<lambda>x y. After wx (snd y) (snd x)) L" using assms(2) by (simp add: log_sorted_def L_def log_after_def sorted_wrt_filter)
  have "filter (\<lambda>en. After wx (snd en) x) (take n L) = []"
    unfolding filter_empty_conv
  proof
    fix en assume "en \<in> set (take n L)"
    then obtain j where j: "j < n" "en = L ! j" using n by (auto simp: in_set_conv_nth)
    have "j = n - 1 \<or> After wx x (snd en)" using sorted_wrt_nth_less [OF s, of j "n - 1"] j n by (cases "j = n - 1") (auto simp: x_def)
    then show "\<not> After wx (snd en) x" using j(2) irrefl trans unfolding x_def by blast
  qed
  moreover have "filter (\<lambda>en. After wx (snd en) x) (drop n L) = drop n L"
    unfolding filter_id_conv
  proof
    fix en assume "en \<in> set (drop n L)"
    then obtain j where "j < length L - n" "en = L ! (n + j)" using n by (auto simp: in_set_conv_nth)
    then show "After wx (snd en) x" using sorted_wrt_nth_less [OF s, of "n - 1" "n + j"] assms(3) by (simp add: x_def)
  qed
  moreover have "filter (\<lambda>en. After wx (snd en) x) L = filter (\<lambda>en. After wx (snd en) x) (take n L) @ filter (\<lambda>en. After wx (snd en) x) (drop n L)"
    by (simp flip: filter_append)
  ultimately show ?thesis using e unfolding x_def L_def by simp
qed


section \<open>Examples\<close>

theorem rpc_query_transparent_witness:
  "\<exists>ms. server_Query ''pw'' (Some [''x'', ''pw'']) (Inr (list_source ([] :: unit fields) [1, 2, 3 :: nat] (Some ()) None)) = Some (Some [], ms, None) \<and>
    client_iterate ErrDeadlineExceeded (given (\<lambda>r s. Some (s @ [r], r < 2, None))) ms [] = Some ([1, 2], None, None)"
proof -
  have "authorize ''pw'' (Some [''x'', ''pw'']) = None" by (simp add: authorize_def)
  from rpc_query_transparent [OF this, of "[] :: unit fields" "[1, 2, 3 :: nat]" "Some ()" None ErrDeadlineExceeded "\<lambda>r s. Some (s @ [r], r < 2, None)" "[]"]
  show ?thesis by simp
qed


theorem remote_failure_masked_witness:
  "\<exists>ms. ProcessRemoteQuery (\<lambda>_ _ ms. Some (ms, None, Some (OtherError ''no such table''))) = Some (ms :: (unit, nat, unit) RemoteQueryResult list) \<and>
    HandleRemoteQuery (\<lambda>_ s. Some (s, None)) (\<lambda>r s. Some (s, True, None)) ms (0 :: nat) = Some (0, None, Some (OtherError ''Unable to receive result''), False)"
  by (rule remote_failure_masked) simp

theorem inserts_reported_witness:
  "\<exists>report. server_Insert sample_insert sample_opts 9 (send_points ''s'' [(5, [1], [2]), (6, [], [2]), (7, [1], [])] @ [end_of_inserts]) =
     Some (Inr report, List.map_filter (point_entry sample_insert sample_opts 9 ''s'') [(5, [1], [2]), (6, [], [2]), (7, [1], [])]) \<and>
    ir_Received report = 3"
  using inserts_reported [of "''s''" sample_insert sample_opts 9 "[(5, [1], [2]), (6, [], [2]), (7, [1], [])]"] by auto

definition sample_log :: "(bytes \<times> offset) list" where "sample_log = [([10], [1]), ([20], [2]), ([30], [3])]"

definition sample_conn :: "nat \<Rightarrow> offset \<Rightarrow> (bytes \<times> offset \<times> bool) list" where
  "sample_conn k off = map (\<lambda>(d, x). (d, x, True)) (take k (log_after sample_wal sample_log off))"


end
