(* ===== verification/RpcFollow.thy ===== *)
theory RpcFollow
  imports RpcProps Cluster
begin

text \<open>
  Following over a connection (\<open>Follow\<close> of rpc/rpc_client.go and rpc/server/rpc_server.go): the server sends its number and then the
  entries that the leader queues for the follower, and the client reads them one by one.  \<open>down n\<close> tells whether sending fails after \<open>n\<close> messages.
\<close>

datatype follow_msg = SourceInfo int | PointMsg bytes offset

definition send_point :: "(nat \<Rightarrow> bool) \<Rightarrow> bytes \<times> offset \<Rightarrow> follow_msg list \<Rightarrow> follow_msg list \<times> error option" where
  "send_point down e sent =
     (if down (length sent) then (sent, Some (OtherError ''transport'')) else (sent @ [PointMsg (fst e) (snd e)], None))"

definition server_Follow ::
  "string \<Rightarrow> string list option \<Rightarrow> int \<Rightarrow> (nat \<Rightarrow> bool) \<Rightarrow> (bytes \<times> offset) list \<Rightarrow> follow_msg list \<times> error option" where
  "server_Follow password passwords srvID down queue =
     (case authorize password passwords of
        Some err \<Rightarrow> ([], Some err)
      | None \<Rightarrow>
          if down 0 then ([], Some (OtherError ''transport''))
          else (snd (follower_read fst (send_point down) queue False [SourceInfo srvID]), None))"

text \<open>The client: the number of the source, and what \<open>next\<close> returns until it fails.\<close>

fun next_points :: "follow_msg list \<Rightarrow> (bytes \<times> offset) list" where
  "next_points (PointMsg data off # ms) = (data, off) # next_points ms"
| "next_points _ = []"

definition client_Follow :: "follow_msg list \<Rightarrow> (int \<times> (bytes \<times> offset) list) option" where
  "client_Follow ms = (case ms of SourceInfo srvID # rest \<Rightarrow> Some (srvID, next_points rest) | _ \<Rightarrow> None)"

section \<open>What a follower receives\<close>

definition small :: "bytes \<times> offset \<Rightarrow> bool" where "small e \<longleftrightarrow> int (length (fst e)) \<le> 2000000"

lemma read_failed: "follower_read data cb es True s = (True, s)"
  by (induction es) auto

lemma read_sends:
  "\<exists>k. snd (follower_read fst (send_point down) es False sent) = sent @ map (\<lambda>(d, x). PointMsg d x) (take k (filter small es)) \<and>
     ((\<forall>n. \<not> down n) \<longrightarrow> length (filter small es) \<le> k)"
proof (induction es arbitrary: sent)
  case (Cons e es)
  show ?case
  proof (cases "small e")
    case False
    then show ?thesis using Cons [of sent] by (simp add: small_def)
  next
    case sm: True
    show ?thesis
    proof (cases "down (length sent)")
      case True
      then have "snd (follower_read fst (send_point down) (e # es) False sent) = sent" using sm by (simp add: small_def send_point_def [of down e sent] read_failed)
      then show ?thesis using True by (intro exI [of _ 0]) auto
    next
      case False
      obtain k where "snd (follower_read fst (send_point down) es False (sent @ [PointMsg (fst e) (snd e)])) =
          (sent @ [PointMsg (fst e) (snd e)]) @ map (\<lambda>(d, x). PointMsg d x) (take k (filter small es))" "(\<forall>n. \<not> down n) \<longrightarrow> length (filter small es) \<le> k"
        using Cons by blast
      moreover have "follower_read fst (send_point down) (e # es) False sent = follower_read fst (send_point down) es False (sent @ [PointMsg (fst e) (snd e)])"
        using sm False by (simp add: small_def send_point_def [of down e sent])
      ultimately show ?thesis using sm by (intro exI [of _ "Suc k"]) (simp add: split_beta)
    qed
  qed
qed simp

lemma next_points_sent: "next_points (map (\<lambda>(d, x). PointMsg d x) es) = es"
  by (induction es) auto

text \<open>
  A follower with the right password receives the entries that are queued for it, in order, up to the first failure of the connection, all
  of them if it does not fail.  Entries over 2 MB are left out without notice.
\<close>

theorem follow_stream:
  assumes "authorize password passwords = None" "\<not> down 0"
  shows "\<exists>k. client_Follow (fst (server_Follow password passwords srvID down queue)) = Some (srvID, take k (filter small queue)) \<and>
    ((\<forall>n. \<not> down n) \<longrightarrow> length (filter small queue) \<le> k)"
proof -
  obtain k where k: "snd (follower_read fst (send_point down) queue False [SourceInfo srvID]) =
      [SourceInfo srvID] @ map (\<lambda>(d, x). PointMsg d x) (take k (filter small queue))" "(\<forall>n. \<not> down n) \<longrightarrow> length (filter small queue) \<le> k"
    using read_sends by blast
  then have "client_Follow (fst (server_Follow password passwords srvID down queue)) = Some (srvID, take k (filter small queue))"
    using assms by (simp add: server_Follow_def client_Follow_def next_points_sent)
  then show ?thesis using k(2) by blast
qed

text \<open>
  So a connection to a leader that queues the log from the requested offset on delivers a beginning of it, which is what
  following a source across connections relies on, as long as the log has no entry over 2 MB.
\<close>

lemma log_after_small: "list_all small lg \<Longrightarrow> filter small (take j (log_after wx lg off)) = take j (log_after wx lg off)"
  by (auto simp: log_after_def list_all_iff filter_id_conv dest!: in_set_takeD)

lemma rpc_streams_log:
  assumes "authorize password passwords = None" "list_all small lg" "\<And>off. \<not> down off 0"
  shows "streams_log wx lg (\<lambda>off. case client_Follow (fst (server_Follow password passwords srvID (down off) (take (j off) (log_after wx lg off)))) of
     None \<Rightarrow> [] | Some (_, es) \<Rightarrow> map (\<lambda>(d, x). (d, x, inserted d)) es)"
  unfolding streams_log_def
proof
  fix off
  obtain k where "client_Follow (fst (server_Follow password passwords srvID (down off) (take (j off) (log_after wx lg off)))) =
      Some (srvID, take k (filter small (take (j off) (log_after wx lg off))))"
    using follow_stream [where down = "down off", OF assms(1) assms(3)] by blast
  then show "\<exists>k. map (\<lambda>(d, x, _). (d, x)) (case client_Follow (fst (server_Follow password passwords srvID (down off) (take (j off) (log_after wx lg off)))) of
       None \<Rightarrow> [] | Some (_, es) \<Rightarrow> map (\<lambda>(d, x). (d, x, inserted d)) es) = take k (log_after wx lg off)"
    by (intro exI [of _ "min k (j off)"]) (simp add: log_after_small [OF assms(2)] comp_def split_beta)
qed

theorem follow_stream_witness:
  "\<exists>k. client_Follow (fst (server_Follow ''p'' (Some [''p'']) 7 (\<lambda>n. n = 2) [([1], [1]), ([2], [2])])) = Some (7, take k [([1], [1]), ([2], [2])])"
  using follow_stream [of "''p''" "Some [''p'']" "\<lambda>n. n = 2" 7 "[([1], [1]), ([2], [2])]"] by (auto simp: authorize_def small_def)

end
