(* ===== verification/DbQuery.thy ===== *)
theory DbQuery
  imports PlannerRange TableProps
begin

text \<open>
  Queries of the database (query.go): the planner over the tables that the database has.
\<close>

section \<open>Queries\<close>

text \<open>The source that a queryable table is for the planner.\<close>

definition table_source_of :: "'c table_def \<Rightarrow> 'c queryable \<Rightarrow> 'c table_source" where
  "table_source_of t qa =
     \<lparr> qt_Name = table_opts.to_Name (td_opts t), qt_Fields = qa_fields qa,
       qt_info = \<lparr> si_groupBy = (case tq_GroupBy (td_query t) of None \<Rightarrow> [] | Some gs \<Rightarrow> gs), si_resolution = tq_Resolution (td_query t),
         si_asOf = qa_asOf qa, si_until = qa_until qa \<rparr>,
       qt_PartitionBy = table_opts.to_PartitionBy (td_opts t) \<rparr>"

definition db_GetTable ::
  "(string \<times> 'c table_def) list \<Rightarrow> gotime \<Rightarrow> bool \<Rightarrow> string \<Rightarrow> ('c fields \<Rightarrow> error + 'c fields) \<Rightarrow> error + 'c table_source" where
  "db_GetTable tables now includeMemStore name outFields =
     (case getQueryable tables now name (\<lambda>fs. map_sum id Some (outFields fs)) includeMemStore of
        Inl err \<Rightarrow> Inl err
      | Inr qa \<Rightarrow> (case getTable tables name of None \<Rightarrow> Inl (OtherError ''Table not found'') | Some t \<Rightarrow> Inr (table_source_of t qa)))"

text \<open>\<open>Query\<close>: the plan, and whether the rows that are only in memory are read.\<close>

definition db_Query ::
  "nat \<Rightarrow> 'c planner_ext \<Rightarrow> ('c, 'h) ext \<Rightarrow> 'c gext \<Rightarrow> (string \<times> 'c table_def) list \<Rightarrow> bool \<Rightarrow> gotime \<Rightarrow> bool \<Rightarrow> goval option list list \<Rightarrow> bool \<Rightarrow> string
   \<Rightarrow> ('c flatsource \<times> bool) planned" where
  "db_Query n P X G tables passthrough now isSubQuery subQueryResults includeMemStore sqlString =
     (case pl_parse P sqlString of
        Inl err \<Rightarrow> Some (Inl err)
      | Inr q \<Rightarrow>
          let includeMemStore = (q_ForceFresh q \<or> includeMemStore);
              opts = \<lparr> o_GetTable = db_GetTable tables now includeMemStore, o_Now = (\<lambda>_. now), o_IsSubQuery = isSubQuery,
                o_SubQueryResults = subQueryResults, o_QueryCluster = passthrough \<rparr>
          in rbind (Plan n P X G opts sqlString) (\<lambda>plan. Some (Inr (plan, includeMemStore))))"

section \<open>Properties\<close>

lemma db_GetTable_cases:
  assumes "db_GetTable tables now include name outFields = Inr s"
  obtains t fs where "getTable tables name = Some t" "\<not> to_Virtual (td_opts t)" "outFields (td_fields t) = Inr fs"
    "s = table_source_of t \<lparr> qa_fields = fs,
       qa_asOf = RoundTimeUp (RoundTimeUp now (tq_Resolution (td_query t)) + wrap64 (- 1 * to_RetentionPeriod (td_opts t))) (tq_Resolution (td_query t)),
       qa_until = RoundTimeUp now (tq_Resolution (td_query t)), qa_includeMemStore = include \<rparr>"
  using assms by (auto simp: db_GetTable_def getQueryable_def Let_def map_sum_def split: option.splits sum.splits if_splits)

text \<open>The range of a table: it ends with the period of now, and begins within the retention period.\<close>

lemma db_GetTable_range:
  assumes "db_GetTable tables now include name outFields = Inr s" "getTable tables name = Some t"
    and res: "0 < tq_Resolution (td_query t)" and ret: "0 \<le> to_RetentionPeriod (td_opts t)" "to_RetentionPeriod (td_opts t) \<le> now"
      "now + 2 * tq_Resolution (td_query t) \<le> 2 ^ 62"
  shows "range_ok (qt_info s)" "si_resolution (qt_info s) = tq_Resolution (td_query t)" "now - to_RetentionPeriod (td_opts t) \<le> si_asOf (qt_info s)"
    "now \<le> si_until (qt_info s)"
proof -
  let ?res = "tq_Resolution (td_query t)" and ?ret = "to_RetentionPeriod (td_opts t)"
  have "in64 (- ?ret)" using ret res by (auto simp: in64_def)
  then have w: "wrap64 (- 1 * ?ret) = - ?ret" by simp
  obtain fs where s: "qt_info s = \<lparr> si_groupBy = (case tq_GroupBy (td_query t) of None \<Rightarrow> [] | Some gs \<Rightarrow> gs), si_resolution = ?res,
      si_asOf = RoundTimeUp (RoundTimeUp now ?res + - ?ret) ?res, si_until = RoundTimeUp now ?res \<rparr>"
    using db_GetTable_cases [OF assms(1)] assms(2) w by (fastforce simp: table_source_of_def)
  note u = RoundTimeUp_bounds(1,2) [OF res, of now] and a = RoundTimeUp_bounds(1,2) [OF res, of "RoundTimeUp now ?res + - ?ret"]
  show "range_ok (qt_info s)" using u a res ret by (simp add: s range_ok_def)
  show "si_resolution (qt_info s) = ?res" "now - ?ret \<le> si_asOf (qt_info s)" "now \<le> si_until (qt_info s)" using u a by (auto simp: s)
qed


section \<open>Witness\<close>

definition retained_table :: "string table_def" where
  "retained_table = \<lparr> td_opts = \<lparr> to_Name = ''t'', to_View = False, to_MinFlushLatency = 0, to_MaxFlushLatency = 0, to_RetentionPeriod = 100,
     to_Backfill = 0, to_PartitionBy = [], to_Virtual = False \<rparr>,
     td_query = \<lparr> tq_Fields = PassthroughFieldSource, tq_From = ''i'', tq_Resolution = 10, tq_Where = None, tq_GroupBy = None, tq_GroupByAll = True \<rparr>,
     td_fields = [] \<rparr>"


end
